(* ===== verification/Prelude.thy ===== *)
theory Prelude
  imports Main "HOL-Library.AList" "HOL-Library.Word" "HOL-Library.Multiset"
begin

text \<open>
  What every component of the model shares: effects, Go maps and slices, and the
  functions of the Go standard library that the sources call (package \<^verbatim>\<open>strconv\<close>,
  \<^verbatim>\<open>strings\<close> and the decimal verbs of \<^verbatim>\<open>fmt\<close>).

  An effectful Go function is a function from the history of the calls made so far to a
  result and the extended history.  The answer of a call that leaves the program (an API
  server, a cache, a work queue, a pod's HTTP port) is a function of that history and of
  the arguments, so a theorem about all such functions is a theorem about every behaviour
  of the outside.  A result \<open>None\<close> means that the Go code panicked; the history up to the
  panic is kept.
\<close>

named_theorems io_simps \<open>equations that run an effectful function on a history\<close>
named_theorems go_defs \<open>definitions to unfold when a call is evaluated\<close>

section \<open>Effects\<close>

type_synonym ('e, 'a) io = "'e list \<Rightarrow> 'a option \<times> 'e list"

definition ret :: "'a \<Rightarrow> ('e, 'a) io" where
  "ret x h = (Some x, h)"

definition panic :: "('e, 'a) io" where
  "panic h = (None, h)"

definition bind_io :: "('e, 'a) io \<Rightarrow> ('a \<Rightarrow> ('e, 'b) io) \<Rightarrow> ('e, 'b) io" where
  "bind_io m f h = (case m h of (None, h') \<Rightarrow> (None, h') | (Some x, h') \<Rightarrow> f x h')"

text \<open>\<open>perform e answer\<close> makes the call \<open>e\<close>; \<open>answer\<close> gives the result from the history before it.\<close>

definition perform :: "'e \<Rightarrow> ('e list \<Rightarrow> 'a) \<Rightarrow> ('e, 'a) io" where
  "perform e answer h = (Some (answer h), h @ [e])"

text \<open>A pure computation that may panic (\<open>None\<close>), such as reading through a nil pointer.\<close>

definition lift_io :: "'a option \<Rightarrow> ('e, 'a) io" where
  "lift_io r h = (r, h)"

text \<open>\<open>defer d; m\<close>: \<open>d\<close> runs when \<open>m\<close> is done, also when \<open>m\<close> panicked.\<close>

definition defer_io :: "('e, unit) io \<Rightarrow> ('e, 'a) io \<Rightarrow> ('e, 'a) io" where
  "defer_io d m h = (case m h of (r, h') \<Rightarrow> (r, snd (d h')))"

text \<open>\<open>for _, x := range xs { body }\<close> where the body never leaves the loop.\<close>

fun for_each :: "('a \<Rightarrow> ('e, unit) io) \<Rightarrow> 'a list \<Rightarrow> ('e, unit) io" where
  "for_each body [] = ret ()"
| "for_each body (x # xs) = bind_io (body x) (\<lambda>_. for_each body xs)"

text \<open>\<open>for _, x := range xs { if err := body(x); err != nil { return err } }\<close>\<close>

fun for_until_error :: "('a \<Rightarrow> ('e, 'err option) io) \<Rightarrow> 'a list \<Rightarrow> ('e, 'err option) io" where
  "for_until_error body [] = ret None"
| "for_until_error body (x # xs) =
     bind_io (body x) (\<lambda>err. case err of Some e \<Rightarrow> ret (Some e) | None \<Rightarrow> for_until_error body xs)"

lemma ret_run [io_simps]: "ret x h = (Some x, h)"
  by (simp add: ret_def)

lemma panic_run [io_simps]: "panic h = (None, h)"
  by (simp add: panic_def)

lemma bind_run [io_simps]:
  "bind_io m f h = (case m h of (r, h') \<Rightarrow> case r of None \<Rightarrow> (None, h') | Some x \<Rightarrow> f x h')"
  by (simp add: bind_io_def split: prod.split option.split)

lemma perform_run [io_simps]: "perform e answer h = (Some (answer h), h @ [e])"
  by (simp add: perform_def)

lemma lift_run [io_simps]: "lift_io r h = (r, h)"
  by (simp add: lift_io_def)

lemma defer_run [io_simps]: "defer_io d m h = (case m h of (r, h') \<Rightarrow> (r, snd (d h')))"
  by (simp add: defer_io_def)

lemma bind_ret: "bind_io (ret x) f = f x"
  by (rule ext) (simp add: io_simps)

lemma bind_lift [simp]: "bind_io (lift_io (Some x)) f = f x" "bind_io (lift_io None) f = panic"
  by (rule ext, simp add: io_simps)+

lemma bind_assoc: "bind_io (bind_io m f) g = bind_io m (\<lambda>x. bind_io (f x) g)"
  by (rule ext) (simp add: io_simps split: prod.split option.split)

subsection \<open>Traces: what a call adds to the history\<close>

text \<open>
  \<open>emits P m\<close>: from every history, \<open>m\<close> only appends events, and all of them satisfy \<open>P\<close>
  (with the history at the time of the event).
\<close>

definition emits :: "('e list \<Rightarrow> 'e \<Rightarrow> bool) \<Rightarrow> ('e, 'a) io \<Rightarrow> bool" where
  "emits P m \<longleftrightarrow> (\<forall>h. \<exists>new. snd (m h) = h @ new \<and>
     (\<forall>i < length new. P (h @ take i new) (new ! i)))"

named_theorems emits_intros \<open>rules that bound the events of a composed call\<close>

lemma emitsI:
  assumes "\<And>h. \<exists>new. snd (m h) = h @ new \<and> (\<forall>i < length new. P (h @ take i new) (new ! i))"
  shows "emits P m"
  using assms by (simp add: emits_def)

lemma emits_ret [emits_intros]: "emits P (ret x)"
  by (simp add: emits_def io_simps)

lemma emits_panic [emits_intros]: "emits P panic"
  by (simp add: emits_def io_simps)

lemma emits_lift [emits_intros]: "emits P (lift_io r)"
  by (simp add: emits_def io_simps)

lemma emits_perform [emits_intros]: "(\<And>h. P h e) \<Longrightarrow> emits P (perform e answer)"
  by (simp add: emits_def io_simps)

lemma emits_append:
  assumes "\<forall>i < length xs. P (h @ take i xs) (xs ! i)"
    and "\<forall>i < length ys. P ((h @ xs) @ take i ys) (ys ! i)"
  shows "\<forall>i < length (xs @ ys). P (h @ take i (xs @ ys)) ((xs @ ys) ! i)"
proof (intro allI impI)
  fix i assume i: "i < length (xs @ ys)"
  show "P (h @ take i (xs @ ys)) ((xs @ ys) ! i)"
  proof (cases "i < length xs")
    case True
    with assms(1) show ?thesis by (simp add: nth_append)
  next
    case False
    then have "i - length xs < length ys" using i by simp
    with assms(2) False show ?thesis by (auto simp: nth_append)
  qed
qed

lemma emits_bind_run:
  assumes m: "emits P m" and f: "\<And>h x h'. m h = (Some x, h') \<Longrightarrow> emits P (f x)"
  shows "emits P (bind_io m f)"
proof (rule emitsI)
  fix h
  obtain r h' where mh: "m h = (r, h')" by (cases "m h")
  obtain xs where xs: "h' = h @ xs" "\<forall>i < length xs. P (h @ take i xs) (xs ! i)"
    using m mh unfolding emits_def by (metis snd_conv)
  show "\<exists>new. snd (bind_io m f h) = h @ new \<and> (\<forall>i < length new. P (h @ take i new) (new ! i))"
  proof (cases r)
    case None
    with mh xs show ?thesis by (intro exI [of _ xs]) (simp add: io_simps)
  next
    case (Some x)
    with mh f have "emits P (f x)" by blast
    then obtain ys where ys: "snd (f x h') = h' @ ys"
      "\<forall>i < length ys. P (h' @ take i ys) (ys ! i)"
      unfolding emits_def by blast
    have "\<forall>i < length (xs @ ys). P (h @ take i (xs @ ys)) ((xs @ ys) ! i)"
      using emits_append [OF xs(2)] ys(2) xs(1) by simp
    with mh Some ys(1) xs(1) show ?thesis
      by (intro exI [of _ "xs @ ys"]) (simp add: io_simps)
  qed
qed

lemma emits_bind [emits_intros]:
  "emits P m \<Longrightarrow> (\<And>x. emits P (f x)) \<Longrightarrow> emits P (bind_io m f)"
  by (rule emits_bind_run)

lemma emits_defer [emits_intros]:
  assumes m: "emits P m" and d: "emits P d"
  shows "emits P (defer_io d m)"
proof (rule emitsI)
  fix h
  obtain r h' where mh: "m h = (r, h')" by (cases "m h")
  obtain xs where xs: "h' = h @ xs" "\<forall>i < length xs. P (h @ take i xs) (xs ! i)"
    using m mh unfolding emits_def by (metis snd_conv)
  obtain ys where ys: "snd (d h') = h' @ ys" "\<forall>i < length ys. P (h' @ take i ys) (ys ! i)"
    using d unfolding emits_def by blast
  have "\<forall>i < length (xs @ ys). P (h @ take i (xs @ ys)) ((xs @ ys) ! i)"
    using emits_append [OF xs(2)] ys(2) xs(1) by simp
  with mh ys(1) xs(1)
  show "\<exists>new. snd (defer_io d m h) = h @ new \<and> (\<forall>i < length new. P (h @ take i new) (new ! i))"
    by (intro exI [of _ "xs @ ys"]) (simp add: io_simps)
qed

lemma emits_for_each [emits_intros]:
  "(\<And>x. emits P (body x)) \<Longrightarrow> emits P (for_each body xs)"
  by (induction xs) (auto intro!: emits_intros)

lemma emits_for_until_error [emits_intros]:
  "(\<And>x. emits P (body x)) \<Longrightarrow> emits P (for_until_error body xs)"
  by (induction xs) (auto intro!: emits_intros split: option.split)

lemma emits_extends: "emits P m \<Longrightarrow> \<exists>new. snd (m h) = h @ new"
  unfolding emits_def by blast

lemma emits_all:
  assumes "emits (\<lambda>_. Q) m"
  shows "\<exists>new. snd (m h) = h @ new \<and> (\<forall>e \<in> set new. Q e)"
proof -
  obtain new where "snd (m h) = h @ new" "\<forall>i < length new. Q (new ! i)"
    using assms unfolding emits_def by blast
  then show ?thesis by (auto simp: in_set_conv_nth)
qed

section \<open>Go maps and slices\<close>

text \<open>
  A Go map is an association list with distinct keys, \<open>None\<close> for the nil map; a slice is a
  list, \<open>None\<close> for the nil slice.  Reading a nil map finds nothing and ranging over a nil map
  or slice does nothing; the code never writes to a nil map.  The order in which \<open>range\<close>
  visits a map is not the list's: it is given by the environment.
\<close>

type_synonym 'v gomap = "(string \<times> 'v) list option"
type_synonym 'a goslice = "'a list option"

definition entries :: "'v gomap \<Rightarrow> (string \<times> 'v) list" where
  "entries m = (case m of None \<Rightarrow> [] | Some kvs \<Rightarrow> kvs)"

definition elems :: "'a goslice \<Rightarrow> 'a list" where
  "elems s = (case s of None \<Rightarrow> [] | Some xs \<Rightarrow> xs)"

definition map_get :: "'v gomap \<Rightarrow> string \<Rightarrow> 'v option" where
  "map_get m k = map_of (entries m) k"

definition map_keys :: "'v gomap \<Rightarrow> string list" where
  "map_keys m = map fst (entries m)"

definition map_put :: "string \<Rightarrow> 'v \<Rightarrow> 'v gomap \<Rightarrow> 'v gomap" where
  "map_put k v m = Some (AList.update k v (entries m))"

definition map_del :: "string \<Rightarrow> 'v gomap \<Rightarrow> 'v gomap" where
  "map_del k m = map_option (AList.delete k) m"

definition wf_map :: "'v gomap \<Rightarrow> bool" where
  "wf_map m \<longleftrightarrow> distinct (map_keys m)"

lemma entries_simps [simp]: "entries None = []" "entries (Some kvs) = kvs"
  by (simp_all add: entries_def)

lemma elems_simps [simp]: "elems None = []" "elems (Some xs) = xs"
  by (simp_all add: elems_def)

lemma map_get_put [simp]: "map_get (map_put k v m) k' = (if k' = k then Some v else map_get m k')"
  by (simp add: map_get_def map_put_def update_conv')

lemma map_get_del [simp]: "map_get (map_del k m) k' = (if k' = k then None else map_get m k')"
  by (cases m) (simp_all add: map_get_def map_del_def delete_conv')

lemma map_get_nil [simp]: "map_get None k = None"
  by (simp add: map_get_def)

lemma map_get_Some_code [simp]: "map_get (Some kvs) k = map_of kvs k"
  by (simp add: map_get_def)

lemma map_keys_iff: "k \<in> set (map_keys m) \<longleftrightarrow> map_get m k \<noteq> None"
  by (simp add: map_keys_def map_get_def map_of_eq_None_iff)

lemma wf_map_put [simp, intro]: "wf_map m \<Longrightarrow> wf_map (map_put k v m)"
  by (simp add: wf_map_def map_keys_def map_put_def distinct_update)

lemma wf_map_del [simp, intro]: "wf_map m \<Longrightarrow> wf_map (map_del k m)"
  by (cases m) (simp_all add: wf_map_def map_keys_def map_del_def distinct_delete)

lemma wf_map_nil [simp, intro]: "wf_map None"
  by (simp add: wf_map_def map_keys_def)

lemma wf_map_make [simp, intro]: "wf_map (Some [])"
  by (simp add: wf_map_def map_keys_def)

end
