(* ===== verification/Go_Strings.thy ===== *)
theory Go_Strings
  imports Prelude "HOL-Library.Char_ord" "HOL-Library.List_Lexorder"
begin

text \<open>
  The functions of Go's \<^verbatim>\<open>strconv\<close>, \<^verbatim>\<open>strings\<close> and \<^verbatim>\<open>fmt\<close> packages that the sources
  call, on strings as lists of bytes: the verb \<^verbatim>\<open>%d\<close>, \<^verbatim>\<open>Atoi\<close>, \<^verbatim>\<open>SplitN(s, sep, 2)\<close>,
  \<^verbatim>\<open>HasPrefix\<close>, \<^verbatim>\<open>HasSuffix\<close>, \<^verbatim>\<open>TrimSuffix\<close> and \<^verbatim>\<open>Join\<close>; machine integers of 32 and 64 bits
  with Go's signed reading.  The lemmas are the round trips that the components rely on.
\<close>

section \<open>Integers\<close>

type_synonym int32 = "32 word"
type_synonym int64 = "64 word"

text \<open>The conversion \<open>int64(x)\<close> of a signed 32-bit value.\<close>

definition int64_of_int32 :: "int32 \<Rightarrow> int64" where
  "int64_of_int32 x = word_of_int (sint x)"

lemma sint_int32_bounds: "- (2 ^ 31) \<le> sint (x :: int32)" "sint (x :: int32) < 2 ^ 31"
  using sint_greater_eq [of x] sint_lt [of x] by simp_all

lemma sint_int64_of_int:
  "- (2 ^ 63) \<le> i \<Longrightarrow> i < 2 ^ 63 \<Longrightarrow> sint (word_of_int i :: int64) = i"
  by (simp add: signed_take_bit_int_eq_self_iff sint_sbintrunc')

section \<open>Decimal numbers\<close>

definition digit_char :: "nat \<Rightarrow> char" where
  "digit_char d = char_of (48 + d)"

definition is_digit :: "char \<Rightarrow> bool" where
  "is_digit c \<longleftrightarrow> 48 \<le> (of_char c :: nat) \<and> (of_char c :: nat) \<le> 57"

definition digit_value :: "char \<Rightarrow> nat" where
  "digit_value c = of_char c - 48"

fun fmt_nat :: "nat \<Rightarrow> string" where
  "fmt_nat n = (if n < 10 then [digit_char n] else fmt_nat (n div 10) @ [digit_char (n mod 10)])"

declare fmt_nat.simps [simp del]

text \<open>\<open>fmt.Sprintf("%d", i)\<close>\<close>

definition fmt_d :: "int \<Rightarrow> string" where
  "fmt_d i = (if i < 0 then ''-'' @ fmt_nat (nat (- i)) else fmt_nat (nat i))"

definition digits_value :: "string \<Rightarrow> nat" where
  "digits_value s = foldl (\<lambda>n c. 10 * n + digit_value c) 0 s"

datatype num_error = ErrSyntax | ErrRange

text \<open>\<open>strconv.Atoi\<close>: an optional sign, then at least one digit and nothing else, within 64 bits.\<close>

definition Atoi :: "string \<Rightarrow> num_error + int" where
  "Atoi s =
     (let (neg, ds) = (case s of [] \<Rightarrow> (False, [])
                       | c # cs \<Rightarrow> if c = CHR ''-'' then (True, cs)
                                   else if c = CHR ''+'' then (False, cs) else (False, s))
      in if ds = [] \<or> (\<exists>c \<in> set ds. \<not> is_digit c) then Inl ErrSyntax
         else let v = int (digits_value ds); i = (if neg then - v else v)
              in if - (2 ^ 63) \<le> i \<and> i < 2 ^ 63 then Inr i else Inl ErrRange)"

lemma of_digit_char: "d < 10 \<Longrightarrow> (of_char (digit_char d) :: nat) = 48 + d"
  by (simp add: digit_char_def)

lemma digit_value_char [simp]: "d < 10 \<Longrightarrow> digit_value (digit_char d) = d"
  by (simp add: digit_value_def of_digit_char)

lemma is_digit_char [simp]: "d < 10 \<Longrightarrow> is_digit (digit_char d)"
  by (simp add: is_digit_def of_digit_char)

lemma fmt_nat_digits: "\<forall>c \<in> set (fmt_nat n). is_digit c"
proof (induction n rule: fmt_nat.induct)
  case (1 n)
  then show ?case by (cases "n < 10") (auto simp: fmt_nat.simps [of n])
qed

lemma fmt_nat_nonempty [simp]: "fmt_nat n \<noteq> []"
  by (simp add: fmt_nat.simps [of n])

lemma digits_value_snoc: "digits_value (s @ [c]) = 10 * digits_value s + digit_value c"
  by (simp add: digits_value_def)

lemma digits_value_fmt_nat [simp]: "digits_value (fmt_nat n) = n"
proof (induction n rule: fmt_nat.induct)
  case (1 n)
  show ?case
  proof (cases "n < 10")
    case True
    then show ?thesis by (simp add: fmt_nat.simps [of n] digits_value_def)
  next
    case False
    with "1.IH" show ?thesis by (simp add: fmt_nat.simps [of n] digits_value_snoc)
  qed
qed

lemma is_digit_not: "is_digit c \<Longrightarrow> c \<noteq> CHR ''-'' \<and> c \<noteq> CHR ''+'' \<and> c \<noteq> CHR '':'' \<and> c \<noteq> CHR ''/''"
  by (auto simp: is_digit_def)

lemma fmt_nat_Cons: "\<exists>c cs. fmt_nat n = c # cs \<and> is_digit c"
proof -
  obtain c cs where "fmt_nat n = c # cs" by (cases "fmt_nat n") auto
  with fmt_nat_digits [of n] show ?thesis by auto
qed

text \<open>Reading a printed number back gives the number, for every 64-bit value.\<close>

lemma Atoi_fmt_d:
  assumes "- (2 ^ 63) \<le> i" and "i < 2 ^ 63"
  shows "Atoi (fmt_d i) = Inr i"
proof (cases "i < 0")
  case True
  with assms show ?thesis
    using fmt_nat_digits [of "nat (- i)"] by (auto simp: Atoi_def fmt_d_def Let_def)
next
  case False
  obtain c cs where *: "fmt_nat (nat i) = c # cs" "is_digit c"
    using fmt_nat_Cons by blast
  have ds: "\<forall>c \<in> set (c # cs). is_digit c"
    using fmt_nat_digits [of "nat i"] * by simp
  have v: "digits_value (c # cs) = nat i"
    using digits_value_fmt_nat [of "nat i"] * by simp
  show ?thesis
    using False assms * ds v is_digit_not [OF *(2)] by (auto simp: Atoi_def fmt_d_def Let_def)
qed

lemma Atoi_fmt_int32: "Atoi (fmt_d (sint (x :: int32))) = Inr (sint x)"
  using sint_int32_bounds [of x] by (intro Atoi_fmt_d) simp_all

lemma fmt_d_chars: "c \<in> set (fmt_d i) \<Longrightarrow> is_digit c \<or> c = CHR ''-''"
  using fmt_nat_digits by (auto simp: fmt_d_def split: if_splits)

lemma fmt_d_no_sep [simp]: "CHR '':'' \<notin> set (fmt_d i)" "CHR ''/'' \<notin> set (fmt_d i)"
  using fmt_d_chars [of "CHR '':''" i] fmt_d_chars [of "CHR ''/''" i] by (auto simp: is_digit_def)

lemma fmt_nat_inj: "fmt_nat m = fmt_nat n \<Longrightarrow> m = n"
  by (metis digits_value_fmt_nat)

section \<open>Strings\<close>

text \<open>\<open>strings.SplitN(s, c, 2)\<close> for a separator of one byte.\<close>

definition SplitN2 :: "string \<Rightarrow> char \<Rightarrow> string list" where
  "SplitN2 s c = (if c \<in> set s then [takeWhile (\<lambda>x. x \<noteq> c) s, tl (dropWhile (\<lambda>x. x \<noteq> c) s)] else [s])"

definition HasPrefix :: "string \<Rightarrow> string \<Rightarrow> bool" where
  "HasPrefix s p \<longleftrightarrow> take (length p) s = p"

definition HasSuffix :: "string \<Rightarrow> string \<Rightarrow> bool" where
  "HasSuffix s p \<longleftrightarrow> length p \<le> length s \<and> drop (length s - length p) s = p"

definition TrimSuffix :: "string \<Rightarrow> string \<Rightarrow> string" where
  "TrimSuffix s p = (if HasSuffix s p then take (length s - length p) s else s)"

definition TrimPrefix :: "string \<Rightarrow> string \<Rightarrow> string" where
  "TrimPrefix s p = (if HasPrefix s p then drop (length p) s else s)"

fun Join :: "string list \<Rightarrow> string \<Rightarrow> string" where
  "Join [] sep = ''''"
| "Join [s] sep = s"
| "Join (s # t # ss) sep = s @ sep @ Join (t # ss) sep"

lemma SplitN2_append: "c \<notin> set a \<Longrightarrow> SplitN2 (a @ c # b) c = [a, b]"
  by (auto simp: SplitN2_def takeWhile_append dropWhile_append)

lemma SplitN2_none: "c \<notin> set s \<Longrightarrow> SplitN2 s c = [s]"
  by (simp add: SplitN2_def)

lemma SplitN2_two:
  assumes "c \<in> set s"
  shows "\<exists>a b. SplitN2 s c = [a, b] \<and> s = a @ c # b \<and> c \<notin> set a"
proof -
  obtain a b where "s = a @ c # b" "c \<notin> set a"
    using split_list_first [OF assms] by blast
  then show ?thesis using SplitN2_append by blast
qed

lemma SplitN2_length: "length (SplitN2 s c) = (if c \<in> set s then 2 else 1)"
  by (simp add: SplitN2_def)

text \<open>\<open>fmt.Sprintf("%s/%s", ns, name)\<close>, the key of an object in caches and status maps.\<close>

definition object_key :: "string \<Rightarrow> string \<Rightarrow> string" where
  "object_key ns name = ns @ ''/'' @ name"

lemma object_key_split: "CHR ''/'' \<notin> set ns \<Longrightarrow> SplitN2 (object_key ns name) (CHR ''/'') = [ns, name]"
  by (simp add: object_key_def SplitN2_append)

lemma object_key_inj:
  assumes "CHR ''/'' \<notin> set ns" "CHR ''/'' \<notin> set ns'" "object_key ns n = object_key ns' n'"
  shows "ns = ns' \<and> n = n'"
proof -
  have "[ns, n] = SplitN2 (object_key ns' n') (CHR ''/'')"
    using object_key_split [OF assms(1), of n] unfolding assms(3) by (rule sym)
  then show ?thesis
    unfolding object_key_split [OF assms(2)] by simp
qed

lemma object_key_has_slash [simp]: "CHR ''/'' \<in> set (object_key ns name)"
  by (simp add: object_key_def)

end
