(* ===== verification/Api_Types.thy ===== *)
theory Api_Types
  imports Go_Strings
begin

text \<open>
  The data of the operator.  First the Kubernetes objects, with the fields that the sources
  read or write; then the custom resources of \<^verbatim>\<open>pkg/apis/datafuse/v1alpha1/*_types.go\<close>, with
  every field of the source, a pointer field being an \<open>option\<close> (\<open>None\<close> the nil pointer) and an
  embedded struct a field of its own; last the constants of
  \<^verbatim>\<open>pkg/controllers/main_controller.go\<close> and \<^verbatim>\<open>groupversion_info.go\<close>.
\<close>

section \<open>Errors\<close>

text \<open>
  Values of Go's \<open>error\<close> interface.  \<open>Errorf\<close> is \<^verbatim>\<open>fmt.Errorf\<close> with its formatted message,
  \<open>ErrorfErr\<close> the same with the text of another error appended, \<open>NewNotFound\<close> the constructor of
  \<^verbatim>\<open>k8s.io/apimachinery/pkg/api/errors\<close> that the generated listers call, \<open>JSONError\<close> an error of
  \<^verbatim>\<open>encoding/json\<close> by the text that it could not decode and its kind, and \<open>ForeignError\<close>
  any error that a call outside the program returned.
\<close>

datatype json_error = SyntaxError | UnmarshalTypeError

datatype go_error =
    Errorf string
  | ErrorfErr string go_error
  | NumError string num_error
  | JSONError string json_error
  | NewNotFound string string
  | ForeignError string

section \<open>Kubernetes objects\<close>

record TypeMeta =
  tm_Kind :: string
  tm_APIVersion :: string

record GroupVersionKind =
  gvk_Group :: string
  gvk_Version :: string
  gvk_Kind :: string

record OwnerReference =
  or_APIVersion :: string
  or_Kind :: string
  or_Name :: string
  or_UID :: string
  or_Controller :: "bool option"
  or_BlockOwnerDeletion :: "bool option"

record ObjectMeta =
  om_Name :: string
  om_Namespace :: string
  om_UID :: string
  om_ResourceVersion :: string
  om_Labels :: "string gomap"
  om_OwnerReferences :: "OwnerReference goslice"

record ContainerPort =
  cp_Name :: string
  cp_ContainerPort :: int32
  cp_Protocol :: string

record EnvVar =
  ev_Name :: string
  ev_Value :: string

text \<open>The two constructors of \<^verbatim>\<open>intstr.IntOrString\<close> that the sources call, as terms.\<close>

datatype IntOrString = FromInt int | Parse string

record HTTPGetAction =
  hg_Path :: string
  hg_Port :: IntOrString
  hg_Scheme :: string

record Probe =
  pb_HTTPGet :: HTTPGetAction
  pb_PeriodSeconds :: int32
  pb_SuccessThreshold :: int32
  pb_FailureThreshold :: int32
  pb_TimeoutSeconds :: int32

text \<open>
  The two constructors of \<^verbatim>\<open>resource.Quantity\<close> that the sources call, as terms: nothing is
  assumed of the quantity they denote.
\<close>

datatype Quantity = NewMilliQuantity int64 | ParsedQuantity string

record ResourceRequirements =
  rr_Requests :: "(string \<times> Quantity) list"
  rr_Limits :: "(string \<times> Quantity) list"

record Container =
  ct_Name :: string
  ct_Image :: string
  ct_ImagePullPolicy :: string
  ct_Env :: "EnvVar list"
  ct_Ports :: "ContainerPort list"
  ct_LivenessProbe :: Probe
  ct_ReadinessProbe :: Probe
  ct_Resources :: ResourceRequirements
  ct_Args :: "string list"

record PodSpec =
  ps_Containers :: "Container list"

record PodCondition =
  pc_Type :: string
  pc_Status :: string

record PodStatus =
  pst_Phase :: string
  pst_PodIP :: string
  pst_Conditions :: "PodCondition list"

record Pod =
  pod_Meta :: ObjectMeta
  pod_Spec :: PodSpec
  pod_Status :: PodStatus

record PodTemplateSpec =
  pt_Labels :: "string gomap"
  pt_Spec :: PodSpec

record DeploymentSpec =
  ds_Replicas :: "int32 option"
  ds_MatchLabels :: "string gomap"
  ds_Template :: PodTemplateSpec

record Deployment =
  dep_Meta :: ObjectMeta
  dep_Spec :: DeploymentSpec

record ServicePort =
  sp_Name :: string
  sp_Protocol :: string
  sp_TargetPort :: IntOrString
  sp_Port :: int32

record ServiceSpec =
  ss_Selector :: "string gomap"
  ss_Ports :: "ServicePort list"
  ss_Type :: string

record Service =
  svc_Meta :: ObjectMeta
  svc_Spec :: ServiceSpec

abbreviation (input) "NamespaceAll \<equiv> ''''"
abbreviation (input) "ProtocolTCP \<equiv> ''TCP''"
abbreviation (input) "URISchemeHTTP \<equiv> ''HTTP''"
abbreviation (input) "ServiceTypeClusterIP \<equiv> ''ClusterIP''"
abbreviation (input) "ResourceCPU \<equiv> ''cpu''"
abbreviation (input) "ResourceMemory \<equiv> ''memory''"
abbreviation (input) "EventTypeNormal \<equiv> ''Normal''"
abbreviation (input) "EventTypeWarning \<equiv> ''Warning''"

text \<open>The zero value of \<^verbatim>\<open>metav1.ObjectMeta\<close>.\<close>

definition zero_ObjectMeta :: ObjectMeta where
  "zero_ObjectMeta = \<lparr>om_Name = '''', om_Namespace = '''', om_UID = '''', om_ResourceVersion = '''',
     om_Labels = None, om_OwnerReferences = None\<rparr>"

section \<open>The custom resources\<close>

subsection \<open>Compute instances and compute sets\<close>

type_synonym ComputeInstanceState = string

definition ComputeInstanceReadyState :: ComputeInstanceState where
  "ComputeInstanceReadyState = ''READY''"

definition ComputeInstanceLivenessState :: ComputeInstanceState where
  "ComputeInstanceLivenessState = ''LIVE''"

definition ComputeInstancePendingState :: ComputeInstanceState where
  "ComputeInstancePendingState = ''Pending''"

record DatafuseComputeInstanceSpec =
  ci_Name :: "string option"
  ci_Cores :: "int32 option"
  ci_CoreLimit :: "string option"
  ci_Memory :: "string option"
  ci_MemoryLimit :: "string option"
  ci_Labels :: "string gomap"
  ci_Image :: "string option"
  ci_ImagePullPolicy :: "string option"
  ci_Priority :: "int32 option"
  ci_MysqlPort :: "int32 option"
  ci_ClickhousePort :: "int32 option"
  ci_HTTPPort :: "int32 option"
  ci_RPCPort :: "int32 option"
  ci_MetricsPort :: "int32 option"

record DatafuseComputeInstanceStatus =
  cis_Status :: ComputeInstanceState

record DatafuseComputeSetSpec =
  cs_Replicas :: "int32 option"
  cs_Instance :: DatafuseComputeInstanceSpec

record DatafuseComputeSetStatus =
  css_Replicas :: int32
  css_Selector :: string
  css_InstancesStatus :: "ComputeInstanceState gomap"

subsection \<open>Compute groups\<close>

type_synonym ComputeGroupState = string

definition ComputeGroupDeployed :: ComputeGroupState where
  "ComputeGroupDeployed = ''Ready''"

definition ComputeGroupPending :: ComputeGroupState where
  "ComputeGroupPending = ''Pending''"

definition ComputeGroupCreated :: ComputeGroupState where
  "ComputeGroupCreated = ''Created''"

record DatafuseComputeGroupSpec =
  gs_ComputeLeaders :: "DatafuseComputeSetSpec option"
  gs_ComputeWorkers :: "DatafuseComputeSetSpec option goslice"
  gs_Name :: string
  gs_Namespace :: string

record ComputeGroupServiceStatus =
  gss_Name :: string

record DatafuseComputeGroupStatus =
  gst_ReadyComputeLeaders :: "ComputeInstanceState gomap"
  gst_ReadyComputeWorkers :: "ComputeInstanceState gomap"
  gst_Status :: ComputeGroupState
  gst_GroupServiceStatus :: ComputeGroupServiceStatus

record DatafuseComputeGroup =
  cg_TypeMeta :: TypeMeta
  cg_Meta :: ObjectMeta
  cg_Spec :: DatafuseComputeGroupSpec
  cg_Status :: DatafuseComputeGroupStatus

record ListMeta =
  lm_ResourceVersion :: string
  lm_Continue :: string

record DatafuseComputeGroupList =
  cgl_TypeMeta :: TypeMeta
  cgl_ListMeta :: ListMeta
  cgl_Items :: "DatafuseComputeGroup goslice"

subsection \<open>Operators\<close>

type_synonym OperatorState = string

definition OperatorReady :: OperatorState where
  "OperatorReady = ''Ready''"

definition OperatorPending :: OperatorState where
  "OperatorPending = ''Pending''"

definition OperatorCreated :: OperatorState where
  "OperatorCreated = ''Created''"

record DatafuseOperatorSpec =
  os_ComputeGroups :: "DatafuseComputeGroupSpec option goslice"
  os_Version :: "string option"

record DatafuseOperatorStatus =
  ost_ComputeGroupStates :: "ComputeGroupState gomap"
  ost_Status :: OperatorState

record DatafuseOperator =
  op_TypeMeta :: TypeMeta
  op_Meta :: ObjectMeta
  op_Spec :: DatafuseOperatorSpec
  op_Status :: DatafuseOperatorStatus

record DatafuseOperatorList =
  opl_TypeMeta :: TypeMeta
  opl_ListMeta :: ListMeta
  opl_Items :: "DatafuseOperator goslice"

subsection \<open>Zero values\<close>

text \<open>\<^verbatim>\<open>&v1alpha1.DatafuseComputeGroup{}\<close> and its parts.\<close>

definition zero_TypeMeta :: TypeMeta where
  "zero_TypeMeta = \<lparr>tm_Kind = '''', tm_APIVersion = ''''\<rparr>"

definition zero_GroupSpec :: DatafuseComputeGroupSpec where
  "zero_GroupSpec = \<lparr>gs_ComputeLeaders = None, gs_ComputeWorkers = None, gs_Name = '''', gs_Namespace = ''''\<rparr>"

definition zero_GroupStatus :: DatafuseComputeGroupStatus where
  "zero_GroupStatus = \<lparr>gst_ReadyComputeLeaders = None, gst_ReadyComputeWorkers = None,
     gst_Status = '''', gst_GroupServiceStatus = \<lparr>gss_Name = ''''\<rparr>\<rparr>"

definition zero_Group :: DatafuseComputeGroup where
  "zero_Group = \<lparr>cg_TypeMeta = zero_TypeMeta, cg_Meta = zero_ObjectMeta, cg_Spec = zero_GroupSpec,
     cg_Status = zero_GroupStatus\<rparr>"

definition zero_Operator :: DatafuseOperator where
  "zero_Operator = \<lparr>op_TypeMeta = zero_TypeMeta, op_Meta = zero_ObjectMeta,
     op_Spec = \<lparr>os_ComputeGroups = None, os_Version = None\<rparr>,
     op_Status = \<lparr>ost_ComputeGroupStates = None, ost_Status = ''''\<rparr>\<rparr>"

section \<open>Constants\<close>

definition SchemeGroupVersion :: "string \<times> string" where
  "SchemeGroupVersion = (''datafuse.datafuselabs.io'', ''v1alpha1'')"

text \<open>\<open>SchemeGroupVersion.WithKind(kind)\<close>\<close>

definition WithKind :: "string \<Rightarrow> GroupVersionKind" where
  "WithKind kind = \<lparr>gvk_Group = fst SchemeGroupVersion, gvk_Version = snd SchemeGroupVersion, gvk_Kind = kind\<rparr>"

definition ControllerAgentName :: string where
  "ControllerAgentName = ''datafuse-operator''"

definition SuccessSynced :: string where
  "SuccessSynced = ''Synced''"

definition ErrResourceExists :: string where
  "ErrResourceExists = ''ErrResourceExists''"

definition MessageResourceSynced :: string where
  "MessageResourceSynced = ''datafuse operator synced successfully''"

definition OperatorLabel :: string where
  "OperatorLabel = ''datafuse-operator''"

definition ComputeGroupLabel :: string where
  "ComputeGroupLabel = ''datafuse-computegroup''"

definition ComputeGroupRoleLabel :: string where
  "ComputeGroupRoleLabel = ''datafuse-computegrouprole''"

definition ComputeGroupRoleLeader :: string where
  "ComputeGroupRoleLeader = ''leader''"

definition ComputeGroupRoleFollower :: string where
  "ComputeGroupRoleFollower = ''follower''"

definition InstanceContainerName :: string where
  "InstanceContainerName = ''fusequery''"

definition FUSE_QUERY_NUM_CPUS :: string where
  "FUSE_QUERY_NUM_CPUS = ''FUSE_QUERY_NUM_CPUS''"

definition FUSE_QUERY_MYSQL_HANDLER_HOST :: string where
  "FUSE_QUERY_MYSQL_HANDLER_HOST = ''FUSE_QUERY_MYSQL_HANDLER_HOST''"

definition FUSE_QUERY_MYSQL_HANDLER_PORT :: string where
  "FUSE_QUERY_MYSQL_HANDLER_PORT = ''FUSE_QUERY_MYSQL_HANDLER_PORT''"

definition FUSE_QUERY_CLICKHOUSE_HANDLER_HOST :: string where
  "FUSE_QUERY_CLICKHOUSE_HANDLER_HOST = ''FUSE_QUERY_CLICKHOUSE_HANDLER_HOST''"

definition FUSE_QUERY_CLICKHOUSE_HANDLER_PORT :: string where
  "FUSE_QUERY_CLICKHOUSE_HANDLER_PORT = ''FUSE_QUERY_CLICKHOUSE_HANDLER_PORT''"

definition FUSE_QUERY_RPC_API_ADDRESS :: string where
  "FUSE_QUERY_RPC_API_ADDRESS = ''FUSE_QUERY_FLIGHT_API_ADDRESS''"

definition FUSE_QUERY_HTTP_API_ADDRESS :: string where
  "FUSE_QUERY_HTTP_API_ADDRESS = ''FUSE_QUERY_HTTP_API_ADDRESS''"

definition FUSE_QUERY_METRIC_API_ADDRESS :: string where
  "FUSE_QUERY_METRIC_API_ADDRESS = ''FUSE_QUERY_METRIC_API_ADDRESS''"

definition FUSE_QUERY_PRIORITY :: string where
  "FUSE_QUERY_PRIORITY = ''FUSE_QUERY_PRIORITY''"

definition ContainerHTTPPort :: string where
  "ContainerHTTPPort = ''http''"

definition ContainerMetricsPort :: string where
  "ContainerMetricsPort = ''metrics''"

definition ContainerRPCPort :: string where
  "ContainerRPCPort = ''rpc''"

definition ContainerMysqlPort :: string where
  "ContainerMysqlPort = ''mysql''"

definition ContainerClickhousePort :: string where
  "ContainerClickhousePort = ''clickhouse''"

lemmas env_name_defs = FUSE_QUERY_NUM_CPUS_def FUSE_QUERY_MYSQL_HANDLER_HOST_def
  FUSE_QUERY_MYSQL_HANDLER_PORT_def FUSE_QUERY_CLICKHOUSE_HANDLER_HOST_def
  FUSE_QUERY_CLICKHOUSE_HANDLER_PORT_def FUSE_QUERY_RPC_API_ADDRESS_def
  FUSE_QUERY_HTTP_API_ADDRESS_def FUSE_QUERY_METRIC_API_ADDRESS_def FUSE_QUERY_PRIORITY_def

lemmas port_name_defs = ContainerHTTPPort_def ContainerMetricsPort_def ContainerRPCPort_def
  ContainerMysqlPort_def ContainerClickhousePort_def

lemmas label_defs = OperatorLabel_def ComputeGroupLabel_def ComputeGroupRoleLabel_def
  ComputeGroupRoleLeader_def ComputeGroupRoleFollower_def

lemmas state_defs = ComputeGroupDeployed_def ComputeGroupPending_def ComputeGroupCreated_def
  OperatorReady_def OperatorPending_def OperatorCreated_def ComputeInstanceReadyState_def
  ComputeInstanceLivenessState_def ComputeInstancePendingState_def

end
