(* ===== verification/Cluster.thy ===== *)
theory Cluster
  imports Api_Types
begin

text \<open>
  What is outside the program, as parameters of the model.  A \<open>call\<close> is one interaction with
  the outside: a read of an informer's cache, a request to the API server, an event of the
  recorder, an operation of a work queue, an HTTP exchange with a pod.  The record \<open>k8s\<close> holds
  the functions of the Kubernetes packages and the answers to the calls; an answer may depend
  on the whole history of calls, so that caches may lag, requests may fail and other clients
  may interfere.  The named laws at the end state the documented behaviour of those packages;
  a theorem that needs one has it as a hypothesis.
\<close>

section \<open>Values of type \<^verbatim>\<open>interface{}\<close>\<close>

text \<open>
  The dynamic types that reach the handlers.  A pointer carries its address, which is the
  identity of an item in a work queue, and the object it points to when it is read.
\<close>

datatype go_obj =
    OperatorPtr nat DatafuseOperator
  | OperatorVal DatafuseOperator
  | GroupPtr nat DatafuseComputeGroup
  | GroupVal DatafuseComputeGroup
  | GroupListPtr nat DatafuseComputeGroupList
  | OperatorListPtr nat DatafuseOperatorList
  | DeploymentPtr nat Deployment
  | ServicePtr nat Service
  | PodPtr nat Pod
  | DeletedFinalStateUnknown string go_obj
  | OtherObj string

text \<open>What an informer delivers to its event handlers.\<close>

datatype informer_event = Added go_obj | Updated go_obj go_obj | Deleted go_obj

section \<open>Requests of the generated REST client\<close>

record ListOptions =
  lo_LabelSelector :: string
  lo_FieldSelector :: string
  lo_Watch :: bool
  lo_TimeoutSeconds :: "int64 option"

text \<open>The clients pass the other options on without reading them, as encoded here by a string.\<close>

datatype rest_options =
    GetOptions string
  | CreateOptions string
  | UpdateOptions string
  | DeleteOptions string
  | PatchOptions string
  | ListOpts ListOptions

datatype rest_body =
    NoBody
  | GroupBody DatafuseComputeGroup
  | OperatorBody DatafuseOperator
  | OptionsBody rest_options
  | DataBody string

text \<open>
  A request as the chain of builder calls describes it: the verb, and what \<^verbatim>\<open>Namespace\<close>,
  \<^verbatim>\<open>Resource\<close>, \<^verbatim>\<open>Name\<close>, \<^verbatim>\<open>SubResource\<close>, \<^verbatim>\<open>VersionedParams\<close>, \<^verbatim>\<open>Timeout\<close> and \<^verbatim>\<open>Body\<close> added.
\<close>

record rest_request =
  rq_Verb :: string
  rq_Namespace :: string
  rq_Resource :: string
  rq_Name :: "string option"
  rq_SubResource :: "string list"
  rq_Params :: "rest_options option"
  rq_Timeout :: "int64 option"
  rq_Body :: rest_body

text \<open>The actions that \<^verbatim>\<open>k8s.io/client-go/testing\<close> builds for the fake client.\<close>

record gvr =
  gvr_Group :: string
  gvr_Version :: string
  gvr_Resource :: string

datatype fake_action =
    FakeGet gvr string string
  | FakeList gvr string ListOptions
  | FakeWatch gvr string ListOptions
  | FakeCreate gvr string go_obj
  | FakeUpdate gvr string go_obj
  | FakeUpdateSubresource gvr string string go_obj
  | FakeDelete gvr string string
  | FakeDeleteCollection gvr string ListOptions
  | FakePatch gvr string string string string "string list"

section \<open>Calls\<close>

datatype queue = OperatorQueue | GroupQueue | PodQueue

datatype informer = GroupInformer | OperatorInformer

datatype cache = DeploymentCache | ServiceCache | GroupCache | OperatorCache | PodCache

datatype worker = GroupWorker | OperatorWorker | PodWorker | PodInformerRun

datatype call =
    ListerGetDeployment string string
  | ListerGetService string string
  | IndexerGetByKey informer string
  | IndexerListAll informer "string option" string
  | StoreList string
  | StoreGetByKey string string
  | CreateDeployment string Deployment
  | UpdateDeployment string Deployment
  | DeleteDeployment string string
  | CreateService string Service
  | Rest rest_request
  | Invokes fake_action
  | RecordEvent ObjectMeta string string string
  | QueueGet queue
  | QueueDone queue go_obj
  | QueueForget queue go_obj
  | QueueNumRequeues queue go_obj
  | QueueAddRateLimited queue go_obj
  | QueueAdd queue go_obj
  | QueueShutDown queue
  | HandleError go_error
  | HttpPost string string
  | HttpGet string
  | WaitForCacheSync "cache list"
  | Spawn worker
  | AwaitStop

type_synonym 'a go = "(call, 'a) io"

text \<open>A \<^verbatim>\<open>watch.Interface\<close>, by the identity of its stream.\<close>

type_synonym watch = nat

section \<open>The Kubernetes packages and their answers\<close>

record k8s =
  k_isControlledBy :: "ObjectMeta \<Rightarrow> ObjectMeta \<Rightarrow> bool"
  k_newControllerRef :: "ObjectMeta \<Rightarrow> GroupVersionKind \<Rightarrow> OwnerReference"
  k_getControllerOf :: "ObjectMeta \<Rightarrow> OwnerReference option"
  k_isNotFound :: "go_error \<Rightarrow> bool"
  k_quantityParses :: "string \<Rightarrow> bool"
  k_quantityCmp :: "Quantity \<Rightarrow> Quantity \<Rightarrow> int"
  k_isPodReady :: "Pod \<Rightarrow> bool"
  k_rangeOrder :: "call list \<Rightarrow> string list \<Rightarrow> string list"
  k_listerGetDeployment :: "call list \<Rightarrow> string \<Rightarrow> string \<Rightarrow> go_error + Deployment"
  k_listerGetService :: "call list \<Rightarrow> string \<Rightarrow> string \<Rightarrow> go_error + Service"
  k_indexerGetByKey :: "call list \<Rightarrow> informer \<Rightarrow> string \<Rightarrow> go_error + go_obj option"
  k_indexerListAll :: "call list \<Rightarrow> informer \<Rightarrow> string option \<Rightarrow> string \<Rightarrow> go_obj list \<times> go_error option"
  k_storeList :: "call list \<Rightarrow> go_obj list"
  k_storeGetByKey :: "call list \<Rightarrow> string \<Rightarrow> go_error + go_obj option"
  k_createDeployment :: "call list \<Rightarrow> string \<Rightarrow> Deployment \<Rightarrow> go_error + Deployment"
  k_updateDeployment :: "call list \<Rightarrow> string \<Rightarrow> Deployment \<Rightarrow> go_error + Deployment"
  k_createService :: "call list \<Rightarrow> string \<Rightarrow> Service \<Rightarrow> go_error + Service"
  k_restGroup :: "call list \<Rightarrow> rest_request \<Rightarrow> DatafuseComputeGroup \<Rightarrow> DatafuseComputeGroup \<times> go_error option"
  k_restOperator :: "call list \<Rightarrow> rest_request \<Rightarrow> DatafuseOperator \<Rightarrow> DatafuseOperator \<times> go_error option"
  k_restGroupList :: "call list \<Rightarrow> rest_request \<Rightarrow> DatafuseComputeGroupList
     \<Rightarrow> DatafuseComputeGroupList \<times> go_error option"
  k_restOperatorList :: "call list \<Rightarrow> rest_request \<Rightarrow> DatafuseOperatorList
     \<Rightarrow> DatafuseOperatorList \<times> go_error option"
  k_restError :: "call list \<Rightarrow> rest_request \<Rightarrow> go_error option"
  k_restWatch :: "call list \<Rightarrow> rest_request \<Rightarrow> watch option \<times> go_error option"
  k_invokesWatch :: "call list \<Rightarrow> fake_action \<Rightarrow> watch option \<times> go_error option"
  k_extractLabel :: "ListOptions \<Rightarrow> (string gomap \<Rightarrow> bool) option"
  k_invokes :: "call list \<Rightarrow> fake_action \<Rightarrow> go_obj \<Rightarrow> go_obj option \<times> go_error option"
  k_queueGet :: "call list \<Rightarrow> queue \<Rightarrow> go_obj option"
  k_numRequeues :: "call list \<Rightarrow> queue \<Rightarrow> go_obj \<Rightarrow> int"
  k_newRequest :: "string \<Rightarrow> go_error option"
  k_httpPost :: "call list \<Rightarrow> string \<Rightarrow> string \<Rightarrow> go_error + int \<times> (go_error + string)"
  k_httpGet :: "call list \<Rightarrow> string \<Rightarrow> go_error + int \<times> (go_error + string)"
  k_cacheSynced :: "call list \<Rightarrow> cache list \<Rightarrow> bool"

subsection \<open>Calls as effectful functions\<close>

definition lister_get_deployment :: "k8s \<Rightarrow> string \<Rightarrow> string \<Rightarrow> (go_error + Deployment) go" where
  [io_simps]: "lister_get_deployment K ns name =
     perform (ListerGetDeployment ns name) (\<lambda>h. k_listerGetDeployment K h ns name)"

definition lister_get_service :: "k8s \<Rightarrow> string \<Rightarrow> string \<Rightarrow> (go_error + Service) go" where
  [io_simps]: "lister_get_service K ns name =
     perform (ListerGetService ns name) (\<lambda>h. k_listerGetService K h ns name)"

definition indexer_get_by_key :: "k8s \<Rightarrow> informer \<Rightarrow> string \<Rightarrow> (go_error + go_obj option) go" where
  [io_simps]: "indexer_get_by_key K i key =
     perform (IndexerGetByKey i key) (\<lambda>h. k_indexerGetByKey K h i key)"

definition create_deployment :: "k8s \<Rightarrow> string \<Rightarrow> Deployment \<Rightarrow> (go_error + Deployment) go" where
  [io_simps]: "create_deployment K ns d = perform (CreateDeployment ns d) (\<lambda>h. k_createDeployment K h ns d)"

definition update_deployment :: "k8s \<Rightarrow> string \<Rightarrow> Deployment \<Rightarrow> (go_error + Deployment) go" where
  [io_simps]: "update_deployment K ns d = perform (UpdateDeployment ns d) (\<lambda>h. k_updateDeployment K h ns d)"

definition create_service :: "k8s \<Rightarrow> string \<Rightarrow> Service \<Rightarrow> (go_error + Service) go" where
  [io_simps]: "create_service K ns s = perform (CreateService ns s) (\<lambda>h. k_createService K h ns s)"

text \<open>A call whose answer the code does not look at.\<close>

definition tell :: "call \<Rightarrow> unit go" where
  [io_simps]: "tell e = perform e (\<lambda>_. ())"

definition num_requeues :: "k8s \<Rightarrow> queue \<Rightarrow> go_obj \<Rightarrow> int go" where
  [io_simps]: "num_requeues K q obj = perform (QueueNumRequeues q obj) (\<lambda>h. k_numRequeues K h q obj)"

definition queue_get :: "k8s \<Rightarrow> queue \<Rightarrow> go_obj option go" where
  [io_simps]: "queue_get K q = perform (QueueGet q) (\<lambda>h. k_queueGet K h q)"

text \<open>\<open>for key := range m\<close>: the keys in the order that the Go runtime chooses.\<close>

definition range_keys :: "k8s \<Rightarrow> 'v gomap \<Rightarrow> string list go" where
  [io_simps]: "range_keys K m h = (Some (k_rangeOrder K h (map_keys m)), h)"

lemma emits_range_keys [emits_intros]: "emits P (range_keys K m)"
  by (simp add: emits_def io_simps)

subsection \<open>Laws\<close>

text \<open>
  \<^verbatim>\<open>metav1.NewControllerRef\<close>, \<^verbatim>\<open>GetControllerOf\<close> and \<^verbatim>\<open>IsControlledBy\<close>: the new reference names
  its owner and is a controller reference; the controller of an object is the first such
  reference; an object is controlled by an owner when that reference has the owner's UID.
\<close>

definition controller_ref_laws :: "k8s \<Rightarrow> bool" where
  "controller_ref_laws K \<longleftrightarrow>
     (\<forall>owner gvk. or_Kind (k_newControllerRef K owner gvk) = gvk_Kind gvk
        \<and> or_Name (k_newControllerRef K owner gvk) = om_Name owner
        \<and> or_UID (k_newControllerRef K owner gvk) = om_UID owner
        \<and> or_Controller (k_newControllerRef K owner gvk) = Some True)
   \<and> (\<forall>m. k_getControllerOf K m = find (\<lambda>r. or_Controller r = Some True) (elems (om_OwnerReferences m)))
   \<and> (\<forall>m owner. k_isControlledBy K m owner =
        (case k_getControllerOf K m of None \<Rightarrow> False | Some r \<Rightarrow> or_UID r = om_UID owner))"

text \<open>\<^verbatim>\<open>errors.IsNotFound\<close> holds of what \<^verbatim>\<open>errors.NewNotFound\<close> returns.\<close>

definition not_found_law :: "k8s \<Rightarrow> bool" where
  "not_found_law K \<longleftrightarrow> (\<forall>resource name. k_isNotFound K (NewNotFound resource name))"

text \<open>Ranging over a map visits every key exactly once.\<close>

definition range_law :: "k8s \<Rightarrow> bool" where
  "range_law K \<longleftrightarrow> (\<forall>h ks. mset (k_rangeOrder K h ks) = mset ks)"

text \<open>
  \<^verbatim>\<open>NumRequeues\<close> counts the \<^verbatim>\<open>AddRateLimited\<close> calls for an item since the last \<^verbatim>\<open>Forget\<close>; an
  item that is a pointer is recognised by its address.
\<close>

fun item_address :: "go_obj \<Rightarrow> (string \<times> nat) option" where
  "item_address (OperatorPtr a _) = Some (''operator'', a)"
| "item_address (GroupPtr a _) = Some (''group'', a)"
| "item_address (GroupListPtr a _) = Some (''grouplist'', a)"
| "item_address (OperatorListPtr a _) = Some (''operatorlist'', a)"
| "item_address (DeploymentPtr a _) = Some (''deployment'', a)"
| "item_address (ServicePtr a _) = Some (''service'', a)"
| "item_address (PodPtr a _) = Some (''pod'', a)"
| "item_address _ = None"

definition same_item :: "go_obj \<Rightarrow> go_obj \<Rightarrow> bool" where
  "same_item x y = (case item_address x of None \<Rightarrow> x = y | Some a \<Rightarrow> item_address y = Some a)"

fun count_requeues :: "queue \<Rightarrow> go_obj \<Rightarrow> call list \<Rightarrow> nat \<Rightarrow> nat" where
  "count_requeues q x [] n = n"
| "count_requeues q x (c # cs) n =
     count_requeues q x cs
       (case c of QueueAddRateLimited q' y \<Rightarrow> if q' = q \<and> same_item x y then Suc n else n
        | QueueForget q' y \<Rightarrow> if q' = q \<and> same_item x y then 0 else n
        | _ \<Rightarrow> n)"

definition requeue_law :: "k8s \<Rightarrow> bool" where
  "requeue_law K \<longleftrightarrow> (\<forall>h q x. k_numRequeues K h q x = int (count_requeues q x h 0))"

lemma controller_ref_lawsD:
  assumes "controller_ref_laws K"
  shows "or_Kind (k_newControllerRef K owner gvk) = gvk_Kind gvk"
    and "or_Name (k_newControllerRef K owner gvk) = om_Name owner"
    and "or_UID (k_newControllerRef K owner gvk) = om_UID owner"
    and "or_Controller (k_newControllerRef K owner gvk) = Some True"
    and "k_getControllerOf K m = find (\<lambda>r. or_Controller r = Some True) (elems (om_OwnerReferences m))"
    and "k_isControlledBy K m owner =
        (case k_getControllerOf K m of None \<Rightarrow> False | Some r \<Rightarrow> or_UID r = om_UID owner)"
  using assms by (simp_all add: controller_ref_laws_def)

lemma new_controller_ref_controls:
  assumes "controller_ref_laws K"
  shows "k_isControlledBy K (m\<lparr>om_OwnerReferences := Some [k_newControllerRef K owner gvk]\<rparr>) owner"
  by (simp add: controller_ref_lawsD [OF assms])

lemma range_law_set: "range_law K \<Longrightarrow> set (k_rangeOrder K h ks) = set ks"
  by (metis range_law_def set_mset_mset)

lemma same_item_refl [simp]: "same_item x x"
  by (simp add: same_item_def split: option.split)

lemma count_requeues_append:
  "count_requeues q x (xs @ ys) n = count_requeues q x ys (count_requeues q x xs n)"
  by (induction xs arbitrary: n) simp_all

end
