(* ===== verification/Reference_Cluster.thy ===== *)
theory Reference_Cluster
  imports Cluster
begin

text \<open>
  One concrete instance of the parameter record \<open>k8s\<close>, used where a statement is evaluated:
  the interpretations and the witnesses.  The package functions are as documented, and the
  API server is a store whose content is read off the history: a read finds what the last
  create or update of the key wrote, and caches are always in sync.
\<close>

fun find_deployment :: "call list \<Rightarrow> string \<Rightarrow> string \<Rightarrow> Deployment option" where
  "find_deployment [] ns name = None"
| "find_deployment (c # cs) ns name =
     (case c of
        CreateDeployment n d \<Rightarrow>
          if n = ns \<and> om_Name (dep_Meta d) = name then Some d else find_deployment cs ns name
      | UpdateDeployment n d \<Rightarrow>
          if n = ns \<and> om_Name (dep_Meta d) = name then Some d else find_deployment cs ns name
      | DeleteDeployment n m \<Rightarrow>
          if n = ns \<and> m = name then None else find_deployment cs ns name
      | _ \<Rightarrow> find_deployment cs ns name)"

fun find_service :: "call list \<Rightarrow> string \<Rightarrow> string \<Rightarrow> Service option" where
  "find_service [] ns name = None"
| "find_service (c # cs) ns name =
     (case c of
        CreateService n s \<Rightarrow>
          if n = ns \<and> om_Name (svc_Meta s) = name then Some s else find_service cs ns name
      | _ \<Rightarrow> find_service cs ns name)"

fun find_group :: "call list \<Rightarrow> string \<Rightarrow> DatafuseComputeGroup option" where
  "find_group [] key = None"
| "find_group (c # cs) key =
     (case c of
        Rest rq \<Rightarrow>
          (case rq_Body rq of
             GroupBody g \<Rightarrow>
               if object_key (rq_Namespace rq) (om_Name (cg_Meta g)) = key then Some g else find_group cs key
           | _ \<Rightarrow> find_group cs key)
      | _ \<Rightarrow> find_group cs key)"

definition sum_of_option :: "'e \<Rightarrow> 'a option \<Rightarrow> 'e + 'a" where
  "sum_of_option e r = (case r of None \<Rightarrow> Inl e | Some x \<Rightarrow> Inr x)"

definition ref_getControllerOf :: "ObjectMeta \<Rightarrow> OwnerReference option" where
  "ref_getControllerOf m = find (\<lambda>r. or_Controller r = Some True) (elems (om_OwnerReferences m))"

definition ref_isPodReady :: "Pod \<Rightarrow> bool" where
  "ref_isPodReady p \<longleftrightarrow> (\<exists>c \<in> set (pst_Conditions (pod_Status p)). pc_Type c = ''Ready'' \<and> pc_Status c = ''True'')"

definition ref_quantityCmp :: "Quantity \<Rightarrow> Quantity \<Rightarrow> int" where
  "ref_quantityCmp x y = (case (x, y) of
      (NewMilliQuantity a, NewMilliQuantity b) \<Rightarrow> sint a - sint b
    | (NewMilliQuantity a, ParsedQuantity b) \<Rightarrow> 1
    | (ParsedQuantity a, NewMilliQuantity b) \<Rightarrow> - 1
    | (ParsedQuantity a, ParsedQuantity b) \<Rightarrow> 0)"

definition ref_k8s :: k8s where
  "ref_k8s = \<lparr>
     k_isControlledBy = (\<lambda>m owner. case ref_getControllerOf m of
        None \<Rightarrow> False | Some r \<Rightarrow> or_UID r = om_UID owner),
     k_newControllerRef = (\<lambda>owner gvk. \<lparr>or_APIVersion = gvk_Group gvk @ ''/'' @ gvk_Version gvk,
        or_Kind = gvk_Kind gvk, or_Name = om_Name owner, or_UID = om_UID owner,
        or_Controller = Some True, or_BlockOwnerDeletion = Some True\<rparr>),
     k_getControllerOf = ref_getControllerOf,
     k_isNotFound = (\<lambda>e. case e of NewNotFound _ _ \<Rightarrow> True | _ \<Rightarrow> False),
     k_quantityParses = (\<lambda>s. s \<noteq> ''''),
     k_quantityCmp = ref_quantityCmp,
     k_isPodReady = ref_isPodReady,
     k_rangeOrder = (\<lambda>h ks. ks),
     k_listerGetDeployment = (\<lambda>h ns name.
        sum_of_option (NewNotFound ''deployments'' name) (find_deployment (rev h) ns name)),
     k_listerGetService = (\<lambda>h ns name.
        sum_of_option (NewNotFound ''services'' name) (find_service (rev h) ns name)),
     k_indexerGetByKey = (\<lambda>h i key. case i of
        GroupInformer \<Rightarrow> Inr (map_option (GroupPtr 0) (find_group (rev h) key)) | OperatorInformer \<Rightarrow> Inr None),
     k_indexerListAll = (\<lambda>h i ns sel. ([], None)),
     k_storeList = (\<lambda>h. []),
     k_storeGetByKey = (\<lambda>h key. Inr None),
     k_createDeployment = (\<lambda>h ns d. case find_deployment (rev h) ns (om_Name (dep_Meta d)) of
        Some _ \<Rightarrow> Inl (ForeignError ''already exists'') | None \<Rightarrow> Inr d),
     k_updateDeployment = (\<lambda>h ns d. case find_deployment (rev h) ns (om_Name (dep_Meta d)) of
        Some _ \<Rightarrow> Inr d | None \<Rightarrow> Inl (NewNotFound ''deployments'' (om_Name (dep_Meta d)))),
     k_createService = (\<lambda>h ns s. case find_service (rev h) ns (om_Name (svc_Meta s)) of
        Some _ \<Rightarrow> Inl (ForeignError ''already exists'') | None \<Rightarrow> Inr s),
     k_restGroup = (\<lambda>h rq g0. case rq_Body rq of GroupBody g \<Rightarrow> (g, None) | _ \<Rightarrow> (g0, None)),
     k_restOperator = (\<lambda>h rq o0. case rq_Body rq of OperatorBody x \<Rightarrow> (x, None) | _ \<Rightarrow> (o0, None)),
     k_restGroupList = (\<lambda>h rq l0. (l0, None)),
     k_restOperatorList = (\<lambda>h rq l0. (l0, None)),
     k_restError = (\<lambda>h rq. None),
     k_restWatch = (\<lambda>h rq. (Some (length h), None)),
     k_invokesWatch = (\<lambda>h a. (Some (length h), None)),
     k_extractLabel = (\<lambda>opts. None),
     k_invokes = (\<lambda>h a x. (Some x, None)),
     k_queueGet = (\<lambda>h q. None),
     k_numRequeues = (\<lambda>h q x. int (count_requeues q x h 0)),
     k_newRequest = (\<lambda>url. None),
     k_httpPost = (\<lambda>h url body. Inr (200, Inr '''')),
     k_httpGet = (\<lambda>h url. Inr (200, Inr '''')),
     k_cacheSynced = (\<lambda>h cs. True)\<rparr>"

lemma ref_controller_ref_laws: "controller_ref_laws ref_k8s"
  by (simp add: controller_ref_laws_def ref_k8s_def ref_getControllerOf_def)

lemma ref_not_found_law: "not_found_law ref_k8s"
  by (simp add: not_found_law_def ref_k8s_def)

lemma ref_range_law: "range_law ref_k8s"
  by (simp add: range_law_def ref_k8s_def)

lemma ref_requeue_law: "requeue_law ref_k8s"
  by (simp add: requeue_law_def ref_k8s_def)

section \<open>Sample resources\<close>

text \<open>The specification that the repository's own tests use (\<^verbatim>\<open>defaultInstanceSpec\<close>), and a group
  with one leader and two workers.\<close>

definition sample_instance :: DatafuseComputeInstanceSpec where
  "sample_instance = \<lparr>ci_Name = None, ci_Cores = Some 1, ci_CoreLimit = Some ''1300m'',
     ci_Memory = Some ''512m'', ci_MemoryLimit = Some ''512m'', ci_Labels = None,
     ci_Image = Some ''zhihanz/fuse-query:latest'', ci_ImagePullPolicy = Some ''Always'',
     ci_Priority = Some 1, ci_MysqlPort = Some 3306, ci_ClickhousePort = Some 9000,
     ci_HTTPPort = Some 8080, ci_RPCPort = Some 9091, ci_MetricsPort = Some 9098\<rparr>"

definition sample_set :: DatafuseComputeSetSpec where
  "sample_set = \<lparr>cs_Replicas = Some 1, cs_Instance = sample_instance\<rparr>"

definition sample_group_spec :: DatafuseComputeGroupSpec where
  "sample_group_spec = \<lparr>gs_ComputeLeaders = Some sample_set,
     gs_ComputeWorkers = Some [Some sample_set, Some sample_set],
     gs_Name = ''groupp1'', gs_Namespace = ''default''\<rparr>"

definition sample_group :: DatafuseComputeGroup where
  "sample_group = zero_Group\<lparr>cg_Meta := zero_ObjectMeta\<lparr>om_Name := ''groupp1'',
     om_Namespace := ''default'', om_UID := ''u-group''\<rparr>, cg_Spec := sample_group_spec\<rparr>"

definition sample_operator :: DatafuseOperator where
  "sample_operator = zero_Operator\<lparr>op_Meta := zero_ObjectMeta\<lparr>om_Name := ''operator1'',
     om_Namespace := ''default'', om_UID := ''u-operator''\<rparr>,
     op_Spec := \<lparr>os_ComputeGroups = Some [Some sample_group_spec], os_Version = None\<rparr>\<rparr>"

lemmas sample_defs = sample_instance_def sample_set_def sample_group_spec_def sample_group_def
  sample_operator_def zero_Group_def zero_Operator_def zero_ObjectMeta_def zero_TypeMeta_def
  zero_GroupSpec_def zero_GroupStatus_def

text \<open>The numbers of the sample in decimal.\<close>

lemma sample_decimals:
  "fmt_d 8080 = ''8080''" "fmt_d 9091 = ''9091''" "fmt_d 1 = ''1''" "fmt_d 0 = ''0''"
  by (simp_all add: fmt_d_def fmt_nat.simps digit_char_def char_of_def bit_0)

lemmas ref_laws = ref_controller_ref_laws ref_not_found_law ref_range_law ref_requeue_law

end
