(* ===== verification/Listers.thy ===== *)
theory Listers
  imports Reference_Cluster
begin

text \<open>
  \<^verbatim>\<open>pkg/client/listers/datafuse/v1alpha1\<close>: the generated listers that read an informer's indexer.
  An object comes with its address, since a lister returns the pointer that the cache holds and
  the controller queues it.  A cache that holds an object of another type makes the lister panic.
\<close>

section \<open>The listers\<close>

text \<open>\<^verbatim>\<open>v1alpha1.Resource(resource)\<close>, with the text that an error shows for it.\<close>

definition Resource :: "string \<Rightarrow> string" where
  "Resource resource = resource @ ''.'' @ fst SchemeGroupVersion"

subsection \<open>DatafuseComputeGroup\<close>

text \<open>\<^verbatim>\<open>obj.(*v1alpha1.DatafuseComputeGroup)\<close>: panics for any other dynamic type.\<close>

definition group_of :: "go_obj \<Rightarrow> (nat \<times> DatafuseComputeGroup) option" where
  "group_of m = (case m of GroupPtr a x \<Rightarrow> Some (a, x) | _ \<Rightarrow> None)"

fun appendGroup :: "go_obj list \<Rightarrow> (nat \<times> DatafuseComputeGroup) list \<Rightarrow> (nat \<times> DatafuseComputeGroup) list go" where
  "appendGroup [] r = ret r"
| "appendGroup (m # ms) r = bind_io (lift_io (group_of m)) (\<lambda>x. appendGroup ms (r @ [x]))"

definition GroupLister_List :: "k8s \<Rightarrow> string \<Rightarrow> ((nat \<times> DatafuseComputeGroup) list \<times> go_error option) go" where
  "GroupLister_List K selector =
     bind_io (perform (IndexerListAll GroupInformer None selector)
                (\<lambda>h. k_indexerListAll K h GroupInformer None selector)) (\<lambda>(ms, err).
     bind_io (appendGroup ms []) (\<lambda>r. ret (r, err)))"

definition GroupNamespaceLister_List ::
    "k8s \<Rightarrow> string \<Rightarrow> string \<Rightarrow> ((nat \<times> DatafuseComputeGroup) list \<times> go_error option) go" where
  "GroupNamespaceLister_List K namespace selector =
     bind_io (perform (IndexerListAll GroupInformer (Some namespace) selector)
                (\<lambda>h. k_indexerListAll K h GroupInformer (Some namespace) selector)) (\<lambda>(ms, err).
     bind_io (appendGroup ms []) (\<lambda>r. ret (r, err)))"

definition GroupNamespaceLister_Get ::
    "k8s \<Rightarrow> string \<Rightarrow> string \<Rightarrow> (go_error + nat \<times> DatafuseComputeGroup) go" where
  "GroupNamespaceLister_Get K namespace name =
     bind_io (indexer_get_by_key K GroupInformer (namespace @ ''/'' @ name)) (\<lambda>r.
     case r of
       Inl err \<Rightarrow> ret (Inl err)
     | Inr None \<Rightarrow> ret (Inl (NewNotFound (Resource ''datafusecomputegroup'') name))
     | Inr (Some obj) \<Rightarrow> bind_io (lift_io (group_of obj)) (\<lambda>x. ret (Inr x)))"

subsection \<open>DatafuseOperator\<close>

text \<open>\<^verbatim>\<open>obj.(*v1alpha1.DatafuseOperator)\<close>: panics for any other dynamic type.\<close>

definition operator_of :: "go_obj \<Rightarrow> (nat \<times> DatafuseOperator) option" where
  "operator_of m = (case m of OperatorPtr a x \<Rightarrow> Some (a, x) | _ \<Rightarrow> None)"

fun appendOperator :: "go_obj list \<Rightarrow> (nat \<times> DatafuseOperator) list \<Rightarrow> (nat \<times> DatafuseOperator) list go" where
  "appendOperator [] r = ret r"
| "appendOperator (m # ms) r = bind_io (lift_io (operator_of m)) (\<lambda>x. appendOperator ms (r @ [x]))"

definition OperatorLister_List :: "k8s \<Rightarrow> string \<Rightarrow> ((nat \<times> DatafuseOperator) list \<times> go_error option) go" where
  "OperatorLister_List K selector =
     bind_io (perform (IndexerListAll OperatorInformer None selector)
                (\<lambda>h. k_indexerListAll K h OperatorInformer None selector)) (\<lambda>(ms, err).
     bind_io (appendOperator ms []) (\<lambda>r. ret (r, err)))"

definition OperatorNamespaceLister_List ::
    "k8s \<Rightarrow> string \<Rightarrow> string \<Rightarrow> ((nat \<times> DatafuseOperator) list \<times> go_error option) go" where
  "OperatorNamespaceLister_List K namespace selector =
     bind_io (perform (IndexerListAll OperatorInformer (Some namespace) selector)
                (\<lambda>h. k_indexerListAll K h OperatorInformer (Some namespace) selector)) (\<lambda>(ms, err).
     bind_io (appendOperator ms []) (\<lambda>r. ret (r, err)))"

definition OperatorNamespaceLister_Get ::
    "k8s \<Rightarrow> string \<Rightarrow> string \<Rightarrow> (go_error + nat \<times> DatafuseOperator) go" where
  "OperatorNamespaceLister_Get K namespace name =
     bind_io (indexer_get_by_key K OperatorInformer (namespace @ ''/'' @ name)) (\<lambda>r.
     case r of
       Inl err \<Rightarrow> ret (Inl err)
     | Inr None \<Rightarrow> ret (Inl (NewNotFound (Resource ''datafuseoperator'') name))
     | Inr (Some obj) \<Rightarrow> bind_io (lift_io (operator_of obj)) (\<lambda>x. ret (Inr x)))"

section \<open>The contract of a namespace lister\<close>

text \<open>
  What the controllers rely on: a lookup is one read of the cache under \<^verbatim>\<open>namespace/name\<close>, an
  absent key gives an error that \<^verbatim>\<open>errors.IsNotFound\<close> recognises, and a cache that holds objects
  of the lister's type never makes it panic.
\<close>

locale lister =
  fixes K :: k8s and i :: informer and of_obj :: "go_obj \<Rightarrow> (nat \<times> 'o) option"
    and lookup :: "string \<Rightarrow> string \<Rightarrow> (go_error + nat \<times> 'o) go"
    and listing :: "string \<Rightarrow> string \<Rightarrow> ((nat \<times> 'o) list \<times> go_error option) go"
  assumes found: "k_indexerGetByKey K h i (object_key ns name) = Inr (Some obj) \<Longrightarrow>
      lookup ns name h = (map_option Inr (of_obj obj), h @ [IndexerGetByKey i (object_key ns name)])"
    and absent: "k_indexerGetByKey K h i (object_key ns name) = Inr None \<Longrightarrow>
      \<exists>resource. lookup ns name h =
        (Some (Inl (NewNotFound resource name)), h @ [IndexerGetByKey i (object_key ns name)])"
    and failed: "k_indexerGetByKey K h i (object_key ns name) = Inl e \<Longrightarrow>
      lookup ns name h = (Some (Inl e), h @ [IndexerGetByKey i (object_key ns name)])"
    and listed: "k_indexerListAll K h i (Some ns) selector = (objs, err) \<Longrightarrow>
      (\<forall>obj \<in> set objs. of_obj obj \<noteq> None) \<Longrightarrow>
      listing ns selector h =
        (Some (map (\<lambda>obj. the (of_obj obj)) objs, err), h @ [IndexerListAll i (Some ns) selector])"
begin

definition typed_cache :: bool where
  "typed_cache \<longleftrightarrow> (\<forall>h key obj. k_indexerGetByKey K h i key = Inr (Some obj) \<longrightarrow> of_obj obj \<noteq> None)"

lemma one_read: "snd (lookup ns name h) = h @ [IndexerGetByKey i (object_key ns name)]"
proof (cases "k_indexerGetByKey K h i (object_key ns name)")
  case (Inl e)
  then show ?thesis by (simp add: failed)
next
  case (Inr r)
  then show ?thesis by (cases r) (use absent [of h ns name] in \<open>auto simp: found\<close>)
qed

lemma never_panics: "typed_cache \<Longrightarrow> fst (lookup ns name h) \<noteq> None"
proof (cases "k_indexerGetByKey K h i (object_key ns name)")
  case (Inl e)
  then show ?thesis by (simp add: failed)
next
  case (Inr r)
  assume "typed_cache"
  with Inr show ?thesis
    by (cases r) (use absent [of h ns name] in \<open>auto simp: found typed_cache_def\<close>)
qed

lemma absent_is_not_found:
  assumes "not_found_law K" and "k_indexerGetByKey K h i (object_key ns name) = Inr None"
  shows "\<exists>e. fst (lookup ns name h) = Some (Inl e) \<and> k_isNotFound K e"
  using absent [OF assms(2)] assms(1) by (auto simp: not_found_law_def)

end

lemma appendGroup_run:
  "\<forall>m \<in> set ms. group_of m \<noteq> None \<Longrightarrow>
     appendGroup ms r h = (Some (r @ map (\<lambda>m. the (group_of m)) ms), h)"
  by (induction ms arbitrary: r) (auto simp: io_simps)

lemma appendOperator_run:
  "\<forall>m \<in> set ms. operator_of m \<noteq> None \<Longrightarrow>
     appendOperator ms r h = (Some (r @ map (\<lambda>m. the (operator_of m)) ms), h)"
  by (induction ms arbitrary: r) (auto simp: io_simps)

interpretation group_lister:
  lister K GroupInformer group_of "GroupNamespaceLister_Get K" "GroupNamespaceLister_List K" for K
  by unfold_locales
    (auto simp: GroupNamespaceLister_Get_def GroupNamespaceLister_List_def object_key_def io_simps
      appendGroup_run split: option.split)

interpretation operator_lister:
  lister K OperatorInformer operator_of "OperatorNamespaceLister_Get K" "OperatorNamespaceLister_List K" for K
  by unfold_locales
    (auto simp: OperatorNamespaceLister_Get_def OperatorNamespaceLister_List_def object_key_def io_simps
      appendOperator_run split: option.split)

end
