(* ===== verification/Clientset.thy ===== *)
theory Clientset
  imports Complex_Main Listers
begin

text \<open>
  \<^verbatim>\<open>pkg/client/clientset/versioned\<close>: the generated clients of the two custom resources.  The typed
  clients turn a call into one REST request; the fake clients turn it into one action of
  \<^verbatim>\<open>k8s.io/client-go/testing\<close>.  Both implement the same Go interface, here the record
  \<open>ResourceInterface\<close>, and the controllers take either.  A typed client returns the object it
  allocated even when there is an error; a fake client returns a nil pointer when the
  reaction had no object.
\<close>

section \<open>The interface\<close>

record ('o, 'l) ResourceInterface =
  if_Create :: "'o \<Rightarrow> string \<Rightarrow> ('o option \<times> go_error option) go"
  if_Update :: "'o \<Rightarrow> string \<Rightarrow> ('o option \<times> go_error option) go"
  if_UpdateStatus :: "'o \<Rightarrow> string \<Rightarrow> ('o option \<times> go_error option) go"
  if_Delete :: "string \<Rightarrow> string \<Rightarrow> go_error option go"
  if_DeleteCollection :: "string \<Rightarrow> ListOptions \<Rightarrow> go_error option go"
  if_Get :: "string \<Rightarrow> string \<Rightarrow> ('o option \<times> go_error option) go"
  if_List :: "ListOptions \<Rightarrow> ('l option \<times> go_error option) go"
  if_Watch :: "ListOptions \<Rightarrow> (watch option \<times> go_error option) go"
  if_Patch :: "string \<Rightarrow> string \<Rightarrow> string \<Rightarrow> string \<Rightarrow> string list \<Rightarrow> ('o option \<times> go_error option) go"

record DatafuseV1alpha1Interface =
  DatafuseComputeGroups :: "string \<Rightarrow> (DatafuseComputeGroup, DatafuseComputeGroupList) ResourceInterface"
  DatafuseOperators :: "string \<Rightarrow> (DatafuseOperator, DatafuseOperatorList) ResourceInterface"

definition zero_GroupList :: DatafuseComputeGroupList where
  "zero_GroupList = \<lparr>cgl_TypeMeta = zero_TypeMeta,
     cgl_ListMeta = \<lparr>lm_ResourceVersion = '''', lm_Continue = ''''\<rparr>, cgl_Items = None\<rparr>"

definition zero_OperatorList :: DatafuseOperatorList where
  "zero_OperatorList = \<lparr>opl_TypeMeta = zero_TypeMeta,
     opl_ListMeta = \<lparr>lm_ResourceVersion = '''', lm_Continue = ''''\<rparr>, opl_Items = None\<rparr>"

section \<open>The typed clients\<close>

definition request :: "string \<Rightarrow> string \<Rightarrow> string \<Rightarrow> rest_request" where
  "request verb ns resource = \<lparr>rq_Verb = verb, rq_Namespace = ns, rq_Resource = resource,
     rq_Name = None, rq_SubResource = [], rq_Params = None, rq_Timeout = None, rq_Body = NoBody\<rparr>"

text \<open>\<^verbatim>\<open>time.Duration(*opts.TimeoutSeconds) * time.Second\<close>, a signed 64-bit product.\<close>

definition list_timeout :: "ListOptions \<Rightarrow> int64" where
  "list_timeout opts = (case lo_TimeoutSeconds opts of None \<Rightarrow> 0 | Some s \<Rightarrow> s * 1000000000)"

text \<open>\<^verbatim>\<open>result = &T{}; err = ...Do(ctx).Into(result)\<close>\<close>

definition do_group :: "k8s \<Rightarrow> rest_request \<Rightarrow> (DatafuseComputeGroup option \<times> go_error option) go" where
  "do_group K rq =
     bind_io (perform (Rest rq) (\<lambda>h. k_restGroup K h rq zero_Group)) (\<lambda>(result, err). ret (Some result, err))"

definition do_operator :: "k8s \<Rightarrow> rest_request \<Rightarrow> (DatafuseOperator option \<times> go_error option) go" where
  "do_operator K rq =
     bind_io (perform (Rest rq) (\<lambda>h. k_restOperator K h rq zero_Operator)) (\<lambda>(result, err). ret (Some result, err))"

subsection \<open>\<^verbatim>\<open>datafusecomputegroup.go\<close>\<close>

definition groups_Get :: "k8s \<Rightarrow> string \<Rightarrow> string \<Rightarrow> string \<Rightarrow> (DatafuseComputeGroup option \<times> go_error option) go" where
  "groups_Get K ns name options = do_group K ((request ''GET'' ns ''datafusecomputegroups'')
     \<lparr>rq_Name := Some name, rq_Params := Some (GetOptions options)\<rparr>)"

definition groups_List :: "k8s \<Rightarrow> string \<Rightarrow> ListOptions \<Rightarrow> (DatafuseComputeGroupList option \<times> go_error option) go" where
  "groups_List K ns opts =
     (let rq = (request ''GET'' ns ''datafusecomputegroups'')
            \<lparr>rq_Params := Some (ListOpts opts), rq_Timeout := Some (list_timeout opts)\<rparr>
      in bind_io (perform (Rest rq) (\<lambda>h. k_restGroupList K h rq zero_GroupList)) (\<lambda>(result, err). ret (Some result, err)))"

definition groups_Watch :: "k8s \<Rightarrow> string \<Rightarrow> ListOptions \<Rightarrow> (watch option \<times> go_error option) go" where
  "groups_Watch K ns opts =
     (let opts' = opts\<lparr>lo_Watch := True\<rparr>;
          rq = (request ''GET'' ns ''datafusecomputegroups'')
            \<lparr>rq_Params := Some (ListOpts opts'), rq_Timeout := Some (list_timeout opts)\<rparr>
      in perform (Rest rq) (\<lambda>h. k_restWatch K h rq))"

definition groups_Create :: "k8s \<Rightarrow> string \<Rightarrow> DatafuseComputeGroup \<Rightarrow> string \<Rightarrow> (DatafuseComputeGroup option \<times> go_error option) go" where
  "groups_Create K ns x opts = do_group K ((request ''POST'' ns ''datafusecomputegroups'')
     \<lparr>rq_Params := Some (CreateOptions opts), rq_Body := GroupBody x\<rparr>)"

definition groups_Update :: "k8s \<Rightarrow> string \<Rightarrow> DatafuseComputeGroup \<Rightarrow> string \<Rightarrow> (DatafuseComputeGroup option \<times> go_error option) go" where
  "groups_Update K ns x opts = do_group K ((request ''PUT'' ns ''datafusecomputegroups'')
     \<lparr>rq_Name := Some (om_Name (cg_Meta x)), rq_Params := Some (UpdateOptions opts), rq_Body := GroupBody x\<rparr>)"

definition groups_UpdateStatus :: "k8s \<Rightarrow> string \<Rightarrow> DatafuseComputeGroup \<Rightarrow> string \<Rightarrow> (DatafuseComputeGroup option \<times> go_error option) go" where
  "groups_UpdateStatus K ns x opts = do_group K ((request ''PUT'' ns ''datafusecomputegroups'')
     \<lparr>rq_Name := Some (om_Name (cg_Meta x)), rq_SubResource := [''status''],
      rq_Params := Some (UpdateOptions opts), rq_Body := GroupBody x\<rparr>)"

definition groups_Delete :: "k8s \<Rightarrow> string \<Rightarrow> string \<Rightarrow> string \<Rightarrow> go_error option go" where
  "groups_Delete K ns name opts =
     (let rq = (request ''DELETE'' ns ''datafusecomputegroups'')
            \<lparr>rq_Name := Some name, rq_Body := OptionsBody (DeleteOptions opts)\<rparr>
      in perform (Rest rq) (\<lambda>h. k_restError K h rq))"

definition groups_DeleteCollection :: "k8s \<Rightarrow> string \<Rightarrow> string \<Rightarrow> ListOptions \<Rightarrow> go_error option go" where
  "groups_DeleteCollection K ns opts listOpts =
     (let rq = (request ''DELETE'' ns ''datafusecomputegroups'')
            \<lparr>rq_Params := Some (ListOpts listOpts), rq_Timeout := Some (list_timeout listOpts),
             rq_Body := OptionsBody (DeleteOptions opts)\<rparr>
      in perform (Rest rq) (\<lambda>h. k_restError K h rq))"

definition groups_Patch :: "k8s \<Rightarrow> string \<Rightarrow> string \<Rightarrow> string \<Rightarrow> string \<Rightarrow> string \<Rightarrow> string list
    \<Rightarrow> (DatafuseComputeGroup option \<times> go_error option) go" where
  "groups_Patch K ns name pt data opts subresources = do_group K ((request (''PATCH '' @ pt) ns ''datafusecomputegroups'')
     \<lparr>rq_Name := Some name, rq_SubResource := subresources,
      rq_Params := Some (PatchOptions opts), rq_Body := DataBody data\<rparr>)"

definition groups :: "k8s \<Rightarrow> string \<Rightarrow> (DatafuseComputeGroup, DatafuseComputeGroupList) ResourceInterface" where
  "groups K ns = \<lparr>if_Create = groups_Create K ns, if_Update = groups_Update K ns,
     if_UpdateStatus = groups_UpdateStatus K ns, if_Delete = groups_Delete K ns,
     if_DeleteCollection = groups_DeleteCollection K ns, if_Get = groups_Get K ns, if_List = groups_List K ns,
     if_Watch = groups_Watch K ns, if_Patch = groups_Patch K ns\<rparr>"

subsection \<open>\<^verbatim>\<open>datafuseoperator.go\<close>\<close>

definition operators_Get :: "k8s \<Rightarrow> string \<Rightarrow> string \<Rightarrow> string \<Rightarrow> (DatafuseOperator option \<times> go_error option) go" where
  "operators_Get K ns name options = do_operator K ((request ''GET'' ns ''datafuseoperators'')
     \<lparr>rq_Name := Some name, rq_Params := Some (GetOptions options)\<rparr>)"

definition operators_List :: "k8s \<Rightarrow> string \<Rightarrow> ListOptions \<Rightarrow> (DatafuseOperatorList option \<times> go_error option) go" where
  "operators_List K ns opts =
     (let rq = (request ''GET'' ns ''datafuseoperators'')
            \<lparr>rq_Params := Some (ListOpts opts), rq_Timeout := Some (list_timeout opts)\<rparr>
      in bind_io (perform (Rest rq) (\<lambda>h. k_restOperatorList K h rq zero_OperatorList)) (\<lambda>(result, err). ret (Some result, err)))"

definition operators_Watch :: "k8s \<Rightarrow> string \<Rightarrow> ListOptions \<Rightarrow> (watch option \<times> go_error option) go" where
  "operators_Watch K ns opts =
     (let opts' = opts\<lparr>lo_Watch := True\<rparr>;
          rq = (request ''GET'' ns ''datafuseoperators'')
            \<lparr>rq_Params := Some (ListOpts opts'), rq_Timeout := Some (list_timeout opts)\<rparr>
      in perform (Rest rq) (\<lambda>h. k_restWatch K h rq))"

definition operators_Create :: "k8s \<Rightarrow> string \<Rightarrow> DatafuseOperator \<Rightarrow> string \<Rightarrow> (DatafuseOperator option \<times> go_error option) go" where
  "operators_Create K ns x opts = do_operator K ((request ''POST'' ns ''datafuseoperators'')
     \<lparr>rq_Params := Some (CreateOptions opts), rq_Body := OperatorBody x\<rparr>)"

definition operators_Update :: "k8s \<Rightarrow> string \<Rightarrow> DatafuseOperator \<Rightarrow> string \<Rightarrow> (DatafuseOperator option \<times> go_error option) go" where
  "operators_Update K ns x opts = do_operator K ((request ''PUT'' ns ''datafuseoperators'')
     \<lparr>rq_Name := Some (om_Name (op_Meta x)), rq_Params := Some (UpdateOptions opts), rq_Body := OperatorBody x\<rparr>)"

definition operators_UpdateStatus :: "k8s \<Rightarrow> string \<Rightarrow> DatafuseOperator \<Rightarrow> string \<Rightarrow> (DatafuseOperator option \<times> go_error option) go" where
  "operators_UpdateStatus K ns x opts = do_operator K ((request ''PUT'' ns ''datafuseoperators'')
     \<lparr>rq_Name := Some (om_Name (op_Meta x)), rq_SubResource := [''status''],
      rq_Params := Some (UpdateOptions opts), rq_Body := OperatorBody x\<rparr>)"

definition operators_Delete :: "k8s \<Rightarrow> string \<Rightarrow> string \<Rightarrow> string \<Rightarrow> go_error option go" where
  "operators_Delete K ns name opts =
     (let rq = (request ''DELETE'' ns ''datafuseoperators'')
            \<lparr>rq_Name := Some name, rq_Body := OptionsBody (DeleteOptions opts)\<rparr>
      in perform (Rest rq) (\<lambda>h. k_restError K h rq))"

definition operators_DeleteCollection :: "k8s \<Rightarrow> string \<Rightarrow> string \<Rightarrow> ListOptions \<Rightarrow> go_error option go" where
  "operators_DeleteCollection K ns opts listOpts =
     (let rq = (request ''DELETE'' ns ''datafuseoperators'')
            \<lparr>rq_Params := Some (ListOpts listOpts), rq_Timeout := Some (list_timeout listOpts),
             rq_Body := OptionsBody (DeleteOptions opts)\<rparr>
      in perform (Rest rq) (\<lambda>h. k_restError K h rq))"

definition operators_Patch :: "k8s \<Rightarrow> string \<Rightarrow> string \<Rightarrow> string \<Rightarrow> string \<Rightarrow> string \<Rightarrow> string list
    \<Rightarrow> (DatafuseOperator option \<times> go_error option) go" where
  "operators_Patch K ns name pt data opts subresources = do_operator K ((request (''PATCH '' @ pt) ns ''datafuseoperators'')
     \<lparr>rq_Name := Some name, rq_SubResource := subresources,
      rq_Params := Some (PatchOptions opts), rq_Body := DataBody data\<rparr>)"

definition operators :: "k8s \<Rightarrow> string \<Rightarrow> (DatafuseOperator, DatafuseOperatorList) ResourceInterface" where
  "operators K ns = \<lparr>if_Create = operators_Create K ns, if_Update = operators_Update K ns,
     if_UpdateStatus = operators_UpdateStatus K ns, if_Delete = operators_Delete K ns,
     if_DeleteCollection = operators_DeleteCollection K ns, if_Get = operators_Get K ns, if_List = operators_List K ns,
     if_Watch = operators_Watch K ns, if_Patch = operators_Patch K ns\<rparr>"

definition DatafuseV1alpha1 :: "k8s \<Rightarrow> DatafuseV1alpha1Interface" where
  "DatafuseV1alpha1 K = \<lparr>DatafuseComputeGroups = groups K, DatafuseOperators = operators K\<rparr>"

section \<open>The fake clients\<close>

definition invokes :: "k8s \<Rightarrow> fake_action \<Rightarrow> go_obj \<Rightarrow> (go_obj option \<times> go_error option) go" where
  [io_simps]: "invokes K action x = perform (Invokes action) (\<lambda>h. k_invokes K h action x)"

subsection \<open>\<^verbatim>\<open>fake_datafusecomputegroup.go\<close>\<close>

definition datafusecomputegroupsResource :: gvr where
  "datafusecomputegroupsResource = \<lparr>gvr_Group = ''datafuse'', gvr_Version = ''v1alpha1'', gvr_Resource = ''datafusecomputegroups''\<rparr>"

text \<open>What every method that returns an object does with the answer of \<^verbatim>\<open>Invokes\<close>.\<close>

definition fake_groups_result :: "k8s \<Rightarrow> fake_action \<Rightarrow> (DatafuseComputeGroup option \<times> go_error option) go" where
  "fake_groups_result K action =
     bind_io (invokes K action (GroupPtr 0 zero_Group)) (\<lambda>(obj, err).
     case obj of None \<Rightarrow> ret (None, err)
     | Some (GroupPtr _ x) \<Rightarrow> ret (Some x, err)
     | Some _ \<Rightarrow> panic)"

definition fake_groups_Get :: "k8s \<Rightarrow> string \<Rightarrow> string \<Rightarrow> string \<Rightarrow> (DatafuseComputeGroup option \<times> go_error option) go" where
  "fake_groups_Get K ns name options = fake_groups_result K (FakeGet datafusecomputegroupsResource ns name)"

fun fake_groups_matching :: "(string gomap \<Rightarrow> bool) \<Rightarrow> DatafuseComputeGroup list \<Rightarrow> DatafuseComputeGroup goslice \<Rightarrow> DatafuseComputeGroup goslice" where
  "fake_groups_matching label [] items = items"
| "fake_groups_matching label (item # rest) items =
     (if label (om_Labels (cg_Meta item))
      then fake_groups_matching label rest (Some (elems items @ [item]))
      else fake_groups_matching label rest items)"

definition fake_groups_List :: "k8s \<Rightarrow> string \<Rightarrow> ListOptions \<Rightarrow> (DatafuseComputeGroupList option \<times> go_error option) go" where
  "fake_groups_List K ns opts =
     bind_io (invokes K (FakeList datafusecomputegroupsResource ns opts) (GroupListPtr 0 zero_GroupList)) (\<lambda>(obj, err).
     case obj of None \<Rightarrow> ret (None, err)
     | Some (GroupListPtr _ l) \<Rightarrow>
         let label = (case k_extractLabel K opts of None \<Rightarrow> (\<lambda>_. True) | Some f \<Rightarrow> f)
         in ret (Some (zero_GroupList\<lparr>cgl_ListMeta := cgl_ListMeta l,
                   cgl_Items := fake_groups_matching label (elems (cgl_Items l)) None\<rparr>), err)
     | Some _ \<Rightarrow> panic)"

definition fake_groups_Watch :: "k8s \<Rightarrow> string \<Rightarrow> ListOptions \<Rightarrow> (watch option \<times> go_error option) go" where
  "fake_groups_Watch K ns opts =
     perform (Invokes (FakeWatch datafusecomputegroupsResource ns opts))
       (\<lambda>h. k_invokesWatch K h (FakeWatch datafusecomputegroupsResource ns opts))"

definition fake_groups_Create :: "k8s \<Rightarrow> string \<Rightarrow> DatafuseComputeGroup \<Rightarrow> string \<Rightarrow> (DatafuseComputeGroup option \<times> go_error option) go" where
  "fake_groups_Create K ns x opts = fake_groups_result K (FakeCreate datafusecomputegroupsResource ns (GroupPtr 0 x))"

definition fake_groups_Update :: "k8s \<Rightarrow> string \<Rightarrow> DatafuseComputeGroup \<Rightarrow> string \<Rightarrow> (DatafuseComputeGroup option \<times> go_error option) go" where
  "fake_groups_Update K ns x opts = fake_groups_result K (FakeUpdate datafusecomputegroupsResource ns (GroupPtr 0 x))"

definition fake_groups_UpdateStatus :: "k8s \<Rightarrow> string \<Rightarrow> DatafuseComputeGroup \<Rightarrow> string \<Rightarrow> (DatafuseComputeGroup option \<times> go_error option) go" where
  "fake_groups_UpdateStatus K ns x opts =
     fake_groups_result K (FakeUpdateSubresource datafusecomputegroupsResource ''status'' ns (GroupPtr 0 x))"

definition fake_groups_Delete :: "k8s \<Rightarrow> string \<Rightarrow> string \<Rightarrow> string \<Rightarrow> go_error option go" where
  "fake_groups_Delete K ns name opts =
     bind_io (invokes K (FakeDelete datafusecomputegroupsResource ns name) (GroupPtr 0 zero_Group)) (\<lambda>(obj, err). ret err)"

definition fake_groups_DeleteCollection :: "k8s \<Rightarrow> string \<Rightarrow> string \<Rightarrow> ListOptions \<Rightarrow> go_error option go" where
  "fake_groups_DeleteCollection K ns opts listOpts =
     bind_io (invokes K (FakeDeleteCollection datafusecomputegroupsResource ns listOpts) (GroupListPtr 0 zero_GroupList)) (\<lambda>(obj, err). ret err)"

definition fake_groups_Patch :: "k8s \<Rightarrow> string \<Rightarrow> string \<Rightarrow> string \<Rightarrow> string \<Rightarrow> string \<Rightarrow> string list
    \<Rightarrow> (DatafuseComputeGroup option \<times> go_error option) go" where
  "fake_groups_Patch K ns name pt data opts subresources =
     fake_groups_result K (FakePatch datafusecomputegroupsResource ns name pt data subresources)"

definition fake_groups :: "k8s \<Rightarrow> string \<Rightarrow> (DatafuseComputeGroup, DatafuseComputeGroupList) ResourceInterface" where
  "fake_groups K ns = \<lparr>if_Create = fake_groups_Create K ns, if_Update = fake_groups_Update K ns,
     if_UpdateStatus = fake_groups_UpdateStatus K ns, if_Delete = fake_groups_Delete K ns,
     if_DeleteCollection = fake_groups_DeleteCollection K ns, if_Get = fake_groups_Get K ns,
     if_List = fake_groups_List K ns, if_Watch = fake_groups_Watch K ns, if_Patch = fake_groups_Patch K ns\<rparr>"

subsection \<open>\<^verbatim>\<open>fake_datafuseoperator.go\<close>\<close>

definition datafuseoperatorsResource :: gvr where
  "datafuseoperatorsResource = \<lparr>gvr_Group = ''datafuse'', gvr_Version = ''v1alpha1'', gvr_Resource = ''datafuseoperators''\<rparr>"

text \<open>What every method that returns an object does with the answer of \<^verbatim>\<open>Invokes\<close>.\<close>

definition fake_operators_result :: "k8s \<Rightarrow> fake_action \<Rightarrow> (DatafuseOperator option \<times> go_error option) go" where
  "fake_operators_result K action =
     bind_io (invokes K action (OperatorPtr 0 zero_Operator)) (\<lambda>(obj, err).
     case obj of None \<Rightarrow> ret (None, err)
     | Some (OperatorPtr _ x) \<Rightarrow> ret (Some x, err)
     | Some _ \<Rightarrow> panic)"

definition fake_operators_Get :: "k8s \<Rightarrow> string \<Rightarrow> string \<Rightarrow> string \<Rightarrow> (DatafuseOperator option \<times> go_error option) go" where
  "fake_operators_Get K ns name options = fake_operators_result K (FakeGet datafuseoperatorsResource ns name)"

fun fake_operators_matching :: "(string gomap \<Rightarrow> bool) \<Rightarrow> DatafuseOperator list \<Rightarrow> DatafuseOperator goslice \<Rightarrow> DatafuseOperator goslice" where
  "fake_operators_matching label [] items = items"
| "fake_operators_matching label (item # rest) items =
     (if label (om_Labels (op_Meta item))
      then fake_operators_matching label rest (Some (elems items @ [item]))
      else fake_operators_matching label rest items)"

definition fake_operators_List :: "k8s \<Rightarrow> string \<Rightarrow> ListOptions \<Rightarrow> (DatafuseOperatorList option \<times> go_error option) go" where
  "fake_operators_List K ns opts =
     bind_io (invokes K (FakeList datafuseoperatorsResource ns opts) (OperatorListPtr 0 zero_OperatorList)) (\<lambda>(obj, err).
     case obj of None \<Rightarrow> ret (None, err)
     | Some (OperatorListPtr _ l) \<Rightarrow>
         let label = (case k_extractLabel K opts of None \<Rightarrow> (\<lambda>_. True) | Some f \<Rightarrow> f)
         in ret (Some (zero_OperatorList\<lparr>opl_ListMeta := opl_ListMeta l,
                   opl_Items := fake_operators_matching label (elems (opl_Items l)) None\<rparr>), err)
     | Some _ \<Rightarrow> panic)"

definition fake_operators_Watch :: "k8s \<Rightarrow> string \<Rightarrow> ListOptions \<Rightarrow> (watch option \<times> go_error option) go" where
  "fake_operators_Watch K ns opts =
     perform (Invokes (FakeWatch datafuseoperatorsResource ns opts))
       (\<lambda>h. k_invokesWatch K h (FakeWatch datafuseoperatorsResource ns opts))"

definition fake_operators_Create :: "k8s \<Rightarrow> string \<Rightarrow> DatafuseOperator \<Rightarrow> string \<Rightarrow> (DatafuseOperator option \<times> go_error option) go" where
  "fake_operators_Create K ns x opts = fake_operators_result K (FakeCreate datafuseoperatorsResource ns (OperatorPtr 0 x))"

definition fake_operators_Update :: "k8s \<Rightarrow> string \<Rightarrow> DatafuseOperator \<Rightarrow> string \<Rightarrow> (DatafuseOperator option \<times> go_error option) go" where
  "fake_operators_Update K ns x opts = fake_operators_result K (FakeUpdate datafuseoperatorsResource ns (OperatorPtr 0 x))"

definition fake_operators_UpdateStatus :: "k8s \<Rightarrow> string \<Rightarrow> DatafuseOperator \<Rightarrow> string \<Rightarrow> (DatafuseOperator option \<times> go_error option) go" where
  "fake_operators_UpdateStatus K ns x opts =
     fake_operators_result K (FakeUpdateSubresource datafuseoperatorsResource ''status'' ns (OperatorPtr 0 x))"

definition fake_operators_Delete :: "k8s \<Rightarrow> string \<Rightarrow> string \<Rightarrow> string \<Rightarrow> go_error option go" where
  "fake_operators_Delete K ns name opts =
     bind_io (invokes K (FakeDelete datafuseoperatorsResource ns name) (OperatorPtr 0 zero_Operator)) (\<lambda>(obj, err). ret err)"

definition fake_operators_DeleteCollection :: "k8s \<Rightarrow> string \<Rightarrow> string \<Rightarrow> ListOptions \<Rightarrow> go_error option go" where
  "fake_operators_DeleteCollection K ns opts listOpts =
     bind_io (invokes K (FakeDeleteCollection datafuseoperatorsResource ns listOpts) (OperatorListPtr 0 zero_OperatorList)) (\<lambda>(obj, err). ret err)"

definition fake_operators_Patch :: "k8s \<Rightarrow> string \<Rightarrow> string \<Rightarrow> string \<Rightarrow> string \<Rightarrow> string \<Rightarrow> string list
    \<Rightarrow> (DatafuseOperator option \<times> go_error option) go" where
  "fake_operators_Patch K ns name pt data opts subresources =
     fake_operators_result K (FakePatch datafuseoperatorsResource ns name pt data subresources)"

definition fake_operators :: "k8s \<Rightarrow> string \<Rightarrow> (DatafuseOperator, DatafuseOperatorList) ResourceInterface" where
  "fake_operators K ns = \<lparr>if_Create = fake_operators_Create K ns, if_Update = fake_operators_Update K ns,
     if_UpdateStatus = fake_operators_UpdateStatus K ns, if_Delete = fake_operators_Delete K ns,
     if_DeleteCollection = fake_operators_DeleteCollection K ns, if_Get = fake_operators_Get K ns,
     if_List = fake_operators_List K ns, if_Watch = fake_operators_Watch K ns, if_Patch = fake_operators_Patch K ns\<rparr>"

definition FakeDatafuseV1alpha1 :: "k8s \<Rightarrow> DatafuseV1alpha1Interface" where
  "FakeDatafuseV1alpha1 K = \<lparr>DatafuseComputeGroups = fake_groups K, DatafuseOperators = fake_operators K\<rparr>"

section \<open>Construction of a clientset\<close>

text \<open>
  The fields of \<^verbatim>\<open>rest.Config\<close> that the generated code reads or writes.  The constructors of
  \<^verbatim>\<open>client-go\<close> are parameters: \<open>RESTClientFor\<close> and \<open>NewDiscoveryClientForConfig\<close> build a client
  from a configuration or fail, \<open>agent\<close> is \<^verbatim>\<open>rest.DefaultKubernetesUserAgent()\<close>.
\<close>

datatype RateLimiter = TokenBucket rat int | OtherLimiter string

record rest_config =
  cf_RateLimiter :: "RateLimiter option"
  cf_QPS :: rat
  cf_Burst :: int
  cf_GroupVersion :: "(string \<times> string) option"
  cf_APIPath :: string
  cf_UserAgent :: string

definition setConfigDefaults :: "string \<Rightarrow> rest_config \<Rightarrow> rest_config" where
  "setConfigDefaults agent config =
     (let config' = config\<lparr>cf_GroupVersion := Some SchemeGroupVersion, cf_APIPath := ''/apis''\<rparr>
      in if cf_UserAgent config' = '''' then config'\<lparr>cf_UserAgent := agent\<rparr> else config')"

definition v1alpha1_NewForConfig ::
    "string \<Rightarrow> (rest_config \<Rightarrow> go_error + 'r) \<Rightarrow> rest_config \<Rightarrow> go_error + 'r" where
  "v1alpha1_NewForConfig agent RESTClientFor c = RESTClientFor (setConfigDefaults agent c)"

text \<open>The clientset is the pair of the discovery client and the typed client.\<close>

definition NewForConfig ::
    "string \<Rightarrow> (rest_config \<Rightarrow> go_error + 'r) \<Rightarrow> (rest_config \<Rightarrow> go_error + 'd) \<Rightarrow> rest_config
       \<Rightarrow> go_error + 'd \<times> 'r" where
  "NewForConfig agent RESTClientFor NewDiscoveryClientForConfig c =
     (if cf_RateLimiter c = None \<and> 0 < cf_QPS c \<and> cf_Burst c \<le> 0
      then Inl (Errorf ''burst is required to be greater than 0 when RateLimiter is not set and QPS is set to greater than 0'')
      else
        let cfg = (if cf_RateLimiter c = None \<and> 0 < cf_QPS c
                   then c\<lparr>cf_RateLimiter := Some (TokenBucket (cf_QPS c) (cf_Burst c))\<rparr> else c)
        in case v1alpha1_NewForConfig agent RESTClientFor cfg of
             Inl err \<Rightarrow> Inl err
           | Inr client \<Rightarrow>
               (case NewDiscoveryClientForConfig cfg of
                  Inl err \<Rightarrow> Inl err
                | Inr discovery \<Rightarrow> Inr (discovery, client)))"

text \<open>The two \<^verbatim>\<open>NewForConfigOrDie\<close> panic (\<open>None\<close>) where the others return an error.\<close>

definition v1alpha1_NewForConfigOrDie ::
    "string \<Rightarrow> (rest_config \<Rightarrow> go_error + 'r) \<Rightarrow> rest_config \<Rightarrow> 'r option" where
  "v1alpha1_NewForConfigOrDie agent RESTClientFor c =
     (case v1alpha1_NewForConfig agent RESTClientFor c of Inl err \<Rightarrow> None | Inr client \<Rightarrow> Some client)"

definition NewForConfigOrDie ::
    "string \<Rightarrow> (rest_config \<Rightarrow> go_error + 'r) \<Rightarrow> (rest_config \<Rightarrow> 'd option) \<Rightarrow> rest_config
       \<Rightarrow> ('d \<times> 'r) option" where
  "NewForConfigOrDie agent RESTClientFor NewDiscoveryClientForConfigOrDie c =
     (case v1alpha1_NewForConfigOrDie agent RESTClientFor c of None \<Rightarrow> None
      | Some client \<Rightarrow>
          (case NewDiscoveryClientForConfigOrDie c of None \<Rightarrow> None
           | Some discovery \<Rightarrow> Some (discovery, client)))"

text \<open>The constructors from a REST client, and the accessors, which a nil receiver answers with nil (\<open>None\<close>).\<close>

definition v1alpha1_New :: "'r \<Rightarrow> 'r" where
  "v1alpha1_New c = c"

definition clientset_New :: "('r \<Rightarrow> 'd) \<Rightarrow> 'r \<Rightarrow> 'd \<times> 'r" where
  "clientset_New NewDiscoveryClient c = (NewDiscoveryClient c, v1alpha1_New c)"

definition v1alpha1_RESTClient :: "'r option \<Rightarrow> 'r option" where
  "v1alpha1_RESTClient c = (case c of None \<Rightarrow> None | Some restClient \<Rightarrow> Some restClient)"

definition clientset_Discovery :: "('d \<times> 'r) option \<Rightarrow> 'd option" where
  "clientset_Discovery c = (case c of None \<Rightarrow> None | Some (discovery, client) \<Rightarrow> Some discovery)"

lemmas typed_group_defs = groups_Get_def groups_List_def groups_Watch_def groups_Create_def
  groups_Update_def groups_UpdateStatus_def groups_Delete_def groups_DeleteCollection_def
  groups_Patch_def groups_def do_group_def request_def

lemmas typed_operator_defs = operators_Get_def operators_List_def operators_Watch_def
  operators_Create_def operators_Update_def operators_UpdateStatus_def operators_Delete_def
  operators_DeleteCollection_def operators_Patch_def operators_def do_operator_def request_def

lemmas fake_group_defs = fake_groups_Get_def fake_groups_List_def fake_groups_Watch_def
  fake_groups_Create_def fake_groups_Update_def fake_groups_UpdateStatus_def fake_groups_Delete_def
  fake_groups_DeleteCollection_def fake_groups_Patch_def fake_groups_def fake_groups_result_def

lemmas fake_operator_defs = fake_operators_Get_def fake_operators_List_def fake_operators_Watch_def
  fake_operators_Create_def fake_operators_Update_def fake_operators_UpdateStatus_def
  fake_operators_Delete_def fake_operators_DeleteCollection_def fake_operators_Patch_def
  fake_operators_def fake_operators_result_def

section \<open>The contract of a client\<close>

text \<open>
  What the controllers rely on when they create and update: one call, no panic, and an object
  whenever there is no error (so that reading the result after the check of \<^verbatim>\<open>err\<close> is safe).
  \<open>create\<close> and \<open>update\<close> name the calls.
\<close>

locale resource_client =
  fixes c :: "string \<Rightarrow> ('o, 'l) ResourceInterface"
    and create update :: "string \<Rightarrow> 'o \<Rightarrow> string \<Rightarrow> call"
  assumes create_once: "\<exists>r err. if_Create (c ns) x opts h = (Some (r, err), h @ [create ns x opts])
        \<and> (err = None \<longrightarrow> r \<noteq> None)"
    and update_once: "\<exists>r err. if_Update (c ns) x opts h = (Some (r, err), h @ [update ns x opts])
        \<and> (err = None \<longrightarrow> r \<noteq> None)"
begin

lemma create_call: "snd (if_Create (c ns) x opts h) = h @ [create ns x opts]"
  using create_once [of ns x opts h] by auto

lemma update_call: "snd (if_Update (c ns) x opts h) = h @ [update ns x opts]"
  using update_once [of ns x opts h] by auto

lemma create_returns: "fst (if_Create (c ns) x opts h) = Some (r, err) \<Longrightarrow> err = None \<Longrightarrow> r \<noteq> None"
  using create_once [of ns x opts h] by auto

lemma update_total: "fst (if_Update (c ns) x opts h) \<noteq> None"
  using update_once [of ns x opts h] by auto

lemma emits_update: "(\<And>h. P h (update ns x opts)) \<Longrightarrow> emits P (if_Update (c ns) x opts)"
  by (rule emitsI) (simp add: update_call)

lemma emits_create: "(\<And>h. P h (create ns x opts)) \<Longrightarrow> emits P (if_Create (c ns) x opts)"
  by (rule emitsI) (simp add: create_call)

end

text \<open>The requests that the typed clients make for these two methods.\<close>

definition group_create_call :: "string \<Rightarrow> DatafuseComputeGroup \<Rightarrow> string \<Rightarrow> call" where
  "group_create_call ns x opts = Rest ((request ''POST'' ns ''datafusecomputegroups'')
     \<lparr>rq_Params := Some (CreateOptions opts), rq_Body := GroupBody x\<rparr>)"

definition group_update_call :: "string \<Rightarrow> DatafuseComputeGroup \<Rightarrow> string \<Rightarrow> call" where
  "group_update_call ns x opts = Rest ((request ''PUT'' ns ''datafusecomputegroups'')
     \<lparr>rq_Name := Some (om_Name (cg_Meta x)), rq_Params := Some (UpdateOptions opts), rq_Body := GroupBody x\<rparr>)"

definition operator_create_call :: "string \<Rightarrow> DatafuseOperator \<Rightarrow> string \<Rightarrow> call" where
  "operator_create_call ns x opts = Rest ((request ''POST'' ns ''datafuseoperators'')
     \<lparr>rq_Params := Some (CreateOptions opts), rq_Body := OperatorBody x\<rparr>)"

definition operator_update_call :: "string \<Rightarrow> DatafuseOperator \<Rightarrow> string \<Rightarrow> call" where
  "operator_update_call ns x opts = Rest ((request ''PUT'' ns ''datafuseoperators'')
     \<lparr>rq_Name := Some (om_Name (op_Meta x)), rq_Params := Some (UpdateOptions opts), rq_Body := OperatorBody x\<rparr>)"

interpretation typed_groups: resource_client "groups K" group_create_call group_update_call for K
  by unfold_locales
    (auto simp: typed_group_defs group_create_call_def group_update_call_def io_simps split: prod.split)

interpretation typed_operators: resource_client "operators K" operator_create_call operator_update_call for K
  by unfold_locales
    (auto simp: typed_operator_defs operator_create_call_def operator_update_call_def io_simps split: prod.split)

text \<open>
  A fake client keeps the contract when its reactions do: an action on an object answers with an
  object of the same type, or with none and an error, as the object tracker's reaction does.
\<close>

definition reaction_law :: "k8s \<Rightarrow> bool" where
  "reaction_law K \<longleftrightarrow> (\<forall>h action a x. case k_invokes K h action (GroupPtr a x) of (obj, err) \<Rightarrow>
       (case obj of None \<Rightarrow> err \<noteq> None | Some y \<Rightarrow> group_of y \<noteq> None))
   \<and> (\<forall>h action a x. case k_invokes K h action (OperatorPtr a x) of (obj, err) \<Rightarrow>
       (case obj of None \<Rightarrow> err \<noteq> None | Some y \<Rightarrow> operator_of y \<noteq> None))"

lemma ref_reaction_law: "reaction_law ref_k8s"
  by (simp add: reaction_law_def ref_k8s_def group_of_def operator_of_def)

lemma fake_groups_result_run:
  assumes "reaction_law K"
  shows "\<exists>r err. fake_groups_result K action h = (Some (r, err), h @ [Invokes action])
    \<and> (err = None \<longrightarrow> r \<noteq> None)"
proof -
  obtain obj err where *: "k_invokes K h action (GroupPtr 0 zero_Group) = (obj, err)" by fastforce
  with assms have "case obj of None \<Rightarrow> err \<noteq> None | Some y \<Rightarrow> group_of y \<noteq> None"
    unfolding reaction_law_def by (metis (mono_tags, lifting) case_prod_conv)
  with * show ?thesis
    by (auto simp: fake_groups_result_def group_of_def io_simps split: option.splits go_obj.splits)
qed

lemma fake_operators_result_run:
  assumes "reaction_law K"
  shows "\<exists>r err. fake_operators_result K action h = (Some (r, err), h @ [Invokes action])
    \<and> (err = None \<longrightarrow> r \<noteq> None)"
proof -
  obtain obj err where *: "k_invokes K h action (OperatorPtr 0 zero_Operator) = (obj, err)" by fastforce
  with assms have "case obj of None \<Rightarrow> err \<noteq> None | Some y \<Rightarrow> operator_of y \<noteq> None"
    unfolding reaction_law_def by (metis (mono_tags, lifting) case_prod_conv)
  with * show ?thesis
    by (auto simp: fake_operators_result_def operator_of_def io_simps split: option.splits go_obj.splits)
qed

lemma fake_group_client:
  assumes "reaction_law K"
  shows "resource_client (fake_groups K)
    (\<lambda>ns x opts. Invokes (FakeCreate datafusecomputegroupsResource ns (GroupPtr 0 x)))
    (\<lambda>ns x opts. Invokes (FakeUpdate datafusecomputegroupsResource ns (GroupPtr 0 x)))"
  by unfold_locales
    (simp_all add: fake_groups_def fake_groups_Create_def fake_groups_Update_def
      fake_groups_result_run [OF assms, simplified])

lemma fake_operator_client:
  assumes "reaction_law K"
  shows "resource_client (fake_operators K)
    (\<lambda>ns x opts. Invokes (FakeCreate datafuseoperatorsResource ns (OperatorPtr 0 x)))
    (\<lambda>ns x opts. Invokes (FakeUpdate datafuseoperatorsResource ns (OperatorPtr 0 x)))"
  by unfold_locales
    (simp_all add: fake_operators_def fake_operators_Create_def fake_operators_Update_def
      fake_operators_result_run [OF assms, simplified])

lemma fake_groups_matching_filter:
  "elems (fake_groups_matching label xs items) = elems items @ filter (\<lambda>x. label (om_Labels (cg_Meta x))) xs"
  by (induction xs arbitrary: items) auto

lemma fake_operators_matching_filter:
  "elems (fake_operators_matching label xs items) = elems items @ filter (\<lambda>x. label (om_Labels (op_Meta x))) xs"
  by (induction xs arbitrary: items) auto

section \<open>Properties\<close>

text \<open>The request timeout that a list or watch computes from \<^verbatim>\<open>TimeoutSeconds\<close> is that
  many nanoseconds as long as the seconds fit, and the bound is sharp: one second more wraps
  around to a negative duration.\<close>

theorem list_timeout_bounds:
  "(lo_TimeoutSeconds opts = None \<longrightarrow> list_timeout opts = 0)
   \<and> (\<forall>s. lo_TimeoutSeconds opts = Some s \<and> 0 \<le> sint s \<and> sint s \<le> 9223372036 \<longrightarrow>
        sint (list_timeout opts) = sint s * 10 ^ 9)
   \<and> (lo_TimeoutSeconds opts = Some 9223372037 \<longrightarrow> sint (list_timeout opts) < 0)"
proof (intro conjI impI allI)
  assume "lo_TimeoutSeconds opts = None"
  then show "list_timeout opts = 0" by (simp add: list_timeout_def)
next
  fix s
  assume s: "lo_TimeoutSeconds opts = Some s \<and> 0 \<le> sint s \<and> sint s \<le> 9223372036"
  then have "sint (word_of_int (sint s * 1000000000) :: int64) = sint s * 1000000000"
    by (intro sint_int64_of_int) simp_all
  with s show "sint (list_timeout opts) = sint s * 10 ^ 9"
    by (simp add: list_timeout_def)
next
  assume "lo_TimeoutSeconds opts = Some 9223372037"
  then show "sint (list_timeout opts) < 0" by (simp add: list_timeout_def)
qed

text \<open>The configuration with the limiter that a positive query rate asks for.\<close>

definition limited_config :: "rest_config \<Rightarrow> rest_config" where
  "limited_config c = (if cf_RateLimiter c = None \<and> 0 < cf_QPS c
     then c\<lparr>cf_RateLimiter := Some (TokenBucket (cf_QPS c) (cf_Burst c))\<rparr> else c)"

text \<open>\<^verbatim>\<open>NewForConfig\<close> succeeds exactly when a configuration that asks for a query rate
  without a limiter also has a positive burst, and both constructors of \<^verbatim>\<open>client-go\<close> accept: the
  discovery client gets the configuration with its limiter filled in, and the typed client the
  same one with the API path and group version of the custom resources and a user agent that is
  never replaced when it is set.\<close>

theorem NewForConfig_spec:
  "NewForConfig agent rest disc c = Inr (d, r) \<longleftrightarrow>
     \<not> (cf_RateLimiter c = None \<and> 0 < cf_QPS c \<and> cf_Burst c \<le> 0)
     \<and> disc (limited_config c) = Inr d
     \<and> rest ((limited_config c)\<lparr>cf_GroupVersion := Some SchemeGroupVersion, cf_APIPath := ''/apis'',
           cf_UserAgent := (if cf_UserAgent c = '''' then agent else cf_UserAgent c)\<rparr>) = Inr r"
proof -
  have agent: "setConfigDefaults agent (limited_config c) = (limited_config c)\<lparr>
      cf_GroupVersion := Some SchemeGroupVersion, cf_APIPath := ''/apis'',
      cf_UserAgent := (if cf_UserAgent c = '''' then agent else cf_UserAgent c)\<rparr>"
    by (simp add: setConfigDefaults_def limited_config_def Let_def)
  show ?thesis
    unfolding NewForConfig_def v1alpha1_NewForConfig_def Let_def limited_config_def [symmetric] agent
    by (auto split: sum.splits)
qed

section \<open>The properties at concrete inputs\<close>

theorem list_timeout_bounds_witness:
  "sint (list_timeout \<lparr>lo_LabelSelector = '''', lo_FieldSelector = '''', lo_Watch = False, lo_TimeoutSeconds = Some 30\<rparr>)
     = 30 * 10 ^ 9"
  using list_timeout_bounds [of "\<lparr>lo_LabelSelector = '''', lo_FieldSelector = '''', lo_Watch = False,
    lo_TimeoutSeconds = Some 30\<rparr>"]
  by simp

end
