(* ===== verification/Defaults.thy ===== *)
theory Defaults
  imports Reference_Cluster
begin

text \<open>
  \<^verbatim>\<open>pkg/apis/datafuse/v1alpha1/defaults.go\<close>: the defaults of an operator and of a compute
  group.  Both functions change the object behind a pointer and do nothing for a nil pointer;
  the model takes the pointer as an \<open>option\<close> and returns it with the changed object.
\<close>

text \<open>The four assignments of \<^verbatim>\<open>SetDatafuseOperatorDefault\<close>, each under its guard.\<close>

definition default_operator_namespace :: "DatafuseOperator \<Rightarrow> DatafuseOperator" where
  "default_operator_namespace op =
     (if om_Namespace (op_Meta op) = '''' then op\<lparr>op_Meta := (op_Meta op)\<lparr>om_Namespace := ''default''\<rparr>\<rparr> else op)"

definition default_operator_name :: "DatafuseOperator \<Rightarrow> DatafuseOperator" where
  "default_operator_name op =
     (if om_Name (op_Meta op) = '''' then op\<lparr>op_Meta := (op_Meta op)\<lparr>om_Name := ''default-operator''\<rparr>\<rparr> else op)"

definition default_operator_groups :: "DatafuseOperator \<Rightarrow> DatafuseOperator" where
  "default_operator_groups op =
     (if os_ComputeGroups (op_Spec op) = None then op\<lparr>op_Spec := (op_Spec op)\<lparr>os_ComputeGroups := Some []\<rparr>\<rparr> else op)"

definition default_operator_status :: "DatafuseOperator \<Rightarrow> DatafuseOperator" where
  "default_operator_status op =
     (if ost_Status (op_Status op) = '''' then op\<lparr>op_Status := (op_Status op)\<lparr>ost_Status := OperatorCreated\<rparr>\<rparr> else op)"

definition SetDatafuseOperatorDefault :: "DatafuseOperator option \<Rightarrow> DatafuseOperator option" where
  "SetDatafuseOperatorDefault operator = (case operator of None \<Rightarrow> None | Some op \<Rightarrow>
     Some (default_operator_status (default_operator_groups
       (default_operator_name (default_operator_namespace op)))))"

lemmas default_operator_defs = default_operator_namespace_def default_operator_name_def
  default_operator_groups_def default_operator_status_def

definition SetDatafuseComputeGroupDefaults ::
    "k8s \<Rightarrow> DatafuseOperator option \<Rightarrow> DatafuseComputeGroup option \<Rightarrow> DatafuseComputeGroup option" where
  "SetDatafuseComputeGroupDefaults K parentOperator cg =
     (case parentOperator of None \<Rightarrow> cg | Some parent \<Rightarrow>
      (case cg of None \<Rightarrow> cg | Some g0 \<Rightarrow>
       let g1 = (if om_OwnerReferences (cg_Meta g0) = None
                    \<or> \<not> k_isControlledBy K (cg_Meta g0) (op_Meta parent)
                 then g0\<lparr>cg_Meta := (cg_Meta g0)\<lparr>om_OwnerReferences :=
                        Some [k_newControllerRef K (op_Meta parent) (WithKind ''DatafuseOperator'')]\<rparr>\<rparr>
                 else g0);
           g2 = (if om_Namespace (cg_Meta g1) = ''''
                 then g1\<lparr>cg_Meta := (cg_Meta g1)\<lparr>om_Namespace := ''default''\<rparr>\<rparr> else g1)
       in Some g2))"

section \<open>The contract of a defaulting function\<close>

text \<open>
  What both functions promise to the controllers that call them: they never lose an object,
  the result is complete (\<open>ok\<close>), an object that is complete already is left alone, and hence
  calling them twice, as the controllers do, is the same as calling them once.
\<close>

locale defaulting =
  fixes defaults :: "'o option \<Rightarrow> 'o option"
    and ok :: "'o \<Rightarrow> bool"
  assumes defaults_nil: "defaults None = None"
    and defaults_ok: "\<exists>y. defaults (Some x) = Some y \<and> ok y"
    and defaults_id: "ok x \<Longrightarrow> defaults (Some x) = Some x"
begin

lemma defaults_idem: "defaults (defaults p) = defaults p"
proof (cases p)
  case None
  then show ?thesis by (simp add: defaults_nil)
next
  case (Some x)
  from defaults_ok [of x] obtain y where y: "defaults (Some x) = Some y" "ok y" by blast
  with Some show ?thesis by (simp add: defaults_id)
qed

lemma defaults_nil_iff: "defaults p = None \<longleftrightarrow> p = None"
proof (cases p)
  case None
  then show ?thesis by (simp add: defaults_nil)
next
  case (Some x)
  with defaults_ok [of x] show ?thesis by auto
qed

lemma defaults_fixpoint_ok: "defaults (Some x) = Some x \<longleftrightarrow> ok x"
proof
  assume "defaults (Some x) = Some x"
  moreover obtain y where "defaults (Some x) = Some y" "ok y" using defaults_ok by blast
  ultimately show "ok x" by simp
qed (rule defaults_id)

end

definition complete_operator :: "DatafuseOperator \<Rightarrow> bool" where
  "complete_operator op \<longleftrightarrow> om_Namespace (op_Meta op) \<noteq> '''' \<and> om_Name (op_Meta op) \<noteq> ''''
     \<and> os_ComputeGroups (op_Spec op) \<noteq> None \<and> ost_Status (op_Status op) \<noteq> ''''"

definition complete_group :: "k8s \<Rightarrow> DatafuseOperator \<Rightarrow> DatafuseComputeGroup \<Rightarrow> bool" where
  "complete_group K parent g \<longleftrightarrow> om_OwnerReferences (cg_Meta g) \<noteq> None
     \<and> k_isControlledBy K (cg_Meta g) (op_Meta parent) \<and> om_Namespace (cg_Meta g) \<noteq> ''''"

interpretation operator_defaults: defaulting SetDatafuseOperatorDefault complete_operator
proof
  show "SetDatafuseOperatorDefault None = None"
    by (simp add: SetDatafuseOperatorDefault_def)
  fix op
  show "\<exists>y. SetDatafuseOperatorDefault (Some op) = Some y \<and> complete_operator y"
    by (simp add: SetDatafuseOperatorDefault_def complete_operator_def OperatorCreated_def default_operator_defs)
  show "SetDatafuseOperatorDefault (Some op) = Some op" if "complete_operator op"
    using that by (simp add: SetDatafuseOperatorDefault_def complete_operator_def default_operator_defs)
qed

text \<open>
  For groups the contract holds under the laws of controller references, for any parent.
\<close>

lemma isControlledBy_namespace:
  assumes "controller_ref_laws K"
  shows "k_isControlledBy K (m\<lparr>om_Namespace := ns\<rparr>) owner = k_isControlledBy K m owner"
  by (simp add: controller_ref_lawsD [OF assms])

lemma group_defaulting:
  assumes "controller_ref_laws K"
  shows "defaulting (SetDatafuseComputeGroupDefaults K (Some parent)) (complete_group K parent)"
  using new_controller_ref_controls [OF assms] isControlledBy_namespace [OF assms]
  by unfold_locales
    (auto simp: SetDatafuseComputeGroupDefaults_def complete_group_def Let_def)

interpretation group_defaults:
  defaulting "SetDatafuseComputeGroupDefaults ref_k8s (Some parent)" "complete_group ref_k8s parent"
  for parent
  by (rule group_defaulting [OF ref_controller_ref_laws])

section \<open>Consequences\<close>

lemma SetDatafuseOperatorDefault_keeps:
  assumes "SetDatafuseOperatorDefault (Some op) = Some op'"
  shows "elems (os_ComputeGroups (op_Spec op')) = elems (os_ComputeGroups (op_Spec op))"
    and "os_Version (op_Spec op') = os_Version (op_Spec op)"
    and "ost_ComputeGroupStates (op_Status op') = ost_ComputeGroupStates (op_Status op)"
    and "om_UID (op_Meta op') = om_UID (op_Meta op)"
  using assms by (auto simp: SetDatafuseOperatorDefault_def default_operator_defs split: if_splits)

lemma SetDatafuseOperatorDefault_Some: "\<exists>op'. SetDatafuseOperatorDefault (Some op) = Some op'"
  using operator_defaults.defaults_ok by blast

lemma SetDatafuseComputeGroupDefaults_Some:
  "\<exists>g'. SetDatafuseComputeGroupDefaults K (Some parent) (Some g) = Some g'"
  by (simp add: SetDatafuseComputeGroupDefaults_def Let_def)

lemma SetDatafuseComputeGroupDefaults_keeps:
  assumes "SetDatafuseComputeGroupDefaults K p (Some g) = Some g'"
  shows "om_Name (cg_Meta g') = om_Name (cg_Meta g)"
    and "om_Labels (cg_Meta g') = om_Labels (cg_Meta g)"
    and "cg_Spec g' = cg_Spec g" and "cg_Status g' = cg_Status g"
  using assms
  by (auto simp: SetDatafuseComputeGroupDefaults_def Let_def split: option.splits if_splits)

end
