(* ===== verification/Operator_Utils.thy ===== *)
theory Operator_Utils
  imports Defaults "HOL-Library.Monad_Syntax"
begin

text \<open>
  \<^verbatim>\<open>pkg/controllers/utils/operator_utils.go\<close>: the objects that the operator derives from a
  custom resource.  A function that reads through a pointer of the specification, or parses a
  quantity with \<^verbatim>\<open>resource.MustParse\<close>, may panic: its result is then \<open>None\<close>.
\<close>

section \<open>Status predicates\<close>

text \<open>
  \<^verbatim>\<open>IsOperatorCreated\<close> and \<^verbatim>\<open>IsComputeGroupCreated\<close> also write the default status through
  the pointer they get; the model returns the changed object beside the answer.
\<close>

definition IsOperatorCreated :: "DatafuseOperator \<Rightarrow> bool \<times> DatafuseOperator" where
  "IsOperatorCreated op =
     (let op' = (if ost_Status (op_Status op) = ''''
                 then op\<lparr>op_Status := (op_Status op)\<lparr>ost_Status := OperatorCreated\<rparr>\<rparr> else op)
      in (ost_Status (op_Status op') = OperatorCreated, op'))"

definition IsComputeGroupCreated :: "DatafuseComputeGroup \<Rightarrow> bool \<times> DatafuseComputeGroup" where
  "IsComputeGroupCreated cg =
     (let cg' = (if gst_Status (cg_Status cg) = ''''
                 then cg\<lparr>cg_Status := (cg_Status cg)\<lparr>gst_Status := ComputeGroupCreated\<rparr>\<rparr> else cg)
      in (gst_Status (cg_Status cg') = ComputeGroupCreated, cg'))"

section \<open>Pods\<close>

definition makePorts :: "DatafuseComputeInstanceSpec \<Rightarrow> ContainerPort list option" where
  "makePorts spec = do {
     http \<leftarrow> ci_HTTPPort spec;
     mysql \<leftarrow> ci_MysqlPort spec;
     clickhouse \<leftarrow> ci_ClickhousePort spec;
     rpc \<leftarrow> ci_RPCPort spec;
     metrics \<leftarrow> ci_MetricsPort spec;
     Some [
       \<lparr>cp_Name = ContainerHTTPPort, cp_ContainerPort = http, cp_Protocol = ProtocolTCP\<rparr>,
       \<lparr>cp_Name = ContainerMysqlPort, cp_ContainerPort = mysql, cp_Protocol = ProtocolTCP\<rparr>,
       \<lparr>cp_Name = ContainerClickhousePort, cp_ContainerPort = clickhouse, cp_Protocol = ProtocolTCP\<rparr>,
       \<lparr>cp_Name = ContainerRPCPort, cp_ContainerPort = rpc, cp_Protocol = ProtocolTCP\<rparr>,
       \<lparr>cp_Name = ContainerMetricsPort, cp_ContainerPort = metrics, cp_Protocol = ProtocolTCP\<rparr>]
   }"

definition makeEnvs :: "DatafuseComputeInstanceSpec \<Rightarrow> EnvVar list option" where
  "makeEnvs spec = do {
     cores \<leftarrow> ci_Cores spec;
     mysql \<leftarrow> ci_MysqlPort spec;
     clickhouse \<leftarrow> ci_ClickhousePort spec;
     http \<leftarrow> ci_HTTPPort spec;
     metrics \<leftarrow> ci_MetricsPort spec;
     rpc \<leftarrow> ci_RPCPort spec;
     priority \<leftarrow> ci_Priority spec;
     Some [
       \<lparr>ev_Name = FUSE_QUERY_NUM_CPUS, ev_Value = fmt_d (sint cores)\<rparr>,
       \<lparr>ev_Name = FUSE_QUERY_MYSQL_HANDLER_HOST, ev_Value = ''0.0.0.0''\<rparr>,
       \<lparr>ev_Name = FUSE_QUERY_MYSQL_HANDLER_PORT, ev_Value = fmt_d (sint mysql)\<rparr>,
       \<lparr>ev_Name = FUSE_QUERY_CLICKHOUSE_HANDLER_HOST, ev_Value = ''0.0.0.0''\<rparr>,
       \<lparr>ev_Name = FUSE_QUERY_CLICKHOUSE_HANDLER_PORT, ev_Value = fmt_d (sint clickhouse)\<rparr>,
       \<lparr>ev_Name = FUSE_QUERY_HTTP_API_ADDRESS, ev_Value = ''0.0.0.0:'' @ fmt_d (sint http)\<rparr>,
       \<lparr>ev_Name = FUSE_QUERY_METRIC_API_ADDRESS, ev_Value = ''0.0.0.0:'' @ fmt_d (sint metrics)\<rparr>,
       \<lparr>ev_Name = FUSE_QUERY_RPC_API_ADDRESS, ev_Value = ''0.0.0.0:'' @ fmt_d (sint rpc)\<rparr>,
       \<lparr>ev_Name = FUSE_QUERY_PRIORITY, ev_Value = fmt_d (sint priority)\<rparr>]
   }"

definition makeProbe :: "string \<Rightarrow> string \<Rightarrow> Probe" where
  "makeProbe path portName = \<lparr>
     pb_HTTPGet = \<lparr>hg_Path = path, hg_Port = Parse portName, hg_Scheme = URISchemeHTTP\<rparr>,
     pb_PeriodSeconds = 10, pb_SuccessThreshold = 1, pb_FailureThreshold = 3, pb_TimeoutSeconds = 1\<rparr>"

definition getMilliCPU :: "int32 option \<Rightarrow> int64" where
  "getMilliCPU cores = (case cores of None \<Rightarrow> 1300 | Some c \<Rightarrow> int64_of_int32 c * 1000 + 300)"

text \<open>\<^verbatim>\<open>resource.MustParse\<close> panics on a string that is not a quantity.\<close>

definition MustParse :: "k8s \<Rightarrow> string \<Rightarrow> Quantity option" where
  "MustParse K s = (if k_quantityParses K s then Some (ParsedQuantity s) else None)"

definition fillblank :: "k8s \<Rightarrow> string option \<Rightarrow> Quantity \<Rightarrow> Quantity option" where
  "fillblank K input quant = (case input of None \<Rightarrow> Some quant | Some s \<Rightarrow> do {
     inputQuant \<leftarrow> MustParse K s;
     Some (if k_quantityCmp K inputQuant quant < 0 then quant else inputQuant)
   })"

definition makeResourceRequirements ::
    "k8s \<Rightarrow> DatafuseComputeInstanceSpec \<Rightarrow> ResourceRequirements option" where
  "makeResourceRequirements K spec = do {
     memory \<leftarrow> ci_Memory spec;
     requestMemory \<leftarrow> MustParse K memory;
     limitCPU \<leftarrow> fillblank K (ci_CoreLimit spec) (NewMilliQuantity (getMilliCPU (ci_Cores spec)));
     memoryLimit \<leftarrow> ci_MemoryLimit spec;
     limitMemory \<leftarrow> MustParse K memoryLimit;
     Some \<lparr>
       rr_Requests = [(ResourceCPU, NewMilliQuantity (getMilliCPU (ci_Cores spec))),
                      (ResourceMemory, requestMemory)],
       rr_Limits = [(ResourceCPU, limitCPU), (ResourceMemory, limitMemory)]\<rparr>
   }"

definition convertInstanceSpecToPodSpec :: "k8s \<Rightarrow> DatafuseComputeInstanceSpec \<Rightarrow> PodSpec option" where
  "convertInstanceSpecToPodSpec K spec = do {
     image \<leftarrow> ci_Image spec;
     pullPolicy \<leftarrow> ci_ImagePullPolicy spec;
     envs \<leftarrow> makeEnvs spec;
     ports \<leftarrow> makePorts spec;
     resources \<leftarrow> makeResourceRequirements K spec;
     Some \<lparr>ps_Containers = [\<lparr>
       ct_Name = InstanceContainerName,
       ct_Image = image,
       ct_ImagePullPolicy = pullPolicy,
       ct_Env = envs,
       ct_Ports = ports,
       ct_LivenessProbe = makeProbe ''/v1/hello'' ContainerHTTPPort,
       ct_ReadinessProbe = makeProbe ''/v1/configs'' ContainerHTTPPort,
       ct_Resources = resources,
       ct_Args = []\<rparr>]\<rparr>
   }"

definition leaderString :: "bool \<Rightarrow> string" where
  "leaderString isLeader = (if isLeader then ComputeGroupRoleLeader else ComputeGroupRoleFollower)"

definition MakeFuseQueryPod ::
    "k8s \<Rightarrow> DatafuseComputeSetSpec \<Rightarrow> string \<Rightarrow> string \<Rightarrow> string \<Rightarrow> bool \<Rightarrow> Pod option" where
  "MakeFuseQueryPod K computeSet name namespace groupKey isLeader = do {
     spec \<leftarrow> convertInstanceSpecToPodSpec K (cs_Instance computeSet);
     Some \<lparr>
       pod_Meta = zero_ObjectMeta\<lparr>om_Name := name, om_Namespace := namespace,
         om_Labels := Some [(ComputeGroupLabel, groupKey), (ComputeGroupRoleLabel, leaderString isLeader)]\<rparr>,
       pod_Spec = spec,
       pod_Status = \<lparr>pst_Phase = '''', pst_PodIP = '''', pst_Conditions = []\<rparr>\<rparr>
   }"

section \<open>Deployments and services\<close>

definition MakeDeployment ::
    "k8s \<Rightarrow> DatafuseComputeSetSpec \<Rightarrow> string \<Rightarrow> string \<Rightarrow> string \<Rightarrow> string \<Rightarrow> bool \<Rightarrow> Deployment option" where
  "MakeDeployment K computeSet name namespace operatorKey groupKey isLeader =
     (let labels = Some [(OperatorLabel, operatorKey), (ComputeGroupLabel, groupKey),
                         (ComputeGroupRoleLabel, leaderString isLeader)]
      in do {
        spec \<leftarrow> convertInstanceSpecToPodSpec K (cs_Instance computeSet);
        Some \<lparr>
          dep_Meta = zero_ObjectMeta\<lparr>om_Name := name, om_Namespace := namespace, om_Labels := labels\<rparr>,
          dep_Spec = \<lparr>
            ds_Replicas = cs_Replicas computeSet,
            ds_MatchLabels = labels,
            ds_Template = \<lparr>pt_Labels = labels, pt_Spec = spec\<rparr>\<rparr>\<rparr>
      })"

definition servicePort :: "ContainerPort \<Rightarrow> ServicePort" where
  "servicePort port = \<lparr>sp_Name = cp_Name port, sp_Protocol = ProtocolTCP,
     sp_TargetPort = FromInt (sint (cp_ContainerPort port)), sp_Port = cp_ContainerPort port\<rparr>"

fun servicePortsLoop :: "ContainerPort list \<Rightarrow> ServicePort list" where
  "servicePortsLoop [] = []"
| "servicePortsLoop (port # ps) =
     (if cp_Name port \<in> {ContainerMetricsPort, ContainerHTTPPort, ContainerRPCPort,
                          ContainerMysqlPort, ContainerClickhousePort}
      then servicePort port # servicePortsLoop ps
      else servicePortsLoop ps)"

text \<open>\<^verbatim>\<open>Containers[0]\<close> panics when the template has no container.\<close>

definition makeServicePorts :: "Deployment \<Rightarrow> ServicePort list option" where
  "makeServicePorts d = (case ps_Containers (pt_Spec (ds_Template (dep_Spec d))) of
     [] \<Rightarrow> None | c # _ \<Rightarrow> Some (servicePortsLoop (ct_Ports c)))"

definition MakeService :: "string \<Rightarrow> Deployment \<Rightarrow> Service option" where
  "MakeService name deployment = do {
     ports \<leftarrow> makeServicePorts deployment;
     Some \<lparr>
       svc_Meta = zero_ObjectMeta\<lparr>om_Name := name, om_Namespace := om_Namespace (dep_Meta deployment),
         om_Labels := om_Labels (dep_Meta deployment),
         om_OwnerReferences := om_OwnerReferences (dep_Meta deployment)\<rparr>,
       svc_Spec = \<lparr>ss_Selector = om_Labels (dep_Meta deployment), ss_Ports = ports,
         ss_Type = ServiceTypeClusterIP\<rparr>\<rparr>
   }"

definition AddDeployOwnership :: "k8s \<Rightarrow> Deployment \<Rightarrow> DatafuseComputeGroup \<Rightarrow> Deployment" where
  "AddDeployOwnership K deploy owner =
     (let m1 = (if om_OwnerReferences (dep_Meta deploy) = None
                then (dep_Meta deploy)\<lparr>om_OwnerReferences := Some []\<rparr> else dep_Meta deploy)
      in if k_isControlledBy K m1 (cg_Meta owner) then deploy\<lparr>dep_Meta := m1\<rparr>
         else deploy\<lparr>dep_Meta := m1\<lparr>om_OwnerReferences :=
                Some (elems (om_OwnerReferences m1)
                  @ [k_newControllerRef K (cg_Meta owner) (WithKind ''DatafuseComputeGroup'')])\<rparr>\<rparr>)"

section \<open>Compute groups\<close>

definition GetOperatorKey :: "ObjectMeta \<Rightarrow> string" where
  "GetOperatorKey owner = om_Namespace owner @ ''-'' @ om_Name owner"

definition MakeComputeGroup ::
    "k8s \<Rightarrow> DatafuseOperator \<Rightarrow> DatafuseComputeGroupSpec \<Rightarrow> DatafuseComputeGroup option" where
  "MakeComputeGroup K owner groupSpec =
     (let g0 = zero_Group\<lparr>cg_Meta := zero_ObjectMeta\<lparr>om_Name := gs_Name groupSpec,
                 om_Namespace := gs_Namespace groupSpec\<rparr>\<rparr>;
          g1 = g0\<lparr>cg_Meta := (cg_Meta g0)\<lparr>om_Labels :=
                 map_put OperatorLabel (GetOperatorKey (op_Meta owner)) (Some [])\<rparr>\<rparr>
      in do {
        g2 \<leftarrow> SetDatafuseComputeGroupDefaults K (Some owner) (Some g1);
        Some (g2\<lparr>cg_Spec := groupSpec\<rparr>)
      })"

section \<open>When the derived objects exist\<close>

text \<open>
  The fields that an instance specification must have, and the quantities in it that must
  parse, for the pod template to be built at all.
\<close>

definition complete_instance :: "k8s \<Rightarrow> DatafuseComputeInstanceSpec \<Rightarrow> bool" where
  "complete_instance K spec \<longleftrightarrow>
     ci_HTTPPort spec \<noteq> None \<and> ci_MysqlPort spec \<noteq> None \<and> ci_ClickhousePort spec \<noteq> None
     \<and> ci_RPCPort spec \<noteq> None \<and> ci_MetricsPort spec \<noteq> None
     \<and> ci_Cores spec \<noteq> None \<and> ci_Priority spec \<noteq> None
     \<and> ci_Image spec \<noteq> None \<and> ci_ImagePullPolicy spec \<noteq> None
     \<and> (\<exists>m. ci_Memory spec = Some m \<and> k_quantityParses K m)
     \<and> (\<exists>m. ci_MemoryLimit spec = Some m \<and> k_quantityParses K m)
     \<and> (\<forall>c. ci_CoreLimit spec = Some c \<longrightarrow> k_quantityParses K c)"

lemma makePorts_None: "makePorts spec = None \<longleftrightarrow>
    ci_HTTPPort spec = None \<or> ci_MysqlPort spec = None \<or> ci_ClickhousePort spec = None
    \<or> ci_RPCPort spec = None \<or> ci_MetricsPort spec = None"
  by (simp add: makePorts_def Option.bind_eq_None_conv)

lemma makeEnvs_None: "makeEnvs spec = None \<longleftrightarrow>
    ci_Cores spec = None \<or> ci_MysqlPort spec = None \<or> ci_ClickhousePort spec = None
    \<or> ci_HTTPPort spec = None \<or> ci_MetricsPort spec = None \<or> ci_RPCPort spec = None
    \<or> ci_Priority spec = None"
  by (simp add: makeEnvs_def Option.bind_eq_None_conv)

lemma MustParse_None: "MustParse K s = None \<longleftrightarrow> \<not> k_quantityParses K s"
  by (simp add: MustParse_def)

lemma fillblank_None:
  "fillblank K input q = None \<longleftrightarrow> (\<exists>s. input = Some s \<and> \<not> k_quantityParses K s)"
  by (simp add: fillblank_def MustParse_def split: option.split)

lemma makeResourceRequirements_None: "makeResourceRequirements K spec = None \<longleftrightarrow>
    \<not> ((\<exists>m. ci_Memory spec = Some m \<and> k_quantityParses K m)
       \<and> (\<exists>m. ci_MemoryLimit spec = Some m \<and> k_quantityParses K m)
       \<and> (\<forall>c. ci_CoreLimit spec = Some c \<longrightarrow> k_quantityParses K c))"
  by (cases "ci_Memory spec"; cases "ci_MemoryLimit spec"; cases "ci_CoreLimit spec")
    (auto simp: makeResourceRequirements_def MustParse_def fillblank_def)

lemma convertInstanceSpecToPodSpec_None:
  "convertInstanceSpecToPodSpec K spec = None \<longleftrightarrow>
     ci_Image spec = None \<or> ci_ImagePullPolicy spec = None \<or> makeEnvs spec = None
     \<or> makePorts spec = None \<or> makeResourceRequirements K spec = None"
  by (simp add: convertInstanceSpecToPodSpec_def Option.bind_eq_None_conv)

lemma convertInstanceSpecToPodSpec_exists:
  "convertInstanceSpecToPodSpec K spec \<noteq> None \<longleftrightarrow> complete_instance K spec"
  by (auto simp: convertInstanceSpecToPodSpec_None makeEnvs_None makePorts_None
      makeResourceRequirements_None complete_instance_def)

lemma MakeDeployment_exists:
  "MakeDeployment K cs name ns ok gk l \<noteq> None \<longleftrightarrow> complete_instance K (cs_Instance cs)"
  by (simp add: MakeDeployment_def Let_def Option.bind_eq_None_conv
      flip: convertInstanceSpecToPodSpec_exists)

lemma MakeFuseQueryPod_exists:
  "MakeFuseQueryPod K cs name ns gk l \<noteq> None \<longleftrightarrow> complete_instance K (cs_Instance cs)"
  by (simp add: MakeFuseQueryPod_def Option.bind_eq_None_conv
      flip: convertInstanceSpecToPodSpec_exists)

section \<open>What the derived objects say\<close>

lemma MakeDeployment_SomeE:
  assumes "MakeDeployment K cs name ns ok gk l = Some d"
  obtains spec where "convertInstanceSpecToPodSpec K (cs_Instance cs) = Some spec"
    and "dep_Meta d = zero_ObjectMeta\<lparr>om_Name := name, om_Namespace := ns,
           om_Labels := Some [(OperatorLabel, ok), (ComputeGroupLabel, gk),
                              (ComputeGroupRoleLabel, leaderString l)]\<rparr>"
    and "ds_Replicas (dep_Spec d) = cs_Replicas cs"
    and "ds_MatchLabels (dep_Spec d) = om_Labels (dep_Meta d)"
    and "pt_Labels (ds_Template (dep_Spec d)) = om_Labels (dep_Meta d)"
    and "pt_Spec (ds_Template (dep_Spec d)) = spec"
  using assms by (auto simp: MakeDeployment_def Let_def Option.bind_eq_Some_conv)

lemma MakeDeployment_meta:
  assumes "MakeDeployment K cs name ns ok gk l = Some d"
  shows "om_Name (dep_Meta d) = name" and "om_Namespace (dep_Meta d) = ns"
    and "om_OwnerReferences (dep_Meta d) = None"
    and "map_get (om_Labels (dep_Meta d)) ComputeGroupLabel = Some gk"
    and "map_get (om_Labels (dep_Meta d)) OperatorLabel = Some ok"
    and "map_get (om_Labels (dep_Meta d)) ComputeGroupRoleLabel = Some (leaderString l)"
  by (rule MakeDeployment_SomeE [OF assms], simp add: zero_ObjectMeta_def label_defs)+

lemma AddDeployOwnership_meta:
  "dep_Spec (AddDeployOwnership K d cg) = dep_Spec d"
  "om_Name (dep_Meta (AddDeployOwnership K d cg)) = om_Name (dep_Meta d)"
  "om_Namespace (dep_Meta (AddDeployOwnership K d cg)) = om_Namespace (dep_Meta d)"
  "om_Labels (dep_Meta (AddDeployOwnership K d cg)) = om_Labels (dep_Meta d)"
  by (simp_all add: AddDeployOwnership_def Let_def)

text \<open>A deployment fresh from \<^verbatim>\<open>MakeDeployment\<close> has no owner yet; afterwards the group controls it.\<close>

lemma AddDeployOwnership_fresh:
  assumes "controller_ref_laws K" and "om_OwnerReferences (dep_Meta d) = None"
  shows "om_OwnerReferences (dep_Meta (AddDeployOwnership K d cg)) =
      Some [k_newControllerRef K (cg_Meta cg) (WithKind ''DatafuseComputeGroup'')]"
    and "k_isControlledBy K (dep_Meta (AddDeployOwnership K d cg)) (cg_Meta cg)"
  using assms(2) new_controller_ref_controls [OF assms(1)]
  by (simp_all add: AddDeployOwnership_def Let_def controller_ref_lawsD [OF assms(1)])

lemma servicePortsLoop_filter:
  "servicePortsLoop ps = map servicePort (filter (\<lambda>p. cp_Name p \<in> {ContainerMetricsPort,
     ContainerHTTPPort, ContainerRPCPort, ContainerMysqlPort, ContainerClickhousePort}) ps)"
  by (induction ps) simp_all

lemma makePorts_SomeE:
  assumes "makePorts spec = Some ports"
  obtains http mysql clickhouse rpc metrics where
    "ci_HTTPPort spec = Some http" "ci_MysqlPort spec = Some mysql"
    "ci_ClickhousePort spec = Some clickhouse" "ci_RPCPort spec = Some rpc"
    "ci_MetricsPort spec = Some metrics"
    "ports = [
       \<lparr>cp_Name = ContainerHTTPPort, cp_ContainerPort = http, cp_Protocol = ProtocolTCP\<rparr>,
       \<lparr>cp_Name = ContainerMysqlPort, cp_ContainerPort = mysql, cp_Protocol = ProtocolTCP\<rparr>,
       \<lparr>cp_Name = ContainerClickhousePort, cp_ContainerPort = clickhouse, cp_Protocol = ProtocolTCP\<rparr>,
       \<lparr>cp_Name = ContainerRPCPort, cp_ContainerPort = rpc, cp_Protocol = ProtocolTCP\<rparr>,
       \<lparr>cp_Name = ContainerMetricsPort, cp_ContainerPort = metrics, cp_Protocol = ProtocolTCP\<rparr>]"
  using assms by (auto simp: makePorts_def Option.bind_eq_Some_conv)

text \<open>No port of an instance is dropped on the way to the service.\<close>

lemma makePorts_all_served:
  "makePorts spec = Some ports \<Longrightarrow> servicePortsLoop ports = map servicePort ports"
  by (erule makePorts_SomeE) simp

lemma convertInstanceSpecToPodSpec_SomeE:
  assumes "convertInstanceSpecToPodSpec K spec = Some ps"
  obtains c ports envs resources where "ps_Containers ps = [c]"
    "makePorts spec = Some ports" "ct_Ports c = ports"
    "makeEnvs spec = Some envs" "ct_Env c = envs"
    "makeResourceRequirements K spec = Some resources" "ct_Resources c = resources"
    "ci_Image spec = Some (ct_Image c)"
proof -
  obtain image pull envs ports resources where *:
    "ci_Image spec = Some image" "ci_ImagePullPolicy spec = Some pull" "makeEnvs spec = Some envs"
    "makePorts spec = Some ports" "makeResourceRequirements K spec = Some resources"
    using assms unfolding convertInstanceSpecToPodSpec_def Option.bind_eq_Some_conv by blast
  show thesis
    using assms * by (intro that [of "hd (ps_Containers ps)" ports envs resources])
      (auto simp: convertInstanceSpecToPodSpec_def)
qed

lemma MakeService_exists:
  assumes "MakeDeployment K cs name ns ok gk l = Some d"
  shows "MakeService n (AddDeployOwnership K d cg) \<noteq> None"
proof (rule MakeDeployment_SomeE [OF assms])
  fix ps
  assume "convertInstanceSpecToPodSpec K (cs_Instance cs) = Some ps"
    and "pt_Spec (ds_Template (dep_Spec d)) = ps"
  then show ?thesis
    by (elim convertInstanceSpecToPodSpec_SomeE)
      (simp add: MakeService_def makeServicePorts_def AddDeployOwnership_meta)
qed

lemma MakeComputeGroup_exists:
  assumes "controller_ref_laws K"
  shows "\<exists>g. MakeComputeGroup K op spec = Some g \<and> complete_group K op g
     \<and> om_Name (cg_Meta g) = gs_Name spec
     \<and> om_Namespace (cg_Meta g) = (if gs_Namespace spec = '''' then ''default'' else gs_Namespace spec)
     \<and> map_get (om_Labels (cg_Meta g)) OperatorLabel = Some (GetOperatorKey (op_Meta op))
     \<and> cg_Spec g = spec \<and> cg_Status g = zero_GroupStatus"
  using new_controller_ref_controls [OF assms] isControlledBy_namespace [OF assms]
  by (simp add: MakeComputeGroup_def SetDatafuseComputeGroupDefaults_def Let_def zero_Group_def
      zero_ObjectMeta_def controller_ref_lawsD [OF assms] complete_group_def)

section \<open>Properties\<close>

text \<open>C40 (bounds).  The CPU request in milli-units is computed in 64 bits without overflow:
  for every 32-bit number of cores its signed value is exactly 1000 times the cores plus 300.\<close>

theorem getMilliCPU_exact:
  "sint (getMilliCPU (Some c)) = sint c * 1000 + 300"
proof -
  have b: "- (2 ^ 63) \<le> sint c * 1000 + 300" "sint c * 1000 + 300 < 2 ^ 63"
    using sint_int32_bounds [of c] by simp_all
  have "getMilliCPU (Some c) = word_of_int (sint c * 1000 + 300)"
    by (simp add: getMilliCPU_def int64_of_int32_def)
  with sint_int64_of_int [OF b] show ?thesis by simp
qed

text \<open>Whatever core limit the specification gives, the CPU limit of the container
  never compares below its CPU request (given that a quantity does not compare below itself).\<close>

theorem cpu_limit_covers_request:
  assumes "\<forall>q. \<not> k_quantityCmp K q q < 0"
    and "makeResourceRequirements K spec = Some rr"
  shows "\<exists>request limit. map_of (rr_Requests rr) ResourceCPU = Some request
     \<and> map_of (rr_Limits rr) ResourceCPU = Some limit
     \<and> request = NewMilliQuantity (getMilliCPU (ci_Cores spec))
     \<and> \<not> k_quantityCmp K limit request < 0"
  using assms
  by (auto simp: makeResourceRequirements_def fillblank_def Option.bind_eq_Some_conv
      split: option.splits if_splits)

text \<open>C39 (error).  A deployment can be built exactly from the complete instance specifications:
  every port, the cores, the priority, the image, the pull policy and both memory quantities are
  set, and every quantity parses.  On any other specification the operator process panics.\<close>

theorem MakeDeployment_defined_iff:
  "MakeDeployment K cs name ns opKey groupKey isLeader \<noteq> None
     \<longleftrightarrow> complete_instance K (cs_Instance cs)"
  by (rule MakeDeployment_exists)

text \<open>The service of a compute group exposes exactly the ports of the leader's
  container, with the same names and numbers, selects the labels that the leader's pods carry,
  and has the deployment's owners.\<close>

theorem MakeService_matches_deployment:
  assumes "MakeDeployment K cs name ns opKey groupKey isLeader = Some d0"
    and "d = AddDeployOwnership K d0 cg"
  shows "\<exists>svc c. MakeService svcName d = Some svc
     \<and> ps_Containers (pt_Spec (ds_Template (dep_Spec d))) = [c]
     \<and> map sp_Name (ss_Ports (svc_Spec svc)) = map cp_Name (ct_Ports c)
     \<and> map sp_Port (ss_Ports (svc_Spec svc)) = map cp_ContainerPort (ct_Ports c)
     \<and> length (ss_Ports (svc_Spec svc)) = 5
     \<and> ss_Selector (svc_Spec svc) = pt_Labels (ds_Template (dep_Spec d))
     \<and> ss_Selector (svc_Spec svc) = ds_MatchLabels (dep_Spec d)
     \<and> om_OwnerReferences (svc_Meta svc) = om_OwnerReferences (dep_Meta d)"
proof (rule MakeDeployment_SomeE [OF assms(1)])
  fix ps
  assume ps: "convertInstanceSpecToPodSpec K (cs_Instance cs) = Some ps"
    and d0: "pt_Spec (ds_Template (dep_Spec d0)) = ps"
      "ds_MatchLabels (dep_Spec d0) = om_Labels (dep_Meta d0)"
      "pt_Labels (ds_Template (dep_Spec d0)) = om_Labels (dep_Meta d0)"
  obtain c ports where c: "ps_Containers ps = [c]" "makePorts (cs_Instance cs) = Some ports"
    "ct_Ports c = ports"
    using ps by (rule convertInstanceSpecToPodSpec_SomeE)
  have "length ports = 5" using c(2) by (rule makePorts_SomeE) simp
  with c d0 makePorts_all_served [OF c(2)] show ?thesis
    by (simp add: assms(2) MakeService_def makeServicePorts_def AddDeployOwnership_meta
        zero_ObjectMeta_def servicePort_def comp_def)
qed

text \<open>The compute group that the operator derives for a group specification has
  the specification's name, lives in its namespace (\<open>default\<close> when that is empty), carries the
  operator's key as label, holds the specification unchanged, and is controlled by the operator.\<close>

theorem MakeComputeGroup_spec:
  assumes "controller_ref_laws K"
  shows "\<exists>g. MakeComputeGroup K op spec = Some g
     \<and> om_Name (cg_Meta g) = gs_Name spec
     \<and> om_Namespace (cg_Meta g) = (if gs_Namespace spec = '''' then ''default'' else gs_Namespace spec)
     \<and> map_get (om_Labels (cg_Meta g)) OperatorLabel = Some (GetOperatorKey (op_Meta op))
     \<and> cg_Spec g = spec \<and> cg_Status g = zero_GroupStatus
     \<and> k_isControlledBy K (cg_Meta g) (op_Meta op)"
  using MakeComputeGroup_exists [OF assms, of op spec] by (auto simp: complete_group_def)

section \<open>The properties at concrete inputs\<close>

theorem cpu_limit_covers_request_witness:
  "\<exists>rr request limit. makeResourceRequirements ref_k8s sample_instance = Some rr
     \<and> map_of (rr_Requests rr) ResourceCPU = Some request
     \<and> map_of (rr_Limits rr) ResourceCPU = Some limit
     \<and> request = NewMilliQuantity 1300 \<and> \<not> k_quantityCmp ref_k8s limit request < 0"
proof -
  have "\<forall>q. \<not> k_quantityCmp ref_k8s q q < 0"
    by (simp add: ref_k8s_def ref_quantityCmp_def split: Quantity.split)
  moreover obtain rr where rr: "makeResourceRequirements ref_k8s sample_instance = Some rr"
    by (cases "makeResourceRequirements ref_k8s sample_instance")
      (auto simp: makeResourceRequirements_None ref_k8s_def sample_instance_def)
  ultimately show ?thesis
    using cpu_limit_covers_request [of ref_k8s sample_instance rr]
    by (simp add: getMilliCPU_def int64_of_int32_def sample_instance_def)
qed

text \<open>The leader's deployment of the sample group.\<close>

lemma sample_deployment_exists:
  "\<exists>d. MakeDeployment ref_k8s sample_set name ns ok gk l = Some d"
  using MakeDeployment_exists [of ref_k8s sample_set name ns ok gk l]
  by (auto simp: complete_instance_def ref_k8s_def sample_set_def sample_instance_def)

theorem MakeService_matches_deployment_witness:
  "\<exists>d svc. MakeDeployment ref_k8s sample_set ''group1-leader'' ''default'' '''' ''default-group1'' True = Some d
     \<and> MakeService ''group1'' (AddDeployOwnership ref_k8s d sample_group) = Some svc
     \<and> length (ss_Ports (svc_Spec svc)) = 5"
proof -
  obtain d where "MakeDeployment ref_k8s sample_set ''group1-leader'' ''default'' '''' ''default-group1'' True = Some d"
    using sample_deployment_exists by blast
  with MakeService_matches_deployment [OF this refl, of "''group1''" sample_group] show ?thesis by auto
qed

theorem MakeComputeGroup_spec_witness:
  "\<exists>g. MakeComputeGroup ref_k8s sample_operator sample_group_spec = Some g
     \<and> om_Name (cg_Meta g) = ''groupp1'' \<and> om_Namespace (cg_Meta g) = ''default''
     \<and> map_get (om_Labels (cg_Meta g)) OperatorLabel = Some ''default-operator1''"
  using MakeComputeGroup_spec [OF ref_controller_ref_laws, of sample_operator sample_group_spec]
  by (auto simp: sample_defs GetOperatorKey_def)

end
