(* ===== verification/Requeue.thy ===== *)
theory Requeue
  imports Cluster
begin

text \<open>
  The contract that the error handlers of the three work-queue loops share
  (\<^verbatim>\<open>processNextOperator\<close>, \<^verbatim>\<open>processNextComputeGroup\<close>, \<^verbatim>\<open>processNextItem\<close>): after a success the
  item is forgotten; after a failure it is queued again while it has been requeued less than
  50 times, and otherwise forgotten and its error reported.  The lemmas say what this means over
  a whole series of attempts, whatever else happens between them.
\<close>

text \<open>Calls that leave the count of an item's requeues alone.\<close>

definition quiet :: "queue \<Rightarrow> go_obj \<Rightarrow> call list \<Rightarrow> bool" where
  "quiet q obj es \<longleftrightarrow> (\<forall>e \<in> set es. \<forall>x. same_item obj x \<longrightarrow>
     e \<noteq> QueueAddRateLimited q x \<and> e \<noteq> QueueForget q x)"

lemma quiet_count: "quiet q obj es \<Longrightarrow> count_requeues q obj es n = n"
  by (induction es arbitrary: n) (auto simp: quiet_def split: call.splits)

lemma quiet_simps [simp]:
  "quiet q obj []"
  "quiet q obj (e # es) \<longleftrightarrow> (\<forall>x. same_item obj x \<longrightarrow>
     e \<noteq> QueueAddRateLimited q x \<and> e \<noteq> QueueForget q x) \<and> quiet q obj es"
  "quiet q obj (es @ fs) \<longleftrightarrow> quiet q obj es \<and> quiet q obj fs"
  by (auto simp: quiet_def)

text \<open>
  The history after \<open>n\<close> failed attempts on an item: attempt \<open>i\<close> makes the calls \<open>work i\<close> and then
  runs the error handler.
\<close>

fun failed_attempts :: "(go_error option \<Rightarrow> unit go) \<Rightarrow> (nat \<Rightarrow> go_error) \<Rightarrow> (nat \<Rightarrow> call list)
    \<Rightarrow> nat \<Rightarrow> call list \<Rightarrow> call list" where
  "failed_attempts handle err work 0 h = h"
| "failed_attempts handle err work (Suc n) h =
     snd (handle (Some (err n)) (failed_attempts handle err work n h @ work n))"

locale requeue_policy =
  fixes K :: k8s and q :: queue and obj :: go_obj
    and handle :: "go_error option \<Rightarrow> unit go"
  assumes on_success: "handle None h = (Some (), h @ [QueueForget q obj])"
    and on_retry: "k_numRequeues K h q obj < 50 \<Longrightarrow>
      handle (Some e) h = (Some (), h @ [QueueNumRequeues q obj, QueueAddRateLimited q obj])"
    and on_give_up: "\<not> k_numRequeues K h q obj < 50 \<Longrightarrow>
      handle (Some e) h = (Some (), h @ [QueueNumRequeues q obj, QueueForget q obj, HandleError e])"
begin

lemma never_panics: "fst (handle err h) = Some ()"
  by (cases err; cases "k_numRequeues K h q obj < 50") (simp_all add: on_success on_retry on_give_up)

lemma success_resets: "count_requeues q obj (snd (handle None h)) 0 = 0"
  by (simp add: on_success count_requeues_append)

lemma failure_counts:
  assumes "requeue_law K"
  shows "count_requeues q obj (snd (handle (Some e) h)) 0 =
    (if count_requeues q obj h 0 < 50 then Suc (count_requeues q obj h 0) else 0)"
proof (cases "count_requeues q obj h 0 < 50")
  case True
  then have "k_numRequeues K h q obj < 50" using assms by (simp add: requeue_law_def)
  with True show ?thesis by (simp add: on_retry count_requeues_append)
next
  case False
  then have "\<not> k_numRequeues K h q obj < 50" using assms by (simp add: requeue_law_def)
  with False show ?thesis by (simp add: on_give_up count_requeues_append)
qed

text \<open>The number of requeues of an item never passes 50.\<close>

lemma requeues_bounded:
  assumes "requeue_law K" and "count_requeues q obj h 0 \<le> 50"
  shows "count_requeues q obj (snd (handle err h)) 0 \<le> 50"
  using assms by (cases err) (auto simp: success_resets failure_counts)

lemma failed_attempts_count:
  assumes "requeue_law K" and "\<And>i. quiet q obj (work i)" and "count_requeues q obj h 0 = k" and "k + n \<le> 50"
  shows "count_requeues q obj (failed_attempts handle err work n h) 0 = k + n"
  using assms(4)
proof (induction n)
  case 0
  with assms(3) show ?case by simp
next
  case (Suc n)
  then show ?case
    by (simp add: failure_counts [OF assms(1)] count_requeues_append quiet_count [OF assms(2)])
qed

text \<open>
  An item that was queued \<open>k\<close> times at its rate before the first attempt, and keeps failing, is queued
  again \<open>50 - k\<close> times and then given up.
\<close>

lemma gives_up:
  assumes "requeue_law K" and "\<And>i. quiet q obj (work i)" and "count_requeues q obj h 0 = k"
  shows "k + n < 50 \<Longrightarrow> \<exists>h'. failed_attempts handle err work (Suc n) h =
           h' @ [QueueNumRequeues q obj, QueueAddRateLimited q obj]"
    and "k + n = 50 \<Longrightarrow> \<exists>h'. failed_attempts handle err work (Suc n) h =
           h' @ [QueueNumRequeues q obj, QueueForget q obj, HandleError (err n)]"
proof -
  have c: "k_numRequeues K (failed_attempts handle err work n h @ work n) q obj = int (k + n)" if "k + n \<le> 50" for n
    using assms(1) that
    by (simp add: requeue_law_def count_requeues_append quiet_count [OF assms(2)]
        failed_attempts_count [OF assms])
  show "\<exists>h'. failed_attempts handle err work (Suc n) h =
      h' @ [QueueNumRequeues q obj, QueueAddRateLimited q obj]" if "k + n < 50"
    using that c [of n] by (simp add: on_retry)
  show "\<exists>h'. failed_attempts handle err work (Suc n) h =
      h' @ [QueueNumRequeues q obj, QueueForget q obj, HandleError (err n)]" if "k + n = 50"
    using that c [of n] by (simp add: on_give_up)
qed

end

end
