(* ===== verification/Operator_Controller.thy ===== *)
theory Operator_Controller
  imports Clientset Operator_Utils Requeue
begin

text \<open>
  \<^verbatim>\<open>pkg/controllers/operator/operator_controller.go\<close>: the controller that turns operators into
  compute groups and compute groups into deployments and services.  Its client of the custom
  resources is a field, so that both the typed and the fake client can be put in; listers, work
  queues, recorder and the client of the built-in resources are outside and answer through
  \<open>k8s\<close>.  A deep copy is the value itself.  Logging is left out.
\<close>

record OperatorController =
  oc_client :: DatafuseV1alpha1Interface

section \<open>Event handlers\<close>

text \<open>\<^verbatim>\<open>obj.(metav1.Object)\<close>: only pointers to objects with an embedded \<^verbatim>\<open>ObjectMeta\<close> implement it.\<close>

definition as_Object :: "go_obj \<Rightarrow> ObjectMeta option" where
  "as_Object obj = (case obj of
     OperatorPtr _ x \<Rightarrow> Some (op_Meta x)
   | GroupPtr _ x \<Rightarrow> Some (cg_Meta x)
   | DeploymentPtr _ x \<Rightarrow> Some (dep_Meta x)
   | ServicePtr _ x \<Rightarrow> Some (svc_Meta x)
   | PodPtr _ x \<Rightarrow> Some (pod_Meta x)
   | _ \<Rightarrow> None)"

definition handleOwner :: "k8s \<Rightarrow> ObjectMeta \<Rightarrow> unit go" where
  "handleOwner K object = (case k_getControllerOf K object of
     None \<Rightarrow> ret ()
   | Some ownerRef \<Rightarrow>
       if or_Kind ownerRef \<noteq> ''Foo'' then ret ()
       else bind_io (GroupNamespaceLister_Get K (om_Namespace object) (or_Name ownerRef)) (\<lambda>r.
            case r of Inl err \<Rightarrow> ret ()
            | Inr (a, foo) \<Rightarrow> tell (QueueAdd GroupQueue (GroupPtr a foo))))"

definition handleObject :: "k8s \<Rightarrow> go_obj \<Rightarrow> unit go" where
  "handleObject K obj = (case as_Object obj of
     Some object \<Rightarrow> handleOwner K object
   | None \<Rightarrow>
       (case obj of
          DeletedFinalStateUnknown key tombstone \<Rightarrow>
            (case as_Object tombstone of
               None \<Rightarrow> tell (HandleError (Errorf ''error decoding object tombstone, invalid type''))
             | Some object \<Rightarrow> handleOwner K object)
        | _ \<Rightarrow> tell (HandleError (Errorf ''error decoding object, invalid type''))))"

text \<open>
  \<^verbatim>\<open>buildNamedSpec\<close> reads through the pointers to the sets, and panics (\<open>None\<close>) on a nil one.
\<close>

definition set_name :: "DatafuseComputeSetSpec \<Rightarrow> string \<Rightarrow> string" where
  "set_name cs basic = (case ci_Name (cs_Instance cs) of None \<Rightarrow> basic | Some n \<Rightarrow> n)"

definition leader_name :: "DatafuseComputeGroup \<Rightarrow> string" where
  "leader_name cg = om_Name (cg_Meta cg) @ ''-leader''"

definition worker_name :: "DatafuseComputeGroup \<Rightarrow> nat \<Rightarrow> string" where
  "worker_name cg i = om_Name (cg_Meta cg) @ ''-worker'' @ fmt_d (int i)"

fun namedWorkers :: "DatafuseComputeGroup \<Rightarrow> nat \<Rightarrow> DatafuseComputeSetSpec option list
    \<Rightarrow> DatafuseComputeSetSpec gomap \<Rightarrow> DatafuseComputeSetSpec gomap option" where
  "namedWorkers cg i [] ans = Some ans"
| "namedWorkers cg i (worker # workers) ans = (case worker of None \<Rightarrow> None
   | Some w \<Rightarrow> namedWorkers cg (Suc i) workers (map_put (set_name w (worker_name cg i)) w ans))"

definition buildNamedSpec :: "DatafuseComputeGroup \<Rightarrow> DatafuseComputeSetSpec gomap option" where
  "buildNamedSpec cg = (case gs_ComputeLeaders (cg_Spec cg) of None \<Rightarrow> None
   | Some leaders \<Rightarrow> namedWorkers cg 0 (elems (gs_ComputeWorkers (cg_Spec cg)))
       (map_put (set_name leaders (leader_name cg)) leaders (Some [])))"

text \<open>The error of \<^verbatim>\<open>Delete\<close> is dropped.\<close>

definition handleUnneededDeployments ::
    "k8s \<Rightarrow> DatafuseComputeGroup \<Rightarrow> DatafuseComputeGroup \<Rightarrow> unit go" where
  "handleUnneededDeployments K old new =
     bind_io (lift_io (buildNamedSpec old)) (\<lambda>oldNames.
     bind_io (lift_io (buildNamedSpec new)) (\<lambda>newNames.
     bind_io (range_keys K oldNames) (\<lambda>names.
     for_each (\<lambda>name. if map_get newNames name = None
                      then tell (DeleteDeployment (om_Namespace (cg_Meta old)) name) else ret ()) names)))"

fun groupEvent :: "k8s \<Rightarrow> informer_event \<Rightarrow> unit go" where
  "groupEvent K (Added newObj) = tell (QueueAddRateLimited GroupQueue newObj)"
| "groupEvent K (Updated old new) = (case old of
     GroupVal oldD \<Rightarrow>
       (case new of
          GroupVal newD \<Rightarrow>
            if om_ResourceVersion (cg_Meta oldD) = om_ResourceVersion (cg_Meta newD) then ret ()
            else bind_io (handleUnneededDeployments K oldD newD) (\<lambda>_.
                 tell (QueueAddRateLimited GroupQueue new))
        | _ \<Rightarrow> ret ())
   | _ \<Rightarrow> ret ())"
| "groupEvent K (Deleted obj) = ret ()"

fun deploymentEvent :: "k8s \<Rightarrow> informer_event \<Rightarrow> unit go" where
  "deploymentEvent K (Added obj) = handleObject K obj"
| "deploymentEvent K (Updated old new) = (case new of
     DeploymentPtr _ newDepl \<Rightarrow>
       (case old of
          DeploymentPtr _ oldDepl \<Rightarrow>
            if om_ResourceVersion (dep_Meta newDepl) = om_ResourceVersion (dep_Meta oldDepl) then ret ()
            else handleObject K new
        | _ \<Rightarrow> panic)
   | _ \<Rightarrow> panic)"
| "deploymentEvent K (Deleted obj) = handleObject K obj"

fun serviceEvent :: "k8s \<Rightarrow> informer_event \<Rightarrow> unit go" where
  "serviceEvent K (Added obj) = handleObject K obj"
| "serviceEvent K (Updated old new) = (case new of
     ServicePtr _ newDepl \<Rightarrow>
       (case old of
          ServicePtr _ oldDepl \<Rightarrow>
            if om_ResourceVersion (svc_Meta newDepl) = om_ResourceVersion (svc_Meta oldDepl) then ret ()
            else handleObject K new
        | _ \<Rightarrow> panic)
   | _ \<Rightarrow> panic)"
| "serviceEvent K (Deleted obj) = handleObject K obj"

fun operatorEvent :: "k8s \<Rightarrow> informer_event \<Rightarrow> unit go" where
  "operatorEvent K (Added newObj) = tell (QueueAddRateLimited OperatorQueue newObj)"
| "operatorEvent K (Updated old new) = (case old of
     OperatorVal oldD \<Rightarrow>
       (case new of
          OperatorVal newD \<Rightarrow>
            if om_ResourceVersion (op_Meta oldD) = om_ResourceVersion (op_Meta newD) then ret ()
            else tell (QueueAddRateLimited OperatorQueue new)
        | _ \<Rightarrow> ret ())
   | _ \<Rightarrow> ret ())"
| "operatorEvent K (Deleted obj) = ret ()"

section \<open>Operators\<close>

definition updateOperatorStatus ::
    "k8s \<Rightarrow> OperatorController \<Rightarrow> DatafuseComputeGroup \<Rightarrow> DatafuseOperator \<Rightarrow> go_error option go" where
  "updateOperatorStatus K oc cg op =
     (let states = (if ost_ComputeGroupStates (op_Status op) = None then Some []
                    else ost_ComputeGroupStates (op_Status op));
          cgKey = object_key (om_Namespace (cg_Meta cg)) (om_Name (cg_Meta cg));
          opCopy = op\<lparr>op_Status := \<lparr>ost_ComputeGroupStates = map_put cgKey ComputeGroupDeployed states,
                                    ost_Status = OperatorReady\<rparr>\<rparr>
      in bind_io (if_Update (DatafuseOperators (oc_client oc) (om_Namespace (op_Meta op))) opCopy '''')
           (\<lambda>(result, err). ret err))"

definition not_controlled_group :: "DatafuseComputeGroup \<Rightarrow> DatafuseOperator \<Rightarrow> string" where
  "not_controlled_group g op = ''group '' @ om_Name (cg_Meta g) @ '' in '' @ om_Namespace (cg_Meta g)
     @ '' existed but not controlled by operator '' @ om_Name (op_Meta op)"

text \<open>
  The pointer \<open>g\<close> is nil after a failed lookup; \<^verbatim>\<open>IsControlledBy\<close> then panics, since the check of
  \<^verbatim>\<open>err\<close> comes later.
\<close>

definition syncGroup2 ::
    "k8s \<Rightarrow> OperatorController \<Rightarrow> DatafuseOperator \<Rightarrow> DatafuseComputeGroupSpec option \<Rightarrow> go_error option go" where
  "syncGroup2 K oc op groupSpec =
     bind_io (lift_io groupSpec) (\<lambda>spec.
     bind_io (lift_io (MakeComputeGroup K op spec)) (\<lambda>cg0.
     bind_io (lift_io (SetDatafuseComputeGroupDefaults K (Some op) (Some cg0))) (\<lambda>cg.
     bind_io (GroupNamespaceLister_Get K (gs_Namespace spec) (om_Name (cg_Meta cg))) (\<lambda>r.
     bind_io (case r of
                Inr (a, g) \<Rightarrow> ret (Some g, None)
              | Inl err \<Rightarrow>
                  if k_isNotFound K err
                  then if_Create (DatafuseComputeGroups (oc_client oc) (om_Namespace (cg_Meta cg))) cg ''''
                  else ret (None, Some err)) (\<lambda>(g, err).
     case g of None \<Rightarrow> panic
     | Some g \<Rightarrow>
         if \<not> k_isControlledBy K (cg_Meta g) (op_Meta op)
         then bind_io (tell (RecordEvent (op_Meta op) EventTypeWarning ErrResourceExists
                               (not_controlled_group g op))) (\<lambda>_.
              ret (Some (Errorf (not_controlled_group g op))))
         else (case err of Some e \<Rightarrow> ret (Some e)
           | None \<Rightarrow>
               bind_io (updateOperatorStatus K oc g op) (\<lambda>err.
               case err of Some e \<Rightarrow> ret (Some e)
               | None \<Rightarrow>
                   bind_io (tell (RecordEvent (op_Meta op) EventTypeNormal SuccessSynced MessageResourceSynced)) (\<lambda>_.
                   ret None))))))))"

text \<open>The result of \<^verbatim>\<open>multierr.Append(err, e)\<close> is dropped, so that \<^verbatim>\<open>err\<close> stays nil.\<close>

definition processNewOperator :: "k8s \<Rightarrow> OperatorController \<Rightarrow> DatafuseOperator \<Rightarrow> go_error option go" where
  "processNewOperator K oc op =
     bind_io (lift_io (SetDatafuseOperatorDefault (Some op))) (\<lambda>opCopy.
     bind_io (for_each (\<lambda>groupSpec. bind_io (syncGroup2 K oc opCopy groupSpec) (\<lambda>e. ret ()))
                (elems (os_ComputeGroups (op_Spec opCopy)))) (\<lambda>_.
     ret None))"

definition ProcessUpdatedOperator :: "DatafuseOperator \<Rightarrow> go_error option" where
  "ProcessUpdatedOperator op = None"

definition operatorErrorHandler :: "k8s \<Rightarrow> go_obj \<Rightarrow> go_error option \<Rightarrow> unit go" where
  "operatorErrorHandler K obj err = (case err of
     None \<Rightarrow> tell (QueueForget OperatorQueue obj)
   | Some e \<Rightarrow>
       bind_io (num_requeues K OperatorQueue obj) (\<lambda>n.
       if n < 50 then tell (QueueAddRateLimited OperatorQueue obj)
       else bind_io (tell (QueueForget OperatorQueue obj)) (\<lambda>_. tell (HandleError e))))"

definition processNextOperator :: "k8s \<Rightarrow> OperatorController \<Rightarrow> bool go" where
  "processNextOperator K oc =
     bind_io (queue_get K OperatorQueue) (\<lambda>item.
     case item of None \<Rightarrow> ret False
     | Some obj \<Rightarrow> defer_io (tell (QueueDone OperatorQueue obj))
         (case obj of
            OperatorPtr _ op \<Rightarrow>
              (let op' = snd (IsOperatorCreated op)
               in bind_io (processNewOperator K oc op') (\<lambda>err.
                  bind_io (operatorErrorHandler K obj err) (\<lambda>_. ret True)))
          | _ \<Rightarrow> bind_io (tell (QueueForget OperatorQueue obj)) (\<lambda>_. ret True)))"

section \<open>Compute groups\<close>

definition GetComputeGroupKeys :: "DatafuseComputeGroup \<Rightarrow> go_error + string \<times> string" where
  "GetComputeGroupKeys cg =
     (if om_Name (cg_Meta cg) = '''' \<or> om_Namespace (cg_Meta cg) = ''''
      then Inl (Errorf ''compute group name or namespace is empty'')
      else Inr ((case map_get (om_Labels (cg_Meta cg)) OperatorLabel of None \<Rightarrow> '''' | Some opKey \<Rightarrow> opKey),
                om_Namespace (cg_Meta cg) @ ''-'' @ om_Name (cg_Meta cg)))"

definition group_status_copy ::
    "DatafuseComputeGroupStatus \<Rightarrow> string \<Rightarrow> bool \<Rightarrow> DatafuseComputeGroupStatus" where
  "group_status_copy st deployKey isLeader =
     (if isLeader then
        let st1 = (if gst_Status st \<noteq> ComputeGroupDeployed then st\<lparr>gst_Status := ComputeGroupDeployed\<rparr> else st);
            st2 = (if gst_ReadyComputeLeaders st1 = None then st1\<lparr>gst_ReadyComputeLeaders := Some []\<rparr> else st1)
        in st2\<lparr>gst_ReadyComputeLeaders := map_put deployKey ComputeInstanceReadyState (gst_ReadyComputeLeaders st2)\<rparr>
      else
        let st2 = (if gst_ReadyComputeWorkers st = None then st\<lparr>gst_ReadyComputeWorkers := Some []\<rparr> else st)
        in st2\<lparr>gst_ReadyComputeWorkers := map_put deployKey ComputeInstanceReadyState (gst_ReadyComputeWorkers st2)\<rparr>)"

definition updateComputeGroupStatus :: "k8s \<Rightarrow> OperatorController \<Rightarrow> DatafuseComputeGroup \<Rightarrow> Deployment
    \<Rightarrow> bool \<Rightarrow> go_error option go" where
  "updateComputeGroupStatus K oc cg d isLeader =
     (let cgCopy = cg\<lparr>cg_Status := group_status_copy (cg_Status cg)
            (object_key (om_Namespace (dep_Meta d)) (om_Name (dep_Meta d))) isLeader\<rparr>
      in bind_io (if_Update (DatafuseComputeGroups (oc_client oc) (om_Namespace (cg_Meta cgCopy))) cgCopy '''')
           (\<lambda>(result, err). ret err))"

definition not_controlled_deployment :: "Deployment \<Rightarrow> DatafuseComputeGroup \<Rightarrow> string" where
  "not_controlled_deployment d cg = ''deployment '' @ om_Name (dep_Meta d) @ '' in '' @ om_Namespace (dep_Meta d)
     @ '' existed but not controlled by group '' @ om_Name (cg_Meta cg)"

text \<open>The lookup of the deployment, and its creation when it does not exist.\<close>

definition ensureDeployment :: "k8s \<Rightarrow> Deployment \<Rightarrow> (go_error + Deployment) go" where
  "ensureDeployment K deploy =
     bind_io (lister_get_deployment K (om_Namespace (dep_Meta deploy)) (om_Name (dep_Meta deploy))) (\<lambda>r.
     case r of Inr d \<Rightarrow> ret (Inr d)
     | Inl err \<Rightarrow> if k_isNotFound K err
                  then create_deployment K (om_Namespace (dep_Meta deploy)) deploy else ret (Inl err))"

text \<open>The group service of a leader; only the error is looked at.\<close>

definition ensureService :: "k8s \<Rightarrow> Service \<Rightarrow> go_error option go" where
  "ensureService K service =
     bind_io (lister_get_service K (om_Namespace (svc_Meta service)) (om_Name (svc_Meta service))) (\<lambda>r.
     case r of Inr s \<Rightarrow> ret None
     | Inl err \<Rightarrow> if k_isNotFound K err
                  then bind_io (create_service K (om_Namespace (svc_Meta service)) service) (\<lambda>r.
                       ret (case r of Inl e \<Rightarrow> Some e | Inr s \<Rightarrow> None))
                  else ret (Some err))"

text \<open>
  \<^verbatim>\<open>set.Replicas != nil && *set.Replicas != *d.Spec.Replicas\<close>; reading the replicas of a
  deployment that has none panics (\<open>None\<close>).
\<close>

definition replicasDiffer :: "DatafuseComputeSetSpec \<Rightarrow> Deployment \<Rightarrow> bool option" where
  "replicasDiffer cs d = (case cs_Replicas cs of None \<Rightarrow> Some False
     | Some want \<Rightarrow> (case ds_Replicas (dep_Spec d) of None \<Rightarrow> None | Some have \<Rightarrow> Some (want \<noteq> have)))"

text \<open>The part of \<^verbatim>\<open>syncComputeGroup\<close> after the deployment and the service are there.\<close>

definition syncControlled :: "k8s \<Rightarrow> OperatorController \<Rightarrow> DatafuseComputeGroup \<Rightarrow> DatafuseComputeSetSpec
    \<Rightarrow> Deployment \<Rightarrow> Deployment \<Rightarrow> bool \<Rightarrow> go_error option go" where
  "syncControlled K oc cg cs deploy d isLeader =
     (if \<not> k_isControlledBy K (dep_Meta d) (cg_Meta cg)
      then bind_io (tell (RecordEvent (cg_Meta cg) EventTypeWarning ErrResourceExists
                            (not_controlled_deployment d cg))) (\<lambda>_.
           ret (Some (Errorf (not_controlled_deployment d cg))))
      else
        bind_io (lift_io (replicasDiffer cs d)) (\<lambda>differ.
        bind_io (if differ then update_deployment K (om_Namespace (cg_Meta cg)) deploy else ret (Inr d)) (\<lambda>r.
        case r of Inl err \<Rightarrow> ret (Some err)
        | Inr d \<Rightarrow>
            bind_io (updateComputeGroupStatus K oc cg d isLeader) (\<lambda>err.
            case err of Some e \<Rightarrow> ret (Some e)
            | None \<Rightarrow>
                bind_io (tell (RecordEvent (cg_Meta cg) EventTypeNormal SuccessSynced MessageResourceSynced)) (\<lambda>_.
                ret None)))))"

definition syncComputeGroup :: "k8s \<Rightarrow> OperatorController \<Rightarrow> DatafuseComputeGroup
    \<Rightarrow> DatafuseComputeSetSpec option \<Rightarrow> string \<Rightarrow> bool \<Rightarrow> go_error option go" where
  "syncComputeGroup K oc cg cs name isLeader = (case GetComputeGroupKeys cg of
     Inl err \<Rightarrow> ret (Some err)
   | Inr (opKey, groupKey) \<Rightarrow>
       bind_io (lift_io cs) (\<lambda>cs.
       bind_io (lift_io (MakeDeployment K cs name (om_Namespace (cg_Meta cg)) opKey groupKey isLeader)) (\<lambda>deploy0.
       let deploy = AddDeployOwnership K deploy0 cg
       in bind_io (ensureDeployment K deploy) (\<lambda>r.
          case r of Inl err \<Rightarrow> ret (Some err)
          | Inr d \<Rightarrow>
              bind_io (if isLeader
                       then bind_io (lift_io (MakeService (om_Name (cg_Meta cg)) deploy)) (ensureService K)
                       else ret None) (\<lambda>err.
              case err of Some e \<Rightarrow> ret (Some e)
              | None \<Rightarrow> syncControlled K oc cg cs deploy d isLeader)))))"

fun syncWorkers :: "k8s \<Rightarrow> OperatorController \<Rightarrow> DatafuseComputeGroup \<Rightarrow> nat
    \<Rightarrow> DatafuseComputeSetSpec option list \<Rightarrow> unit go" where
  "syncWorkers K oc cg i [] = ret ()"
| "syncWorkers K oc cg i (worker # workers) =
     bind_io (lift_io worker) (\<lambda>w.
     bind_io (syncComputeGroup K oc cg (Some w) (set_name w (worker_name cg i)) False) (\<lambda>err1.
     syncWorkers K oc cg (Suc i) workers))"

text \<open>
  The code tests \<^verbatim>\<open>err\<close>, which is never assigned, in place of \<^verbatim>\<open>err1\<close>: the errors are lost and the
  result is nil.
\<close>

definition processNewComputeGroup ::
    "k8s \<Rightarrow> OperatorController \<Rightarrow> DatafuseComputeGroup \<Rightarrow> go_error option go" where
  "processNewComputeGroup K oc cg =
     bind_io (lift_io (gs_ComputeLeaders (cg_Spec cg))) (\<lambda>leaders.
     bind_io (syncComputeGroup K oc cg (Some leaders) (set_name leaders (leader_name cg)) True) (\<lambda>err1.
     bind_io (syncWorkers K oc cg 0 (elems (gs_ComputeWorkers (cg_Spec cg)))) (\<lambda>_.
     ret None)))"

text \<open>
  One of the two loops of \<^verbatim>\<open>processUpdatedComputeGroup\<close>: \<open>remove\<close> takes a key out of the copy's
  status.  A key without a slash makes the index \<^verbatim>\<open>[1]\<close> panic.
\<close>

fun checkReady :: "k8s \<Rightarrow> (string \<Rightarrow> DatafuseComputeGroupStatus \<Rightarrow> DatafuseComputeGroupStatus)
    \<Rightarrow> string list \<Rightarrow> DatafuseComputeGroupStatus \<Rightarrow> DatafuseComputeGroupStatus go" where
  "checkReady K remove [] st = ret st"
| "checkReady K remove (key # ks) st = (case SplitN2 key (CHR ''/'') of
     [ns, name] \<Rightarrow>
       bind_io (lister_get_deployment K ns name) (\<lambda>r.
       checkReady K remove ks
         (case r of Inl err \<Rightarrow> if k_isNotFound K err
                               then remove key (st\<lparr>gst_Status := ComputeGroupPending\<rparr>) else st
          | Inr d \<Rightarrow> st))
   | _ \<Rightarrow> panic)"

definition dropLeader :: "string \<Rightarrow> DatafuseComputeGroupStatus \<Rightarrow> DatafuseComputeGroupStatus" where
  "dropLeader key st = st\<lparr>gst_ReadyComputeLeaders := map_del key (gst_ReadyComputeLeaders st)\<rparr>"

definition dropWorker :: "string \<Rightarrow> DatafuseComputeGroupStatus \<Rightarrow> DatafuseComputeGroupStatus" where
  "dropWorker key st = st\<lparr>gst_ReadyComputeWorkers := map_del key (gst_ReadyComputeWorkers st)\<rparr>"

definition processUpdatedComputeGroup ::
    "k8s \<Rightarrow> OperatorController \<Rightarrow> DatafuseComputeGroup \<Rightarrow> go_error option go" where
  "processUpdatedComputeGroup K oc op =
     (if gst_ReadyComputeLeaders (cg_Status op) = None \<and> gst_ReadyComputeWorkers (cg_Status op) = None
      then processNewComputeGroup K oc op
      else
        bind_io (range_keys K (gst_ReadyComputeLeaders (cg_Status op))) (\<lambda>leaders.
        bind_io (checkReady K dropLeader leaders (cg_Status op)) (\<lambda>st1.
        bind_io (range_keys K (gst_ReadyComputeWorkers (cg_Status op))) (\<lambda>workers.
        bind_io (checkReady K dropWorker workers st1) (\<lambda>st2.
        bind_io (if_Update (DatafuseComputeGroups (oc_client oc) (om_Namespace (cg_Meta op)))
                   (op\<lparr>cg_Status := st2\<rparr>) '''') (\<lambda>_.
        processNewComputeGroup K oc op))))))"

definition groupErrorHandler :: "k8s \<Rightarrow> go_obj \<Rightarrow> go_error option \<Rightarrow> unit go" where
  "groupErrorHandler K obj err = (case err of
     None \<Rightarrow> tell (QueueForget GroupQueue obj)
   | Some e \<Rightarrow>
       bind_io (num_requeues K GroupQueue obj) (\<lambda>n.
       if n < 50 then tell (QueueAddRateLimited GroupQueue obj)
       else bind_io (tell (QueueForget GroupQueue obj)) (\<lambda>_. tell (HandleError e))))"

definition processNextComputeGroup :: "k8s \<Rightarrow> OperatorController \<Rightarrow> bool go" where
  "processNextComputeGroup K oc =
     bind_io (queue_get K GroupQueue) (\<lambda>item.
     case item of None \<Rightarrow> ret False
     | Some obj \<Rightarrow> defer_io (tell (QueueDone GroupQueue obj))
         (case obj of
            GroupPtr _ cg \<Rightarrow>
              (let (created, cg') = IsComputeGroupCreated cg
               in bind_io (if created then processNewComputeGroup K oc cg'
                           else processUpdatedComputeGroup K oc cg') (\<lambda>err.
                  bind_io (groupErrorHandler K obj err) (\<lambda>_. ret True)))
          | _ \<Rightarrow> bind_io (tell (QueueForget GroupQueue obj)) (\<lambda>_. ret True)))"

section \<open>Workers and start\<close>

text \<open>
  \<^verbatim>\<open>for step() {}\<close> with fuel: \<open>None\<close> when the fuel is used up before the loop ends.
\<close>

fun runWorker :: "nat \<Rightarrow> bool go \<Rightarrow> call list \<Rightarrow> (unit option \<times> call list) option" where
  "runWorker 0 step h = None"
| "runWorker (Suc fuel) step h = (case step h of (r, h') \<Rightarrow>
     (case r of None \<Rightarrow> Some (None, h')
      | Some again \<Rightarrow> if again then runWorker fuel step h' else Some (Some (), h')))"

definition runGroupWorker :: "nat \<Rightarrow> k8s \<Rightarrow> OperatorController \<Rightarrow> call list \<Rightarrow> (unit option \<times> call list) option" where
  "runGroupWorker fuel K oc = runWorker fuel (processNextComputeGroup K oc)"

definition runOperatorWorker :: "nat \<Rightarrow> k8s \<Rightarrow> OperatorController \<Rightarrow> call list \<Rightarrow> (unit option \<times> call list) option" where
  "runOperatorWorker fuel K oc = runWorker fuel (processNextOperator K oc)"

definition Start :: "k8s \<Rightarrow> OperatorController \<Rightarrow> int \<Rightarrow> go_error option go" where
  "Start K oc threadiness =
     defer_io (tell (QueueShutDown OperatorQueue))
     (defer_io (tell (QueueShutDown GroupQueue))
     (bind_io (perform (WaitForCacheSync [DeploymentCache, GroupCache, OperatorCache])
                 (\<lambda>h. k_cacheSynced K h [DeploymentCache, GroupCache, OperatorCache])) (\<lambda>ok.
      if \<not> ok then ret (Some (Errorf ''failed to wait for caches to sync''))
      else
        bind_io (for_each (\<lambda>_. tell (Spawn GroupWorker)) [0..<nat threadiness]) (\<lambda>_.
        bind_io (for_each (\<lambda>_. tell (Spawn OperatorWorker)) [0..<nat threadiness]) (\<lambda>_.
        bind_io (tell AwaitStop) (\<lambda>_.
        ret None))))))"

section \<open>The error handlers keep the requeue policy\<close>

interpretation operator_queue: requeue_policy K OperatorQueue obj "operatorErrorHandler K obj" for K obj
  by unfold_locales (simp_all add: operatorErrorHandler_def io_simps)

interpretation group_queue: requeue_policy K GroupQueue obj "groupErrorHandler K obj" for K obj
  by unfold_locales (simp_all add: groupErrorHandler_def io_simps)

section \<open>What a synchronisation may call\<close>

text \<open>The deployment that the controller wants for a set of a group.\<close>

definition desired_deployment :: "k8s \<Rightarrow> DatafuseComputeGroup \<Rightarrow> DatafuseComputeSetSpec \<Rightarrow> string
    \<Rightarrow> bool \<Rightarrow> Deployment option" where
  "desired_deployment K cg cs name isLeader = (case GetComputeGroupKeys cg of Inl _ \<Rightarrow> None
   | Inr (opKey, groupKey) \<Rightarrow>
       map_option (\<lambda>d. AddDeployOwnership K d cg)
         (MakeDeployment K cs name (om_Namespace (cg_Meta cg)) opKey groupKey isLeader))"

lemma desired_deployment_meta:
  assumes "desired_deployment K cg cs name isLeader = Some d"
  shows "om_Name (dep_Meta d) = name" and "om_Namespace (dep_Meta d) = om_Namespace (cg_Meta cg)"
    and "ds_Replicas (dep_Spec d) = cs_Replicas cs"
    and "map_get (om_Labels (dep_Meta d)) ComputeGroupRoleLabel = Some (leaderString isLeader)"
    and "map_get (om_Labels (dep_Meta d)) ComputeGroupLabel =
      Some (om_Namespace (cg_Meta cg) @ ''-'' @ om_Name (cg_Meta cg))"
    and "pt_Labels (ds_Template (dep_Spec d)) = om_Labels (dep_Meta d)"
    and "MakeService (om_Name (cg_Meta cg)) d \<noteq> None"
proof -
  obtain ok gk d0 where keys: "GetComputeGroupKeys cg = Inr (ok, gk)" and
    d0: "MakeDeployment K cs name (om_Namespace (cg_Meta cg)) ok gk isLeader = Some d0" and
    d: "d = AddDeployOwnership K d0 cg"
    using assms by (auto simp: desired_deployment_def split: sum.splits)
  have gk: "gk = om_Namespace (cg_Meta cg) @ ''-'' @ om_Name (cg_Meta cg)"
    using keys by (auto simp: GetComputeGroupKeys_def split: if_splits)
  show "om_Name (dep_Meta d) = name" "om_Namespace (dep_Meta d) = om_Namespace (cg_Meta cg)"
    "map_get (om_Labels (dep_Meta d)) ComputeGroupRoleLabel = Some (leaderString isLeader)"
    "map_get (om_Labels (dep_Meta d)) ComputeGroupLabel =
      Some (om_Namespace (cg_Meta cg) @ ''-'' @ om_Name (cg_Meta cg))"
    using MakeDeployment_meta [OF d0] gk by (simp_all add: d AddDeployOwnership_meta)
  show "ds_Replicas (dep_Spec d) = cs_Replicas cs" "pt_Labels (ds_Template (dep_Spec d)) = om_Labels (dep_Meta d)"
    by (rule MakeDeployment_SomeE [OF d0], simp add: d AddDeployOwnership_meta)+
  show "MakeService (om_Name (cg_Meta cg)) d \<noteq> None"
    using MakeService_exists [OF d0] by (simp add: d)
qed

lemma desired_deployment_controlled:
  assumes "controller_ref_laws K" and "desired_deployment K cg cs name isLeader = Some d"
  shows "k_isControlledBy K (dep_Meta d) (cg_Meta cg)"
    and "om_OwnerReferences (dep_Meta d) =
      Some [k_newControllerRef K (cg_Meta cg) (WithKind ''DatafuseComputeGroup'')]"
  using assms(2) AddDeployOwnership_fresh [OF assms(1)]
  by (auto simp: desired_deployment_def MakeDeployment_meta split: sum.splits)

lemma syncComputeGroup_desired:
  "desired_deployment K cg cs name isLeader = Some deploy \<Longrightarrow>
   syncComputeGroup K oc cg (Some cs) name isLeader =
     bind_io (ensureDeployment K deploy) (\<lambda>r. case r of Inl err \<Rightarrow> ret (Some err)
     | Inr d \<Rightarrow>
         bind_io (if isLeader
                  then bind_io (lift_io (MakeService (om_Name (cg_Meta cg)) deploy)) (ensureService K)
                  else ret None) (\<lambda>err. case err of Some e \<Rightarrow> ret (Some e)
         | None \<Rightarrow> syncControlled K oc cg cs deploy d isLeader))"
  by (auto simp: syncComputeGroup_def desired_deployment_def Let_def split: sum.splits)

lemma syncComputeGroup_undesired:
  "desired_deployment K cg cs name isLeader = None \<Longrightarrow>
   syncComputeGroup K oc cg (Some cs) name isLeader h =
     (case GetComputeGroupKeys cg of Inl err \<Rightarrow> Some (Some err) | Inr _ \<Rightarrow> None, h)"
  by (auto simp: syncComputeGroup_def desired_deployment_def io_simps split: sum.splits)

text \<open>
  A call that the synchronisation of a group may make: reads and writes of the deployments that
  its specification asks for and of the one service for its leaders, and events; a write of its own
  status with one more key is \<open>status_write\<close>.
\<close>

definition wanted :: "k8s \<Rightarrow> DatafuseComputeGroup \<Rightarrow> bool \<Rightarrow> Deployment \<Rightarrow> bool" where
  "wanted K cg isLeader d \<longleftrightarrow> (if isLeader
     then \<exists>cs. gs_ComputeLeaders (cg_Spec cg) = Some cs
       \<and> desired_deployment K cg cs (set_name cs (leader_name cg)) True = Some d
     else \<exists>i cs. i < length (elems (gs_ComputeWorkers (cg_Spec cg)))
       \<and> elems (gs_ComputeWorkers (cg_Spec cg)) ! i = Some cs
       \<and> desired_deployment K cg cs (set_name cs (worker_name cg i)) False = Some d)"

lemma wanted_desired: "wanted K cg l d \<Longrightarrow> \<exists>cs name. desired_deployment K cg cs name l = Some d"
  by (auto simp: wanted_def split: if_splits)

definition status_write :: "DatafuseComputeGroup \<Rightarrow> string \<Rightarrow> bool \<Rightarrow> DatafuseComputeGroup" where
  "status_write cg key isLeader = cg\<lparr>cg_Status := group_status_copy (cg_Status cg) key isLeader\<rparr>"

fun group_work :: "k8s \<Rightarrow> DatafuseComputeGroup \<Rightarrow> call \<Rightarrow> bool" where
  "group_work K cg (ListerGetDeployment ns name) = (ns = om_Namespace (cg_Meta cg)
     \<and> (\<exists>l d. wanted K cg l d \<and> om_Name (dep_Meta d) = name))"
| "group_work K cg (ListerGetService ns name) = (ns = om_Namespace (cg_Meta cg) \<and> name = om_Name (cg_Meta cg))"
| "group_work K cg (CreateDeployment ns d) = (ns = om_Namespace (cg_Meta cg) \<and> (\<exists>l. wanted K cg l d))"
| "group_work K cg (UpdateDeployment ns d) = (ns = om_Namespace (cg_Meta cg) \<and> (\<exists>l. wanted K cg l d))"
| "group_work K cg (CreateService ns s) = (ns = om_Namespace (cg_Meta cg)
     \<and> (\<exists>d. wanted K cg True d \<and> MakeService (om_Name (cg_Meta cg)) d = Some s))"
| "group_work K cg (RecordEvent m ty reason msg) = (m = cg_Meta cg)"
| "group_work K cg e = False"

lemma MakeService_meta:
  "MakeService name d = Some s \<Longrightarrow> om_Name (svc_Meta s) = name \<and> om_Namespace (svc_Meta s) = om_Namespace (dep_Meta d)
     \<and> om_OwnerReferences (svc_Meta s) = om_OwnerReferences (dep_Meta d)"
  by (auto simp: MakeService_def Option.bind_eq_Some_conv zero_ObjectMeta_def)

lemma emits_ensureDeployment:
  assumes "wanted K cg l d"
  shows "emits (\<lambda>_. group_work K cg) (ensureDeployment K d)"
proof -
  obtain cs name where "desired_deployment K cg cs name l = Some d" using wanted_desired [OF assms] by blast
  note ns = desired_deployment_meta(2) [OF this]
  have "group_work K cg (ListerGetDeployment (om_Namespace (dep_Meta d)) (om_Name (dep_Meta d)))"
    "group_work K cg (CreateDeployment (om_Namespace (dep_Meta d)) d)"
    using assms ns by auto
  then show ?thesis
    by (auto simp: ensureDeployment_def lister_get_deployment_def create_deployment_def
        simp del: group_work.simps intro!: emits_intros split: sum.split)
qed

lemma emits_ensureService:
  assumes "wanted K cg True d" and "MakeService (om_Name (cg_Meta cg)) d = Some s"
  shows "emits (\<lambda>_. group_work K cg) (ensureService K s)"
proof -
  obtain cs name where "desired_deployment K cg cs name True = Some d" using wanted_desired [OF assms(1)] by blast
  note ns = desired_deployment_meta(2) [OF this]
  have "group_work K cg (ListerGetService (om_Namespace (svc_Meta s)) (om_Name (svc_Meta s)))"
    "group_work K cg (CreateService (om_Namespace (svc_Meta s)) s)"
    using assms ns MakeService_meta [OF assms(2)] by auto
  then show ?thesis
    by (auto simp: ensureService_def lister_get_service_def create_service_def
        simp del: group_work.simps intro!: emits_intros split: sum.split)
qed

lemma emits_lift_bind:
  assumes "\<And>x. r = Some x \<Longrightarrow> emits P (f x)"
  shows "emits P (bind_io (lift_io r) f)"
  using assms by (intro emits_bind_run emits_lift) (auto simp: io_simps)

section \<open>Controllers over a client that keeps its contract\<close>

text \<open>
  The controller with any clients of the custom resources that keep the contract of
  \<open>resource_client\<close>; \<open>gupdate\<close> and \<open>oupdate\<close> are the calls of their update methods.
\<close>

locale crd_controller =
  group_client: resource_client "DatafuseComputeGroups (oc_client oc)" gcreate gupdate +
  operator_client: resource_client "DatafuseOperators (oc_client oc)" ocreate oupdate
  for oc :: OperatorController
    and gcreate gupdate :: "string \<Rightarrow> DatafuseComputeGroup \<Rightarrow> string \<Rightarrow> call"
    and ocreate oupdate :: "string \<Rightarrow> DatafuseOperator \<Rightarrow> string \<Rightarrow> call"
begin

lemma updateComputeGroupStatus_run:
  "\<exists>err. updateComputeGroupStatus K oc cg d isLeader h = (Some err, h @
     [gupdate (om_Namespace (cg_Meta cg)) (status_write cg
        (object_key (om_Namespace (dep_Meta d)) (om_Name (dep_Meta d))) isLeader) ''''])"
proof -
  let ?g = "status_write cg (object_key (om_Namespace (dep_Meta d)) (om_Name (dep_Meta d))) isLeader"
  obtain r err where "if_Update (DatafuseComputeGroups (oc_client oc) (om_Namespace (cg_Meta cg))) ?g '''' h
      = (Some (r, err), h @ [gupdate (om_Namespace (cg_Meta cg)) ?g ''''])"
    using group_client.update_once [of "om_Namespace (cg_Meta cg)" ?g "''''" h] by blast
  then show ?thesis
    by (intro exI [of _ err]) (simp add: updateComputeGroupStatus_def status_write_def Let_def io_simps)
qed

definition status_of :: "DatafuseComputeGroup \<Rightarrow> call \<Rightarrow> bool" where
  "status_of cg e \<longleftrightarrow> (\<exists>key l. e = gupdate (om_Namespace (cg_Meta cg)) (status_write cg key l) '''')"

definition allowed :: "k8s \<Rightarrow> DatafuseComputeGroup \<Rightarrow> call \<Rightarrow> bool" where
  "allowed K cg e \<longleftrightarrow> group_work K cg e \<or> status_of cg e"

lemma emits_weaken: "emits P m \<Longrightarrow> (\<And>h e. P h e \<Longrightarrow> Q h e) \<Longrightarrow> emits Q m"
  unfolding emits_def by metis

lemma emits_updateComputeGroupStatus:
  "emits (\<lambda>_. allowed K cg) (updateComputeGroupStatus K oc cg d isLeader)"
proof (rule emitsI)
  fix h
  show "\<exists>new. snd (updateComputeGroupStatus K oc cg d isLeader h) = h @ new \<and>
      (\<forall>i < length new. allowed K cg (new ! i))"
    using updateComputeGroupStatus_run [of K cg d isLeader h]
    unfolding allowed_def status_of_def by force
qed

lemma emits_syncControlled:
  assumes "wanted K cg l deploy"
  shows "emits (\<lambda>_. allowed K cg) (syncControlled K oc cg cs deploy d isLeader)"
proof -
  have "allowed K cg (UpdateDeployment (om_Namespace (cg_Meta cg)) deploy)"
    using assms by (auto simp: allowed_def)
  moreover have "allowed K cg (RecordEvent (cg_Meta cg) ty reason msg)" for ty reason msg
    by (simp add: allowed_def)
  ultimately show ?thesis
    by (auto simp: syncControlled_def tell_def update_deployment_def
        intro!: emits_intros emits_updateComputeGroupStatus split: option.split sum.split)
qed

lemma emits_syncComputeGroup:
  assumes "\<And>d. desired_deployment K cg cs name isLeader = Some d \<Longrightarrow> wanted K cg isLeader d"
  shows "emits (\<lambda>_. allowed K cg) (syncComputeGroup K oc cg (Some cs) name isLeader)"
proof (cases "desired_deployment K cg cs name isLeader")
  case None
  have "snd (syncComputeGroup K oc cg (Some cs) name isLeader h) = h" for h
    unfolding syncComputeGroup_undesired [OF None] by simp
  then show ?thesis by (intro emitsI) simp
next
  case (Some d)
  note w = assms [OF Some]
  have 1: "emits (\<lambda>_. allowed K cg) (ensureDeployment K d)"
    by (rule emits_weaken [OF emits_ensureDeployment [OF w]]) (simp add: allowed_def)
  have 2: "emits (\<lambda>_. allowed K cg) (ensureService K s)"
    if "isLeader" "MakeService (om_Name (cg_Meta cg)) d = Some s" for s
    using w that by (intro emits_weaken [OF emits_ensureService [of K cg d s]]) (auto simp: allowed_def)
  show ?thesis
    unfolding syncComputeGroup_desired [OF Some]
    by (auto intro!: emits_intros emits_lift_bind 1 2 emits_syncControlled [OF w]
        split: sum.split option.split)
qed

lemma emits_syncWorkers:
  "workers = drop i (elems (gs_ComputeWorkers (cg_Spec cg)))
    \<Longrightarrow> emits (\<lambda>_. allowed K cg) (syncWorkers K oc cg i workers)"
proof (induction workers arbitrary: i)
  case Nil
  then show ?case by (auto intro!: emits_intros)
next
  case (Cons worker workers)
  let ?ws = "elems (gs_ComputeWorkers (cg_Spec cg))"
  have l: "i < length ?ws" using Cons.prems by (metis drop_all linorder_not_less list.distinct(1))
  then have i: "worker = ?ws ! i" "workers = drop (Suc i) ?ws"
    using Cons.prems by (simp_all add: Cons_nth_drop_Suc [symmetric])
  have "wanted K cg False d"
    if "worker = Some w" "desired_deployment K cg w (set_name w (worker_name cg i)) False = Some d" for w d
  proof -
    have "?ws ! i = Some w" using i(1) that(1) by simp
    with l that(2) show ?thesis by (auto simp: wanted_def)
  qed
  then show ?case
    using Cons.IH [OF i(2)] by (auto intro!: emits_intros emits_lift_bind emits_syncComputeGroup)
qed

lemma emits_processNewComputeGroup:
  "emits (\<lambda>_. allowed K cg) (processNewComputeGroup K oc cg)"
  by (auto simp: processNewComputeGroup_def wanted_def
      intro!: emits_intros emits_lift_bind emits_syncComputeGroup emits_syncWorkers)

end

definition typed_controller :: "k8s \<Rightarrow> OperatorController" where
  "typed_controller K = \<lparr>oc_client = DatafuseV1alpha1 K\<rparr>"

definition fake_controller :: "k8s \<Rightarrow> OperatorController" where
  "fake_controller K = \<lparr>oc_client = FakeDatafuseV1alpha1 K\<rparr>"

interpretation typed_oc: crd_controller "typed_controller K"
    group_create_call group_update_call operator_create_call operator_update_call for K
  by (simp add: crd_controller_def typed_controller_def DatafuseV1alpha1_def
      typed_groups.resource_client_axioms typed_operators.resource_client_axioms)

interpretation fake_oc: crd_controller "fake_controller ref_k8s"
    "\<lambda>ns x opts. Invokes (FakeCreate datafusecomputegroupsResource ns (GroupPtr 0 x))"
    "\<lambda>ns x opts. Invokes (FakeUpdate datafusecomputegroupsResource ns (GroupPtr 0 x))"
    "\<lambda>ns x opts. Invokes (FakeCreate datafuseoperatorsResource ns (OperatorPtr 0 x))"
    "\<lambda>ns x opts. Invokes (FakeUpdate datafuseoperatorsResource ns (OperatorPtr 0 x))"
  by (simp add: crd_controller_def fake_controller_def FakeDatafuseV1alpha1_def
      fake_group_client [OF ref_reaction_law] fake_operator_client [OF ref_reaction_law])

section \<open>Runs of the typed controller\<close>

definition rest_of :: "call \<Rightarrow> rest_request" where
  "rest_of e = (case e of Rest rq \<Rightarrow> rq | _ \<Rightarrow> request '''' '''' '''')"

lemma typed_group_update_run:
  "if_Update (DatafuseComputeGroups (oc_client (typed_controller K)) ns) g opts h =
     (Some (Some (fst (k_restGroup K h (rest_of (group_update_call ns g opts)) zero_Group)),
            snd (k_restGroup K h (rest_of (group_update_call ns g opts)) zero_Group)),
      h @ [group_update_call ns g opts])"
  by (simp add: typed_controller_def DatafuseV1alpha1_def typed_group_defs group_update_call_def rest_of_def
      io_simps split: prod.split)

lemma typed_group_create_run:
  "if_Create (DatafuseComputeGroups (oc_client (typed_controller K)) ns) g opts h =
     (Some (Some (fst (k_restGroup K h (rest_of (group_create_call ns g opts)) zero_Group)),
            snd (k_restGroup K h (rest_of (group_create_call ns g opts)) zero_Group)),
      h @ [group_create_call ns g opts])"
  by (simp add: typed_controller_def DatafuseV1alpha1_def typed_group_defs group_create_call_def rest_of_def
      io_simps split: prod.split)

lemma typed_operator_update_run:
  "if_Update (DatafuseOperators (oc_client (typed_controller K)) ns) g opts h =
     (Some (Some (fst (k_restOperator K h (rest_of (operator_update_call ns g opts)) zero_Operator)),
            snd (k_restOperator K h (rest_of (operator_update_call ns g opts)) zero_Operator)),
      h @ [operator_update_call ns g opts])"
  by (simp add: typed_controller_def DatafuseV1alpha1_def typed_operator_defs operator_update_call_def rest_of_def
      io_simps split: prod.split)

text \<open>The write of a set's readiness into the group's status, with the server's answer.\<close>

definition status_call :: "DatafuseComputeGroup \<Rightarrow> Deployment \<Rightarrow> bool \<Rightarrow> call" where
  "status_call cg d isLeader = group_update_call (om_Namespace (cg_Meta cg))
     (status_write cg (object_key (om_Namespace (dep_Meta d)) (om_Name (dep_Meta d))) isLeader) ''''"

definition status_error :: "k8s \<Rightarrow> call list \<Rightarrow> DatafuseComputeGroup \<Rightarrow> Deployment \<Rightarrow> bool \<Rightarrow> go_error option" where
  "status_error K h cg d isLeader = snd (k_restGroup K h (rest_of (status_call cg d isLeader)) zero_Group)"

lemma typed_status_run:
  "updateComputeGroupStatus K (typed_controller K) cg d isLeader h =
     (Some (status_error K h cg d isLeader), h @ [status_call cg d isLeader])"
  by (simp add: updateComputeGroupStatus_def status_call_def status_error_def status_write_def Let_def
      io_simps typed_group_update_run)

definition synced_event :: "ObjectMeta \<Rightarrow> call" where
  "synced_event m = RecordEvent m EventTypeNormal SuccessSynced MessageResourceSynced"

lemma typed_syncControlled_run:
  "syncControlled K (typed_controller K) cg cs deploy d isLeader h =
     (if \<not> k_isControlledBy K (dep_Meta d) (cg_Meta cg)
      then (Some (Some (Errorf (not_controlled_deployment d cg))),
            h @ [RecordEvent (cg_Meta cg) EventTypeWarning ErrResourceExists (not_controlled_deployment d cg)])
      else case replicasDiffer cs d of None \<Rightarrow> (None, h)
      | Some differ \<Rightarrow>
          let h' = (if differ then h @ [UpdateDeployment (om_Namespace (cg_Meta cg)) deploy] else h)
          in case (if differ then k_updateDeployment K h (om_Namespace (cg_Meta cg)) deploy else Inr d) of
               Inl err \<Rightarrow> (Some (Some err), h')
             | Inr d' \<Rightarrow>
                 (case status_error K h' cg d' isLeader of
                    Some err \<Rightarrow> (Some (Some err), h' @ [status_call cg d' isLeader])
                  | None \<Rightarrow> (Some None, h' @ [status_call cg d' isLeader, synced_event (cg_Meta cg)])))"
  by (auto simp: syncControlled_def io_simps typed_status_run synced_event_def Let_def
      split: option.split sum.split)

text \<open>
  The API server returns a created deployment with the owners, the name, the namespace and the
  number of replicas that were asked for.
\<close>

definition create_law :: "k8s \<Rightarrow> bool" where
  "create_law K \<longleftrightarrow> (\<forall>h ns d d'. k_createDeployment K h ns d = Inr d' \<longrightarrow>
     om_OwnerReferences (dep_Meta d') = om_OwnerReferences (dep_Meta d)
     \<and> om_Name (dep_Meta d') = om_Name (dep_Meta d) \<and> om_Namespace (dep_Meta d') = om_Namespace (dep_Meta d)
     \<and> (ds_Replicas (dep_Spec d) \<noteq> None \<longrightarrow> ds_Replicas (dep_Spec d') = ds_Replicas (dep_Spec d)))"

lemma ref_create_law: "create_law ref_k8s"
  by (simp add: create_law_def ref_k8s_def split: option.split)

lemma isControlledBy_owners:
  assumes "controller_ref_laws K" and "om_OwnerReferences m = om_OwnerReferences m'"
  shows "k_isControlledBy K m owner = k_isControlledBy K m' owner"
  by (simp add: controller_ref_lawsD [OF assms(1)] assms(2))

text \<open>A deployment that was just created belongs to the group and needs no update.\<close>

lemma created_is_settled:
  assumes "controller_ref_laws K" and "create_law K"
    and "desired_deployment K cg cs name isLeader = Some deploy"
    and "k_createDeployment K h ns deploy = Inr d"
  shows "k_isControlledBy K (dep_Meta d) (cg_Meta cg)" and "replicasDiffer cs d = Some False"
    and "om_Name (dep_Meta d) = name" and "om_Namespace (dep_Meta d) = om_Namespace (cg_Meta cg)"
proof -
  note d = assms(2) [unfolded create_law_def, rule_format, OF assms(4)]
  note meta = desired_deployment_meta [OF assms(3)]
  show "k_isControlledBy K (dep_Meta d) (cg_Meta cg)"
    using desired_deployment_controlled(1) [OF assms(1,3)] d
      isControlledBy_owners [OF assms(1), of "dep_Meta d" "dep_Meta deploy"] by simp
  show "replicasDiffer cs d = Some False"
    using d meta(3) by (auto simp: replicasDiffer_def split: option.split)
  show "om_Name (dep_Meta d) = name" "om_Namespace (dep_Meta d) = om_Namespace (cg_Meta cg)"
    using d meta by simp_all
qed

section \<open>Lost errors\<close>

lemma processNewComputeGroup_result:
  "fst (processNewComputeGroup K oc cg h) \<noteq> Some (Some e)"
  by (simp add: processNewComputeGroup_def io_simps split: prod.split option.split)

lemma processUpdatedComputeGroup_result:
  "fst (processUpdatedComputeGroup K oc cg h) \<noteq> Some (Some e)"
  using processNewComputeGroup_result
  by (simp add: processUpdatedComputeGroup_def io_simps split: prod.split option.split)

lemma processNewOperator_result:
  "fst (processNewOperator K oc op h) \<noteq> Some (Some e)"
  by (simp add: processNewOperator_def io_simps split: prod.split option.split)

section \<open>Work never touches a queue\<close>

fun queue_call :: "call \<Rightarrow> bool" where
  "queue_call (QueueGet q) = True"
| "queue_call (QueueDone q obj) = True"
| "queue_call (QueueForget q obj) = True"
| "queue_call (QueueNumRequeues q obj) = True"
| "queue_call (QueueAddRateLimited q obj) = True"
| "queue_call (QueueAdd q obj) = True"
| "queue_call (QueueShutDown q) = True"
| "queue_call (HandleError e) = True"
| "queue_call e = False"

lemma group_work_no_queue: "group_work K cg e \<Longrightarrow> \<not> queue_call e"
  by (cases e) auto

lemma typed_allowed_no_queue: "typed_oc.allowed K cg e \<Longrightarrow> \<not> queue_call e"
  using group_work_no_queue
  by (auto simp: typed_oc.allowed_def typed_oc.status_of_def group_update_call_def)

lemma typed_processNew_effects:
  "\<exists>new. snd (processNewComputeGroup K (typed_controller K) cg h) = h @ new
     \<and> (\<forall>e \<in> set new. typed_oc.allowed K cg e)"
  by (rule emits_all [OF typed_oc.emits_processNewComputeGroup])

lemma emits_typed_processNew [emits_intros]:
  "emits (\<lambda>_ e. \<not> queue_call e) (processNewComputeGroup K (typed_controller K) cg)"
  by (rule typed_oc.emits_weaken [OF typed_oc.emits_processNewComputeGroup]) (rule typed_allowed_no_queue)

lemma emits_typed_group_update [emits_intros]:
  "emits (\<lambda>_ e. \<not> queue_call e) (if_Update (DatafuseComputeGroups (oc_client (typed_controller K)) ns) g opts)"
  by (rule typed_oc.group_client.emits_update) (simp add: group_update_call_def)

lemma emits_typed_group_create [emits_intros]:
  "emits (\<lambda>_ e. \<not> queue_call e) (if_Create (DatafuseComputeGroups (oc_client (typed_controller K)) ns) g opts)"
  by (rule typed_oc.group_client.emits_create) (simp add: group_create_call_def)

lemma emits_typed_operator_update [emits_intros]:
  "emits (\<lambda>_ e. \<not> queue_call e) (if_Update (DatafuseOperators (oc_client (typed_controller K)) ns) g opts)"
  by (rule typed_oc.operator_client.emits_update) (simp add: operator_update_call_def)

lemma emits_checkReady [emits_intros]: "emits (\<lambda>_ e. \<not> queue_call e) (checkReady K remove ks st)"
proof (induction ks arbitrary: st)
  case Nil
  show ?case by (simp add: emits_intros)
next
  case (Cons k ks)
  then show ?case
    by (auto simp: lister_get_deployment_def intro!: emits_intros split: list.split sum.split)
qed

lemma emits_typed_processUpdated [emits_intros]:
  "emits (\<lambda>_ e. \<not> queue_call e) (processUpdatedComputeGroup K (typed_controller K) cg)"
  by (auto simp: processUpdatedComputeGroup_def intro!: emits_intros)

lemma emits_group_lister [emits_intros]:
  "emits (\<lambda>_ e. \<not> queue_call e) (GroupNamespaceLister_Get K ns name)"
  by (rule emitsI) (simp add: group_lister.one_read)

lemma emits_typed_updateOperatorStatus [emits_intros]:
  "emits (\<lambda>_ e. \<not> queue_call e) (updateOperatorStatus K (typed_controller K) g op)"
  by (auto simp: updateOperatorStatus_def Let_def intro!: emits_intros split: prod.split)

lemma emits_typed_syncGroup2 [emits_intros]:
  "emits (\<lambda>_ e. \<not> queue_call e) (syncGroup2 K (typed_controller K) op spec)"
  unfolding syncGroup2_def tell_def
  by (auto intro!: emits_intros split: option.split prod.split sum.split)

lemma emits_typed_processNewOperator [emits_intros]:
  "emits (\<lambda>_ e. \<not> queue_call e) (processNewOperator K (typed_controller K) op)"
  unfolding processNewOperator_def by (intro emits_intros)

text \<open>Writes of deployments, and of the custom resources.\<close>

fun deployment_write :: "call \<Rightarrow> bool" where
  "deployment_write (CreateDeployment ns d) = True"
| "deployment_write (UpdateDeployment ns d) = True"
| "deployment_write (DeleteDeployment ns name) = True"
| "deployment_write e = False"

fun resource_write :: "call \<Rightarrow> bool" where
  "resource_write (Rest rq) = True"
| "resource_write e = False"

section \<open>Runs of the operator's synchronisation\<close>

definition operator_ready :: "DatafuseOperator \<Rightarrow> string \<Rightarrow> DatafuseOperator" where
  "operator_ready op key = op\<lparr>op_Status := \<lparr>ost_ComputeGroupStates =
     map_put key ComputeGroupDeployed (ost_ComputeGroupStates (op_Status op)), ost_Status = OperatorReady\<rparr>\<rparr>"

definition operator_status_call :: "DatafuseOperator \<Rightarrow> DatafuseComputeGroup \<Rightarrow> call" where
  "operator_status_call op g = operator_update_call (om_Namespace (op_Meta op))
     (operator_ready op (object_key (om_Namespace (cg_Meta g)) (om_Name (cg_Meta g)))) ''''"

definition operator_status_error :: "k8s \<Rightarrow> call list \<Rightarrow> DatafuseOperator \<Rightarrow> DatafuseComputeGroup \<Rightarrow> go_error option" where
  "operator_status_error K h op g = snd (k_restOperator K h (rest_of (operator_status_call op g)) zero_Operator)"

lemma map_put_nil: "map_put k v (if m = None then Some [] else m) = map_put k v m"
  by (simp add: map_put_def)

lemma typed_operator_status_run:
  "updateOperatorStatus K (typed_controller K) g op h =
     (Some (operator_status_error K h op g), h @ [operator_status_call op g])"
  by (simp add: updateOperatorStatus_def operator_status_call_def operator_status_error_def operator_ready_def
      map_put_nil Let_def io_simps typed_operator_update_run)

text \<open>The part of \<^verbatim>\<open>syncGroup2\<close> from the check of the owner on, for a group that was found or created.\<close>

definition settle_group :: "k8s \<Rightarrow> DatafuseOperator \<Rightarrow> DatafuseComputeGroup \<Rightarrow> call list
    \<Rightarrow> go_error option option \<times> call list" where
  "settle_group K op g h =
     (if \<not> k_isControlledBy K (cg_Meta g) (op_Meta op)
      then (Some (Some (Errorf (not_controlled_group g op))),
            h @ [RecordEvent (op_Meta op) EventTypeWarning ErrResourceExists (not_controlled_group g op)])
      else case operator_status_error K h op g of
             Some err \<Rightarrow> (Some (Some err), h @ [operator_status_call op g])
           | None \<Rightarrow> (Some None, h @ [operator_status_call op g, synced_event (op_Meta op)]))"

lemma syncGroup2_start:
  assumes "controller_ref_laws K" and "MakeComputeGroup K op spec = Some g0"
  shows "SetDatafuseComputeGroupDefaults K (Some op) (Some g0) = Some g0"
    and "om_Name (cg_Meta g0) = gs_Name spec"
    and "om_Namespace (cg_Meta g0) = (if gs_Namespace spec = '''' then ''default'' else gs_Namespace spec)"
    and "k_isControlledBy K (cg_Meta g0) (op_Meta op)"
  using MakeComputeGroup_exists [OF assms(1), of op spec] assms(2)
    defaulting.defaults_id [OF group_defaulting [OF assms(1)], of op g0]
  by (auto simp: complete_group_def)

lemma typed_syncGroup2_found:
  assumes "controller_ref_laws K"
    and "k_indexerGetByKey K h GroupInformer (object_key (gs_Namespace spec) (gs_Name spec)) = Inr (Some (GroupPtr a g))"
  shows "syncGroup2 K (typed_controller K) op (Some spec) h = settle_group K op g
    (h @ [IndexerGetByKey GroupInformer (object_key (gs_Namespace spec) (gs_Name spec))])"
proof -
  obtain g0 where g0: "MakeComputeGroup K op spec = Some g0"
    using MakeComputeGroup_exists [OF assms(1)] by blast
  note start = syncGroup2_start [OF assms(1) g0]
  show ?thesis
    using group_lister.found [OF assms(2)] g0 start
    by (simp add: syncGroup2_def settle_group_def group_of_def io_simps typed_operator_status_run synced_event_def
        split: option.split)
qed

lemma typed_syncGroup2_absent:
  assumes "controller_ref_laws K" and "not_found_law K"
    and key: "key = object_key (gs_Namespace spec) (gs_Name spec)"
    and "k_indexerGetByKey K h GroupInformer key = Inr None"
    and g0: "MakeComputeGroup K op spec = Some g0"
    and create: "create = group_create_call (om_Namespace (cg_Meta g0)) g0 ''''"
    and answer: "k_restGroup K (h @ [IndexerGetByKey GroupInformer key]) (rest_of create) zero_Group = (g, None)"
  shows "syncGroup2 K (typed_controller K) op (Some spec) h =
    settle_group K op g (h @ [IndexerGetByKey GroupInformer key, create])"
proof -
  note start = syncGroup2_start [OF assms(1) g0]
  obtain r where "GroupNamespaceLister_Get K (gs_Namespace spec) (gs_Name spec) h =
      (Some (Inl (NewNotFound r (gs_Name spec))), h @ [IndexerGetByKey GroupInformer key])"
    using group_lister.absent [OF assms(4) [unfolded key]] key by blast
  then show ?thesis
    using g0 start assms(2) answer create
    by (simp add: syncGroup2_def settle_group_def io_simps typed_operator_status_run synced_event_def
        not_found_law_def typed_group_create_run split: option.split)
qed

section \<open>Named sets\<close>

lemma namedWorkers_wf: "wf_map ans \<Longrightarrow> namedWorkers cg i ws ans = Some m \<Longrightarrow> wf_map m"
  by (induction ws arbitrary: i ans) (auto split: option.splits)

lemma buildNamedSpec_wf: "buildNamedSpec cg = Some m \<Longrightarrow> wf_map m"
  by (auto simp: buildNamedSpec_def split: option.splits
      dest: namedWorkers_wf [OF wf_map_put [OF wf_map_make]])

section \<open>Lemmas of the properties\<close>

text \<open>The lookup that \<^verbatim>\<open>processUpdatedComputeGroup\<close> makes for a key of the status.\<close>

definition key_read :: "string \<Rightarrow> call" where
  "key_read key = (case SplitN2 key (CHR ''/'') of
     [ns, name] \<Rightarrow> ListerGetDeployment ns name | _ \<Rightarrow> ListerGetDeployment '''' key)"

definition key_missing :: "k8s \<Rightarrow> call list \<Rightarrow> string \<Rightarrow> bool" where
  "key_missing K h key = (case SplitN2 key (CHR ''/'') of
     [ns, name] \<Rightarrow> (case k_listerGetDeployment K h ns name of Inl err \<Rightarrow> k_isNotFound K err | Inr d \<Rightarrow> False)
   | _ \<Rightarrow> False)"

fun gone_keys :: "k8s \<Rightarrow> call list \<Rightarrow> string list \<Rightarrow> string list" where
  "gone_keys K h [] = []"
| "gone_keys K h (key # ks) =
     (if key_missing K h key then [key] else []) @ gone_keys K (h @ [key_read key]) ks"

lemma gone_keys_subset: "set (gone_keys K h ks) \<subseteq> set ks"
  by (induction ks arbitrary: h) auto

definition mark :: "(string \<Rightarrow> DatafuseComputeGroupStatus \<Rightarrow> DatafuseComputeGroupStatus) \<Rightarrow> string
    \<Rightarrow> DatafuseComputeGroupStatus \<Rightarrow> DatafuseComputeGroupStatus" where
  "mark remove key st = remove key (st\<lparr>gst_Status := ComputeGroupPending\<rparr>)"

lemma checkReady_run:
  assumes "\<forall>k \<in> set ks. CHR ''/'' \<in> set k"
  shows "checkReady K remove ks st h =
    (Some (fold (mark remove) (gone_keys K h ks) st), h @ map key_read ks)"
  using assms
proof (induction ks arbitrary: st h)
  case Nil
  show ?case by (simp add: io_simps)
next
  case (Cons k ks)
  obtain a b where ab: "SplitN2 k (CHR ''/'') = [a, b]"
    using SplitN2_two [of "CHR ''/''" k] Cons.prems by auto
  then have read: "key_read k = ListerGetDeployment a b" by (simp add: key_read_def)
  show ?case
    using Cons.IH Cons.prems ab read
    by (simp add: io_simps key_missing_def mark_def split: sum.split)
qed

lemma checkReady_panics:
  assumes "\<exists>k \<in> set ks. CHR ''/'' \<notin> set k"
  shows "fst (checkReady K remove ks st h) = None"
  using assms
proof (induction ks arbitrary: st h)
  case Nil
  then show ?case by simp
next
  case (Cons k ks)
  show ?case
  proof (cases "CHR ''/'' \<in> set k")
    case True
    then obtain a b where "SplitN2 k (CHR ''/'') = [a, b]" using SplitN2_two by blast
    with Cons True show ?thesis by (simp add: io_simps)
  next
    case False
    then show ?thesis by (simp add: SplitN2_none io_simps)
  qed
qed

lemma mark_leaders:
  "map_get (gst_ReadyComputeLeaders (fold (mark dropLeader) ks st)) k =
     (if k \<in> set ks then None else map_get (gst_ReadyComputeLeaders st) k)"
  "gst_ReadyComputeWorkers (fold (mark dropLeader) ks st) = gst_ReadyComputeWorkers st"
  "gst_Status (fold (mark dropLeader) ks st) = (if ks = [] then gst_Status st else ComputeGroupPending)"
  by (induction ks arbitrary: st) (auto simp: mark_def dropLeader_def)

lemma mark_workers:
  "map_get (gst_ReadyComputeWorkers (fold (mark dropWorker) ks st)) k =
     (if k \<in> set ks then None else map_get (gst_ReadyComputeWorkers st) k)"
  "gst_ReadyComputeLeaders (fold (mark dropWorker) ks st) = gst_ReadyComputeLeaders st"
  "gst_Status (fold (mark dropWorker) ks st) = (if ks = [] then gst_Status st else ComputeGroupPending)"
  by (induction ks arbitrary: st) (auto simp: mark_def dropWorker_def)

lemma status_write_fields:
  "map_get (gst_ReadyComputeLeaders (cg_Status (status_write cg key l))) k =
     (if l \<and> k = key then Some ComputeInstanceReadyState else map_get (gst_ReadyComputeLeaders (cg_Status cg)) k)"
  "map_get (gst_ReadyComputeWorkers (cg_Status (status_write cg key l))) k =
     (if \<not> l \<and> k = key then Some ComputeInstanceReadyState else map_get (gst_ReadyComputeWorkers (cg_Status cg)) k)"
  "gst_Status (cg_Status (status_write cg key l)) = (if l then ComputeGroupDeployed else gst_Status (cg_Status cg))"
  "cg_Meta (status_write cg key l) = cg_Meta cg"
  "cg_Spec (status_write cg key l) = cg_Spec cg"
  by (auto simp: status_write_def group_status_copy_def Let_def)

lemma status_write_entry:
  assumes "\<exists>key l. g = status_write cg key l"
  shows "cg_Meta g = cg_Meta cg \<and> cg_Spec g = cg_Spec cg \<and>
    (\<exists>key l. gst_Status (cg_Status g) = (if l then ComputeGroupDeployed else gst_Status (cg_Status cg))
      \<and> (\<forall>k. map_get (gst_ReadyComputeLeaders (cg_Status g)) k = (if l \<and> k = key
            then Some ComputeInstanceReadyState else map_get (gst_ReadyComputeLeaders (cg_Status cg)) k))
      \<and> (\<forall>k. map_get (gst_ReadyComputeWorkers (cg_Status g)) k = (if \<not> l \<and> k = key
            then Some ComputeInstanceReadyState else map_get (gst_ReadyComputeWorkers (cg_Status cg)) k)))"
proof -
  obtain key l where "g = status_write cg key l" using assms by blast
  then show ?thesis
    by (intro conjI exI [of _ key] exI [of _ l] allI) (simp_all only: status_write_fields)
qed

text \<open>A queue that hands out at most \<open>n\<close> items and is then shut down.\<close>

definition gets :: "queue \<Rightarrow> call list \<Rightarrow> nat" where
  "gets q h = length (filter (\<lambda>e. e = QueueGet q) h)"

definition shut_after :: "k8s \<Rightarrow> queue \<Rightarrow> nat \<Rightarrow> bool" where
  "shut_after K q n \<longleftrightarrow> (\<forall>h. n \<le> gets q h \<longrightarrow> k_queueGet K h q = None)"

text \<open>A worker's step: it takes one item, and answers false exactly when there is none.\<close>

definition takes_item :: "k8s \<Rightarrow> queue \<Rightarrow> bool go \<Rightarrow> bool" where
  "takes_item K q step \<longleftrightarrow> (\<forall>h. (k_queueGet K h q = None \<longrightarrow> step h = (Some False, h @ [QueueGet q]))
     \<and> gets q h < gets q (snd (step h)))"

lemma runWorker_returns:
  assumes "takes_item K q step" and "shut_after K q n"
  shows "n - gets q h < fuel \<Longrightarrow> \<exists>r. runWorker fuel step h = Some r"
proof (induction fuel arbitrary: h)
  case 0
  then show ?case by simp
next
  case (Suc fuel)
  obtain r h' where step: "step h = (r, h')" by (cases "step h")
  show ?case
  proof (cases "n \<le> gets q h")
    case True
    then have "step h = (Some False, h @ [QueueGet q])"
      using assms by (simp add: shut_after_def takes_item_def)
    then show ?thesis by simp
  next
    case False
    from assms(1) have "gets q h < gets q (snd (step h))" unfolding takes_item_def by blast
    with step False Suc.prems have "n - gets q h' < fuel" by simp
    from Suc.IH [OF this] step show ?thesis by (cases r) simp_all
  qed
qed

text \<open>What one step of a worker adds to the history when there is an item.\<close>

lemma group_step_trace:
  assumes "k_queueGet K h GroupQueue = Some (GroupPtr a cg)"
  shows "\<exists>work. snd (processNextComputeGroup K (typed_controller K) h) =
      h @ [QueueGet GroupQueue] @ work
        @ (if fst (processNextComputeGroup K (typed_controller K) h) = None then []
           else [QueueForget GroupQueue (GroupPtr a cg)])
        @ [QueueDone GroupQueue (GroupPtr a cg)]
    \<and> (\<forall>e \<in> set work. \<not> queue_call e)
    \<and> fst (processNextComputeGroup K (typed_controller K) h) \<noteq> Some False"
proof -
  obtain created cg' where cr: "IsComputeGroupCreated cg = (created, cg')" by fastforce
  define m where "m = (if created then processNewComputeGroup K (typed_controller K) cg'
    else processUpdatedComputeGroup K (typed_controller K) cg')"
  obtain r h' where run: "m (h @ [QueueGet GroupQueue]) = (r, h')" by fastforce
  have "emits (\<lambda>_ e. \<not> queue_call e) m" by (simp add: m_def emits_intros)
  from emits_all [OF this, of "h @ [QueueGet GroupQueue]"] run obtain work where
    w: "h' = (h @ [QueueGet GroupQueue]) @ work" "\<forall>e \<in> set work. \<not> queue_call e" by auto
  have "r \<noteq> Some (Some e)" for e
    using run processNewComputeGroup_result [of K "typed_controller K" cg' "h @ [QueueGet GroupQueue]" e]
      processUpdatedComputeGroup_result [of K "typed_controller K" cg' "h @ [QueueGet GroupQueue]" e]
    by (auto simp: m_def split: if_splits)
  then consider "r = None" | "r = Some None" by (cases r) auto
  then show ?thesis
  proof cases
    case 1
    with run have "processNextComputeGroup K (typed_controller K) h = (None, h' @ [QueueDone GroupQueue (GroupPtr a cg)])"
      using assms by (simp add: processNextComputeGroup_def cr m_def [symmetric] io_simps)
    with w show ?thesis by (intro exI [of _ work]) simp
  next
    case 2
    with run have "processNextComputeGroup K (typed_controller K) h =
        (Some True, h' @ [QueueForget GroupQueue (GroupPtr a cg), QueueDone GroupQueue (GroupPtr a cg)])"
      using assms by (simp add: processNextComputeGroup_def cr m_def [symmetric] groupErrorHandler_def io_simps)
    with w show ?thesis by (intro exI [of _ work]) simp
  qed
qed

lemma operator_step_trace:
  assumes "k_queueGet K h OperatorQueue = Some (OperatorPtr a op)"
  shows "\<exists>work. snd (processNextOperator K (typed_controller K) h) =
      h @ [QueueGet OperatorQueue] @ work
        @ (if fst (processNextOperator K (typed_controller K) h) = None then []
           else [QueueForget OperatorQueue (OperatorPtr a op)])
        @ [QueueDone OperatorQueue (OperatorPtr a op)]
    \<and> (\<forall>e \<in> set work. \<not> queue_call e)
    \<and> fst (processNextOperator K (typed_controller K) h) \<noteq> Some False"
proof -
  define m where "m = processNewOperator K (typed_controller K) (snd (IsOperatorCreated op))"
  obtain r h' where run: "m (h @ [QueueGet OperatorQueue]) = (r, h')" by fastforce
  have "emits (\<lambda>_ e. \<not> queue_call e) m" by (simp add: m_def emits_intros)
  from emits_all [OF this, of "h @ [QueueGet OperatorQueue]"] run obtain work where
    w: "h' = (h @ [QueueGet OperatorQueue]) @ work" "\<forall>e \<in> set work. \<not> queue_call e" by auto
  have "r \<noteq> Some (Some e)" for e
    using run processNewOperator_result [of K "typed_controller K" "snd (IsOperatorCreated op)" "h @ [QueueGet OperatorQueue]" e]
    by (auto simp: m_def)
  then consider "r = None" | "r = Some None" by (cases r) auto
  then show ?thesis
  proof cases
    case 1
    with run have "processNextOperator K (typed_controller K) h = (None, h' @ [QueueDone OperatorQueue (OperatorPtr a op)])"
      using assms by (simp add: processNextOperator_def m_def [symmetric] io_simps)
    with w show ?thesis by (intro exI [of _ work]) simp
  next
    case 2
    with run have "processNextOperator K (typed_controller K) h =
        (Some True, h' @ [QueueForget OperatorQueue (OperatorPtr a op), QueueDone OperatorQueue (OperatorPtr a op)])"
      using assms by (simp add: processNextOperator_def m_def [symmetric] operatorErrorHandler_def io_simps)
    with w show ?thesis by (intro exI [of _ work]) simp
  qed
qed

lemma gets_append: "gets q (xs @ ys) = gets q xs + gets q ys"
  by (simp add: gets_def)

lemma takes_item_group: "takes_item K GroupQueue (processNextComputeGroup K (typed_controller K))"
  unfolding takes_item_def
proof (intro allI conjI impI)
  fix h
  show "processNextComputeGroup K (typed_controller K) h = (Some False, h @ [QueueGet GroupQueue])"
    if "k_queueGet K h GroupQueue = None"
    using that by (simp add: processNextComputeGroup_def io_simps)
  show "gets GroupQueue h < gets GroupQueue (snd (processNextComputeGroup K (typed_controller K) h))"
  proof (cases "\<exists>a cg. k_queueGet K h GroupQueue = Some (GroupPtr a cg)")
    case True
    then obtain a cg where "k_queueGet K h GroupQueue = Some (GroupPtr a cg)" by blast
    from group_step_trace [OF this] show ?thesis by (auto simp: gets_append) (simp_all add: gets_def)
  next
    case False
    then show ?thesis
      by (auto simp: processNextComputeGroup_def io_simps gets_append split: option.split go_obj.split)
        (simp_all add: gets_def)
  qed
qed

lemma takes_item_operator: "takes_item K OperatorQueue (processNextOperator K (typed_controller K))"
  unfolding takes_item_def
proof (intro allI conjI impI)
  fix h
  show "processNextOperator K (typed_controller K) h = (Some False, h @ [QueueGet OperatorQueue])"
    if "k_queueGet K h OperatorQueue = None"
    using that by (simp add: processNextOperator_def io_simps)
  show "gets OperatorQueue h < gets OperatorQueue (snd (processNextOperator K (typed_controller K) h))"
  proof (cases "\<exists>a op. k_queueGet K h OperatorQueue = Some (OperatorPtr a op)")
    case True
    then obtain a op where "k_queueGet K h OperatorQueue = Some (OperatorPtr a op)" by blast
    from operator_step_trace [OF this] show ?thesis by (auto simp: gets_append) (simp_all add: gets_def)
  next
    case False
    then show ?thesis
      by (auto simp: processNextOperator_def io_simps gets_append split: option.split go_obj.split)
        (simp_all add: gets_def)
  qed
qed

lemma existing_worker_run:
  assumes deploy: "desired_deployment K cg cs name False = Some deploy"
    and "ns = om_Namespace (cg_Meta cg)"
    and "k_listerGetDeployment K h ns name = Inr d"
    and "k_isControlledBy K (dep_Meta d) (cg_Meta cg)"
    and "replicasDiffer cs d = Some differ"
    and "h1 = h @ [ListerGetDeployment ns name]"
    and "h2 = (if differ then h1 @ [UpdateDeployment ns deploy] else h1)"
  shows "syncComputeGroup K (typed_controller K) cg (Some cs) name False h =
    (case (if differ then k_updateDeployment K h1 ns deploy else Inr d) of
       Inl err \<Rightarrow> (Some (Some err), h2)
     | Inr d' \<Rightarrow>
         (case status_error K h2 cg d' False of
            Some err \<Rightarrow> (Some (Some err), h2 @ [status_call cg d' False])
          | None \<Rightarrow> (Some None, h2 @ [status_call cg d' False, synced_event (cg_Meta cg)])))"
proof -
  have "ensureDeployment K deploy h = (Some (Inr d), h1)"
    using assms desired_deployment_meta [OF deploy] by (simp add: ensureDeployment_def io_simps)
  then show ?thesis
    unfolding syncComputeGroup_desired [OF deploy]
    using assms by (cases differ) (simp_all add: bind_ret typed_syncControlled_run Let_def io_simps
        split: option.split sum.split)
qed

section \<open>Properties\<close>

text \<open>C1 (functional).  The first synchronisation of a leader: when neither the deployment nor the
  service exists, the controller creates first the deployment it wants and then the group's
  service, records the deployment in the group's status as ready, and sends the success event;
  it makes no other call.\<close>

theorem leader_first_sync:
  assumes "controller_ref_laws K" and "create_law K"
    and deploy: "desired_deployment K cg cs name True = Some deploy"
    and svc: "MakeService (om_Name (cg_Meta cg)) deploy = Some svc"
    and ns: "ns = om_Namespace (cg_Meta cg)"
    and "h1 = h @ [ListerGetDeployment ns name]"
    and "k_listerGetDeployment K h ns name = Inl e1" and "k_isNotFound K e1"
    and "k_createDeployment K h1 ns deploy = Inr d"
    and "h2 = h1 @ [CreateDeployment ns deploy]"
    and "k_listerGetService K h2 ns (om_Name (cg_Meta cg)) = Inl e2" and "k_isNotFound K e2"
    and "h3 = h2 @ [ListerGetService ns (om_Name (cg_Meta cg))]"
    and "k_createService K h3 ns svc = Inr s"
    and "status_error K (h3 @ [CreateService ns svc]) cg d True = None"
  shows "syncComputeGroup K (typed_controller K) cg (Some cs) name True h = (Some None, h @
     [ListerGetDeployment ns name, CreateDeployment ns deploy,
      ListerGetService ns (om_Name (cg_Meta cg)), CreateService ns svc,
      group_update_call ns (status_write cg (object_key ns name) True) '''',
      RecordEvent (cg_Meta cg) EventTypeNormal SuccessSynced MessageResourceSynced])"
proof -
  note meta = desired_deployment_meta [OF deploy]
  note made = created_is_settled [OF assms(1,2) deploy assms(9)]
  note smeta = MakeService_meta [OF svc]
  have ensured: "ensureDeployment K deploy h = (Some (Inr d), h2)"
    using assms meta by (simp add: ensureDeployment_def io_simps)
  have served: "ensureService K svc h2 = (Some None, h3 @ [CreateService ns svc])"
    using assms smeta meta by (simp add: ensureService_def io_simps)
  have finish: "syncControlled K (typed_controller K) cg cs deploy d True (h3 @ [CreateService ns svc]) =
      (Some None, (h3 @ [CreateService ns svc]) @ [status_call cg d True, synced_event (cg_Meta cg)])"
    using assms made by (simp add: typed_syncControlled_run Let_def)
  have "syncComputeGroup K (typed_controller K) cg (Some cs) name True h =
      (Some None, (h3 @ [CreateService ns svc]) @ [status_call cg d True, synced_event (cg_Meta cg)])"
    unfolding syncComputeGroup_desired [OF deploy]
    by (simp add: ensured served finish svc io_simps)
  then show ?thesis
    using assms made by (simp add: status_call_def synced_event_def)
qed

text \<open>A worker set whose deployment exists and belongs to the group: the
  deployment is written exactly when the number of replicas differs from the specification's, and
  then with the whole desired deployment.  No other difference, such as a new image, reaches an
  existing deployment.\<close>

theorem existing_worker_sync:
  assumes deploy: "desired_deployment K cg cs name False = Some deploy"
    and "ns = om_Namespace (cg_Meta cg)"
    and "k_listerGetDeployment K h ns name = Inr d"
    and "k_isControlledBy K (dep_Meta d) (cg_Meta cg)"
    and "ds_Replicas (dep_Spec d) = Some have"
    and "differ = (cs_Replicas cs \<noteq> None \<and> cs_Replicas cs \<noteq> Some have)"
    and "h1 = h @ [ListerGetDeployment ns name]"
    and "h2 = (if differ then h1 @ [UpdateDeployment ns deploy] else h1)"
  shows "syncComputeGroup K (typed_controller K) cg (Some cs) name False h =
    (case (if differ then k_updateDeployment K h1 ns deploy else Inr d) of
       Inl err \<Rightarrow> (Some (Some err), h2)
     | Inr d' \<Rightarrow>
         (case status_error K h2 cg d' False of
            Some err \<Rightarrow> (Some (Some err), h2 @ [status_call cg d' False])
          | None \<Rightarrow> (Some None, h2 @ [status_call cg d' False, synced_event (cg_Meta cg)])))"
proof -
  have "replicasDiffer cs d = Some differ"
    using assms(5,6) by (simp add: replicasDiffer_def split: option.split)
  from existing_worker_run [OF assms(1-4) this assms(7,8)] show ?thesis .
qed

text \<open>C13 (safety).  A deployment that exists under the wanted name but is not controlled by the group
  is never written: the synchronisation ends in an error or a panic, having read the caches, at
  most created the group's own service, and at most warned with an event.\<close>

theorem foreign_deployment_untouched:
  assumes "k_listerGetDeployment K h (om_Namespace (cg_Meta cg)) name = Inr d"
    and "\<not> k_isControlledBy K (dep_Meta d) (cg_Meta cg)"
  shows "fst (syncComputeGroup K (typed_controller K) cg cs name isLeader h) \<noteq> Some None
    \<and> (\<exists>new. snd (syncComputeGroup K (typed_controller K) cg cs name isLeader h) = h @ new
        \<and> (\<forall>e \<in> set new. \<not> deployment_write e \<and> \<not> resource_write e))"
proof (cases cs)
  case None
  then show ?thesis
    by (auto simp: syncComputeGroup_def io_simps split: sum.split)
next
  case (Some cs')
  show ?thesis
  proof (cases "desired_deployment K cg cs' name isLeader")
    case None
    show ?thesis
      unfolding Some syncComputeGroup_undesired [OF None] by (auto split: sum.split)
  next
    case (Some deploy)
    note meta = desired_deployment_meta [OF Some]
    obtain svc where svc: "MakeService (om_Name (cg_Meta cg)) deploy = Some svc" using meta(7) by blast
    have ensured: "ensureDeployment K deploy h =
        (Some (Inr d), h @ [ListerGetDeployment (om_Namespace (cg_Meta cg)) name])"
      using assms meta by (simp add: ensureDeployment_def io_simps)
    show ?thesis
      unfolding \<open>cs = Some cs'\<close> syncComputeGroup_desired [OF Some]
      using assms(2)
      by (auto simp: ensured svc ensureService_def typed_syncControlled_run io_simps
          split: sum.splits option.splits)
  qed
qed

text \<open>C14 (safety).  What the synchronisation of a group may do to the cluster, whatever the answers:
  every deployment it creates or updates is one that the group wants, in the group's own
  namespace; every service bears the group's name there; every other write is the group itself
  with one more key in its status; and it never touches a queue.\<close>

theorem group_sync_effects:
  "\<exists>new. snd (processNewComputeGroup K (typed_controller K) cg h) = h @ new
    \<and> (\<forall>e \<in> set new. group_work K cg e \<or>
        (\<exists>key l. e = group_update_call (om_Namespace (cg_Meta cg)) (status_write cg key l) ''''))"
  using typed_processNew_effects [of K cg h]
  by (simp add: typed_oc.allowed_def typed_oc.status_of_def)

text \<open>Every status that a synchronisation writes differs from the group it started
  with in one entry only: the writes for the other sets of the same run are not in it, so the last
  accepted write decides alone.\<close>

theorem status_writes_are_independent:
  "\<exists>new. snd (processNewComputeGroup K (typed_controller K) cg h) = h @ new
    \<and> (\<forall>rq g. Rest rq \<in> set new \<and> rq_Body rq = GroupBody g \<longrightarrow>
        cg_Meta g = cg_Meta cg \<and> cg_Spec g = cg_Spec cg \<and>
        (\<exists>key l. gst_Status (cg_Status g) = (if l then ComputeGroupDeployed else gst_Status (cg_Status cg))
          \<and> (\<forall>k. map_get (gst_ReadyComputeLeaders (cg_Status g)) k = (if l \<and> k = key
                then Some ComputeInstanceReadyState else map_get (gst_ReadyComputeLeaders (cg_Status cg)) k))
          \<and> (\<forall>k. map_get (gst_ReadyComputeWorkers (cg_Status g)) k = (if \<not> l \<and> k = key
                then Some ComputeInstanceReadyState else map_get (gst_ReadyComputeWorkers (cg_Status cg)) k))))"
proof -
  obtain new where new: "snd (processNewComputeGroup K (typed_controller K) cg h) = h @ new"
    "\<forall>e \<in> set new. typed_oc.allowed K cg e"
    using typed_processNew_effects by blast
  have "\<exists>key l. g = status_write cg key l" if "Rest rq \<in> set new \<and> rq_Body rq = GroupBody g" for rq g
  proof -
    have "typed_oc.allowed K cg (Rest rq)" using new(2) that by blast
    then obtain key l where "Rest rq = group_update_call (om_Namespace (cg_Meta cg)) (status_write cg key l) ''''"
      unfolding typed_oc.allowed_def typed_oc.status_of_def by auto
    with that show ?thesis by (auto simp: group_update_call_def)
  qed
  note entry = status_write_entry [OF this]
  show ?thesis
  proof (intro exI [of _ new] conjI allI impI)
    show "snd (processNewComputeGroup K (typed_controller K) cg h) = h @ new" by (rule new(1))
  qed (rule entry [THEN conjunct1] entry [THEN conjunct2, THEN conjunct1]
      entry [THEN conjunct2, THEN conjunct2]; assumption)+
qed

text \<open>C15 (functional).  The check of a group that was synchronised before: the controller looks up the
  deployment of every key of its status, writes back the status with exactly the keys taken out
  whose deployment was not found, the state being Pending when any was, and then synchronises the
  group as it was before the check, whatever came of the write.\<close>

theorem updated_group_pruned:
  assumes "range_law K"
    and "\<not> (gst_ReadyComputeLeaders (cg_Status cg) = None \<and> gst_ReadyComputeWorkers (cg_Status cg) = None)"
    and "\<forall>k \<in> set (map_keys (gst_ReadyComputeLeaders (cg_Status cg))
           @ map_keys (gst_ReadyComputeWorkers (cg_Status cg))). CHR ''/'' \<in> set k"
  shows "\<exists>lk wk st h1 h2.
     mset lk = mset (map_keys (gst_ReadyComputeLeaders (cg_Status cg)))
     \<and> mset wk = mset (map_keys (gst_ReadyComputeWorkers (cg_Status cg)))
     \<and> h1 = h @ map key_read lk \<and> h2 = h1 @ map key_read wk
     \<and> (\<forall>k. map_get (gst_ReadyComputeLeaders st) k = (if k \<in> set (gone_keys K h lk) then None
            else map_get (gst_ReadyComputeLeaders (cg_Status cg)) k))
     \<and> (\<forall>k. map_get (gst_ReadyComputeWorkers st) k = (if k \<in> set (gone_keys K h1 wk) then None
            else map_get (gst_ReadyComputeWorkers (cg_Status cg)) k))
     \<and> gst_Status st = (if gone_keys K h lk @ gone_keys K h1 wk = [] then gst_Status (cg_Status cg)
          else ComputeGroupPending)
     \<and> processUpdatedComputeGroup K (typed_controller K) cg h =
         processNewComputeGroup K (typed_controller K) cg
           (h2 @ [group_update_call (om_Namespace (cg_Meta cg)) (cg\<lparr>cg_Status := st\<rparr>) ''''])"
proof -
  define lk where "lk = k_rangeOrder K h (map_keys (gst_ReadyComputeLeaders (cg_Status cg)))"
  define h1 where "h1 = h @ map key_read lk"
  define wk where "wk = k_rangeOrder K h1 (map_keys (gst_ReadyComputeWorkers (cg_Status cg)))"
  define st1 where "st1 = fold (mark dropLeader) (gone_keys K h lk) (cg_Status cg)"
  define st2 where "st2 = fold (mark dropWorker) (gone_keys K h1 wk) st1"
  have lk: "mset lk = mset (map_keys (gst_ReadyComputeLeaders (cg_Status cg)))"
    and wk: "mset wk = mset (map_keys (gst_ReadyComputeWorkers (cg_Status cg)))"
    using assms(1) by (simp_all add: lk_def wk_def range_law_def)
  then have "\<forall>k \<in> set lk. CHR ''/'' \<in> set k" "\<forall>k \<in> set wk. CHR ''/'' \<in> set k"
    using assms(3) by (simp_all add: mset_eq_setD [OF lk] mset_eq_setD [OF wk])
  then have run: "processUpdatedComputeGroup K (typed_controller K) cg h =
      processNewComputeGroup K (typed_controller K) cg ((h1 @ map key_read wk)
        @ [group_update_call (om_Namespace (cg_Meta cg)) (cg\<lparr>cg_Status := st2\<rparr>) ''''])"
    using assms(2)
    by (auto simp: processUpdatedComputeGroup_def io_simps checkReady_run typed_group_update_run
        lk_def [symmetric] h1_def [symmetric] wk_def [symmetric] st1_def [symmetric] st2_def [symmetric])
  show ?thesis
    by (intro exI [of _ lk] exI [of _ wk] exI [of _ st2] exI [of _ h1] exI [of _ "h1 @ map key_read wk"] conjI
        lk wk h1_def run refl allI)
      (simp_all add: st1_def st2_def mark_leaders mark_workers)
qed

text \<open>A key without a slash in a group's status makes its check panic, before anything is
  written.\<close>

theorem updated_group_bad_key:
  assumes "range_law K" and "key \<in> set (map_keys (gst_ReadyComputeLeaders (cg_Status cg)))"
    and "CHR ''/'' \<notin> set key"
  shows "fst (processUpdatedComputeGroup K oc cg h) = None"
proof -
  have "key \<in> set (k_rangeOrder K h (map_keys (gst_ReadyComputeLeaders (cg_Status cg))))"
    using assms(2) range_law_set [OF assms(1)] by simp
  with assms(3) have "fst (checkReady K dropLeader
      (k_rangeOrder K h (map_keys (gst_ReadyComputeLeaders (cg_Status cg)))) (cg_Status cg) h) = None"
    by (intro checkReady_panics) blast
  moreover have "gst_ReadyComputeLeaders (cg_Status cg) \<noteq> None"
    using assms(2) by (cases "gst_ReadyComputeLeaders (cg_Status cg)") (auto simp: map_keys_def)
  ultimately show ?thesis
    by (auto simp: processUpdatedComputeGroup_def io_simps split: prod.splits)
qed

text \<open>The key under which a deployment is recorded in a group's status is read back as
  that deployment by the later check, for every namespace without a slash.\<close>

theorem status_key_read_back:
  assumes "CHR ''/'' \<notin> set (om_Namespace (dep_Meta d))"
  shows "\<exists>g key. status_call cg d l = group_update_call (om_Namespace (cg_Meta cg)) g ''''
     \<and> map_get (if l then gst_ReadyComputeLeaders (cg_Status g) else gst_ReadyComputeWorkers (cg_Status g)) key
         = Some ComputeInstanceReadyState
     \<and> checkReady K remove [key] st h =
         (Some (if key_missing K h key then mark remove key st else st),
          h @ [ListerGetDeployment (om_Namespace (dep_Meta d)) (om_Name (dep_Meta d))])"
proof -
  let ?key = "object_key (om_Namespace (dep_Meta d)) (om_Name (dep_Meta d))"
  show ?thesis
    using checkReady_run [of "[?key]" K remove st h] object_key_split [OF assms]
    by (intro exI [of _ "status_write cg ?key l"] exI [of _ ?key])
      (simp add: status_call_def status_write_fields key_read_def split: if_splits)
qed

text \<open>C17 (error).  An item of the group queue is always handed back with \<^verbatim>\<open>Done\<close>; when the handler does not
  panic it is forgotten whatever happened, since every error of the synchronisation is lost: it is
  never queued again and no error is reported, so the limit of 50 requeues is never reached.\<close>

theorem group_item_always_forgotten:
  assumes "k_queueGet K h GroupQueue = Some (GroupPtr a cg)"
  shows "\<exists>work. (\<forall>e \<in> set work. \<not> queue_call e)
    \<and> (processNextComputeGroup K (typed_controller K) h =
         (None, h @ [QueueGet GroupQueue] @ work @ [QueueDone GroupQueue (GroupPtr a cg)])
     \<or> processNextComputeGroup K (typed_controller K) h =
         (Some True, h @ [QueueGet GroupQueue] @ work
           @ [QueueForget GroupQueue (GroupPtr a cg), QueueDone GroupQueue (GroupPtr a cg)]))"
  using group_step_trace [OF assms]
  by (cases "fst (processNextComputeGroup K (typed_controller K) h)") (auto simp: prod_eq_iff)

text \<open>Every item of the operator queue that is an operator is forgotten too, whatever goes wrong.\<close>

theorem operator_item_always_forgotten:
  assumes "k_queueGet K h OperatorQueue = Some (OperatorPtr a op)"
  shows "\<exists>work. (\<forall>e \<in> set work. \<not> queue_call e)
    \<and> (processNextOperator K (typed_controller K) h =
         (None, h @ [QueueGet OperatorQueue] @ work @ [QueueDone OperatorQueue (OperatorPtr a op)])
     \<or> processNextOperator K (typed_controller K) h =
         (Some True, h @ [QueueGet OperatorQueue] @ work
           @ [QueueForget OperatorQueue (OperatorPtr a op), QueueDone OperatorQueue (OperatorPtr a op)]))"
  using operator_step_trace [OF assms]
  by (cases "fst (processNextOperator K (typed_controller K) h)") (auto simp: prod_eq_iff)

text \<open>C26 (termination).  A worker of either queue returns once its queue is shut down: if the queue hands
  out at most \<open>n\<close> items, \<open>n + 1\<close> rounds of the loop are enough, from every history.\<close>

theorem workers_return:
  assumes "shut_after K GroupQueue n" and "shut_after K OperatorQueue n"
  shows "(\<exists>r. runGroupWorker (Suc n) K (typed_controller K) h = Some r)
     \<and> (\<exists>r. runOperatorWorker (Suc n) K (typed_controller K) h = Some r)"
  using runWorker_returns [OF takes_item_group assms(1), of h "Suc n"]
    runWorker_returns [OF takes_item_operator assms(2), of h "Suc n"]
  by (simp add: runGroupWorker_def runOperatorWorker_def)

text \<open>C24 (functional).  Synchronising a group that does not exist yet: the lookup is made in the namespace of the
  specification, the group is created in that namespace or, when it is empty, in \<^verbatim>\<open>default\<close>, and
  when the server returns it with the owner it was sent with, the operator's status records it.\<close>

theorem operator_creates_group:
  assumes "controller_ref_laws K" and "not_found_law K"
    and "key = object_key (gs_Namespace spec) (gs_Name spec)"
    and "k_indexerGetByKey K h GroupInformer key = Inr None"
    and "MakeComputeGroup K op spec = Some g0"
    and "ns = (if gs_Namespace spec = '''' then ''default'' else gs_Namespace spec)"
    and "create = group_create_call ns g0 ''''"
    and "h1 = h @ [IndexerGetByKey GroupInformer key]"
    and "k_restGroup K h1 (rest_of create) zero_Group = (g, None)"
    and "om_OwnerReferences (cg_Meta g) = om_OwnerReferences (cg_Meta g0)"
    and "operator_status_error K (h1 @ [create]) op g = None"
  shows "syncGroup2 K (typed_controller K) op (Some spec) h = (Some None, h @
     [IndexerGetByKey GroupInformer key, create, operator_status_call op g,
      RecordEvent (op_Meta op) EventTypeNormal SuccessSynced MessageResourceSynced])"
proof -
  note start = syncGroup2_start [OF assms(1,5)]
  have "k_isControlledBy K (cg_Meta g) (op_Meta op)"
    using start(4) isControlledBy_owners [OF assms(1), of "cg_Meta g" "cg_Meta g0"] assms(10) by simp
  moreover have "syncGroup2 K (typed_controller K) op (Some spec) h =
      settle_group K op g (h @ [IndexerGetByKey GroupInformer key, create])"
    by (rule typed_syncGroup2_absent [OF assms(1,2,3,4,5)]) (use assms start in simp_all)
  ultimately show ?thesis
    using assms by (simp add: settle_group_def synced_event_def)
qed

text \<open>C25 (safety).  A group that exists is never written by the operator's synchronisation, even when its
  specification has changed: one that the operator does not control is reported with a warning and
  an error, for any other only the operator's own status is updated.\<close>

theorem existing_group_never_updated:
  assumes "controller_ref_laws K"
    and "key = object_key (gs_Namespace spec) (gs_Name spec)"
    and "k_indexerGetByKey K h GroupInformer key = Inr (Some (GroupPtr a g))"
    and "h1 = h @ [IndexerGetByKey GroupInformer key]"
  shows "syncGroup2 K (typed_controller K) op (Some spec) h =
    (if \<not> k_isControlledBy K (cg_Meta g) (op_Meta op)
     then (Some (Some (Errorf (not_controlled_group g op))),
           h1 @ [RecordEvent (op_Meta op) EventTypeWarning ErrResourceExists (not_controlled_group g op)])
     else case operator_status_error K h1 op g of
            Some err \<Rightarrow> (Some (Some err), h1 @ [operator_status_call op g])
          | None \<Rightarrow> (Some None, h1 @ [operator_status_call op g, synced_event (op_Meta op)]))"
  using typed_syncGroup2_found [OF assms(1), of h spec a g op] assms(2,3,4)
  by (simp add: settle_group_def split: option.split)

text \<open>C29 (error).  When the lookup of a group fails in any other way than not finding it, the
  synchronisation panics: the owner of a nil group is read before the error is looked at.\<close>

theorem failed_group_lookup_panics:
  assumes "controller_ref_laws K"
    and "k_indexerGetByKey K h GroupInformer (object_key (gs_Namespace spec) (gs_Name spec)) = Inl e"
    and "\<not> k_isNotFound K e"
  shows "syncGroup2 K oc op (Some spec) h =
    (None, h @ [IndexerGetByKey GroupInformer (object_key (gs_Namespace spec) (gs_Name spec))])"
proof -
  obtain g0 where g0: "MakeComputeGroup K op spec = Some g0"
    using MakeComputeGroup_exists [OF assms(1)] by blast
  then show ?thesis
    using syncGroup2_start [OF assms(1) g0] group_lister.failed [OF assms(2)] assms(3)
    by (simp add: syncGroup2_def io_simps)
qed

text \<open>C27 (safety).  An informer delivers pointers, and for pointers the update handlers of groups and operators
  do nothing: a change of a group or operator is not queued, and neither is a deletion; only an
  addition is.\<close>

theorem only_additions_queued:
  "groupEvent K (Updated old (GroupPtr a g)) h = (Some (), h)
   \<and> groupEvent K (Updated (GroupPtr b g') new) h = (Some (), h)
   \<and> groupEvent K (Deleted obj) h = (Some (), h)
   \<and> groupEvent K (Added obj) h = (Some (), h @ [QueueAddRateLimited GroupQueue obj])
   \<and> operatorEvent K (Updated old (OperatorPtr a op)) h = (Some (), h)
   \<and> operatorEvent K (Updated (OperatorPtr b op') new) h = (Some (), h)
   \<and> operatorEvent K (Deleted obj) h = (Some (), h)
   \<and> operatorEvent K (Added obj) h = (Some (), h @ [QueueAddRateLimited OperatorQueue obj])"
  by (simp add: io_simps split: go_obj.split)

lemma handleOwner_group:
  assumes "controller_ref_laws K" and "om_OwnerReferences m = Some [k_newControllerRef K owner (WithKind ''DatafuseComputeGroup'')]"
  shows "handleOwner K m h = (Some (), h)"
  using assms(2) by (simp add: handleOwner_def controller_ref_lawsD [OF assms(1)] WithKind_def io_simps)

text \<open>C28 (safety).  No event of a deployment that the controller made for a group, or of the group's
  service, queues the group.  The informers deliver the objects as they are stored, with whatever
  version, identity, defaults and status the server and other controllers gave them; but these keep the
  owner references of what was sent, which have the kind \<^verbatim>\<open>DatafuseComputeGroup\<close>, and the handler
  only follows the kind \<^verbatim>\<open>Foo\<close>.  So an addition, any update, a deletion and a missed deletion all
  pass without a call.\<close>

theorem owned_objects_not_followed:
  assumes "controller_ref_laws K" and "desired_deployment K cg cs name isLeader = Some sent" and "MakeService svcName sent = Some sentSvc"
    and "om_OwnerReferences (dep_Meta d) = om_OwnerReferences (dep_Meta sent)"
    and "om_OwnerReferences (svc_Meta s) = om_OwnerReferences (svc_Meta sentSvc)"
    and "dEvent \<in> {Added (DeploymentPtr a d), Updated (DeploymentPtr a' d') (DeploymentPtr a d), Deleted (DeploymentPtr a d),
      Deleted (DeletedFinalStateUnknown key (DeploymentPtr a d))}"
    and "sEvent \<in> {Added (ServicePtr b s), Updated (ServicePtr b' s') (ServicePtr b s), Deleted (ServicePtr b s),
      Deleted (DeletedFinalStateUnknown key (ServicePtr b s))}"
  shows "deploymentEvent K dEvent h = (Some (), h) \<and> serviceEvent K sEvent h = (Some (), h)"
proof
  note owner = desired_deployment_controlled(2) [OF assms(1,2)]
  have "handleOwner K (dep_Meta d) h = (Some (), h)" "handleOwner K (svc_Meta s) h = (Some (), h)"
    using handleOwner_group [OF assms(1)] owner assms(4,5) MakeService_meta [OF assms(3)] by simp_all
  with assms(6,7) show "deploymentEvent K dEvent h = (Some (), h)" "serviceEvent K sEvent h = (Some (), h)"
    by (auto simp: handleObject_def as_Object_def io_simps)
qed

text \<open>The cleanup after a change of a group deletes, in the old namespace, exactly the names that
  the old specification gave its sets and the new one does not, each once.\<close>

theorem unneeded_deployments_deleted:
  assumes "range_law K" and "buildNamedSpec old = Some oldNames" and "buildNamedSpec new = Some newNames"
  shows "\<exists>names. handleUnneededDeployments K old new h =
      (Some (), h @ map (DeleteDeployment (om_Namespace (cg_Meta old))) names)
    \<and> distinct names
    \<and> set names = set (map_keys oldNames) - set (map_keys newNames)"
proof -
  let ?ks = "k_rangeOrder K h (map_keys oldNames)"
  have loop: "for_each (\<lambda>name. if map_get newNames name = None
        then tell (DeleteDeployment (om_Namespace (cg_Meta old)) name) else ret ()) ks h =
      (Some (), h @ map (DeleteDeployment (om_Namespace (cg_Meta old)))
        (filter (\<lambda>name. map_get newNames name = None) ks))" for ks h
    by (induction ks arbitrary: h) (simp_all add: io_simps)
  have ks: "mset ?ks = mset (map_keys oldNames)" using assms(1) by (simp add: range_law_def)
  then have "distinct ?ks"
    using buildNamedSpec_wf [OF assms(2)] mset_eq_imp_distinct_iff [OF ks] by (simp add: wf_map_def)
  then show ?thesis
    using assms loop mset_eq_setD [OF ks]
    by (intro exI [of _ "filter (\<lambda>name. map_get newNames name = None) ?ks"])
      (auto simp: handleUnneededDeployments_def io_simps map_keys_iff)
qed

text \<open>Starting the controller: it waits for the deployment, group and operator caches (not for
  the service cache), starts the asked number of workers of each kind only when they have synced,
  and shuts both queues down at the end in every case, the group queue first.\<close>

theorem controller_start:
  "Start K oc n h = (let caches = [DeploymentCache, GroupCache, OperatorCache] in
     if k_cacheSynced K h caches
     then (Some None, h @ [WaitForCacheSync caches] @ replicate (nat n) (Spawn GroupWorker)
        @ replicate (nat n) (Spawn OperatorWorker)
        @ [AwaitStop, QueueShutDown GroupQueue, QueueShutDown OperatorQueue])
     else (Some (Some (Errorf ''failed to wait for caches to sync'')),
        h @ [WaitForCacheSync caches, QueueShutDown GroupQueue, QueueShutDown OperatorQueue]))"
proof -
  have loop: "for_each (\<lambda>_. tell e) xs h = (Some (), h @ replicate (length xs) e)" for e :: call and xs :: "nat list" and h
    by (induction xs arbitrary: h) (simp_all add: io_simps)
  show ?thesis
    by (simp add: Start_def Let_def io_simps loop [unfolded tell_def])
qed

section \<open>The properties at concrete inputs\<close>

lemma sample_desired: "\<exists>d. desired_deployment ref_k8s sample_group sample_set name l = Some d"
  using sample_deployment_exists
  by (auto simp: desired_deployment_def GetComputeGroupKeys_def sample_defs)

lemma sample_names: "om_Namespace (cg_Meta sample_group) = ''default''" "om_Name (cg_Meta sample_group) = ''groupp1''"
  by (simp_all add: sample_defs)

lemma ref_status_error: "status_error ref_k8s h cg d l = None"
  by (simp add: status_error_def status_call_def group_update_call_def rest_of_def request_def ref_k8s_def)

theorem leader_first_sync_witness:
  "\<exists>deploy svc. syncComputeGroup ref_k8s (typed_controller ref_k8s) sample_group (Some sample_set) ''groupp1-leader'' True []
     = (Some None, [ListerGetDeployment ''default'' ''groupp1-leader'', CreateDeployment ''default'' deploy,
          ListerGetService ''default'' ''groupp1'', CreateService ''default'' svc,
          group_update_call ''default'' (status_write sample_group ''default/groupp1-leader'' True) '''',
          RecordEvent (cg_Meta sample_group) EventTypeNormal SuccessSynced MessageResourceSynced])"
proof -
  obtain d where d: "desired_deployment ref_k8s sample_group sample_set ''groupp1-leader'' True = Some d"
    using sample_desired by blast
  note meta = desired_deployment_meta [OF d, unfolded sample_names]
  obtain svc where svc: "MakeService (om_Name (cg_Meta sample_group)) d = Some svc"
    using meta(7) sample_names by auto
  have smeta: "om_Name (svc_Meta svc) = ''groupp1''" using MakeService_meta [OF svc] sample_names by simp
  have sync: "syncComputeGroup ref_k8s (typed_controller ref_k8s) sample_group (Some sample_set) ''groupp1-leader'' True [] =
    (Some None, [] @ [ListerGetDeployment ''default'' ''groupp1-leader'', CreateDeployment ''default'' d,
          ListerGetService ''default'' (om_Name (cg_Meta sample_group)), CreateService ''default'' svc,
          group_update_call ''default'' (status_write sample_group (object_key ''default'' ''groupp1-leader'') True) '''',
          RecordEvent (cg_Meta sample_group) EventTypeNormal SuccessSynced MessageResourceSynced])"
    by (rule leader_first_sync [OF ref_controller_ref_laws ref_create_law d svc,
          where ?e1.0 = "NewNotFound ''deployments'' ''groupp1-leader''" and ?e2.0 = "NewNotFound ''services'' ''groupp1''"])
      (simp_all add: sample_names meta smeta ref_status_error, simp_all add: ref_k8s_def sum_of_option_def meta smeta)
  then show ?thesis by (auto simp: sample_names object_key_def)
qed

theorem existing_worker_sync_witness:
  "\<exists>d. snd (syncComputeGroup ref_k8s (typed_controller ref_k8s) sample_group (Some sample_set) ''w'' False
       [CreateDeployment ''default'' d]) =
     [CreateDeployment ''default'' d, ListerGetDeployment ''default'' ''w'',
      status_call sample_group d False, synced_event (cg_Meta sample_group)]"
proof -
  obtain d where d: "desired_deployment ref_k8s sample_group sample_set ''w'' False = Some d"
    using sample_desired by blast
  note meta = desired_deployment_meta [OF d, unfolded sample_names]
  have found: "k_listerGetDeployment ref_k8s [CreateDeployment ''default'' d] ''default'' ''w'' = Inr d"
    by (simp add: ref_k8s_def sum_of_option_def meta)
  have same: "ds_Replicas (dep_Spec d) = Some 1" "False = (cs_Replicas sample_set \<noteq> None \<and> cs_Replicas sample_set \<noteq> Some 1)"
    using meta(3) by (simp_all add: sample_set_def)
  show ?thesis
    using existing_worker_sync [OF d sample_names(1) [symmetric] found
        desired_deployment_controlled(1) [OF ref_controller_ref_laws d] same refl refl] ref_status_error
    by (intro exI [of _ d]) simp
qed

definition foreign_deployment :: Deployment where
  "foreign_deployment = \<lparr>dep_Meta = zero_ObjectMeta\<lparr>om_Name := ''w'', om_Namespace := ''default''\<rparr>,
     dep_Spec = \<lparr>ds_Replicas = Some 1, ds_MatchLabels = None,
       ds_Template = \<lparr>pt_Labels = None, pt_Spec = \<lparr>ps_Containers = []\<rparr>\<rparr>\<rparr>\<rparr>"

theorem foreign_deployment_untouched_witness:
  "fst (syncComputeGroup ref_k8s (typed_controller ref_k8s) sample_group (Some sample_set) ''w'' False
     [CreateDeployment ''default'' foreign_deployment]) \<noteq> Some None"
proof -
  have "k_listerGetDeployment ref_k8s [CreateDeployment ''default'' foreign_deployment]
      (om_Namespace (cg_Meta sample_group)) ''w'' = Inr foreign_deployment"
    by (simp add: ref_k8s_def sum_of_option_def sample_names foreign_deployment_def)
  moreover have "\<not> k_isControlledBy ref_k8s (dep_Meta foreign_deployment) (cg_Meta sample_group)"
    by (simp add: ref_k8s_def ref_getControllerOf_def foreign_deployment_def zero_ObjectMeta_def)
  ultimately show ?thesis
    by (rule foreign_deployment_untouched [THEN conjunct1])
qed

theorem group_sync_effects_witness:
  "\<exists>new. snd (processNewComputeGroup ref_k8s (typed_controller ref_k8s) sample_group []) = new
     \<and> (\<forall>e \<in> set new. group_work ref_k8s sample_group e \<or>
        (\<exists>key l. e = group_update_call ''default'' (status_write sample_group key l) ''''))"
  using group_sync_effects [of ref_k8s sample_group "[]"] by (auto simp: sample_names)

theorem status_writes_are_independent_witness:
  "\<exists>new. snd (processNewComputeGroup ref_k8s (typed_controller ref_k8s) sample_group []) = new
     \<and> (\<forall>rq g. Rest rq \<in> set new \<and> rq_Body rq = GroupBody g \<longrightarrow> cg_Spec g = sample_group_spec)"
  using status_writes_are_independent [of ref_k8s sample_group "[]"] by (auto simp: sample_group_def)

text \<open>A group whose status names a deployment that does not exist, and one with a key that has no slash.\<close>

definition stale_group :: "string \<Rightarrow> DatafuseComputeGroup" where
  "stale_group key = sample_group\<lparr>cg_Status := \<lparr>gst_ReadyComputeLeaders = Some [(key, ComputeInstanceReadyState)],
     gst_ReadyComputeWorkers = None, gst_Status = ComputeGroupDeployed,
     gst_GroupServiceStatus = \<lparr>gss_Name = ''''\<rparr>\<rparr>\<rparr>"

theorem updated_group_pruned_witness:
  "\<exists>st. gst_Status st = ComputeGroupPending \<and> map_get (gst_ReadyComputeLeaders st) ''default/gone'' = None
     \<and> processUpdatedComputeGroup ref_k8s (typed_controller ref_k8s) (stale_group ''default/gone'') [] =
        processNewComputeGroup ref_k8s (typed_controller ref_k8s) (stale_group ''default/gone'')
          [ListerGetDeployment ''default'' ''gone'',
           group_update_call ''default'' ((stale_group ''default/gone'')\<lparr>cg_Status := st\<rparr>) '''']"
proof -
  have "\<not> (gst_ReadyComputeLeaders (cg_Status (stale_group ''default/gone'')) = None
      \<and> gst_ReadyComputeWorkers (cg_Status (stale_group ''default/gone'')) = None)"
    and "\<forall>k \<in> set (map_keys (gst_ReadyComputeLeaders (cg_Status (stale_group ''default/gone'')))
           @ map_keys (gst_ReadyComputeWorkers (cg_Status (stale_group ''default/gone'')))). CHR ''/'' \<in> set k"
    by (simp_all add: stale_group_def map_keys_def)
  from updated_group_pruned [OF ref_range_law this, of "[]"]
  show ?thesis
    by (auto simp: stale_group_def map_keys_def sample_names key_read_def key_missing_def SplitN2_def
        ref_k8s_def sum_of_option_def) (simp add: ref_k8s_def [symmetric])?
qed

theorem updated_group_bad_key_witness:
  "fst (processUpdatedComputeGroup ref_k8s (typed_controller ref_k8s) (stale_group ''gone'') []) = None"
  by (rule updated_group_bad_key [OF ref_range_law, of "''gone''"]) (simp_all add: stale_group_def map_keys_def)

theorem status_key_read_back_witness:
  "\<exists>g key. status_call sample_group foreign_deployment False = group_update_call ''default'' g ''''
     \<and> map_get (gst_ReadyComputeWorkers (cg_Status g)) key = Some ComputeInstanceReadyState"
proof -
  have "CHR ''/'' \<notin> set (om_Namespace (dep_Meta foreign_deployment))"
    by (simp add: foreign_deployment_def zero_ObjectMeta_def)
  from status_key_read_back [OF this, of sample_group False ref_k8s dropWorker zero_GroupStatus "[]"]
  show ?thesis by (auto simp: sample_names)
qed

definition queue_k8s :: "(queue \<Rightarrow> go_obj) \<Rightarrow> k8s" where
  "queue_k8s item = ref_k8s\<lparr>k_queueGet := \<lambda>h q. if gets q h = 0 then Some (item q) else None\<rparr>"

theorem group_item_always_forgotten_witness:
  "\<exists>work. snd (processNextComputeGroup (queue_k8s (\<lambda>q. GroupPtr 1 sample_group))
        (typed_controller (queue_k8s (\<lambda>q. GroupPtr 1 sample_group))) []) =
     [QueueGet GroupQueue] @ work @ [QueueDone GroupQueue (GroupPtr 1 sample_group)]"
proof -
  have "k_queueGet (queue_k8s (\<lambda>q. GroupPtr 1 sample_group)) [] GroupQueue = Some (GroupPtr 1 sample_group)"
    by (simp add: queue_k8s_def gets_def)
  from group_item_always_forgotten [OF this] show ?thesis by auto
qed

theorem operator_item_always_forgotten_witness:
  "\<exists>work. snd (processNextOperator (queue_k8s (\<lambda>q. OperatorPtr 1 sample_operator))
        (typed_controller (queue_k8s (\<lambda>q. OperatorPtr 1 sample_operator))) []) =
     [QueueGet OperatorQueue] @ work @ [QueueDone OperatorQueue (OperatorPtr 1 sample_operator)]"
proof -
  have "k_queueGet (queue_k8s (\<lambda>q. OperatorPtr 1 sample_operator)) [] OperatorQueue = Some (OperatorPtr 1 sample_operator)"
    by (simp add: queue_k8s_def gets_def)
  from operator_item_always_forgotten [OF this] show ?thesis by auto
qed

theorem workers_return_witness:
  "\<exists>r. runGroupWorker 2 (queue_k8s (\<lambda>q. GroupPtr 1 sample_group))
     (typed_controller (queue_k8s (\<lambda>q. GroupPtr 1 sample_group))) [] = Some r"
proof -
  have "shut_after (queue_k8s (\<lambda>q. GroupPtr 1 sample_group)) q 1" for q
    by (simp add: shut_after_def queue_k8s_def)
  from workers_return [OF this this] show ?thesis by (simp add: numeral_2_eq_2)
qed

lemma ref_operator_status_error: "operator_status_error ref_k8s h op g = None"
  by (simp add: operator_status_error_def operator_status_call_def operator_update_call_def rest_of_def
      request_def ref_k8s_def)

theorem operator_creates_group_witness:
  "\<exists>g. syncGroup2 ref_k8s (typed_controller ref_k8s) sample_operator (Some sample_group_spec) [] =
     (Some None, [IndexerGetByKey GroupInformer ''default/groupp1'', group_create_call ''default'' g '''',
        operator_status_call sample_operator g,
        RecordEvent (op_Meta sample_operator) EventTypeNormal SuccessSynced MessageResourceSynced])"
proof -
  obtain g where g: "MakeComputeGroup ref_k8s sample_operator sample_group_spec = Some g"
    using MakeComputeGroup_exists [OF ref_controller_ref_laws] by blast
  have "syncGroup2 ref_k8s (typed_controller ref_k8s) sample_operator (Some sample_group_spec) [] =
     (Some None, [] @ [IndexerGetByKey GroupInformer (object_key ''default'' ''groupp1''), group_create_call ''default'' g '''',
        operator_status_call sample_operator g,
        RecordEvent (op_Meta sample_operator) EventTypeNormal SuccessSynced MessageResourceSynced])"
    by (rule operator_creates_group [OF ref_controller_ref_laws ref_not_found_law _ _ g _ refl refl])
      (simp_all add: sample_group_spec_def ref_operator_status_error,
        simp_all add: ref_k8s_def group_create_call_def rest_of_def request_def)
  then show ?thesis by (auto simp: object_key_def)
qed

theorem existing_group_never_updated_witness:
  "syncGroup2 ref_k8s (typed_controller ref_k8s) sample_operator (Some sample_group_spec)
       [group_create_call ''default'' sample_group ''''] =
     (Some (Some (Errorf ''group groupp1 in default existed but not controlled by operator operator1'')),
      [group_create_call ''default'' sample_group '''', IndexerGetByKey GroupInformer ''default/groupp1'',
       RecordEvent (op_Meta sample_operator) EventTypeWarning ErrResourceExists
         ''group groupp1 in default existed but not controlled by operator operator1''])"
proof -
  have found: "k_indexerGetByKey ref_k8s [group_create_call ''default'' sample_group ''''] GroupInformer
      ''default/groupp1'' = Inr (Some (GroupPtr 0 sample_group))"
    by (simp add: ref_k8s_def group_create_call_def request_def object_key_def sample_names)
  have key: "''default/groupp1'' = object_key (gs_Namespace sample_group_spec) (gs_Name sample_group_spec)"
    by (simp add: sample_group_spec_def object_key_def)
  have foreign: "\<not> k_isControlledBy ref_k8s (cg_Meta sample_group) (op_Meta sample_operator)"
    by (simp add: ref_k8s_def ref_getControllerOf_def sample_defs)
  show ?thesis
    using existing_group_never_updated [OF ref_controller_ref_laws key found refl, of sample_operator] foreign
    by (simp add: not_controlled_group_def sample_names) (simp add: sample_defs)
qed

definition broken_k8s :: k8s where
  "broken_k8s = ref_k8s\<lparr>k_indexerGetByKey := \<lambda>h i key. Inl (ForeignError ''index'')\<rparr>"

theorem failed_group_lookup_panics_witness:
  "syncGroup2 broken_k8s (typed_controller broken_k8s) sample_operator (Some sample_group_spec) [] =
     (None, [IndexerGetByKey GroupInformer ''default/groupp1''])"
proof -
  have "controller_ref_laws broken_k8s"
    by (simp add: controller_ref_laws_def broken_k8s_def ref_k8s_def ref_getControllerOf_def)
  moreover have "k_indexerGetByKey broken_k8s [] GroupInformer
      (object_key (gs_Namespace sample_group_spec) (gs_Name sample_group_spec)) = Inl (ForeignError ''index'')"
    and "\<not> k_isNotFound broken_k8s (ForeignError ''index'')"
    by (simp_all add: broken_k8s_def ref_k8s_def)
  ultimately show ?thesis
    using failed_group_lookup_panics [of broken_k8s "[]" sample_group_spec]
    by (simp add: sample_group_spec_def object_key_def)
qed

text \<open>What the server makes of an object: it gets an identity and a version.\<close>

theorem owned_objects_not_followed_witness:
  "\<exists>sent. desired_deployment ref_k8s sample_group sample_set ''groupp1-leader'' True = Some sent
     \<and> deploymentEvent ref_k8s (Updated (DeploymentPtr 1 sent)
         (DeploymentPtr 2 (sent\<lparr>dep_Meta := (dep_Meta sent)\<lparr>om_UID := ''u7'', om_ResourceVersion := ''42''\<rparr>\<rparr>))) [] = (Some (), [])"
proof -
  obtain d where d: "desired_deployment ref_k8s sample_group sample_set ''groupp1-leader'' True = Some d"
    using sample_desired by blast
  obtain s where s: "MakeService (om_Name (cg_Meta sample_group)) d = Some s"
    using desired_deployment_meta(7) [OF d] by blast
  let ?d = "d\<lparr>dep_Meta := (dep_Meta d)\<lparr>om_UID := ''u7'', om_ResourceVersion := ''42''\<rparr>\<rparr>"
  have "om_OwnerReferences (dep_Meta ?d) = om_OwnerReferences (dep_Meta d)" by simp
  from owned_objects_not_followed [OF ref_controller_ref_laws d s this refl, of "Updated (DeploymentPtr 1 d) (DeploymentPtr 2 ?d)" 2 1 d
      "''k''" "Added (ServicePtr 3 s)" 3 3 s "[]"] d show ?thesis by auto
qed

theorem unneeded_deployments_deleted_witness:
  "handleUnneededDeployments ref_k8s sample_group
     (sample_group\<lparr>cg_Spec := sample_group_spec\<lparr>gs_ComputeWorkers := Some [Some sample_set]\<rparr>\<rparr>) [] =
     (Some (), [DeleteDeployment ''default'' ''groupp1-worker1''])"
proof -
  let ?new = "sample_group\<lparr>cg_Spec := sample_group_spec\<lparr>gs_ComputeWorkers := Some [Some sample_set]\<rparr>\<rparr>"
  have old: "buildNamedSpec sample_group = Some (Some [(''groupp1-leader'', sample_set),
      (''groupp1-worker0'', sample_set), (''groupp1-worker1'', sample_set)])"
    by (simp add: buildNamedSpec_def sample_defs set_name_def leader_name_def worker_name_def map_put_def sample_decimals)
  have new: "buildNamedSpec ?new = Some (Some [(''groupp1-leader'', sample_set), (''groupp1-worker0'', sample_set)])"
    by (simp add: buildNamedSpec_def sample_defs set_name_def leader_name_def worker_name_def map_put_def sample_decimals)
  obtain names where "handleUnneededDeployments ref_k8s sample_group ?new [] =
      (Some (), map (DeleteDeployment ''default'') names)" "distinct names" "set names = {''groupp1-worker1''}"
    using unneeded_deployments_deleted [OF ref_range_law old new, of "[]"] by (auto simp: sample_names map_keys_def)
  moreover from this have "names = [''groupp1-worker1'']"
    by (cases names; cases "tl names") auto
  ultimately show ?thesis by simp
qed

end
