(* ===== verification/Live_Cluster.thy ===== *)
theory Live_Cluster
  imports Operator_Controller
begin

text \<open>
  The operator controller against an API server that remembers what is written to it.  The state of
  the server is a record of three maps, and a parameter record \<open>k8s\<close> is \<open>live\<close> when its answers are
  the server's, from the state that the calls made so far have led to, with caches that are up to
  date.  The server fills in what is left open in an object (\<open>admit_deployment\<close>, \<open>admit_group\<close>) and
  gives every changed group a new resource version (\<open>next_version\<close>); these are parameters.  On such a
  server the synchronisation of a group is a function of the state, \<open>sync_set\<close> for each of its sets,
  and repeated synchronisations, the owner's rights and the status that is left can be followed.
\<close>

section \<open>The server\<close>

type_synonym store_key = "string \<times> string"

record cluster_store =
  cl_Deployments :: "store_key \<Rightarrow> Deployment option"
  cl_Services :: "store_key \<Rightarrow> Service option"
  cl_Groups :: "store_key \<Rightarrow> DatafuseComputeGroup option"

record api_server =
  admit_deployment :: "Deployment \<Rightarrow> Deployment"
  admit_group :: "DatafuseComputeGroup \<Rightarrow> DatafuseComputeGroup"
  next_version :: "string \<Rightarrow> string"

text \<open>
  Admission keeps the names, the owners and what is asked for; a deployment without a number of
  replicas gets one replica.
\<close>

definition admission_law :: "api_server \<Rightarrow> bool" where
  "admission_law A \<longleftrightarrow>
     (\<forall>d. om_Name (dep_Meta (admit_deployment A d)) = om_Name (dep_Meta d)
        \<and> om_Namespace (dep_Meta (admit_deployment A d)) = om_Namespace (dep_Meta d)
        \<and> om_OwnerReferences (dep_Meta (admit_deployment A d)) = om_OwnerReferences (dep_Meta d)
        \<and> ds_Replicas (dep_Spec (admit_deployment A d)) =
            Some (case ds_Replicas (dep_Spec d) of None \<Rightarrow> 1 | Some n \<Rightarrow> n))
   \<and> (\<forall>g. om_Name (cg_Meta (admit_group A g)) = om_Name (cg_Meta g)
        \<and> om_Namespace (cg_Meta (admit_group A g)) = om_Namespace (cg_Meta g)
        \<and> om_OwnerReferences (cg_Meta (admit_group A g)) = om_OwnerReferences (cg_Meta g)
        \<and> om_Labels (cg_Meta (admit_group A g)) = om_Labels (cg_Meta g)
        \<and> cg_Spec (admit_group A g) = cg_Spec g)
   \<and> (\<forall>v. next_version A v \<noteq> v)"

text \<open>
  The update of a group: the resource version must be the stored one, and an update that changes
  nothing keeps it.
\<close>

definition put_group :: "api_server \<Rightarrow> string \<Rightarrow> DatafuseComputeGroup \<Rightarrow> cluster_store \<Rightarrow> cluster_store \<times> go_error option" where
  "put_group A ns g st = (case cl_Groups st (ns, om_Name (cg_Meta g)) of
     None \<Rightarrow> (st, Some (NewNotFound ''datafusecomputegroups'' (om_Name (cg_Meta g))))
   | Some old \<Rightarrow>
       if om_ResourceVersion (cg_Meta g) \<noteq> om_ResourceVersion (cg_Meta old) then (st, Some (ForeignError ''conflict''))
       else if g = old then (st, None)
       else (st\<lparr>cl_Groups := (cl_Groups st)((ns, om_Name (cg_Meta g)) \<mapsto>
               g\<lparr>cg_Meta := (cg_Meta g)\<lparr>om_ResourceVersion := next_version A (om_ResourceVersion (cg_Meta g))\<rparr>\<rparr>)\<rparr>, None))"

definition post_group :: "api_server \<Rightarrow> string \<Rightarrow> DatafuseComputeGroup \<Rightarrow> cluster_store \<Rightarrow> cluster_store \<times> go_error option" where
  "post_group A ns g st = (case cl_Groups st (ns, om_Name (cg_Meta g)) of
     None \<Rightarrow> (st\<lparr>cl_Groups := (cl_Groups st)((ns, om_Name (cg_Meta g)) \<mapsto> admit_group A g)\<rparr>, None)
   | Some old \<Rightarrow> (st, Some (ForeignError ''already exists'')))"

definition rest_step :: "api_server \<Rightarrow> rest_request \<Rightarrow> cluster_store \<Rightarrow> cluster_store \<times> go_error option" where
  "rest_step A rq st = (case rq_Body rq of
     GroupBody g \<Rightarrow>
       if rq_Verb rq = ''PUT'' then put_group A (rq_Namespace rq) g st
       else if rq_Verb rq = ''POST'' then post_group A (rq_Namespace rq) g st
       else (st, None)
   | _ \<Rightarrow> (st, None))"

fun live_step :: "api_server \<Rightarrow> call \<Rightarrow> cluster_store \<Rightarrow> cluster_store" where
  "live_step A (CreateDeployment ns d) st = (case cl_Deployments st (ns, om_Name (dep_Meta d)) of
     None \<Rightarrow> st\<lparr>cl_Deployments := (cl_Deployments st)((ns, om_Name (dep_Meta d)) \<mapsto> admit_deployment A d)\<rparr>
   | Some _ \<Rightarrow> st)"
| "live_step A (UpdateDeployment ns d) st = (case cl_Deployments st (ns, om_Name (dep_Meta d)) of
     None \<Rightarrow> st
   | Some _ \<Rightarrow> st\<lparr>cl_Deployments := (cl_Deployments st)((ns, om_Name (dep_Meta d)) \<mapsto> admit_deployment A d)\<rparr>)"
| "live_step A (DeleteDeployment ns name) st = st\<lparr>cl_Deployments := (cl_Deployments st)((ns, name) := None)\<rparr>"
| "live_step A (CreateService ns s) st = (case cl_Services st (ns, om_Name (svc_Meta s)) of
     None \<Rightarrow> st\<lparr>cl_Services := (cl_Services st)((ns, om_Name (svc_Meta s)) \<mapsto> s)\<rparr>
   | Some _ \<Rightarrow> st)"
| "live_step A (Rest rq) st = fst (rest_step A rq st)"
| "live_step A _ st = st"

definition live_at :: "api_server \<Rightarrow> cluster_store \<Rightarrow> call list \<Rightarrow> cluster_store" where
  "live_at A st0 h = fold (live_step A) h st0"

text \<open>
  A footprint: the names of the deployments, services and groups that somebody works on.  The answers
  of a \<open>k8s\<close> are right on a footprint \<open>X\<close> when they are the server's for every object of \<open>X\<close>; \<open>S\<close> is
  the state of the server after the calls so far.
\<close>

record footprint =
  fp_Deployments :: "store_key set"
  fp_Services :: "store_key set"
  fp_Groups :: "store_key set"

definition everything :: footprint where
  "everything = \<lparr>fp_Deployments = UNIV, fp_Services = UNIV, fp_Groups = UNIV\<rparr>"

definition answers :: "footprint \<Rightarrow> k8s \<Rightarrow> api_server \<Rightarrow> (call list \<Rightarrow> cluster_store) \<Rightarrow> bool" where
  "answers X K A S \<longleftrightarrow>
     (\<forall>h ns name. (ns, name) \<in> fp_Deployments X \<longrightarrow> k_listerGetDeployment K h ns name =
        sum_of_option (NewNotFound ''deployments'' name) (cl_Deployments (S h) (ns, name)))
   \<and> (\<forall>h ns name. (ns, name) \<in> fp_Services X \<longrightarrow> k_listerGetService K h ns name =
        sum_of_option (NewNotFound ''services'' name) (cl_Services (S h) (ns, name)))
   \<and> (\<forall>h ns name. (ns, name) \<in> fp_Groups X \<longrightarrow> CHR ''/'' \<notin> set ns \<longrightarrow>
        k_indexerGetByKey K h GroupInformer (object_key ns name) =
        Inr (map_option (GroupPtr 0) (cl_Groups (S h) (ns, name))))
   \<and> (\<forall>h ns d. (ns, om_Name (dep_Meta d)) \<in> fp_Deployments X \<longrightarrow>
        k_createDeployment K h ns d = (case cl_Deployments (S h) (ns, om_Name (dep_Meta d)) of
          None \<Rightarrow> Inr (admit_deployment A d) | Some _ \<Rightarrow> Inl (ForeignError ''already exists'')))
   \<and> (\<forall>h ns d. (ns, om_Name (dep_Meta d)) \<in> fp_Deployments X \<longrightarrow>
        k_updateDeployment K h ns d = (case cl_Deployments (S h) (ns, om_Name (dep_Meta d)) of
          None \<Rightarrow> Inl (NewNotFound ''deployments'' (om_Name (dep_Meta d))) | Some _ \<Rightarrow> Inr (admit_deployment A d)))
   \<and> (\<forall>h ns s. (ns, om_Name (svc_Meta s)) \<in> fp_Services X \<longrightarrow>
        k_createService K h ns s = (case cl_Services (S h) (ns, om_Name (svc_Meta s)) of
          None \<Rightarrow> Inr s | Some _ \<Rightarrow> Inl (ForeignError ''already exists'')))
   \<and> (\<forall>h rq g g0. rq_Body rq = GroupBody g \<longrightarrow> (rq_Namespace rq, om_Name (cg_Meta g)) \<in> fp_Groups X \<longrightarrow>
        snd (k_restGroup K h rq g0) = snd (rest_step A rq (S h))
        \<and> (rq_Verb rq = ''POST'' \<longrightarrow> snd (rest_step A rq (S h)) = None \<longrightarrow> fst (k_restGroup K h rq g0) = admit_group A g))"

definition live :: "k8s \<Rightarrow> api_server \<Rightarrow> cluster_store \<Rightarrow> bool" where
  "live K A st0 \<longleftrightarrow> answers everything K A (live_at A st0)"

text \<open>What is stored bears the name it is stored under, and a deployment has a number of replicas.\<close>

definition store_ok :: "cluster_store \<Rightarrow> bool" where
  "store_ok st \<longleftrightarrow> (\<forall>ns name d. cl_Deployments st (ns, name) = Some d \<longrightarrow>
     om_Namespace (dep_Meta d) = ns \<and> om_Name (dep_Meta d) = name \<and> ds_Replicas (dep_Spec d) \<noteq> None)"

section \<open>The synchronisation of a set as a function of the store\<close>

text \<open>
  The sets of a group with the deployments that they ask for, the leaders first.  There is no plan
  when a set is nil or incomplete.
\<close>

fun worker_sets :: "DatafuseComputeGroup \<Rightarrow> nat \<Rightarrow> DatafuseComputeSetSpec list \<Rightarrow> (DatafuseComputeSetSpec \<times> string) list" where
  "worker_sets cg i [] = []"
| "worker_sets cg i (w # ws) = (w, set_name w (worker_name cg i)) # worker_sets cg (Suc i) ws"

type_synonym planned = "DatafuseComputeSetSpec \<times> Deployment \<times> bool"

definition planned_set :: "k8s \<Rightarrow> DatafuseComputeGroup \<Rightarrow> bool \<Rightarrow> DatafuseComputeSetSpec \<times> string \<Rightarrow> planned option" where
  "planned_set K cg l = (\<lambda>(cs, name). map_option (\<lambda>d. (cs, d, l)) (desired_deployment K cg cs name l))"

definition group_plan :: "k8s \<Rightarrow> DatafuseComputeGroup \<Rightarrow> planned list option" where
  "group_plan K cg = do {
     ls \<leftarrow> gs_ComputeLeaders (cg_Spec cg);
     ws \<leftarrow> those (elems (gs_ComputeWorkers (cg_Spec cg)));
     leader \<leftarrow> planned_set K cg True (ls, set_name ls (leader_name cg));
     workers \<leftarrow> those (map (planned_set K cg False) (worker_sets cg 0 ws));
     Some (leader # workers) }"

definition plan_key :: "planned \<Rightarrow> store_key" where
  "plan_key p = (om_Namespace (dep_Meta (fst (snd p))), om_Name (dep_Meta (fst (snd p))))"

definition group_key :: "DatafuseComputeGroup \<Rightarrow> store_key" where
  "group_key cg = (om_Namespace (cg_Meta cg), om_Name (cg_Meta cg))"

definition owned :: "k8s \<Rightarrow> DatafuseComputeGroup \<Rightarrow> Deployment \<Rightarrow> bool" where
  "owned K cg d \<longleftrightarrow> k_isControlledBy K (dep_Meta d) (cg_Meta cg)"

text \<open>
  The deployment of a set: it is made when it is missing, and replaced when it belongs to the group
  and its number of replicas is not the one asked for.
\<close>

definition settled :: "k8s \<Rightarrow> api_server \<Rightarrow> DatafuseComputeGroup \<Rightarrow> planned \<Rightarrow> Deployment option \<Rightarrow> Deployment" where
  "settled K A cg p old = (case old of
     None \<Rightarrow> admit_deployment A (fst (snd p))
   | Some d \<Rightarrow> if owned K cg d \<and> replicasDiffer (fst p) d = Some True then admit_deployment A (fst (snd p)) else d)"

definition settle_deployment :: "k8s \<Rightarrow> api_server \<Rightarrow> DatafuseComputeGroup \<Rightarrow> planned \<Rightarrow> cluster_store \<Rightarrow> cluster_store" where
  "settle_deployment K A cg p st = st\<lparr>cl_Deployments := (cl_Deployments st)(plan_key p \<mapsto>
     settled K A cg p (cl_Deployments st (plan_key p)))\<rparr>"

definition settle_service :: "DatafuseComputeGroup \<Rightarrow> planned \<Rightarrow> cluster_store \<Rightarrow> cluster_store" where
  "settle_service cg p st =
     (let key = (om_Namespace (cg_Meta cg), om_Name (cg_Meta cg))
      in if snd (snd p) \<and> cl_Services st key = None
         then st\<lparr>cl_Services := (cl_Services st)(key := MakeService (om_Name (cg_Meta cg)) (fst (snd p)))\<rparr>
         else st)"

definition settle_status :: "k8s \<Rightarrow> api_server \<Rightarrow> DatafuseComputeGroup \<Rightarrow> planned \<Rightarrow> cluster_store \<Rightarrow> cluster_store" where
  "settle_status K A cg p st =
     (if (case cl_Deployments st (plan_key p) of None \<Rightarrow> False | Some d \<Rightarrow> owned K cg d)
      then fst (put_group A (om_Namespace (cg_Meta cg))
             (status_write cg (object_key (fst (plan_key p)) (snd (plan_key p))) (snd (snd p))) st)
      else st)"

definition sync_set :: "k8s \<Rightarrow> api_server \<Rightarrow> DatafuseComputeGroup \<Rightarrow> planned \<Rightarrow> cluster_store \<Rightarrow> cluster_store" where
  "sync_set K A cg p st = settle_status K A cg p (settle_service cg p (settle_deployment K A cg p st))"


section \<open>One set\<close>

named_theorems live_simps \<open>states of the server after calls\<close>

lemma live_at_append [live_simps]: "live_at A st0 (h @ new) = fold (live_step A) new (live_at A st0 h)"
  by (simp add: live_at_def)

lemma answersD:
  assumes "answers X K A S"
  shows "(ns, name) \<in> fp_Deployments X \<Longrightarrow> k_listerGetDeployment K h ns name =
      sum_of_option (NewNotFound ''deployments'' name) (cl_Deployments (S h) (ns, name))"
    and "(ns, name) \<in> fp_Services X \<Longrightarrow> k_listerGetService K h ns name =
      sum_of_option (NewNotFound ''services'' name) (cl_Services (S h) (ns, name))"
    and "(ns, name) \<in> fp_Groups X \<Longrightarrow> CHR ''/'' \<notin> set ns \<Longrightarrow> k_indexerGetByKey K h GroupInformer (object_key ns name) =
      Inr (map_option (GroupPtr 0) (cl_Groups (S h) (ns, name)))"
    and "(ns, om_Name (dep_Meta d)) \<in> fp_Deployments X \<Longrightarrow>
      k_createDeployment K h ns d = (case cl_Deployments (S h) (ns, om_Name (dep_Meta d)) of
        None \<Rightarrow> Inr (admit_deployment A d) | Some _ \<Rightarrow> Inl (ForeignError ''already exists''))"
    and "(ns, om_Name (dep_Meta d)) \<in> fp_Deployments X \<Longrightarrow>
      k_updateDeployment K h ns d = (case cl_Deployments (S h) (ns, om_Name (dep_Meta d)) of
        None \<Rightarrow> Inl (NewNotFound ''deployments'' (om_Name (dep_Meta d))) | Some _ \<Rightarrow> Inr (admit_deployment A d))"
    and "(ns, om_Name (svc_Meta s)) \<in> fp_Services X \<Longrightarrow>
      k_createService K h ns s = (case cl_Services (S h) (ns, om_Name (svc_Meta s)) of
        None \<Rightarrow> Inr s | Some _ \<Rightarrow> Inl (ForeignError ''already exists''))"
    and "rq_Body rq = GroupBody g \<Longrightarrow> (rq_Namespace rq, om_Name (cg_Meta g)) \<in> fp_Groups X \<Longrightarrow>
      snd (k_restGroup K h rq g0) = snd (rest_step A rq (S h))"
    and "rq_Body rq = GroupBody g \<Longrightarrow> (rq_Namespace rq, om_Name (cg_Meta g)) \<in> fp_Groups X \<Longrightarrow> rq_Verb rq = ''POST'' \<Longrightarrow>
      snd (rest_step A rq (S h)) = None \<Longrightarrow> fst (k_restGroup K h rq g0) = admit_group A g"
  using assms by (simp_all add: answers_def)

lemma everything_simps [simp]:
  "key \<in> fp_Deployments everything" "key \<in> fp_Services everything" "key \<in> fp_Groups everything"
  by (simp_all add: everything_def)

lemma admissionD:
  assumes "admission_law A"
  shows "om_Name (dep_Meta (admit_deployment A d)) = om_Name (dep_Meta d)"
    and "om_Namespace (dep_Meta (admit_deployment A d)) = om_Namespace (dep_Meta d)"
    and "om_OwnerReferences (dep_Meta (admit_deployment A d)) = om_OwnerReferences (dep_Meta d)"
    and "ds_Replicas (dep_Spec (admit_deployment A d)) = Some (case ds_Replicas (dep_Spec d) of None \<Rightarrow> 1 | Some n \<Rightarrow> n)"
    and "next_version A v \<noteq> v"
  using assms by (simp_all add: admission_law_def)

lemma admitted_owned:
  assumes "controller_ref_laws K" and "admission_law A" and "desired_deployment K cg cs name l = Some d"
  shows "owned K cg (admit_deployment A d)" and "replicasDiffer cs (admit_deployment A d) = Some False"
proof -
  show "owned K cg (admit_deployment A d)"
    using desired_deployment_controlled(1) [OF assms(1,3)]
      isControlledBy_owners [OF assms(1) admissionD(3) [OF assms(2)], of d] by (simp add: owned_def)
  show "replicasDiffer cs (admit_deployment A d) = Some False"
    using desired_deployment_meta(3) [OF assms(3)]
    by (auto simp: replicasDiffer_def admissionD [OF assms(2)] split: option.split)
qed

text \<open>The deployment that is there after the first step, before it is compared.\<close>

definition ensured :: "api_server \<Rightarrow> Deployment \<Rightarrow> Deployment option \<Rightarrow> Deployment" where
  "ensured A d old = (case old of None \<Rightarrow> admit_deployment A d | Some x \<Rightarrow> x)"

lemma live_ensureDeployment:
  assumes "answers X K A (live_at A st0)" and "not_found_law K" and "key \<in> fp_Deployments X"
    and "key = (om_Namespace (dep_Meta d), om_Name (dep_Meta d))" and "st = live_at A st0 h"
    and "x = ensured A d (cl_Deployments st key)"
  shows "\<exists>new. ensureDeployment K d h = (Some (Inr x), h @ new)
    \<and> live_at A st0 (h @ new) = st\<lparr>cl_Deployments := (cl_Deployments st)(key \<mapsto> x)\<rparr>"
proof (cases "cl_Deployments st key")
  case None
  let ?new = "[ListerGetDeployment (fst key) (snd key), CreateDeployment (fst key) d]"
  have "live_at A st0 (h @ [ListerGetDeployment (fst key) (snd key)]) = st"
    by (simp add: live_simps assms(5))
  then have "ensureDeployment K d h = (Some (Inr x), h @ ?new)"
    using assms None by (simp add: ensureDeployment_def io_simps answersD [OF assms(1)] sum_of_option_def
        not_found_law_def ensured_def)
  moreover have "live_at A st0 (h @ ?new) = st\<lparr>cl_Deployments := (cl_Deployments st)(key \<mapsto> x)\<rparr>"
    using assms(4,6) None by (simp add: live_simps assms(5) [symmetric] ensured_def)
  ultimately show ?thesis by blast
next
  case (Some y)
  then have "(cl_Deployments st)(key \<mapsto> x) = cl_Deployments st"
    using assms(6) by (auto simp: ensured_def)
  then show ?thesis
    using assms Some
    by (intro exI [of _ "[ListerGetDeployment (fst key) (snd key)]"])
      (simp add: ensureDeployment_def io_simps answersD [OF assms(1)] sum_of_option_def ensured_def live_simps)
qed

lemma live_ensureService:
  assumes "answers X K A (live_at A st0)" and "not_found_law K" and "key \<in> fp_Services X"
    and "key = (om_Namespace (svc_Meta s), om_Name (svc_Meta s))" and "st = live_at A st0 h"
  shows "\<exists>new. ensureService K s h = (Some None, h @ new)
    \<and> live_at A st0 (h @ new) = (if cl_Services st key = None then st\<lparr>cl_Services := (cl_Services st)(key \<mapsto> s)\<rparr> else st)"
proof (cases "cl_Services st key")
  case None
  let ?new = "[ListerGetService (fst key) (snd key), CreateService (fst key) s]"
  have "live_at A st0 (h @ [ListerGetService (fst key) (snd key)]) = st"
    by (simp add: live_simps assms(5))
  then have "ensureService K s h = (Some None, h @ ?new)"
    using assms None by (simp add: ensureService_def io_simps answersD [OF assms(1)] sum_of_option_def not_found_law_def)
  moreover have "live_at A st0 (h @ ?new) = st\<lparr>cl_Services := (cl_Services st)(key \<mapsto> s)\<rparr>"
    using assms(4) None by (simp add: live_simps assms(5) [symmetric])
  ultimately show ?thesis using None by auto
next
  case (Some y)
  then show ?thesis
    using assms
    by (intro exI [of _ "[ListerGetService (fst key) (snd key)]"])
      (simp add: ensureService_def io_simps answersD [OF assms(1)] sum_of_option_def live_simps)
qed

lemma rest_status_call:
  "rest_step A (rest_of (status_call cg d l)) st = put_group A (om_Namespace (cg_Meta cg))
     (status_write cg (object_key (om_Namespace (dep_Meta d)) (om_Name (dep_Meta d))) l) st"
  "live_step A (status_call cg d l) st = fst (put_group A (om_Namespace (cg_Meta cg))
     (status_write cg (object_key (om_Namespace (dep_Meta d)) (om_Name (dep_Meta d))) l) st)"
  by (simp_all add: status_call_def group_update_call_def rest_of_def rest_step_def request_def)

lemma put_group_deployments: "cl_Deployments (fst (put_group A ns g st)) = cl_Deployments st"
  "cl_Services (fst (put_group A ns g st)) = cl_Services st"
  by (simp_all add: put_group_def split: option.split)

lemma live_syncControlled:
  assumes "answers X K A (live_at A st0)" and "controller_ref_laws K" and "admission_law A"
    and "desired_deployment K cg cs name l = Some d" and "st = live_at A st0 h"
    and "p = (cs, d, l)" and "cl_Deployments st (plan_key p) = Some x"
    and "om_Namespace (dep_Meta x) = fst (plan_key p)" and "om_Name (dep_Meta x) = snd (plan_key p)"
    and "ds_Replicas (dep_Spec x) \<noteq> None" and "plan_key p \<in> fp_Deployments X"
  shows "\<exists>r new. syncControlled K (typed_controller K) cg cs d x l h = (Some r, h @ new)
    \<and> live_at A st0 (h @ new) = settle_status K A cg p (settle_deployment K A cg p st)"
proof -
  have ns: "om_Namespace (cg_Meta cg) = fst (plan_key p)" "om_Namespace (dep_Meta d) = fst (plan_key p)"
    "om_Name (dep_Meta d) = snd (plan_key p)"
    using desired_deployment_meta [OF assms(4)] assms(6) by (simp_all add: plan_key_def)
  obtain differ where differ: "replicasDiffer cs x = Some differ"
    using assms(10) by (cases "cs_Replicas cs") (auto simp: replicasDiffer_def)
  show ?thesis
  proof (cases "owned K cg x")
    case False
    then have "settled K A cg p (Some x) = x" by (simp add: settled_def)
    then have "settle_status K A cg p (settle_deployment K A cg p st) = st"
      using False assms(7) by (simp add: settle_deployment_def settle_status_def fun_upd_idem)
    with False assms(5) show ?thesis
      by (simp add: typed_syncControlled_run owned_def live_simps)
  next
    case True
    let ?y = "if differ then admit_deployment A d else x"
    let ?u = "if differ then [UpdateDeployment (om_Namespace (cg_Meta cg)) d] else []"
    have y: "settled K A cg p (Some x) = ?y" using True differ assms(6) by (simp add: settled_def)
    have names: "om_Namespace (dep_Meta ?y) = fst (plan_key p)" "om_Name (dep_Meta ?y) = snd (plan_key p)" "owned K cg ?y"
      using assms(8,9) ns True admissionD [OF assms(3)] admitted_owned(1) [OF assms(2,3,4)] by simp_all
    have st1: "live_at A st0 (h @ ?u) = settle_deployment K A cg p st"
      using assms(5,7) y by (auto simp: live_simps settle_deployment_def ns fun_upd_idem)
    have upd: "k_updateDeployment K h (om_Namespace (cg_Meta cg)) d = Inr (admit_deployment A d)"
      using assms(5,7,11) ns by (simp add: answersD [OF assms(1)])
    have last: "live_at A st0 (h @ ?u @ [status_call cg ?y l]) = settle_status K A cg p (settle_deployment K A cg p st)"
      unfolding append_assoc [symmetric] live_at_append [of A st0 "h @ ?u"] st1
      using names y assms(6,7) by (simp add: rest_status_call settle_status_def settle_deployment_def)
    then have "live_at A st0 (h @ ?u @ [status_call cg ?y l, synced_event (cg_Meta cg)]) =
        settle_status K A cg p (settle_deployment K A cg p st)"
      by (simp add: live_simps synced_event_def)
    with last show ?thesis
      using True differ upd
      by (cases differ) (auto simp: typed_syncControlled_run owned_def Let_def split: option.split)
  qed
qed

lemma plan_key_desired:
  assumes "desired_deployment K cg cs name l = Some d"
  shows "plan_key (cs, d, l) = (om_Namespace (cg_Meta cg), name)"
  using desired_deployment_meta [OF assms] by (simp add: plan_key_def)

lemma store_okD:
  assumes "store_ok st" and "cl_Deployments st key = Some d"
  shows "om_Namespace (dep_Meta d) = fst key" and "om_Name (dep_Meta d) = snd key" and "ds_Replicas (dep_Spec d) \<noteq> None"
  using assms by (cases key, auto simp: store_ok_def)+

lemma ensured_ok:
  assumes "admission_law A" and "store_ok st" and "plan_key p = key"
    and "x = ensured A (fst (snd p)) (cl_Deployments st key)"
  shows "om_Namespace (dep_Meta x) = fst key \<and> om_Name (dep_Meta x) = snd key \<and> ds_Replicas (dep_Spec x) \<noteq> None"
  using assms(3,4) store_okD [OF assms(2)] admissionD [OF assms(1)]
  by (cases "cl_Deployments st key") (auto simp: ensured_def plan_key_def)

lemma settled_ensured:
  assumes "controller_ref_laws K" and "admission_law A" and "desired_deployment K cg cs name l = Some d"
  shows "settled K A cg (cs, d, l) (Some (ensured A d old)) = settled K A cg (cs, d, l) old"
  using admitted_owned [OF assms] by (cases old) (simp_all add: settled_def ensured_def)

text \<open>The synchronisation of one set, in terms of the calls, is \<open>sync_set\<close> in terms of the store.\<close>

lemma live_syncComputeGroup:
  assumes "answers X K A (live_at A st0)" and "controller_ref_laws K" and "not_found_law K" and "admission_law A"
    and d: "desired_deployment K cg cs name l = Some d" and "store_ok (live_at A st0 h)"
    and X: "plan_key (cs, d, l) \<in> fp_Deployments X" "l \<Longrightarrow> group_key cg \<in> fp_Services X"
  shows "\<exists>r new. syncComputeGroup K (typed_controller K) cg (Some cs) name l h = (Some r, h @ new)
    \<and> live_at A st0 (h @ new) = sync_set K A cg (cs, d, l) (live_at A st0 h)"
proof -
  define p st key where "p = (cs, d, l)" and "st = live_at A st0 h" and "key = plan_key p"
  define x where "x = ensured A d (cl_Deployments st key)"
  have key: "key = (om_Namespace (dep_Meta d), om_Name (dep_Meta d))" by (simp add: key_def p_def plan_key_def)
  have x: "om_Namespace (dep_Meta x) = fst key \<and> om_Name (dep_Meta x) = snd key \<and> ds_Replicas (dep_Spec x) \<noteq> None"
    by (rule ensured_ok [OF assms(4,6), of p]) (simp_all add: x_def st_def key_def p_def)
  obtain n1 where n1: "ensureDeployment K d h = (Some (Inr x), h @ n1)"
    "live_at A st0 (h @ n1) = st\<lparr>cl_Deployments := (cl_Deployments st)(key \<mapsto> x)\<rparr>"
    using live_ensureDeployment [OF assms(1,3) _ key st_def x_def] X(1) by (auto simp: key_def p_def)
  obtain svc where svc: "MakeService (om_Name (cg_Meta cg)) d = Some svc"
    using desired_deployment_meta(7) [OF d] by blast
  have svc_key: "(om_Namespace (svc_Meta svc), om_Name (svc_Meta svc)) = (om_Namespace (cg_Meta cg), om_Name (cg_Meta cg))"
    using MakeService_meta [OF svc] desired_deployment_meta(2) [OF d] by simp
  let ?svc = "if l then bind_io (lift_io (MakeService (om_Name (cg_Meta cg)) d)) (ensureService K) else ret None"
  obtain n2 where n2: "?svc (h @ n1) = (Some None, h @ n1 @ n2)"
    "live_at A st0 (h @ n1 @ n2) = settle_service cg p (live_at A st0 (h @ n1))"
  proof (cases l)
    case True
    from live_ensureService [OF assms(1,3) _ svc_key [symmetric] refl, of "h @ n1"] X(2) True svc that
    show ?thesis by (auto simp: settle_service_def p_def Let_def io_simps group_key_def)
  qed (use that in \<open>auto simp: io_simps settle_service_def p_def Let_def\<close>)
  have st2: "cl_Deployments (live_at A st0 (h @ n1 @ n2)) = (cl_Deployments st)(key \<mapsto> x)"
    unfolding n2(2) n1(2) by (simp add: settle_service_def Let_def)
  obtain r n3 where n3: "syncControlled K (typed_controller K) cg cs d x l (h @ n1 @ n2) = (Some r, (h @ n1 @ n2) @ n3)"
    "live_at A st0 ((h @ n1 @ n2) @ n3) =
       settle_status K A cg p (settle_deployment K A cg p (live_at A st0 (h @ n1 @ n2)))"
    using live_syncControlled [OF assms(1,2,4) d refl p_def, of "h @ n1 @ n2" x] x st2 X(1) by (auto simp: key_def p_def)
  have same: "settled K A cg p (Some x) = settled K A cg p (cl_Deployments st key)"
    using settled_ensured [OF assms(2,4) d] by (simp add: x_def p_def)
  have "settle_deployment K A cg p (live_at A st0 (h @ n1 @ n2)) = settle_service cg p (settle_deployment K A cg p st)"
    unfolding n2(2) n1(2) settle_deployment_def settle_service_def Let_def key_def [symmetric]
    by (simp add: same)
  then have "live_at A st0 (h @ n1 @ n2 @ n3) = sync_set K A cg p st"
    using n3(2) by (simp add: sync_set_def)
  moreover have "syncComputeGroup K (typed_controller K) cg (Some cs) name l h = (Some r, h @ n1 @ n2 @ n3)"
    unfolding syncComputeGroup_desired [OF d] bind_run [of "ensureDeployment K d"] n1(1)
    using n2(1) n3(1) by (simp add: bind_run [of ?svc])
  ultimately show ?thesis by (auto simp: p_def st_def)
qed

section \<open>All sets of a group\<close>

lemma sync_set_fields:
  "cl_Deployments (sync_set K A cg p st) =
     (cl_Deployments st)(plan_key p \<mapsto> settled K A cg p (cl_Deployments st (plan_key p)))"
  "cl_Services (sync_set K A cg p st) = cl_Services (settle_service cg p st)"
  by (auto simp: sync_set_def settle_status_def put_group_deployments settle_service_def settle_deployment_def Let_def)

lemma store_ok_sync_set:
  assumes "admission_law A" and "store_ok st"
  shows "store_ok (sync_set K A cg p st)"
proof -
  have "om_Namespace (dep_Meta (settled K A cg p old)) = fst (plan_key p) \<and> om_Name (dep_Meta (settled K A cg p old)) = snd (plan_key p)
      \<and> ds_Replicas (dep_Spec (settled K A cg p old)) \<noteq> None" if "cl_Deployments st (plan_key p) = old" for old
  proof (cases old)
    case None
    then show ?thesis by (simp add: settled_def admissionD [OF assms(1)] plan_key_def)
  next
    case (Some d)
    with that store_okD [OF assms(2), of "plan_key p" d] show ?thesis
      by (simp add: settled_def admissionD [OF assms(1)]) (simp add: plan_key_def)
  qed
  then show ?thesis using assms(2)
    by (cases "plan_key p") (auto simp: store_ok_def sync_set_fields)
qed

lemma live_syncWorkers:
  assumes "answers X K A (live_at A st0)" and "controller_ref_laws K" and "not_found_law K" and "admission_law A"
    and "those (map (planned_set K cg False) (worker_sets cg i ws)) = Some ps" and "store_ok (live_at A st0 h)"
    and "plan_key ` set ps \<subseteq> fp_Deployments X"
  shows "\<exists>new. syncWorkers K (typed_controller K) cg i (map Some ws) h = (Some (), h @ new)
    \<and> live_at A st0 (h @ new) = fold (sync_set K A cg) ps (live_at A st0 h)"
  using assms(5,6,7)
proof (induction ws arbitrary: i ps h)
  case Nil
  then show ?case by (simp add: io_simps)
next
  case (Cons w ws)
  then obtain d ps' where d: "desired_deployment K cg w (set_name w (worker_name cg i)) False = Some d"
    and ps: "ps = (w, d, False) # ps'" "those (map (planned_set K cg False) (worker_sets cg (Suc i) ws)) = Some ps'"
    by (auto simp: planned_set_def split: option.splits)
  obtain r n1 where n1: "syncComputeGroup K (typed_controller K) cg (Some w) (set_name w (worker_name cg i)) False h = (Some r, h @ n1)"
    "live_at A st0 (h @ n1) = sync_set K A cg (w, d, False) (live_at A st0 h)"
    using live_syncComputeGroup [OF assms(1-4) d Cons.prems(2)] Cons.prems(3) ps(1) by auto
  have "store_ok (live_at A st0 (h @ n1))"
    unfolding n1(2) by (rule store_ok_sync_set [OF assms(4) Cons.prems(2)])
  from Cons.IH [OF ps(2) this] Cons.prems(3) n1 ps(1) show ?case by (auto simp: io_simps)
qed

lemma those_map: "those xs = Some ys \<Longrightarrow> xs = map Some ys"
  by (induction xs arbitrary: ys) (auto split: option.splits)

lemma group_planE:
  assumes "group_plan K cg = Some plan"
  obtains ls ws d ps where "gs_ComputeLeaders (cg_Spec cg) = Some ls"
    and "elems (gs_ComputeWorkers (cg_Spec cg)) = map Some ws"
    and "desired_deployment K cg ls (set_name ls (leader_name cg)) True = Some d"
    and "those (map (planned_set K cg False) (worker_sets cg 0 ws)) = Some ps" and "plan = (ls, d, True) # ps"
proof -
  obtain ls ws leader ps where *: "gs_ComputeLeaders (cg_Spec cg) = Some ls"
    "those (elems (gs_ComputeWorkers (cg_Spec cg))) = Some ws"
    "planned_set K cg True (ls, set_name ls (leader_name cg)) = Some leader"
    "those (map (planned_set K cg False) (worker_sets cg 0 ws)) = Some ps" "plan = leader # ps"
    using assms by (auto simp: group_plan_def Option.bind_eq_Some_conv)
  then obtain d where "desired_deployment K cg ls (set_name ls (leader_name cg)) True = Some d" "leader = (ls, d, True)"
    by (auto simp: planned_set_def)
  with * those_map [OF *(2)] show thesis by (intro that) simp_all
qed

lemma answered_processNewComputeGroup:
  assumes "answers X K A (live_at A st0)" and "controller_ref_laws K" and "not_found_law K" and "admission_law A"
    and "group_plan K cg = Some plan" and "store_ok (live_at A st0 h)"
    and X: "plan_key ` set plan \<subseteq> fp_Deployments X" "group_key cg \<in> fp_Services X"
  shows "\<exists>new. processNewComputeGroup K (typed_controller K) cg h = (Some None, h @ new)
    \<and> live_at A st0 (h @ new) = fold (sync_set K A cg) plan (live_at A st0 h)"
proof -
  from assms(5) obtain ls ws d ps where spec: "gs_ComputeLeaders (cg_Spec cg) = Some ls"
      "elems (gs_ComputeWorkers (cg_Spec cg)) = map Some ws"
    and d: "desired_deployment K cg ls (set_name ls (leader_name cg)) True = Some d"
    and ps: "those (map (planned_set K cg False) (worker_sets cg 0 ws)) = Some ps" and plan: "plan = (ls, d, True) # ps"
    by (rule group_planE)
  obtain r n1 where n1: "syncComputeGroup K (typed_controller K) cg (Some ls) (set_name ls (leader_name cg)) True h = (Some r, h @ n1)"
    "live_at A st0 (h @ n1) = sync_set K A cg (ls, d, True) (live_at A st0 h)"
    using live_syncComputeGroup [OF assms(1-4) d assms(6)] X plan by auto
  have "store_ok (live_at A st0 (h @ n1))"
    unfolding n1(2) by (rule store_ok_sync_set [OF assms(4,6)])
  from live_syncWorkers [OF assms(1-4) ps this] X n1 plan spec(2) show ?thesis
    by (auto simp: processNewComputeGroup_def spec(1) io_simps)
qed

lemma live_processNewComputeGroup:
  assumes "live K A st0" and "controller_ref_laws K" and "not_found_law K" and "admission_law A"
    and "group_plan K cg = Some plan" and "store_ok (live_at A st0 h)"
  shows "\<exists>new. processNewComputeGroup K (typed_controller K) cg h = (Some None, h @ new)
    \<and> live_at A st0 (h @ new) = fold (sync_set K A cg) plan (live_at A st0 h)"
  by (rule answered_processNewComputeGroup [of everything]) (use assms in \<open>auto simp: live_def\<close>)

subsection \<open>The deployments\<close>

lemma plan_deployments_other:
  "key \<notin> plan_key ` set plan \<Longrightarrow> cl_Deployments (fold (sync_set K A cg) plan st) key = cl_Deployments st key"
  by (induction plan arbitrary: st) (auto simp: sync_set_fields)

lemma plan_deployments:
  assumes "distinct (map plan_key plan)" and "p \<in> set plan"
  shows "cl_Deployments (fold (sync_set K A cg) plan st) (plan_key p) = Some (settled K A cg p (cl_Deployments st (plan_key p)))"
  using assms
proof (induction plan arbitrary: st)
  case (Cons q plan)
  show ?case
  proof (cases "p = q")
    case True
    then show ?thesis using Cons.prems(1) by (simp add: plan_deployments_other sync_set_fields)
  next
    case False
    then have "plan_key q \<noteq> plan_key p" using Cons.prems by auto
    then show ?thesis using Cons False by (simp add: sync_set_fields)
  qed
qed simp

lemma group_plan_desired:
  assumes "group_plan K cg = Some plan" and "p \<in> set plan"
  shows "\<exists>name. desired_deployment K cg (fst p) name (snd (snd p)) = Some (fst (snd p))"
proof -
  from assms(1) obtain ls ws d ps where ls: "desired_deployment K cg ls (set_name ls (leader_name cg)) True = Some d"
    and those: "those (map (planned_set K cg False) (worker_sets cg 0 ws)) = Some ps" and plan: "plan = (ls, d, True) # ps"
    by (rule group_planE)
  note ps = those_map [OF those]
  show ?thesis
  proof (cases "p = (ls, d, True)")
    case True
    then show ?thesis using ls by auto
  next
    case False
    then have "p \<in> set ps" using assms(2) plan by simp
    then have "Some p \<in> set (map (planned_set K cg False) (worker_sets cg 0 ws))" unfolding ps by simp
    then show ?thesis by (auto simp: planned_set_def dest!: sym [of "Some p"])
  qed
qed

lemma settled_again:
  assumes "controller_ref_laws K" and "admission_law A" and "group_plan K cg = Some plan" and "p \<in> set plan"
  shows "settled K A cg p (Some (settled K A cg p old)) = settled K A cg p old"
proof -
  obtain name where "desired_deployment K cg (fst p) name (snd (snd p)) = Some (fst (snd p))"
    using group_plan_desired [OF assms(3,4)] by blast
  note a = admitted_owned [OF assms(1,2) this]
  show ?thesis using a by (cases old) (auto simp: settled_def)
qed

lemma plan_services:
  "cl_Services (fold (sync_set K A cg) plan st) key = (if key = (om_Namespace (cg_Meta cg), om_Name (cg_Meta cg))
     \<and> cl_Services st key = None
     then (case find (\<lambda>p. snd (snd p) \<and> MakeService (om_Name (cg_Meta cg)) (fst (snd p)) \<noteq> None) plan of None \<Rightarrow> None
           | Some p \<Rightarrow> MakeService (om_Name (cg_Meta cg)) (fst (snd p)))
     else cl_Services st key)"
proof (induction plan arbitrary: st)
  case (Cons p plan)
  show ?case by (auto simp: Cons sync_set_fields settle_service_def Let_def split: option.split)
qed auto

lemma plan_service_exists:
  assumes "group_plan K cg = Some plan"
  shows "cl_Services (fold (sync_set K A cg) plan st) (om_Namespace (cg_Meta cg), om_Name (cg_Meta cg)) \<noteq> None"
proof -
  from assms obtain ls ws d ps where d: "desired_deployment K cg ls (set_name ls (leader_name cg)) True = Some d"
    and plan: "plan = (ls, d, True) # ps" by (rule group_planE)
  then show ?thesis
    unfolding plan_services using desired_deployment_meta(7) [OF d] plan by (auto split: option.split)
qed

lemma store_ok_plan:
  "admission_law A \<Longrightarrow> store_ok st \<Longrightarrow> store_ok (fold (sync_set K A cg) plan st)"
  by (induction plan arbitrary: st) (simp_all add: store_ok_sync_set)

lemma settled_spec:
  assumes "controller_ref_laws K" and "admission_law A" and "group_plan K cg = Some plan" and "p \<in> set plan"
    and "store_ok st" and "d = settled K A cg p (cl_Deployments st (plan_key p))"
  shows "case cl_Deployments st (plan_key p) of
       None \<Rightarrow> owned K cg d \<and> replicasDiffer (fst p) d = Some False
     | Some d0 \<Rightarrow> if owned K cg d0 then owned K cg d \<and> replicasDiffer (fst p) d = Some False else d = d0"
proof -
  obtain name where "desired_deployment K cg (fst p) name (snd (snd p)) = Some (fst (snd p))"
    using group_plan_desired [OF assms(3,4)] by blast
  note a = admitted_owned [OF assms(1,2) this]
  show ?thesis
  proof (cases "cl_Deployments st (plan_key p)")
    case None
    with a assms(6) show ?thesis by (simp add: settled_def)
  next
    case (Some d0)
    then obtain b where "replicasDiffer (fst p) d0 = Some b"
      using store_okD(3) [OF assms(5) Some] by (cases "cs_Replicas (fst p)") (auto simp: replicasDiffer_def)
    with a Some assms(6) show ?thesis by (cases b) (auto simp: settled_def)
  qed
qed

subsection \<open>The status\<close>

text \<open>A set is recorded in the status when its deployment is missing, and so is made, or belongs to the group.\<close>

definition recordable :: "k8s \<Rightarrow> DatafuseComputeGroup \<Rightarrow> cluster_store \<Rightarrow> planned \<Rightarrow> bool" where
  "recordable K cg st p = (case cl_Deployments st (plan_key p) of None \<Rightarrow> True | Some d \<Rightarrow> owned K cg d)"

definition recorded :: "DatafuseComputeGroup \<Rightarrow> planned \<Rightarrow> DatafuseComputeGroup" where
  "recorded cg p = status_write cg (object_key (fst (plan_key p)) (snd (plan_key p))) (snd (snd p))"

definition versioned :: "api_server \<Rightarrow> DatafuseComputeGroup \<Rightarrow> DatafuseComputeGroup" where
  "versioned A g = g\<lparr>cg_Meta := (cg_Meta g)\<lparr>om_ResourceVersion := next_version A (om_ResourceVersion (cg_Meta g))\<rparr>\<rparr>"

text \<open>What the server keeps of a group when it gets the version that a run writes.\<close>

definition accepted :: "api_server \<Rightarrow> DatafuseComputeGroup \<Rightarrow> DatafuseComputeGroup \<Rightarrow> DatafuseComputeGroup" where
  "accepted A g old = (if om_ResourceVersion (cg_Meta g) = om_ResourceVersion (cg_Meta old) \<and> g \<noteq> old
     then versioned A g else old)"

lemma recorded_meta: "cg_Meta (recorded cg p) = cg_Meta cg"
  by (simp add: recorded_def status_write_fields)

lemma owned_settled:
  assumes "controller_ref_laws K" and "admission_law A" and "group_plan K cg = Some plan" and "p \<in> set plan"
  shows "owned K cg (settled K A cg p old) = (case old of None \<Rightarrow> True | Some d \<Rightarrow> owned K cg d)"
proof -
  obtain name where "desired_deployment K cg (fst p) name (snd (snd p)) = Some (fst (snd p))"
    using group_plan_desired [OF assms(3,4)] by blast
  note a = admitted_owned [OF assms(1,2) this]
  show ?thesis using a by (cases old) (auto simp: settled_def)
qed

lemma recordable_sync_set:
  assumes "controller_ref_laws K" and "admission_law A" and "group_plan K cg = Some plan" and "p \<in> set plan"
  shows "recordable K cg (sync_set K A cg p st) q = recordable K cg st q"
  using owned_settled [OF assms] by (simp add: recordable_def sync_set_fields split: option.split)

lemma put_group_groups:
  "cl_Groups st (group_key g) = Some old \<Longrightarrow>
   cl_Groups (fst (put_group A (om_Namespace (cg_Meta g)) g st)) = (cl_Groups st)(group_key g \<mapsto> accepted A g old)"
  by (auto simp: put_group_def accepted_def versioned_def group_key_def)

lemma sync_set_groups:
  assumes "controller_ref_laws K" and "admission_law A" and "group_plan K cg = Some plan" and "p \<in> set plan"
    and "cl_Groups st (group_key cg) = Some old"
  shows "cl_Groups (sync_set K A cg p st) =
    (cl_Groups st)(group_key cg \<mapsto> (if recordable K cg st p then accepted A (recorded cg p) old else old))"
proof -
  let ?st = "settle_service cg p (settle_deployment K A cg p st)"
  have st: "cl_Groups ?st = cl_Groups st"
    "cl_Deployments ?st (plan_key p) = Some (settled K A cg p (cl_Deployments st (plan_key p)))"
    by (simp_all add: settle_service_def settle_deployment_def Let_def)
  have key: "group_key (recorded cg p) = group_key cg" by (simp add: group_key_def recorded_meta)
  have "cl_Groups (fst (put_group A (om_Namespace (cg_Meta cg)) (recorded cg p) ?st)) =
      (cl_Groups st)(group_key cg \<mapsto> accepted A (recorded cg p) old)"
    using put_group_groups [of ?st "recorded cg p" old A] assms(5) st key by (simp add: recorded_meta)
  then show ?thesis
    using owned_settled [OF assms(1-4), of "cl_Deployments st (plan_key p)"] st assms(5)
    by (auto simp: sync_set_def settle_status_def recordable_def recorded_def [symmetric] split: option.split)
qed

text \<open>The first set whose entry changes the status is recorded; the writes after it are conflicts.\<close>

definition first_recorded :: "k8s \<Rightarrow> api_server \<Rightarrow> DatafuseComputeGroup \<Rightarrow> planned list \<Rightarrow> cluster_store
    \<Rightarrow> DatafuseComputeGroup \<Rightarrow> DatafuseComputeGroup" where
  "first_recorded K A cg plan st old = (case find (\<lambda>p. recordable K cg st p \<and> recorded cg p \<noteq> old) plan of
     None \<Rightarrow> old | Some p \<Rightarrow> versioned A (recorded cg p))"

lemma plan_groups_stale:
  assumes "controller_ref_laws K" and "admission_law A" and "group_plan K cg = Some plan" and "set ps \<subseteq> set plan"
    and "cl_Groups st (group_key cg) = Some old" and "om_ResourceVersion (cg_Meta old) \<noteq> om_ResourceVersion (cg_Meta cg)"
  shows "cl_Groups (fold (sync_set K A cg) ps st) = cl_Groups st"
  using assms(4,5)
proof (induction ps arbitrary: st)
  case (Cons p ps)
  then have "p \<in> set plan" by simp
  from sync_set_groups [OF assms(1-3) this Cons.prems(2)]
  have "cl_Groups (sync_set K A cg p st) = cl_Groups st"
    using assms(6) Cons.prems(2) by (auto simp: accepted_def recorded_meta)
  then show ?case using Cons by simp
qed simp

lemma plan_groups:
  assumes "controller_ref_laws K" and "admission_law A" and "group_plan K cg = Some plan" and "set ps \<subseteq> set plan"
    and "cl_Groups st (group_key cg) = Some old" and "om_ResourceVersion (cg_Meta old) = om_ResourceVersion (cg_Meta cg)"
  shows "cl_Groups (fold (sync_set K A cg) ps st) = (cl_Groups st)(group_key cg \<mapsto> first_recorded K A cg ps st old)"
  using assms(4,5)
proof (induction ps arbitrary: st)
  case Nil
  then show ?case by (auto simp: first_recorded_def)
next
  case (Cons p ps)
  then have p: "p \<in> set plan" by simp
  let ?st = "sync_set K A cg p st"
  note step = sync_set_groups [OF assms(1-3) p Cons.prems(2)]
  show ?case
  proof (cases "recordable K cg st p \<and> recorded cg p \<noteq> old")
    case True
    then have "cl_Groups ?st = (cl_Groups st)(group_key cg \<mapsto> versioned A (recorded cg p))"
      using step assms(6) by (simp add: accepted_def recorded_meta)
    moreover have "om_ResourceVersion (cg_Meta (versioned A (recorded cg p))) \<noteq> om_ResourceVersion (cg_Meta cg)"
      by (simp add: versioned_def recorded_meta admissionD [OF assms(2)])
    ultimately show ?thesis
      using plan_groups_stale [OF assms(1-3), of ps ?st "versioned A (recorded cg p)"] Cons.prems(1) True
      by (simp add: first_recorded_def)
  next
    case False
    then have same: "cl_Groups ?st = cl_Groups st"
      using step Cons.prems(2) by (auto simp: accepted_def)
    have "cl_Groups (fold (sync_set K A cg) ps ?st) = (cl_Groups ?st)(group_key cg \<mapsto> first_recorded K A cg ps ?st old)"
      by (rule Cons.IH) (use Cons.prems same in simp_all)
    moreover have "first_recorded K A cg ps ?st old = first_recorded K A cg (p # ps) st old"
      using False recordable_sync_set [OF assms(1-3) p] by (auto simp: first_recorded_def)
    ultimately show ?thesis by (simp add: same)
  qed
qed

section \<open>From an operator to deployments\<close>

lemma those_map_exists: "\<forall>x \<in> set xs. f x \<noteq> None \<Longrightarrow> \<exists>ys. those (map f xs) = Some ys"
  by (induction xs) auto

lemma desired_deployment_exists:
  "om_Name (cg_Meta cg) \<noteq> '''' \<Longrightarrow> om_Namespace (cg_Meta cg) \<noteq> '''' \<Longrightarrow> complete_instance K (cs_Instance cs) \<Longrightarrow>
   desired_deployment K cg cs name l \<noteq> None"
  using MakeDeployment_exists [of K cs name "om_Namespace (cg_Meta cg)"]
  by (simp add: desired_deployment_def GetComputeGroupKeys_def)

lemma worker_sets_set: "(cs, name) \<in> set (worker_sets cg i ws) \<Longrightarrow> cs \<in> set ws"
  by (induction ws arbitrary: i) auto

lemma group_plan_exists:
  assumes "om_Name (cg_Meta cg) \<noteq> ''''" and "om_Namespace (cg_Meta cg) \<noteq> ''''"
    and "gs_ComputeLeaders (cg_Spec cg) = Some ls" and "elems (gs_ComputeWorkers (cg_Spec cg)) = map Some ws"
    and "\<forall>cs \<in> insert ls (set ws). complete_instance K (cs_Instance cs)"
  shows "\<exists>plan. group_plan K cg = Some plan"
proof -
  note desired = desired_deployment_exists [OF assms(1,2)]
  obtain d where "planned_set K cg True (ls, set_name ls (leader_name cg)) = Some (ls, d, True)"
    using desired [of K ls "set_name ls (leader_name cg)" True] assms(5) by (auto simp: planned_set_def)
  moreover have "planned_set K cg False x \<noteq> None" if "x \<in> set (worker_sets cg 0 ws)" for x
  proof -
    obtain cs name where x: "x = (cs, name)" by (cases x)
    with that worker_sets_set have "cs \<in> set ws" by blast
    with assms(5) desired [of K cs name False] show ?thesis by (simp add: planned_set_def x)
  qed
  then obtain ps where "those (map (planned_set K cg False) (worker_sets cg 0 ws)) = Some ps"
    using those_map_exists [of "worker_sets cg 0 ws" "planned_set K cg False"] by metis
  moreover have "those (map Some ws) = Some ws" by (induction ws) auto
  ultimately show ?thesis using assms(3,4) by (simp add: group_plan_def)
qed

text \<open>The names in a plan.\<close>

lemma planned_set_keys:
  "map (planned_set K cg l) xs = map Some ps \<Longrightarrow> map plan_key ps = map (\<lambda>(cs, name). (om_Namespace (cg_Meta cg), name)) xs"
  by (induction xs arbitrary: ps) (auto simp: planned_set_def plan_key_desired Cons_eq_map_conv)

lemma group_plan_keys:
  assumes "group_plan K cg = Some plan" and "gs_ComputeLeaders (cg_Spec cg) = Some ls"
    and "elems (gs_ComputeWorkers (cg_Spec cg)) = map Some ws"
  shows "map plan_key plan = map (\<lambda>(cs, name). (om_Namespace (cg_Meta cg), name))
    ((ls, set_name ls (leader_name cg)) # worker_sets cg 0 ws)"
proof -
  from assms(1) obtain ls' ws' d ps where "gs_ComputeLeaders (cg_Spec cg) = Some ls'"
      "elems (gs_ComputeWorkers (cg_Spec cg)) = map Some ws'"
      and d: "desired_deployment K cg ls' (set_name ls' (leader_name cg)) True = Some d"
      and ps: "those (map (planned_set K cg False) (worker_sets cg 0 ws')) = Some ps" "plan = (ls', d, True) # ps"
    by (rule group_planE)
  with assms(2,3) have "ls' = ls" "ws' = ws" by simp_all
  with d ps planned_set_keys [OF those_map [OF ps(1)]] show ?thesis
    by (simp add: plan_key_desired)
qed

text \<open>A plan depends on the metadata and the specification of its group only.\<close>

lemma group_plan_status:
  assumes "cg_Meta cg' = cg_Meta cg" and "cg_Spec cg' = cg_Spec cg"
  shows "group_plan K cg' = group_plan K cg"
proof -
  have "desired_deployment K cg' cs name l = desired_deployment K cg cs name l" for cs name l
    unfolding desired_deployment_def GetComputeGroupKeys_def AddDeployOwnership_def assms ..
  moreover have "worker_sets cg' i ws = worker_sets cg i ws" for i ws
    by (induction ws arbitrary: i) (simp_all add: worker_name_def assms)
  ultimately show ?thesis
    unfolding group_plan_def planned_set_def leader_name_def assms by simp
qed

lemma recordable_plan:
  assumes "controller_ref_laws K" and "admission_law A" and "group_plan K cg = Some plan" and "set ps \<subseteq> set plan"
  shows "recordable K cg (fold (sync_set K A cg) ps st) q = recordable K cg st q"
  using assms(4) by (induction ps arbitrary: st) (simp_all add: recordable_sync_set [OF assms(1-3)])

lemma plan_exists:
  "p \<in> set plan \<or> cl_Deployments st (plan_key p) \<noteq> None \<Longrightarrow>
   cl_Deployments (fold (sync_set K A cg) plan st) (plan_key p) \<noteq> None"
proof (induction plan arbitrary: st)
  case (Cons q plan)
  then have "p \<in> set plan \<or> cl_Deployments (sync_set K A cg q st) (plan_key p) \<noteq> None"
    by (auto simp: sync_set_fields)
  with Cons.IH show ?case by simp
qed simp

lemma worker_sets_fst: "map fst (worker_sets cg i ws) = ws"
  by (induction ws arbitrary: i) simp_all

lemma planned_set_fst: "map (planned_set K cg l) xs = map Some ps \<Longrightarrow> map fst ps = map fst xs"
  by (induction xs arbitrary: ps) (auto simp: planned_set_def Cons_eq_map_conv)

lemma group_plan_sets:
  assumes "group_plan K cg = Some plan" and "gs_ComputeLeaders (cg_Spec cg) = Some ls"
    and "elems (gs_ComputeWorkers (cg_Spec cg)) = map Some ws"
  shows "map fst plan = ls # ws"
proof -
  from assms(1) obtain ls' ws' d ps where "gs_ComputeLeaders (cg_Spec cg) = Some ls'"
      "elems (gs_ComputeWorkers (cg_Spec cg)) = map Some ws'"
      and "those (map (planned_set K cg False) (worker_sets cg 0 ws')) = Some ps" "plan = (ls', d, True) # ps"
    by (rule group_planE)
  with assms(2,3) planned_set_fst [OF those_map, of K cg False "worker_sets cg 0 ws'" ps] show ?thesis
    by (simp add: worker_sets_fst)
qed

lemma planned_set_flags: "map (planned_set K cg l) xs = map Some ps \<Longrightarrow> \<forall>p \<in> set ps. snd (snd p) = l"
proof (induction xs arbitrary: ps)
  case (Cons x xs)
  then obtain p ps' where p: "ps = p # ps'" "planned_set K cg l x = Some p" "map (planned_set K cg l) xs = map Some ps'"
    by (cases ps) auto
  have "snd (snd p) = l" using p(2) by (cases x) (auto simp: planned_set_def)
  with Cons.IH [OF p(3)] p(1) show ?case by simp
qed simp

lemma group_plan_flags:
  "group_plan K cg = Some plan \<Longrightarrow> plan \<noteq> [] \<and> snd (snd (hd plan)) \<and> (\<forall>p \<in> set (tl plan). \<not> snd (snd p))"
  by (elim group_planE) (use planned_set_flags [OF those_map] in auto)

lemma IsComputeGroupCreated_fields:
  "cg_Meta (snd (IsComputeGroupCreated cg)) = cg_Meta cg" "cg_Spec (snd (IsComputeGroupCreated cg)) = cg_Spec cg"
  by (simp_all add: IsComputeGroupCreated_def Let_def)

text \<open>
  The synchronisation of one of an operator's groups as a function of the store: a group that does
  not exist is made; one that exists is left alone.
\<close>

definition spec_key :: "DatafuseComputeGroupSpec \<Rightarrow> store_key" where
  "spec_key spec = (gs_Namespace spec, gs_Name spec)"

definition sync_spec :: "k8s \<Rightarrow> api_server \<Rightarrow> DatafuseOperator \<Rightarrow> DatafuseComputeGroupSpec \<Rightarrow> cluster_store \<Rightarrow> cluster_store" where
  "sync_spec K A op spec st = (case cl_Groups st (spec_key spec) of
     Some _ \<Rightarrow> st
   | None \<Rightarrow> (case MakeComputeGroup K op spec of
       None \<Rightarrow> st
     | Some g \<Rightarrow> st\<lparr>cl_Groups := (cl_Groups st)(spec_key spec \<mapsto> admit_group A g)\<rparr>))"

definition good_namespace :: "DatafuseComputeGroupSpec \<Rightarrow> bool" where
  "good_namespace spec \<longleftrightarrow> gs_Namespace spec \<noteq> '''' \<and> CHR ''/'' \<notin> set (gs_Namespace spec)"

lemma created_group:
  assumes "controller_ref_laws K" and "admission_law A" and "gs_Namespace spec \<noteq> ''''"
  obtains g0 where "MakeComputeGroup K op spec = Some g0"
    and "om_Namespace (cg_Meta g0) = gs_Namespace spec" and "om_Name (cg_Meta g0) = gs_Name spec"
    and "group_key (admit_group A g0) = spec_key spec" and "cg_Spec (admit_group A g0) = spec"
    and "map_get (om_Labels (cg_Meta (admit_group A g0))) OperatorLabel = Some (GetOperatorKey (op_Meta op))"
    and "k_isControlledBy K (cg_Meta (admit_group A g0)) (op_Meta op)"
proof -
  obtain g0 where g0: "MakeComputeGroup K op spec = Some g0" "complete_group K op g0"
    "om_Name (cg_Meta g0) = gs_Name spec" "om_Namespace (cg_Meta g0) = gs_Namespace spec" "cg_Spec g0 = spec"
    "map_get (om_Labels (cg_Meta g0)) OperatorLabel = Some (GetOperatorKey (op_Meta op))"
    using MakeComputeGroup_exists [OF assms(1), of op spec] assms(3) by auto
  moreover have "om_OwnerReferences (cg_Meta (admit_group A g0)) = om_OwnerReferences (cg_Meta g0)"
    using assms(2) by (simp add: admission_law_def)
  from isControlledBy_owners [OF assms(1) this] g0(2)
  have "k_isControlledBy K (cg_Meta (admit_group A g0)) (op_Meta op)" by (simp add: complete_group_def)
  ultimately show thesis
    using assms(2) by (intro that [of g0]) (simp_all add: admission_law_def group_key_def spec_key_def)
qed

text \<open>The end of \<open>syncGroup2\<close> writes the operator only, which is not in the store.\<close>

lemma live_settle_group:
  "\<exists>r new. settle_group K op g h = (Some r, h @ new) \<and> live_at A st0 (h @ new) = live_at A st0 h"
  by (auto simp: settle_group_def live_simps operator_status_call_def operator_update_call_def synced_event_def
      rest_step_def request_def split: option.split)

lemma answered_syncGroup2:
  assumes X: "answers X K A (live_at A st0)" "spec_key spec \<in> fp_Groups X"
    and laws: "controller_ref_laws K" "not_found_law K" "admission_law A" and ns: "good_namespace spec"
  shows "\<exists>r new. syncGroup2 K (typed_controller K) op (Some spec) h = (Some r, h @ new)
    \<and> live_at A st0 (h @ new) = sync_spec K A op spec (live_at A st0 h)"
proof -
  define st where "st = live_at A st0 h"
  define key where "key = object_key (gs_Namespace spec) (gs_Name spec)"
  have read: "live_at A st0 (h @ [IndexerGetByKey GroupInformer key]) = st" by (simp add: live_simps st_def)
  have lookup: "k_indexerGetByKey K h GroupInformer key = Inr (map_option (GroupPtr 0) (cl_Groups st (spec_key spec)))"
    using answersD(3) [OF X(1), of "gs_Namespace spec" "gs_Name spec" h] X(2) ns
    by (simp add: key_def spec_key_def st_def good_namespace_def)
  show ?thesis
  proof (cases "cl_Groups st (spec_key spec)")
    case (Some g)
    with lookup have "syncGroup2 K (typed_controller K) op (Some spec) h =
        settle_group K op g (h @ [IndexerGetByKey GroupInformer key])"
      unfolding key_def by (intro typed_syncGroup2_found [OF laws(1)]) simp
    with live_settle_group [of K op g "h @ [IndexerGetByKey GroupInformer key]" A st0] Some read
    show ?thesis by (auto simp: sync_spec_def st_def)
  next
    case None
    have "gs_Namespace spec \<noteq> ''''" using ns by (simp add: good_namespace_def)
    from created_group [OF laws(1,3) this, of op] obtain g0 where g0: "MakeComputeGroup K op spec = Some g0"
      "om_Namespace (cg_Meta g0) = gs_Namespace spec" "om_Name (cg_Meta g0) = gs_Name spec" .
    define create cg where "create = group_create_call (om_Namespace (cg_Meta g0)) g0 ''''" and "cg = admit_group A g0"
    have post: "rq_Body (rest_of create) = GroupBody g0" "rq_Verb (rest_of create) = ''POST''"
      "rq_Namespace (rest_of create) = gs_Namespace spec" "create = Rest (rest_of create)"
      using g0 by (simp_all add: create_def group_create_call_def rest_of_def request_def)
    then have step: "rest_step A (rest_of create) st = (st\<lparr>cl_Groups := (cl_Groups st)(spec_key spec \<mapsto> cg)\<rparr>, None)"
      using None g0 by (simp add: rest_step_def post_group_def cg_def spec_key_def)
    have in_X: "(rq_Namespace (rest_of create), om_Name (cg_Meta g0)) \<in> fp_Groups X"
      using X(2) post g0 by (simp add: spec_key_def)
    have "k_restGroup K (h @ [IndexerGetByKey GroupInformer key]) (rest_of create) zero_Group = (cg, None)"
      using answersD(7,8) [OF X(1) post(1) in_X, of "h @ [IndexerGetByKey GroupInformer key]" zero_Group] post(2) step read
      unfolding cg_def by (metis prod.collapse snd_conv)
    with lookup None have "syncGroup2 K (typed_controller K) op (Some spec) h =
        settle_group K op cg (h @ [IndexerGetByKey GroupInformer key, create])"
      by (intro typed_syncGroup2_absent [OF laws(1,2) key_def _ g0(1) create_def]) simp_all
    moreover have "live_at A st0 (h @ [IndexerGetByKey GroupInformer key, create]) = sync_spec K A op spec st"
    proof -
      have "live_step A create st = fst (rest_step A (rest_of create) st)" by (subst post(4)) simp
      then show ?thesis using step None g0 by (simp add: live_simps st_def [symmetric] sync_spec_def cg_def)
    qed
    ultimately show ?thesis
      using live_settle_group [of K op cg "h @ [IndexerGetByKey GroupInformer key, create]" A st0]
      by (auto simp: st_def)
  qed
qed

text \<open>The synchronisation of a group that does not exist creates it; the group that is then stored has
  the specification and belongs to the operator.\<close>

lemma live_syncGroup2:
  assumes "live K A st0" and "controller_ref_laws K" and "not_found_law K" and "admission_law A"
    and ns: "gs_Namespace spec \<noteq> ''''" "CHR ''/'' \<notin> set (gs_Namespace spec)"
    and "cl_Groups (live_at A st0 h) (gs_Namespace spec, gs_Name spec) = None"
  shows "\<exists>r new cg. syncGroup2 K (typed_controller K) op (Some spec) h = (Some r, h @ new)
    \<and> live_at A st0 (h @ new) = (live_at A st0 h)\<lparr>cl_Groups :=
        (cl_Groups (live_at A st0 h))((gs_Namespace spec, gs_Name spec) \<mapsto> cg)\<rparr>
    \<and> om_Namespace (cg_Meta cg) = gs_Namespace spec \<and> om_Name (cg_Meta cg) = gs_Name spec
    \<and> cg_Spec cg = spec \<and> k_isControlledBy K (cg_Meta cg) (op_Meta op)"
proof -
  obtain g0 where g0: "MakeComputeGroup K op spec = Some g0"
    "group_key (admit_group A g0) = spec_key spec" "cg_Spec (admit_group A g0) = spec"
    "k_isControlledBy K (cg_Meta (admit_group A g0)) (op_Meta op)"
    using created_group [OF assms(2,4) ns(1), of op] by metis
  obtain r new where run: "syncGroup2 K (typed_controller K) op (Some spec) h = (Some r, h @ new)"
    "live_at A st0 (h @ new) = sync_spec K A op spec (live_at A st0 h)"
    using answered_syncGroup2 [OF assms(1) [unfolded live_def] everything_simps(3) assms(2-4), of spec op h] ns
    by (auto simp: good_namespace_def)
  then show ?thesis
    using assms(7) g0
    by (intro exI [of _ r] exI [of _ new] exI [of _ "admit_group A g0"])
      (simp add: sync_spec_def spec_key_def group_key_def)
qed

section \<open>Properties\<close>

text \<open>C4 (refinement).  Against a live server the synchronisation of a group, with all its reads,
  creations, updates, lost errors and conflicts, returns without an error and implements one
  function of the store: \<open>sync_set\<close> for each planned set, the leaders first.\<close>

theorem group_synchronised:
  assumes "live K A st0" and "controller_ref_laws K" and "not_found_law K" and "admission_law A"
    and "group_plan K cg = Some plan" and "store_ok (live_at A st0 h)"
  shows "\<exists>new. processNewComputeGroup K (typed_controller K) cg h = (Some None, h @ new)
    \<and> live_at A st0 (h @ new) = fold (sync_set K A cg) plan (live_at A st0 h)"
  by (rule live_processNewComputeGroup [OF assms])

text \<open>C5 (liveness).  One synchronisation is enough, and a second one changes nothing: afterwards every
  planned deployment exists; one that was missing or belongs to the group has the number of
  replicas that is asked for; one of another owner, and every deployment under another name, is as
  it was; and the group's service exists.  Synchronising once more leaves all deployments and
  services as they are.\<close>

theorem synchronisation_converges:
  assumes "live K A st0" and "controller_ref_laws K" and "not_found_law K" and "admission_law A"
    and "group_plan K cg = Some plan" and "store_ok (live_at A st0 h)" and "distinct (map plan_key plan)"
  shows "\<exists>h1 h2. processNewComputeGroup K (typed_controller K) cg h = (Some None, h1)
    \<and> processNewComputeGroup K (typed_controller K) cg h1 = (Some None, h2)
    \<and> (\<forall>p \<in> set plan. \<exists>d. cl_Deployments (live_at A st0 h1) (plan_key p) = Some d
        \<and> (case cl_Deployments (live_at A st0 h) (plan_key p) of
             None \<Rightarrow> owned K cg d \<and> replicasDiffer (fst p) d = Some False
           | Some d0 \<Rightarrow> if owned K cg d0 then owned K cg d \<and> replicasDiffer (fst p) d = Some False else d = d0))
    \<and> (\<forall>key. key \<notin> plan_key ` set plan \<longrightarrow>
        cl_Deployments (live_at A st0 h1) key = cl_Deployments (live_at A st0 h) key)
    \<and> cl_Services (live_at A st0 h1) (group_key cg) \<noteq> None
    \<and> cl_Deployments (live_at A st0 h2) = cl_Deployments (live_at A st0 h1)
    \<and> cl_Services (live_at A st0 h2) = cl_Services (live_at A st0 h1)"
proof -
  let ?sync = "fold (sync_set K A cg) plan" and ?st = "live_at A st0 h"
  obtain h1 where h1: "processNewComputeGroup K (typed_controller K) cg h = (Some None, h1)"
    "live_at A st0 h1 = ?sync ?st"
    using live_processNewComputeGroup [OF assms(1-6)] by blast
  have ok: "store_ok (live_at A st0 h1)"
    unfolding h1(2) by (rule store_ok_plan [OF assms(4,6)])
  obtain h2 where h2: "processNewComputeGroup K (typed_controller K) cg h1 = (Some None, h2)"
    "live_at A st0 h2 = ?sync (live_at A st0 h1)"
    using live_processNewComputeGroup [OF assms(1-5) ok] by blast
  note each = plan_deployments [OF assms(7)]
  have "cl_Deployments (?sync (?sync ?st)) key = cl_Deployments (?sync ?st) key" for key
  proof (cases "key \<in> plan_key ` set plan")
    case True
    then obtain p where "p \<in> set plan" "key = plan_key p" by blast
    then show ?thesis by (simp add: each settled_again [OF assms(2,4,5)])
  qed (simp add: plan_deployments_other)
  moreover have "cl_Services (?sync (?sync ?st)) = cl_Services (?sync ?st)"
    by (rule ext) (auto simp: plan_services split: option.split)
  moreover have "cl_Services (?sync ?st) (group_key cg) \<noteq> None"
    using plan_service_exists [OF assms(5)] by (simp add: group_key_def)
  moreover have "case cl_Deployments ?st (plan_key p) of
       None \<Rightarrow> owned K cg d \<and> replicasDiffer (fst p) d = Some False
     | Some d0 \<Rightarrow> if owned K cg d0 then owned K cg d \<and> replicasDiffer (fst p) d = Some False else d = d0"
    if "p \<in> set plan" "d = settled K A cg p (cl_Deployments ?st (plan_key p))" for p d
    by (rule settled_spec [OF assms(2,4,5) that(1) assms(6) that(2)])
  ultimately show ?thesis
    using h1(1) h2(1) plan_deployments_other [of _ plan K A cg ?st]
    by (intro exI [of _ h1] exI [of _ h2]) (simp add: h1(2) h2(2) each fun_eq_iff)
qed

text \<open>C18 (functional).  One synchronisation records at most one set in the status of the group: the first
  of the plan whose entry is not there yet.  The writes for all later sets carry the old resource
  version, are refused as conflicts, and their errors are lost.\<close>

theorem one_status_per_synchronisation:
  assumes "live K A st0" and "controller_ref_laws K" and "not_found_law K" and "admission_law A"
    and "group_plan K cg = Some plan" and "store_ok (live_at A st0 h)"
    and "cl_Groups (live_at A st0 h) (group_key cg) = Some old"
    and "om_ResourceVersion (cg_Meta old) = om_ResourceVersion (cg_Meta cg)"
  shows "\<exists>new. processNewComputeGroup K (typed_controller K) cg h = (Some None, h @ new)
    \<and> cl_Groups (live_at A st0 (h @ new)) = (cl_Groups (live_at A st0 h))(group_key cg \<mapsto>
        (case find (\<lambda>p. recordable K cg (live_at A st0 h) p \<and> recorded cg p \<noteq> old) plan of
           None \<Rightarrow> old | Some p \<Rightarrow> versioned A (recorded cg p)))"
  using live_processNewComputeGroup [OF assms(1-6)] plan_groups [OF assms(2,4,5) subset_refl assms(7,8)]
  by (auto simp: first_recorded_def)

text \<open>From an operator's group to running deployments: when a group with complete sets
  does not exist yet and none of its names is taken by a deployment, the operator's synchronisation
  stores the group, owned by the operator, and the synchronisation of the stored group leaves a
  deployment for every one of its sets, owned by the group and, when the sets' names differ, with
  the number of replicas of its set, and the group's service.\<close>

theorem operator_to_deployments:
  assumes "live K A st0" and "controller_ref_laws K" and "not_found_law K" and "admission_law A"
    and "store_ok (live_at A st0 h)"
    and "gs_Name spec \<noteq> ''''" and "gs_Namespace spec \<noteq> ''''" and "CHR ''/'' \<notin> set (gs_Namespace spec)"
    and "cl_Groups (live_at A st0 h) (gs_Namespace spec, gs_Name spec) = None"
    and "\<forall>name. cl_Deployments (live_at A st0 h) (gs_Namespace spec, name) = None"
    and "gs_ComputeLeaders spec = Some ls" and "elems (gs_ComputeWorkers spec) = map Some ws"
    and "\<forall>cs \<in> insert ls (set ws). complete_instance K (cs_Instance cs)"
  shows "\<exists>r h1 cg plan h2. syncGroup2 K (typed_controller K) op (Some spec) h = (Some r, h1)
    \<and> cl_Groups (live_at A st0 h1) (gs_Namespace spec, gs_Name spec) = Some cg
    \<and> cg_Spec cg = spec \<and> k_isControlledBy K (cg_Meta cg) (op_Meta op)
    \<and> processNewComputeGroup K (typed_controller K) (snd (IsComputeGroupCreated cg)) h1 = (Some None, h2)
    \<and> map fst plan = ls # ws
    \<and> (\<forall>p \<in> set plan. fst (plan_key p) = gs_Namespace spec
        \<and> (\<exists>d. cl_Deployments (live_at A st0 h2) (plan_key p) = Some d \<and> owned K cg d
            \<and> (distinct (map plan_key plan) \<longrightarrow> replicasDiffer (fst p) d = Some False)))
    \<and> cl_Services (live_at A st0 h2) (gs_Namespace spec, gs_Name spec) \<noteq> None"
proof -
  obtain r h1 cg where h1: "syncGroup2 K (typed_controller K) op (Some spec) h = (Some r, h1)"
    and st1: "live_at A st0 h1 = (live_at A st0 h)\<lparr>cl_Groups :=
        (cl_Groups (live_at A st0 h))((gs_Namespace spec, gs_Name spec) \<mapsto> cg)\<rparr>"
    and cg: "om_Namespace (cg_Meta cg) = gs_Namespace spec" "om_Name (cg_Meta cg) = gs_Name spec" "cg_Spec cg = spec"
      "k_isControlledBy K (cg_Meta cg) (op_Meta op)"
    using live_syncGroup2 [OF assms(1-4,7-9)] by blast
  define cg' where "cg' = snd (IsComputeGroupCreated cg)"
  have cg': "cg_Meta cg' = cg_Meta cg" "cg_Spec cg' = spec"
    by (simp_all add: cg'_def IsComputeGroupCreated_fields cg)
  have sets: "gs_ComputeLeaders (cg_Spec cg') = Some ls" "elems (gs_ComputeWorkers (cg_Spec cg')) = map Some ws"
    using assms(11,12) cg' by simp_all
  obtain plan where plan: "group_plan K cg' = Some plan"
    using group_plan_exists [OF _ _ sets assms(13)] assms(6,7) cg cg' by auto
  have ok: "store_ok (live_at A st0 h1)" using assms(5) by (simp add: st1 store_ok_def)
  obtain h2 where h2: "processNewComputeGroup K (typed_controller K) cg' h1 = (Some None, h2)"
    "live_at A st0 h2 = fold (sync_set K A cg') plan (live_at A st0 h1)"
    using live_processNewComputeGroup [OF assms(1-4) plan ok] by blast
  have ns: "fst (plan_key p) = gs_Namespace spec" if "p \<in> set plan" for p
    using group_plan_desired [OF plan that] desired_deployment_meta(2) cg cg' by (fastforce simp: plan_key_def)
  have free: "cl_Deployments (live_at A st0 h1) (plan_key p) = None" if "p \<in> set plan" for p
    using ns [OF that] assms(10) by (cases "plan_key p") (simp add: st1)
  have "\<exists>d. cl_Deployments (live_at A st0 h2) (plan_key p) = Some d \<and> owned K cg d
      \<and> (distinct (map plan_key plan) \<longrightarrow> replicasDiffer (fst p) d = Some False)" if "p \<in> set plan" for p
  proof -
    obtain d where d: "cl_Deployments (live_at A st0 h2) (plan_key p) = Some d"
      using plan_exists [of p plan "live_at A st0 h1" K A cg'] \<open>p \<in> set plan\<close> h2(2) by auto
    moreover have "owned K cg' d"
      using recordable_plan [OF assms(2,4) plan subset_refl, of "live_at A st0 h1" p] d free [OF that]
      by (simp add: recordable_def h2(2))
    moreover have "replicasDiffer (fst p) d = Some False" if dist: "distinct (map plan_key plan)"
      using plan_deployments [OF dist \<open>p \<in> set plan\<close>, of K A cg' "live_at A st0 h1"] d free [OF \<open>p \<in> set plan\<close>]
        settled_spec [OF assms(2,4) plan \<open>p \<in> set plan\<close> ok refl] by (simp add: h2(2))
    ultimately show ?thesis using cg' by (simp add: owned_def)
  qed
  moreover have "cl_Services (live_at A st0 h2) (gs_Namespace spec, gs_Name spec) \<noteq> None"
    using plan_service_exists [OF plan, of A "live_at A st0 h1"] cg cg' by (simp add: h2(2))
  ultimately show ?thesis
    using h1 cg h2(1) ns group_plan_sets [OF plan sets] st1
    by (intro exI [of _ r] exI [of _ h1] exI [of _ cg] exI [of _ plan] exI [of _ h2]) (simp add: cg'_def)
qed

section \<open>The properties at concrete inputs\<close>

text \<open>A live server that completes objects as little as the laws allow.\<close>

definition plain_server :: api_server where
  "plain_server = \<lparr>
     admit_deployment = (\<lambda>d. d\<lparr>dep_Spec := (dep_Spec d)\<lparr>ds_Replicas :=
        Some (case ds_Replicas (dep_Spec d) of None \<Rightarrow> 1 | Some n \<Rightarrow> n)\<rparr>\<rparr>),
     admit_group = (\<lambda>g. g\<lparr>cg_Meta := (cg_Meta g)\<lparr>om_UID := ''u-group'', om_ResourceVersion := ''1''\<rparr>\<rparr>),
     next_version = (\<lambda>v. v @ ''1'')\<rparr>"

definition server_k8s :: "(call list \<Rightarrow> cluster_store) \<Rightarrow> k8s" where
  "server_k8s S = ref_k8s\<lparr>
     k_listerGetDeployment := \<lambda>h ns name.
       sum_of_option (NewNotFound ''deployments'' name) (cl_Deployments (S h) (ns, name)),
     k_listerGetService := \<lambda>h ns name.
       sum_of_option (NewNotFound ''services'' name) (cl_Services (S h) (ns, name)),
     k_indexerGetByKey := \<lambda>h i key. (case SplitN2 key (CHR ''/'') of
         [ns, name] \<Rightarrow> Inr (map_option (GroupPtr 0) (cl_Groups (S h) (ns, name)))
       | _ \<Rightarrow> Inr None),
     k_createDeployment := \<lambda>h ns d. (case cl_Deployments (S h) (ns, om_Name (dep_Meta d)) of
         None \<Rightarrow> Inr (admit_deployment plain_server d) | Some _ \<Rightarrow> Inl (ForeignError ''already exists'')),
     k_updateDeployment := \<lambda>h ns d. (case cl_Deployments (S h) (ns, om_Name (dep_Meta d)) of
         None \<Rightarrow> Inl (NewNotFound ''deployments'' (om_Name (dep_Meta d))) | Some _ \<Rightarrow> Inr (admit_deployment plain_server d)),
     k_createService := \<lambda>h ns s. (case cl_Services (S h) (ns, om_Name (svc_Meta s)) of
         None \<Rightarrow> Inr s | Some _ \<Rightarrow> Inl (ForeignError ''already exists'')),
     k_restGroup := \<lambda>h rq g0. (case rq_Body rq of GroupBody g \<Rightarrow> admit_group plain_server g | _ \<Rightarrow> g0,
       snd (rest_step plain_server rq (S h)))\<rparr>"

definition live_k8s :: "cluster_store \<Rightarrow> k8s" where
  "live_k8s st0 = server_k8s (live_at plain_server st0)"

lemma plain_admission: "admission_law plain_server"
  by (simp add: admission_law_def plain_server_def)

lemma server_k8s_laws:
  "answers everything (server_k8s S) plain_server S" "controller_ref_laws (server_k8s S)" "not_found_law (server_k8s S)"
  "range_law (server_k8s S)"
proof -
  show "answers everything (server_k8s S) plain_server S"
    by (simp add: answers_def server_k8s_def object_key_split)
  show "controller_ref_laws (server_k8s S)"
    using ref_controller_ref_laws by (simp add: controller_ref_laws_def server_k8s_def)
  show "not_found_law (server_k8s S)"
    using ref_not_found_law by (simp add: not_found_law_def server_k8s_def)
  show "range_law (server_k8s S)"
    using ref_range_law by (simp add: range_law_def server_k8s_def)
qed

lemma live_k8s_laws: "live (live_k8s st0) plain_server st0" "controller_ref_laws (live_k8s st0)" "not_found_law (live_k8s st0)"
  using server_k8s_laws by (simp_all add: live_def live_k8s_def)

definition sample_store :: cluster_store where
  "sample_store = \<lparr>cl_Deployments = \<lambda>key. None, cl_Services = \<lambda>key. None,
     cl_Groups = [group_key sample_group \<mapsto> sample_group]\<rparr>"

lemma sample_store_ok: "store_ok (live_at plain_server sample_store [])"
  by (simp add: live_at_def store_ok_def sample_store_def)

lemma sample_sets: "gs_ComputeLeaders (cg_Spec sample_group) = Some sample_set"
  "elems (gs_ComputeWorkers (cg_Spec sample_group)) = map Some [sample_set, sample_set]"
  "complete_instance (live_k8s st0) (cs_Instance sample_set)"
  by (simp_all add: complete_instance_def live_k8s_def server_k8s_def ref_k8s_def sample_defs)

lemma sample_plan: "\<exists>plan. group_plan (live_k8s st0) sample_group = Some plan"
  using group_plan_exists [OF _ _ sample_sets(1,2)] sample_sets(3) by (simp add: sample_names)

lemma sample_plan_keys:
  assumes "group_plan (live_k8s st0) sample_group = Some plan"
  shows "map plan_key plan =
    [(''default'', ''groupp1-leader''), (''default'', ''groupp1-worker0''), (''default'', ''groupp1-worker1'')]"
  using group_plan_keys [OF assms sample_sets(1,2)]
  by (simp add: set_name_def leader_name_def worker_name_def sample_defs sample_decimals)

theorem group_synchronised_witness:
  "\<exists>plan new. group_plan (live_k8s sample_store) sample_group = Some plan \<and> length plan = 3
     \<and> processNewComputeGroup (live_k8s sample_store) (typed_controller (live_k8s sample_store)) sample_group [] = (Some None, new)
     \<and> live_at plain_server sample_store new =
         fold (sync_set (live_k8s sample_store) plain_server sample_group) plan sample_store"
proof -
  obtain plan where plan: "group_plan (live_k8s sample_store) sample_group = Some plan" using sample_plan by blast
  have "length plan = 3" using arg_cong [OF sample_plan_keys [OF plan], of length] by simp
  with group_synchronised [OF live_k8s_laws plain_admission plan sample_store_ok] plan show ?thesis
    by (auto simp: live_at_def)
qed

theorem synchronisation_converges_witness:
  "\<exists>h1 h2. processNewComputeGroup (live_k8s sample_store) (typed_controller (live_k8s sample_store)) sample_group [] = (Some None, h1)
     \<and> processNewComputeGroup (live_k8s sample_store) (typed_controller (live_k8s sample_store)) sample_group h1 = (Some None, h2)
     \<and> cl_Deployments (live_at plain_server sample_store h1) (''default'', ''groupp1-worker1'') \<noteq> None
     \<and> cl_Deployments (live_at plain_server sample_store h2) = cl_Deployments (live_at plain_server sample_store h1)"
proof -
  obtain plan where plan: "group_plan (live_k8s sample_store) sample_group = Some plan" using sample_plan by blast
  note keys = sample_plan_keys [OF plan]
  have "distinct (map plan_key plan)" by (simp add: keys)
  moreover have "(''default'', ''groupp1-worker1'') \<in> set (map plan_key plan)" by (simp add: keys)
  then obtain p where "p \<in> set plan" "plan_key p = (''default'', ''groupp1-worker1'')" by auto
  ultimately show ?thesis
    using synchronisation_converges [OF live_k8s_laws plain_admission plan sample_store_ok]
    by (metis option.distinct(1))
qed

theorem one_status_per_synchronisation_witness:
  "\<exists>new g. processNewComputeGroup (live_k8s sample_store) (typed_controller (live_k8s sample_store)) sample_group [] = (Some None, new)
     \<and> cl_Groups (live_at plain_server sample_store new) (group_key sample_group) = Some g
     \<and> map_get (gst_ReadyComputeLeaders (cg_Status g)) ''default/groupp1-leader'' = Some ComputeInstanceReadyState
     \<and> gst_ReadyComputeWorkers (cg_Status g) = None"
proof -
  obtain plan where plan: "group_plan (live_k8s sample_store) sample_group = Some plan" using sample_plan by blast
  note keys = sample_plan_keys [OF plan]
  then obtain p ps where p: "plan = p # ps" "plan_key p = (''default'', ''groupp1-leader'')" by (cases plan) auto
  have "snd (snd p)" using plan p(1) by (auto elim: group_planE)
  then have rec: "recorded sample_group p = status_write sample_group ''default/groupp1-leader'' True"
    by (simp add: recorded_def p(2) object_key_def)
  have "recordable (live_k8s sample_store) sample_group (live_at plain_server sample_store []) p"
    by (simp add: recordable_def live_at_def sample_store_def)
  moreover have "recorded sample_group p \<noteq> sample_group"
    unfolding rec by (rule notI, drule arg_cong [of _ _ "\<lambda>g. gst_Status (cg_Status g)"])
      (simp add: status_write_fields sample_defs state_defs)
  moreover have "cl_Groups (live_at plain_server sample_store []) (group_key sample_group) = Some sample_group"
    by (simp add: live_at_def sample_store_def)
  from one_status_per_synchronisation [OF live_k8s_laws plain_admission plan sample_store_ok this refl]
  obtain new where run: "processNewComputeGroup (live_k8s sample_store) (typed_controller (live_k8s sample_store)) sample_group [] = (Some None, new)"
    and "cl_Groups (live_at plain_server sample_store new) (group_key sample_group) =
       Some (case find (\<lambda>p. recordable (live_k8s sample_store) sample_group (live_at plain_server sample_store []) p
           \<and> recorded sample_group p \<noteq> sample_group) plan of
         None \<Rightarrow> sample_group | Some p \<Rightarrow> versioned plain_server (recorded sample_group p))"
    by auto
  ultimately have "cl_Groups (live_at plain_server sample_store new) (group_key sample_group) =
      Some (versioned plain_server (status_write sample_group ''default/groupp1-leader'' True))"
    by (simp add: p(1) rec)
  moreover have "gst_ReadyComputeWorkers (cg_Status (status_write sample_group key True)) = None" for key
    by (simp add: status_write_def group_status_copy_def Let_def sample_defs)
  ultimately show ?thesis using run by (simp add: versioned_def status_write_fields)
qed

definition empty_store :: cluster_store where
  "empty_store = \<lparr>cl_Deployments = \<lambda>key. None, cl_Services = \<lambda>key. None, cl_Groups = \<lambda>key. None\<rparr>"

theorem operator_to_deployments_witness:
  "\<exists>r h1 cg h2. syncGroup2 (live_k8s empty_store) (typed_controller (live_k8s empty_store))
         sample_operator (Some sample_group_spec) [] = (Some r, h1)
     \<and> cl_Groups (live_at plain_server empty_store h1) (''default'', ''groupp1'') = Some cg
     \<and> processNewComputeGroup (live_k8s empty_store) (typed_controller (live_k8s empty_store))
         (snd (IsComputeGroupCreated cg)) h1 = (Some None, h2)
     \<and> cl_Services (live_at plain_server empty_store h2) (''default'', ''groupp1'') \<noteq> None"
proof -
  have spec: "gs_Namespace sample_group_spec = ''default''" "gs_Name sample_group_spec = ''groupp1''"
    "gs_ComputeLeaders sample_group_spec = Some sample_set"
    "elems (gs_ComputeWorkers sample_group_spec) = map Some [sample_set, sample_set]"
    by (simp_all add: sample_group_spec_def)
  have names: "gs_Name sample_group_spec \<noteq> ''''" "gs_Namespace sample_group_spec \<noteq> ''''"
    "CHR ''/'' \<notin> set (gs_Namespace sample_group_spec)" by (simp_all add: spec)
  have st: "live_at plain_server empty_store [] = empty_store" by (simp add: live_at_def)
  have free: "cl_Groups (live_at plain_server empty_store []) (gs_Namespace sample_group_spec, gs_Name sample_group_spec) = None"
    "\<forall>name. cl_Deployments (live_at plain_server empty_store []) (gs_Namespace sample_group_spec, name) = None"
    "store_ok (live_at plain_server empty_store [])"
    unfolding st by (simp_all add: empty_store_def store_ok_def)
  have sets: "\<forall>cs \<in> insert sample_set (set [sample_set, sample_set]). complete_instance (live_k8s empty_store) (cs_Instance cs)"
    by (simp add: sample_sets(3))
  from operator_to_deployments [OF live_k8s_laws plain_admission free(3) names free(1,2) spec(3,4) sets, of sample_operator]
  show ?thesis unfolding spec(1,2) by blast
qed

end
