(* ===== verification/Live_Operators.thy ===== *)
theory Live_Operators
  imports Live_Cluster
begin

text \<open>
  Operators on the server of \<open>Live_Cluster\<close>: the synchronisation of an operator (\<^verbatim>\<open>processNewOperator\<close>)
  is the fold of \<open>sync_spec\<close> over its groups, the groups that are missing are made, and a second
  synchronisation changes nothing.
\<close>

section \<open>The synchronisation of an operator as a function of the store\<close>

text \<open>The specifications of an operator's groups; none when one of them is nil.\<close>

definition operator_specs :: "DatafuseOperator \<Rightarrow> DatafuseComputeGroupSpec list option" where
  "operator_specs op = those (elems (os_ComputeGroups (op_Spec op)))"

definition defaulted :: "DatafuseOperator \<Rightarrow> DatafuseOperator" where
  "defaulted op = default_operator_status (default_operator_groups
     (default_operator_name (default_operator_namespace op)))"

lemma defaulted: "SetDatafuseOperatorDefault (Some op) = Some (defaulted op)"
  by (simp add: SetDatafuseOperatorDefault_def defaulted_def)

lemma defaulted_specs: "operator_specs (defaulted op) = operator_specs op"
  using SetDatafuseOperatorDefault_keeps(1) [OF defaulted] by (simp add: operator_specs_def)

lemma answered_groups:
  assumes "answers X K A (live_at A st0)" and "spec_key ` set specs \<subseteq> fp_Groups X"
    and "controller_ref_laws K" and "not_found_law K" and "admission_law A" and "\<forall>spec \<in> set specs. good_namespace spec"
  shows "\<exists>new. for_each (\<lambda>groupSpec. bind_io (syncGroup2 K (typed_controller K) op groupSpec) (\<lambda>e. ret ()))
        (map Some specs) h = (Some (), h @ new)
    \<and> live_at A st0 (h @ new) = fold (sync_spec K A op) specs (live_at A st0 h)"
  using assms(2,6)
proof (induction specs arbitrary: h)
  case (Cons spec specs)
  then have "spec_key spec \<in> fp_Groups X" "good_namespace spec" by auto
  from answered_syncGroup2 [OF assms(1) this(1) assms(3-5) this(2), of op h] obtain r n1
    where n1: "syncGroup2 K (typed_controller K) op (Some spec) h = (Some r, h @ n1)"
      "live_at A st0 (h @ n1) = sync_spec K A op spec (live_at A st0 h)" by blast
  let ?body = "\<lambda>groupSpec. bind_io (syncGroup2 K (typed_controller K) op groupSpec) (\<lambda>e. ret ())"
  from Cons.IH [of "h @ n1"] Cons.prems obtain n2 where "for_each ?body (map Some specs) (h @ n1) = (Some (), (h @ n1) @ n2)"
    "live_at A st0 ((h @ n1) @ n2) = fold (sync_spec K A op) specs (live_at A st0 (h @ n1))" by auto
  moreover have "?body (Some spec) h = (Some (), h @ n1)" using n1(1) by (simp add: io_simps)
  then have "for_each ?body (map Some (spec # specs)) h = for_each ?body (map Some specs) (h @ n1)"
    by (simp add: bind_run [of "?body (Some spec)"])
  ultimately show ?case using n1(2) by (intro exI [of _ "n1 @ n2"]) simp
qed (simp add: io_simps)

lemma answered_processNewOperator:
  assumes "answers X K A (live_at A st0)" and "spec_key ` set specs \<subseteq> fp_Groups X"
    and "controller_ref_laws K" and "not_found_law K" and "admission_law A"
    and "operator_specs op = Some specs" and "\<forall>spec \<in> set specs. good_namespace spec"
  shows "\<exists>new. processNewOperator K (typed_controller K) op h = (Some None, h @ new)
    \<and> live_at A st0 (h @ new) = fold (sync_spec K A (defaulted op)) specs (live_at A st0 h)"
proof -
  have "elems (os_ComputeGroups (op_Spec (defaulted op))) = map Some specs"
    using assms(6) defaulted_specs [of op] those_map by (simp add: operator_specs_def)
  with answered_groups [OF assms(1-5,7), of "defaulted op" h] show ?thesis
    by (auto simp: processNewOperator_def defaulted io_simps)
qed

section \<open>The groups of the store\<close>

lemma sync_spec_others: "cl_Deployments (sync_spec K A op spec st) = cl_Deployments st"
  "cl_Services (sync_spec K A op spec st) = cl_Services st"
  "key \<noteq> spec_key spec \<Longrightarrow> cl_Groups (sync_spec K A op spec st) key = cl_Groups st key"
  by (auto simp: sync_spec_def split: option.split)

lemma sync_specs_others: "cl_Deployments (fold (sync_spec K A op) specs st) = cl_Deployments st"
  "cl_Services (fold (sync_spec K A op) specs st) = cl_Services st"
  "key \<notin> spec_key ` set specs \<Longrightarrow> cl_Groups (fold (sync_spec K A op) specs st) key = cl_Groups st key"
  by (induction specs arbitrary: st) (simp_all add: sync_spec_others)

lemma sync_specs_kept:
  "cl_Groups st key = Some g \<Longrightarrow> cl_Groups (fold (sync_spec K A op) specs st) key = Some g"
proof (induction specs arbitrary: st)
  case (Cons spec specs)
  then have "cl_Groups (sync_spec K A op spec st) key = Some g"
    by (cases "key = spec_key spec") (simp add: sync_spec_def, simp add: sync_spec_others(3))
  with Cons.IH show ?case by simp
qed simp

text \<open>A missing group is made from the first specification with its name.\<close>

lemma sync_specs_made:
  assumes "controller_ref_laws K" and "cl_Groups st key = None" and "key \<in> spec_key ` set specs"
  shows "\<exists>spec g. find (\<lambda>spec. spec_key spec = key) specs = Some spec \<and> MakeComputeGroup K op spec = Some g
    \<and> cl_Groups (fold (sync_spec K A op) specs st) key = Some (admit_group A g)"
  using assms(2,3)
proof (induction specs arbitrary: st)
  case (Cons spec specs)
  show ?case
  proof (cases "spec_key spec = key")
    case True
    obtain g where g: "MakeComputeGroup K op spec = Some g" using MakeComputeGroup_exists [OF assms(1)] by blast
    then have "cl_Groups (sync_spec K A op spec st) key = Some (admit_group A g)"
      using Cons.prems(1) True by (simp add: sync_spec_def)
    from sync_specs_kept [OF this] g True show ?thesis by simp
  next
    case False
    with Cons show ?thesis by (auto simp: sync_spec_others(3))
  qed
qed simp

lemma sync_specs_exist:
  assumes "controller_ref_laws K" and "spec \<in> set specs"
  shows "cl_Groups (fold (sync_spec K A op) specs st) (spec_key spec) \<noteq> None"
proof (cases "cl_Groups st (spec_key spec)")
  case None
  with sync_specs_made [OF assms(1) this, of specs op A] assms(2) show ?thesis by auto
qed (simp add: sync_specs_kept)

lemma sync_specs_idle:
  "\<forall>spec \<in> set specs. cl_Groups st (spec_key spec) \<noteq> None \<Longrightarrow> fold (sync_spec K A op) specs st = st"
proof (induction specs)
  case (Cons spec specs)
  then have "sync_spec K A op spec st = st" by (auto simp: sync_spec_def)
  with Cons show ?case by simp
qed simp

lemma find_key: "find (\<lambda>x. f x = key) xs = Some x \<Longrightarrow> x \<in> set xs \<and> f x = key"
  by (induction xs) (auto split: if_splits)

section \<open>Properties\<close>

text \<open>The synchronisation of an operator makes every group that is missing, owned by the
  operator, labelled with the operator's key, and with the first specification that has its name;
  it leaves the groups that exist, all other groups and every deployment and service alone; and a
  second synchronisation changes nothing.\<close>

theorem operator_groups_exist:
  assumes "live K A st0" and "controller_ref_laws K" and "not_found_law K" and "admission_law A"
    and "operator_specs op = Some specs" and "\<forall>spec \<in> set specs. good_namespace spec"
  shows "\<exists>h1 h2. processNewOperator K (typed_controller K) op h = (Some None, h1)
    \<and> processNewOperator K (typed_controller K) op h1 = (Some None, h2)
    \<and> (\<forall>key \<in> spec_key ` set specs. \<exists>g. cl_Groups (live_at A st0 h1) key = Some g
        \<and> (case cl_Groups (live_at A st0 h) key of
             Some g0 \<Rightarrow> g = g0
           | None \<Rightarrow> group_key g = key \<and> find (\<lambda>spec. spec_key spec = key) specs = Some (cg_Spec g)
               \<and> k_isControlledBy K (cg_Meta g) (op_Meta (defaulted op))
               \<and> map_get (om_Labels (cg_Meta g)) OperatorLabel = Some (GetOperatorKey (op_Meta (defaulted op)))))
    \<and> (\<forall>key. key \<notin> spec_key ` set specs \<longrightarrow> cl_Groups (live_at A st0 h1) key = cl_Groups (live_at A st0 h) key)
    \<and> cl_Deployments (live_at A st0 h1) = cl_Deployments (live_at A st0 h)
    \<and> cl_Services (live_at A st0 h1) = cl_Services (live_at A st0 h)
    \<and> live_at A st0 h2 = live_at A st0 h1"
proof -
  let ?sync = "fold (sync_spec K A (defaulted op)) specs" and ?st = "live_at A st0 h"
  have run: "\<exists>h'. processNewOperator K (typed_controller K) op h = (Some None, h') \<and> live_at A st0 h' = ?sync (live_at A st0 h)" for h
    using answered_processNewOperator [OF assms(1) [unfolded live_def] _ assms(2-6), of h]
    by (fastforce simp: everything_def)
  obtain h1 where h1: "processNewOperator K (typed_controller K) op h = (Some None, h1)" "live_at A st0 h1 = ?sync ?st"
    using run by blast
  obtain h2 where h2: "processNewOperator K (typed_controller K) op h1 = (Some None, h2)" "live_at A st0 h2 = ?sync (?sync ?st)"
    using run [of h1] h1(2) by auto
  have idle: "?sync (?sync ?st) = ?sync ?st"
    using sync_specs_exist [OF assms(2)] by (intro sync_specs_idle) blast
  have "\<exists>g. cl_Groups (?sync ?st) key = Some g
        \<and> (case cl_Groups ?st key of
             Some g0 \<Rightarrow> g = g0
           | None \<Rightarrow> group_key g = key \<and> find (\<lambda>spec. spec_key spec = key) specs = Some (cg_Spec g)
               \<and> k_isControlledBy K (cg_Meta g) (op_Meta (defaulted op))
               \<and> map_get (om_Labels (cg_Meta g)) OperatorLabel = Some (GetOperatorKey (op_Meta (defaulted op))))"
    if "key \<in> spec_key ` set specs" for key
  proof (cases "cl_Groups ?st key")
    case None
    from sync_specs_made [OF assms(2) None that] obtain spec g where g:
      "find (\<lambda>spec. spec_key spec = key) specs = Some spec" "MakeComputeGroup K (defaulted op) spec = Some g"
      "cl_Groups (?sync ?st) key = Some (admit_group A g)" by blast
    from find_key [OF g(1)] assms(6) have spec: "spec_key spec = key" "gs_Namespace spec \<noteq> ''''"
      by (auto simp: good_namespace_def)
    from created_group [OF assms(2,4) spec(2), of "defaulted op"] g(2)
    have "group_key (admit_group A g) = key" "cg_Spec (admit_group A g) = spec"
      "map_get (om_Labels (cg_Meta (admit_group A g))) OperatorLabel = Some (GetOperatorKey (op_Meta (defaulted op)))"
      "k_isControlledBy K (cg_Meta (admit_group A g)) (op_Meta (defaulted op))"
      unfolding spec(1) by auto
    with g(1,3) None show ?thesis by simp
  qed (simp add: sync_specs_kept)
  then show ?thesis
    using h1(1) h2(1) unfolding h1(2) h2(2) idle
    by (intro exI [of _ h1] exI [of _ h2]) (simp add: h1(2) h2(2) idle sync_specs_others)
qed

text \<open>An operator with two groups, one of which exists.\<close>

definition second_spec :: DatafuseComputeGroupSpec where
  "second_spec = sample_group_spec\<lparr>gs_Name := ''groupp2''\<rparr>"

definition two_group_operator :: DatafuseOperator where
  "two_group_operator = sample_operator\<lparr>op_Spec := \<lparr>os_ComputeGroups = Some [Some sample_group_spec, Some second_spec],
     os_Version = None\<rparr>\<rparr>"

lemma two_group_specs: "operator_specs two_group_operator = Some [sample_group_spec, second_spec]"
  "\<forall>spec \<in> set [sample_group_spec, second_spec]. good_namespace spec"
  "spec_key sample_group_spec = (''default'', ''groupp1'')" "spec_key second_spec = (''default'', ''groupp2'')"
  by (simp_all add: operator_specs_def two_group_operator_def good_namespace_def second_spec_def spec_key_def sample_defs)

theorem operator_groups_exist_witness:
  "\<exists>h1 h2 g. processNewOperator (live_k8s sample_store) (typed_controller (live_k8s sample_store)) two_group_operator [] = (Some None, h1)
     \<and> processNewOperator (live_k8s sample_store) (typed_controller (live_k8s sample_store)) two_group_operator h1 = (Some None, h2)
     \<and> cl_Groups (live_at plain_server sample_store h1) (''default'', ''groupp1'') = Some sample_group
     \<and> cl_Groups (live_at plain_server sample_store h1) (''default'', ''groupp2'') = Some g \<and> cg_Spec g = second_spec
     \<and> live_at plain_server sample_store h2 = live_at plain_server sample_store h1"
proof -
  have old: "cl_Groups (live_at plain_server sample_store []) (''default'', ''groupp1'') = Some sample_group"
    "cl_Groups (live_at plain_server sample_store []) (''default'', ''groupp2'') = None"
    by (simp_all add: live_at_def sample_store_def group_key_def sample_names)
  have find: "find (\<lambda>spec. spec_key spec = (''default'', ''groupp2'')) [sample_group_spec, second_spec] = Some second_spec"
    by (simp add: two_group_specs)
  let ?K = "live_k8s sample_store" and ?at = "live_at plain_server sample_store"
  obtain h1 h2 where run: "processNewOperator ?K (typed_controller ?K) two_group_operator [] = (Some None, h1)"
      "processNewOperator ?K (typed_controller ?K) two_group_operator h1 = (Some None, h2)" "?at h2 = ?at h1"
    and groups: "\<forall>key \<in> spec_key ` set [sample_group_spec, second_spec]. \<exists>g. cl_Groups (?at h1) key = Some g
        \<and> (case cl_Groups (?at []) key of Some g0 \<Rightarrow> g = g0
          | None \<Rightarrow> group_key g = key \<and> find (\<lambda>spec. spec_key spec = key) [sample_group_spec, second_spec] = Some (cg_Spec g)
              \<and> k_isControlledBy ?K (cg_Meta g) (op_Meta (defaulted two_group_operator))
              \<and> map_get (om_Labels (cg_Meta g)) OperatorLabel = Some (GetOperatorKey (op_Meta (defaulted two_group_operator))))"
    using operator_groups_exist [OF live_k8s_laws plain_admission two_group_specs(1,2), of sample_store "[]"]
    by (elim exE conjE) (rule that)
  have "(''default'', ''groupp1'') \<in> spec_key ` set [sample_group_spec, second_spec]"
    "(''default'', ''groupp2'') \<in> spec_key ` set [sample_group_spec, second_spec]"
    by (simp_all add: two_group_specs(3,4))
  from this [THEN bspec [OF groups]] show ?thesis
    using run unfolding old find by auto
qed

end
