(* ===== verification/Group_Check.thy ===== *)
theory Group_Check
  imports Live_Cluster
begin

text \<open>
  The check of a group that was synchronised before (\<^verbatim>\<open>processUpdatedComputeGroup\<close>), on the server of
  \<open>Live_Cluster\<close>: what it does is a function of the store, \<open>check_group\<close>, which takes out of the
  status what is gone, whatever the order in which the maps are read, followed by the synchronisation
  of the group as it was.
\<close>

section \<open>Keys of a status\<close>

definition status_keys :: "DatafuseComputeGroup \<Rightarrow> string set" where
  "status_keys cg = set (map_keys (gst_ReadyComputeLeaders (cg_Status cg)) @ map_keys (gst_ReadyComputeWorkers (cg_Status cg)))"

text \<open>The deployment that a key names, \<^verbatim>\<open>strings.SplitN(key, "/", 2)\<close>, and whether it is gone.\<close>

definition key_name :: "string \<Rightarrow> store_key" where
  "key_name key = (case SplitN2 key (CHR ''/'') of [ns, name] \<Rightarrow> (ns, name) | _ \<Rightarrow> ('''', key))"

definition gone :: "cluster_store \<Rightarrow> string \<Rightarrow> bool" where
  "gone st key \<longleftrightarrow> cl_Deployments st (key_name key) = None"

definition drop_gone :: "cluster_store \<Rightarrow> 'v gomap \<Rightarrow> 'v gomap" where
  "drop_gone st m = map_option (filter (\<lambda>e. \<not> gone st (fst e))) m"

definition any_gone :: "cluster_store \<Rightarrow> DatafuseComputeGroup \<Rightarrow> bool" where
  "any_gone st cg \<longleftrightarrow> list_ex (gone st) (map_keys (gst_ReadyComputeLeaders (cg_Status cg)) @ map_keys (gst_ReadyComputeWorkers (cg_Status cg)))"

definition pruned :: "cluster_store \<Rightarrow> DatafuseComputeGroup \<Rightarrow> DatafuseComputeGroup" where
  "pruned st cg = cg\<lparr>cg_Status := (cg_Status cg)
     \<lparr>gst_ReadyComputeLeaders := drop_gone st (gst_ReadyComputeLeaders (cg_Status cg)),
      gst_ReadyComputeWorkers := drop_gone st (gst_ReadyComputeWorkers (cg_Status cg)),
      gst_Status := if any_gone st cg then ComputeGroupPending else gst_Status (cg_Status cg)\<rparr>\<rparr>"

definition never_ready :: "DatafuseComputeGroup \<Rightarrow> bool" where
  "never_ready cg \<longleftrightarrow> gst_ReadyComputeLeaders (cg_Status cg) = None \<and> gst_ReadyComputeWorkers (cg_Status cg) = None"

definition check_group :: "api_server \<Rightarrow> DatafuseComputeGroup \<Rightarrow> cluster_store \<Rightarrow> cluster_store" where
  "check_group A cg st = (if never_ready cg then st else fst (put_group A (om_Namespace (cg_Meta cg)) (pruned st cg) st))"

text \<open>The deployments that the status names.\<close>

definition status_names :: "DatafuseComputeGroup \<Rightarrow> store_key set" where
  "status_names cg = key_name ` status_keys cg"

definition slashed :: "DatafuseComputeGroup \<Rightarrow> bool" where
  "slashed cg \<longleftrightarrow> list_all (\<lambda>key. CHR ''/'' \<in> set key)
     (map_keys (gst_ReadyComputeLeaders (cg_Status cg)) @ map_keys (gst_ReadyComputeWorkers (cg_Status cg)))"

lemma slashedD: "slashed cg \<Longrightarrow> key \<in> status_keys cg \<Longrightarrow> CHR ''/'' \<in> set key"
  by (auto simp: slashed_def status_keys_def list_all_iff)

lemma pruned_fields [simp]: "cg_Meta (pruned st cg) = cg_Meta cg" "cg_Spec (pruned st cg) = cg_Spec cg"
  by (simp_all add: pruned_def)

lemma map_keys_drop_gone: "map_keys (drop_gone st m) = filter (\<lambda>key. \<not> gone st key) (map_keys m)"
  by (cases m) (simp_all add: drop_gone_def map_keys_def filter_map o_def)

lemma status_keys_pruned: "status_keys (pruned st cg) = {key \<in> status_keys cg. \<not> gone st key}"
  by (auto simp: status_keys_def pruned_def map_keys_drop_gone)

lemma drop_gone_id: "(\<And>key. key \<in> set (map_keys m) \<Longrightarrow> \<not> gone st key) \<Longrightarrow> drop_gone st m = m"
  by (cases m) (simp_all add: drop_gone_def map_keys_def filter_id_conv)

lemma any_gone_iff: "any_gone st cg \<longleftrightarrow> (\<exists>key \<in> status_keys cg. gone st key)"
  by (auto simp: any_gone_def status_keys_def list_ex_iff)

lemma pruned_same: "pruned st cg = cg \<longleftrightarrow> \<not> any_gone st cg"
proof
  assume "pruned st cg = cg"
  then have "status_keys cg = {key \<in> status_keys cg. \<not> gone st key}" by (metis status_keys_pruned)
  then show "\<not> any_gone st cg" by (auto simp: any_gone_iff)
next
  assume none: "\<not> any_gone st cg"
  then have "drop_gone st (gst_ReadyComputeLeaders (cg_Status cg)) = gst_ReadyComputeLeaders (cg_Status cg)"
    "drop_gone st (gst_ReadyComputeWorkers (cg_Status cg)) = gst_ReadyComputeWorkers (cg_Status cg)"
    by (auto intro!: drop_gone_id simp: any_gone_iff status_keys_def)
  with none show "pruned st cg = cg" by (simp add: pruned_def)
qed

section \<open>The two loops\<close>

text \<open>The keys taken out one by one, in whatever order, leave the filtered maps.\<close>

lemma delete_filter: "AList.delete k (filter (\<lambda>e. fst e \<notin> X) m) = filter (\<lambda>e. fst e \<notin> insert k X) m"
  by (auto simp: AList.delete_eq case_prod_beta intro: filter_cong)

lemma marked_leaders: "fold (mark dropLeader) ks st = st
    \<lparr>gst_ReadyComputeLeaders := map_option (filter (\<lambda>e. fst e \<notin> set ks)) (gst_ReadyComputeLeaders st),
     gst_Status := if ks = [] then gst_Status st else ComputeGroupPending\<rparr>"
proof (induction ks rule: rev_induct)
  case Nil
  then show ?case by (cases "gst_ReadyComputeLeaders st") simp_all
next
  case (snoc k ks)
  then show ?case
    by (cases "gst_ReadyComputeLeaders st") (simp_all add: mark_def dropLeader_def map_del_def delete_filter)
qed

lemma marked_workers: "fold (mark dropWorker) ks st = st
    \<lparr>gst_ReadyComputeWorkers := map_option (filter (\<lambda>e. fst e \<notin> set ks)) (gst_ReadyComputeWorkers st),
     gst_Status := if ks = [] then gst_Status st else ComputeGroupPending\<rparr>"
proof (induction ks rule: rev_induct)
  case Nil
  then show ?case by (cases "gst_ReadyComputeWorkers st") simp_all
next
  case (snoc k ks)
  then show ?case
    by (cases "gst_ReadyComputeWorkers st") (simp_all add: mark_def dropWorker_def map_del_def delete_filter)
qed

lemma reads_only: "live_at A st0 (h @ map key_read ks) = live_at A st0 h"
proof (induction ks arbitrary: h)
  case (Cons key ks)
  have "live_at A st0 (h @ [key_read key]) = live_at A st0 h"
    by (auto simp: live_simps key_read_def split: list.split)
  with Cons [of "h @ [key_read key]"] show ?case by simp
qed simp

lemma gone_keys_live:
  assumes "answers X K A (live_at A st0)" and "not_found_law K"
    and "\<forall>key \<in> set ks. CHR ''/'' \<in> set key \<and> key_name key \<in> fp_Deployments X"
  shows "gone_keys K h ks = filter (gone (live_at A st0 h)) ks"
  using assms(3)
proof (induction ks arbitrary: h)
  case (Cons key ks)
  obtain ns name where key: "SplitN2 key (CHR ''/'') = [ns, name]"
    using SplitN2_two [of "CHR ''/''" key] Cons.prems by auto
  then have "key_missing K h key = gone (live_at A st0 h) key"
    using answersD(1) [OF assms(1), of ns name h] Cons.prems assms(2)
    by (auto simp: key_missing_def gone_def key_name_def sum_of_option_def not_found_law_def split: option.splits)
  moreover have "live_at A st0 (h @ [key_read key]) = live_at A st0 h"
    using reads_only [of A st0 h "[key]"] by simp
  ultimately show ?case using Cons.IH [of "h @ [key_read key]"] Cons.prems by simp
qed simp

lemma filter_drop_gone:
  assumes "set ks = set (map_keys m)"
  shows "map_option (filter (\<lambda>e. fst e \<notin> set (filter (gone st) ks))) m = drop_gone st m"
proof -
  have "fst e \<in> set ks" if "m = Some es" "e \<in> set es" for e es
    using that assms by (auto simp: map_keys_def)
  then show ?thesis by (cases m) (auto simp: drop_gone_def intro!: filter_cong)
qed

text \<open>The check writes back the group with what is gone taken out, and goes on as for a new group.\<close>

lemma answered_check:
  assumes "answers X K A (live_at A st0)" and "not_found_law K" and "range_law K" and "slashed cg"
    and "status_names cg \<subseteq> fp_Deployments X"
  shows "\<exists>new. processUpdatedComputeGroup K (typed_controller K) cg h = processNewComputeGroup K (typed_controller K) cg (h @ new)
    \<and> live_at A st0 (h @ new) = check_group A cg (live_at A st0 h)"
proof (cases "never_ready cg")
  case True
  then show ?thesis
    by (intro exI [of _ "[]"]) (simp add: processUpdatedComputeGroup_def never_ready_def check_group_def)
next
  case False
  let ?st = "live_at A st0 h"
  define lk where "lk = k_rangeOrder K h (map_keys (gst_ReadyComputeLeaders (cg_Status cg)))"
  define h1 where "h1 = h @ map key_read lk"
  define wk where "wk = k_rangeOrder K h1 (map_keys (gst_ReadyComputeWorkers (cg_Status cg)))"
  define h2 where "h2 = h1 @ map key_read wk"
  have keys: "set lk = set (map_keys (gst_ReadyComputeLeaders (cg_Status cg)))"
    "set wk = set (map_keys (gst_ReadyComputeWorkers (cg_Status cg)))"
    using range_law_set [OF assms(3)] by (simp_all add: lk_def wk_def)
  have ok: "CHR ''/'' \<in> set key \<and> key_name key \<in> fp_Deployments X" if "key \<in> set lk \<union> set wk" for key
    using that assms(4,5) slashedD [of cg key] by (auto simp: keys status_names_def status_keys_def)
  then have slash: "\<forall>k \<in> set lk. CHR ''/'' \<in> set k" "\<forall>k \<in> set wk. CHR ''/'' \<in> set k" by blast+
  have st: "live_at A st0 h1 = ?st" "live_at A st0 h2 = ?st"
    using reads_only [of A st0 h1 wk] by (simp_all add: h1_def h2_def reads_only)
  have gone: "gone_keys K h lk = filter (gone ?st) lk" "gone_keys K h1 wk = filter (gone ?st) wk"
    using gone_keys_live [OF assms(1,2), of lk h] gone_keys_live [OF assms(1,2), of wk h1] ok st(1) by auto
  have any: "any_gone ?st cg \<longleftrightarrow> filter (gone ?st) lk \<noteq> [] \<or> filter (gone ?st) wk \<noteq> []"
    using keys by (auto simp: any_gone_def list_ex_iff filter_empty_conv)
  let ?update = "group_update_call (om_Namespace (cg_Meta cg)) (pruned ?st cg) ''''"
  have "cg\<lparr>cg_Status := fold (mark dropWorker) (filter (gone ?st) wk) (fold (mark dropLeader) (filter (gone ?st) lk) (cg_Status cg))\<rparr> = pruned ?st cg"
    using any by (simp add: marked_leaders marked_workers pruned_def
        filter_drop_gone [OF keys(1), of ?st, simplified] filter_drop_gone [OF keys(2), of ?st, simplified])
  then have "processUpdatedComputeGroup K (typed_controller K) cg h = processNewComputeGroup K (typed_controller K) cg (h2 @ [?update])"
    using False slash
    by (auto simp: never_ready_def processUpdatedComputeGroup_def io_simps checkReady_run typed_group_update_run
        lk_def [symmetric] h1_def [symmetric] wk_def [symmetric] h2_def [symmetric] gone)
  moreover have "live_at A st0 (h2 @ [?update]) = check_group A cg ?st"
    using False st(2) by (simp add: live_at_append [of _ _ h2] group_update_call_def rest_step_def request_def check_group_def)
  ultimately show ?thesis
    by (intro exI [of _ "map key_read lk @ map key_read wk @ [?update]"]) (simp add: h1_def h2_def)
qed

lemma check_group_others:
  "cl_Deployments (check_group A cg st) = cl_Deployments st" "cl_Services (check_group A cg st) = cl_Services st"
  by (auto simp: check_group_def put_group_def split: option.split)

lemma store_ok_check: "store_ok st \<Longrightarrow> store_ok (check_group A cg st)"
  by (simp add: store_ok_def check_group_others)

text \<open>A stored group is left as it is when nothing is gone, and otherwise gets the pruned status and a new version.\<close>

lemma check_group_stored:
  assumes "cl_Groups st (group_key cg) = Some cg"
  shows "check_group A cg st = (if never_ready cg \<or> \<not> any_gone st cg then st
    else st\<lparr>cl_Groups := (cl_Groups st)(group_key cg \<mapsto> versioned A (pruned st cg))\<rparr>)"
proof -
  have "pruned st cg = cg \<longleftrightarrow> \<not> any_gone st cg" by (rule pruned_same)
  with assms show ?thesis
    by (auto simp: check_group_def put_group_def group_key_def versioned_def)
qed

lemma answered_processUpdatedComputeGroup:
  assumes "answers X K A (live_at A st0)" and "controller_ref_laws K" and "not_found_law K" and "admission_law A" and "range_law K"
    and "group_plan K cg = Some plan" and "store_ok (live_at A st0 h)" and "slashed cg"
    and "plan_key ` set plan \<union> status_names cg \<subseteq> fp_Deployments X" and "group_key cg \<in> fp_Services X"
  shows "\<exists>new. processUpdatedComputeGroup K (typed_controller K) cg h = (Some None, h @ new)
    \<and> live_at A st0 (h @ new) = fold (sync_set K A cg) plan (check_group A cg (live_at A st0 h))"
proof -
  obtain n1 where n1: "processUpdatedComputeGroup K (typed_controller K) cg h = processNewComputeGroup K (typed_controller K) cg (h @ n1)"
    "live_at A st0 (h @ n1) = check_group A cg (live_at A st0 h)"
    using answered_check [OF assms(1,3,5,8), of h] assms(9) by auto
  have "store_ok (live_at A st0 (h @ n1))" unfolding n1(2) by (rule store_ok_check [OF assms(7)])
  from answered_processNewComputeGroup [OF assms(1-4,6) this] assms(9,10) n1 show ?thesis by auto
qed

section \<open>The body of the group worker\<close>

text \<open>The body of \<^verbatim>\<open>processNextComputeGroup\<close> for a group, without the queue.\<close>

definition group_turn :: "k8s \<Rightarrow> DatafuseComputeGroup \<Rightarrow> go_error option go" where
  "group_turn K cg = (case IsComputeGroupCreated cg of (created, cg') \<Rightarrow>
     if created then processNewComputeGroup K (typed_controller K) cg'
     else processUpdatedComputeGroup K (typed_controller K) cg')"

lemma processNext_turn:
  assumes "k_queueGet K h GroupQueue = Some (GroupPtr a cg)"
  shows "processNextComputeGroup K (typed_controller K) h =
    defer_io (tell (QueueDone GroupQueue (GroupPtr a cg)))
      (bind_io (group_turn K cg) (\<lambda>err. bind_io (groupErrorHandler K (GroupPtr a cg) err) (\<lambda>_. ret True)))
      (h @ [QueueGet GroupQueue])"
  using assms by (simp add: processNextComputeGroup_def queue_get_def group_turn_def bind_run [of "perform _ _"]
      perform_run case_prod_beta Let_def)

text \<open>What one turn does to the store.\<close>

definition turn_effect :: "k8s \<Rightarrow> api_server \<Rightarrow> DatafuseComputeGroup \<Rightarrow> cluster_store \<Rightarrow> cluster_store" where
  "turn_effect K A cg st = (case IsComputeGroupCreated cg of (created, cg') \<Rightarrow>
     (case group_plan K cg' of None \<Rightarrow> st
      | Some plan \<Rightarrow> fold (sync_set K A cg') plan (if created then st else check_group A cg' st)))"

lemma IsComputeGroupCreated_cases:
  obtains "IsComputeGroupCreated cg = (False, cg)"
    | cg' where "IsComputeGroupCreated cg = (True, cg')" "cg_Meta cg' = cg_Meta cg" "cg_Spec cg' = cg_Spec cg"
proof (cases "fst (IsComputeGroupCreated cg)")
  case True
  then show thesis
    by (intro that(2) [of "snd (IsComputeGroupCreated cg)"]) (auto simp: IsComputeGroupCreated_def Let_def)
next
  case False
  then show thesis by (intro that(1)) (auto simp: IsComputeGroupCreated_def Let_def split: if_splits)
qed

lemma answered_group_turn:
  assumes "answers X K A (live_at A st0)" and "controller_ref_laws K" and "not_found_law K" and "admission_law A" and "range_law K"
    and "group_plan K cg = Some plan" and "store_ok (live_at A st0 h)" and "slashed cg"
    and "plan_key ` set plan \<union> status_names cg \<subseteq> fp_Deployments X" and "group_key cg \<in> fp_Services X"
  shows "\<exists>new. group_turn K cg h = (Some None, h @ new)
    \<and> live_at A st0 (h @ new) = turn_effect K A cg (live_at A st0 h)"
proof (rule IsComputeGroupCreated_cases [of cg])
  assume "IsComputeGroupCreated cg = (False, cg)"
  with answered_processUpdatedComputeGroup [OF assms] show ?thesis
    by (simp add: group_turn_def turn_effect_def assms(6))
next
  fix cg' assume new: "IsComputeGroupCreated cg = (True, cg')" "cg_Meta cg' = cg_Meta cg" "cg_Spec cg' = cg_Spec cg"
  then have plan: "group_plan K cg' = Some plan" using group_plan_status assms(6) by metis
  have "group_key cg' \<in> fp_Services X" using assms(10) by (simp add: group_key_def new)
  with answered_processNewComputeGroup [OF assms(1-4) plan assms(7)] assms(9) new(1) plan show ?thesis
    by (simp add: group_turn_def turn_effect_def)
qed

end
