(* ===== verification/Schedules.thy ===== *)
theory Schedules
  imports Cluster
begin

text \<open>
  Several workers whose calls are interleaved.  A schedule is the sequence of all calls, each with the
  number of its worker; \<open>observes\<close> says which states of the other side a worker meets.  The other side
  is a function \<open>at\<close> from the calls made so far to its state: the store of the API server in
  \<open>Interleaved\<close>, the cluster list of a query server in \<open>Interleaved_Register\<close>.
\<close>

section \<open>Schedules\<close>

type_synonym schedule = "(nat \<times> call) list"

definition calls_of :: "nat \<Rightarrow> schedule \<Rightarrow> call list" where
  "calls_of i T = map snd (filter (\<lambda>e. fst e = i) T)"

text \<open>What happens before the call of worker \<open>i\<close> that follows its first \<open>n\<close> calls.\<close>

fun before_call :: "nat \<Rightarrow> nat \<Rightarrow> schedule \<Rightarrow> schedule" where
  "before_call i n [] = []"
| "before_call i n ((j, c) # T) = (if j \<noteq> i then (j, c) # before_call i n T
     else case n of 0 \<Rightarrow> [] | Suc m \<Rightarrow> (j, c) # before_call i m T)"

lemma calls_of_simps [simp]: "calls_of i [] = []"
  "calls_of i ((j, c) # T) = (if j = i then c # calls_of i T else calls_of i T)"
  "calls_of i (T @ T') = calls_of i T @ calls_of i T'"
  by (simp_all add: calls_of_def)

lemma calls_of_map [simp]: "calls_of i (map (Pair j) h) = (if i = j then h else [])"
  by (induction h) auto

lemma calls_of_set: "c \<in> set (calls_of i T) \<longleftrightarrow> (i, c) \<in> set T"
  by (force simp: calls_of_def)

lemma calls_of_none: "\<forall>e \<in> set T. fst e < i \<Longrightarrow> calls_of i T = []"
  by (auto simp: calls_of_def filter_empty_conv)

lemma map_snd_Pair [simp]: "map (snd \<circ> Pair i) h = h"
  by (induction h) auto

lemma before_call_map: "j \<noteq> i \<Longrightarrow> before_call i n (map (Pair j) h @ T) = map (Pair j) h @ before_call i n T"
  "before_call i n (map (Pair i) h) = map (Pair i) (take n h)"
  "n < length h \<Longrightarrow> before_call i n (map (Pair i) h @ T) = map (Pair i) (take n h)"
proof -
  show "j \<noteq> i \<Longrightarrow> before_call i n (map (Pair j) h @ T) = map (Pair j) h @ before_call i n T"
    by (induction h) auto
  show "before_call i n (map (Pair i) h) = map (Pair i) (take n h)"
    by (induction h arbitrary: n) (auto simp: take_Cons split: nat.split)
  show "n < length h \<Longrightarrow> before_call i n (map (Pair i) h @ T) = map (Pair i) (take n h)"
    by (induction h arbitrary: n) (auto simp: take_Cons split: nat.split)
qed

lemma before_call_before: "n < length (calls_of i T) \<Longrightarrow> before_call i n (T @ T') = before_call i n T"
  by (induction i n T rule: before_call.induct) (auto split: nat.split)

lemma before_call_behind: "\<forall>e \<in> set T. fst e \<noteq> i \<Longrightarrow> before_call i n (T @ T') = T @ before_call i n T'"
  by (induction T) auto

section \<open>What a worker meets\<close>

text \<open>
  The states of the other side that worker \<open>i\<close> meets, after its own calls \<open>h\<close>: for the calls that it
  makes in the execution \<open>T\<close>, the state that \<open>T\<close> has led to; at other histories, a state that the same
  calls of the others, in some order, can lead to.
\<close>

definition observes :: "(call list \<Rightarrow> 's) \<Rightarrow> schedule \<Rightarrow> nat \<Rightarrow> (call list \<Rightarrow> 's) \<Rightarrow> bool" where
  "observes at T i S \<longleftrightarrow>
     (\<forall>n < length (calls_of i T). S (take n (calls_of i T)) = at (map snd (before_call i n T)))
   \<and> (\<forall>h. \<exists>T'. calls_of i T' = h \<and> (\<forall>e \<in> set T'. fst e \<noteq> i \<longrightarrow> e \<in> set T) \<and> S h = at (map snd T'))"

text \<open>The two parts fit: what comes before a call of \<open>T\<close> is an interleaving of the worker's calls so far
  with calls of the others.\<close>

lemma before_call_calls: "n \<le> length (calls_of i T) \<Longrightarrow> calls_of i (before_call i n T) = take n (calls_of i T)"
  by (induction i n T rule: before_call.induct) (auto split: nat.split)

lemma before_call_set: "set (before_call i n T) \<subseteq> set T"
  by (induction i n T rule: before_call.induct) (auto split: nat.splits)

lemma before_first_call: "set (before_call i 0 (U @ (i, c) # V)) \<subseteq> set U"
proof (induction U)
  case (Cons e U)
  then show ?case by (cases e) auto
qed simp

text \<open>The first call of a worker splits the schedule.\<close>

lemma first_call_split:
  assumes "calls_of i T = c # cs"
  obtains T2 where "T = before_call i 0 T @ (i, c) # T2" "calls_of i T2 = cs"
proof -
  have "\<exists>T2. T = before_call i 0 T @ (i, c) # T2 \<and> calls_of i T2 = cs"
    using assms
  proof (induction T)
    case (Cons e T)
    then show ?case by (cases e) (auto split: if_splits)
  qed simp
  with that show thesis by blast
qed

text \<open>A worker that starts when the others have made their calls, and one that does not see the last.\<close>

lemma observes_extended:
  assumes "observes at T i S" and "i \<noteq> j"
  shows "observes at (T @ map (Pair j) new) i S"
proof -
  have "calls_of i (T @ map (Pair j) new) = calls_of i T" using assms(2) by simp
  with assms(1) show ?thesis
    unfolding observes_def by (fastforce simp: before_call_before)
qed

lemma observes_last:
  assumes "\<forall>e \<in> set T. fst e < i"
  shows "observes at (T @ map (Pair i) new) i (\<lambda>h. at (map snd T @ h))"
proof -
  have other: "\<forall>e \<in> set T. fst e \<noteq> i" using assms by auto
  have own: "calls_of i T = []" by (rule calls_of_none [OF assms])
  have "\<exists>T'. calls_of i T' = h \<and> (\<forall>e \<in> set T'. fst e \<noteq> i \<longrightarrow> e \<in> set (T @ map (Pair i) new))
      \<and> at (map snd T @ h) = at (map snd T')" for h
    using own by (intro exI [of _ "T @ map (Pair i) h"]) auto
  moreover have "at (map snd T @ take n new) = at (map snd (before_call i n (T @ map (Pair i) new)))" for n
    unfolding before_call_behind [OF other] by (simp add: before_call_map)
  ultimately show ?thesis using own by (simp add: observes_def)
qed

section \<open>Two workers\<close>

text \<open>
  The first makes its first call, a read, then the second makes all its calls, then the first goes on.
\<close>

definition switch_schedule :: "call list \<Rightarrow> call list \<Rightarrow> schedule" where
  "switch_schedule h0 h1 = (0, hd h0) # map (Pair 1) h1 @ map (Pair 0) (tl h0)"

definition switch_states :: "(call list \<Rightarrow> 's) \<Rightarrow> call list \<Rightarrow> call list \<Rightarrow> 's" where
  "switch_states at h1 h = (if h = [] then at [] else at (hd h # h1 @ tl h))"

lemma switch_observed:
  assumes "h0 = c # rest" and "\<And>h. at (c # h) = at h"
  shows "observes at (switch_schedule h0 h1) 0 (switch_states at h1)"
    and "observes at (switch_schedule h0 h1) 1 at"
    and "calls_of 0 (switch_schedule h0 h1) = h0" and "calls_of 1 (switch_schedule h0 h1) = h1"
proof -
  show own: "calls_of 0 (switch_schedule h0 h1) = h0" "calls_of 1 (switch_schedule h0 h1) = h1"
    by (simp_all add: switch_schedule_def assms(1))
  have others: "(1, d) \<in> set (switch_schedule h0 h1)" if "d \<in> set h1" for d
    using that by (simp add: switch_schedule_def)
  show "observes at (switch_schedule h0 h1) 0 (switch_states at h1)"
    unfolding observes_def own(1)
  proof (intro conjI allI impI)
    fix n assume "n < length h0"
    then show "switch_states at h1 (take n h0) = at (map snd (before_call 0 n (switch_schedule h0 h1)))"
      by (cases n) (simp_all add: switch_states_def switch_schedule_def assms(1) before_call_map)
  next
    fix h
    show "\<exists>T'. calls_of 0 T' = h \<and> (\<forall>e \<in> set T'. fst e \<noteq> 0 \<longrightarrow> e \<in> set (switch_schedule h0 h1))
        \<and> switch_states at h1 h = at (map snd T')"
    proof (cases h)
      case Nil
      then show ?thesis by (intro exI [of _ "[]"]) (simp add: switch_states_def)
    next
      case (Cons d ds)
      then show ?thesis using others
        by (intro exI [of _ "(0, d) # map (Pair 1) h1 @ map (Pair 0) ds"]) (auto simp: switch_states_def)
    qed
  qed
  show "observes at (switch_schedule h0 h1) 1 at"
    unfolding observes_def own(2)
  proof (intro conjI allI impI)
    fix n assume "n < length h1"
    then show "at (take n h1) = at (map snd (before_call 1 n (switch_schedule h0 h1)))"
      by (simp add: switch_schedule_def assms before_call_map)
  next
    fix h
    show "\<exists>T'. calls_of 1 T' = h \<and> (\<forall>e \<in> set T'. fst e \<noteq> 1 \<longrightarrow> e \<in> set (switch_schedule h0 h1)) \<and> at h = at (map snd T')"
      by (intro exI [of _ "map (Pair 1) h"]) auto
  qed
qed

end
