(* ===== verification/Interleaved.thy ===== *)
theory Interleaved
  imports Live_Operators Group_Check Schedules
begin

text \<open>
  Several workers on one server, interleaved call by call.  An execution is a sequence of calls, each
  with the number of its worker; the answers of a worker are the server's, from all calls that come
  before, its own and the others'.  A worker stays within a footprint, the names it writes to, and
  what it does there depends on nothing else (\<open>store_worker\<close>, interpreted on the synchronisation of
  groups and of operators and on the whole turn of a group worker).  So workers with disjoint
  footprints lead to the store that they lead to one after the other, in any order.
\<close>

section \<open>Footprints\<close>

definition agree :: "footprint \<Rightarrow> cluster_store \<Rightarrow> cluster_store \<Rightarrow> bool" where
  "agree X st st' \<longleftrightarrow> (\<forall>key \<in> fp_Deployments X. cl_Deployments st key = cl_Deployments st' key)
     \<and> (\<forall>key \<in> fp_Services X. cl_Services st key = cl_Services st' key)
     \<and> (\<forall>key \<in> fp_Groups X. cl_Groups st key = cl_Groups st' key)"

definition outside :: "footprint set \<Rightarrow> footprint" where
  "outside Xs = \<lparr>fp_Deployments = - \<Union> (fp_Deployments ` Xs), fp_Services = - \<Union> (fp_Services ` Xs),
     fp_Groups = - \<Union> (fp_Groups ` Xs)\<rparr>"

definition apart :: "footprint \<Rightarrow> footprint \<Rightarrow> bool" where
  "apart X Y \<longleftrightarrow> fp_Deployments X \<inter> fp_Deployments Y = {} \<and> fp_Services X \<inter> fp_Services Y = {}
     \<and> fp_Groups X \<inter> fp_Groups Y = {}"

text \<open>The call writes to nothing but names of the footprint.\<close>

fun stays :: "footprint \<Rightarrow> call \<Rightarrow> bool" where
  "stays X (CreateDeployment ns d) = ((ns, om_Name (dep_Meta d)) \<in> fp_Deployments X)"
| "stays X (UpdateDeployment ns d) = ((ns, om_Name (dep_Meta d)) \<in> fp_Deployments X)"
| "stays X (DeleteDeployment ns name) = ((ns, name) \<in> fp_Deployments X)"
| "stays X (CreateService ns s) = ((ns, om_Name (svc_Meta s)) \<in> fp_Services X)"
| "stays X (Rest rq) = (case rq_Body rq of GroupBody g \<Rightarrow> (rq_Namespace rq, om_Name (cg_Meta g)) \<in> fp_Groups X | _ \<Rightarrow> True)"
| "stays X _ = True"

lemma agree_refl [simp]: "agree X st st"
  by (simp add: agree_def)

lemma agree_sym: "agree X st st' \<Longrightarrow> agree X st' st"
  by (simp add: agree_def)

lemma agree_trans: "agree X a b \<Longrightarrow> agree X b c \<Longrightarrow> agree X a c"
  by (simp add: agree_def)

lemma agree_apart: "agree (outside {Y}) st st' \<Longrightarrow> apart X Y \<Longrightarrow> agree X st st'"
  by (fastforce simp: agree_def outside_def apart_def)

lemma agree_outside_mono: "agree (outside {X}) st st' \<Longrightarrow> X \<in> Xs \<Longrightarrow> agree (outside Xs) st st'"
  by (auto simp: agree_def outside_def)

lemma agree_everywhere:
  assumes "\<And>X. X \<in> Xs \<Longrightarrow> agree X st st'" and "agree (outside Xs) st st'"
  shows "st = st'"
proof (rule cluster_store.equality)
  show "cl_Deployments st = cl_Deployments st'" "cl_Services st = cl_Services st'" "cl_Groups st = cl_Groups st'"
    using assms by (auto simp: fun_eq_iff agree_def outside_def)
qed simp

lemma stays_mono:
  "stays X c \<Longrightarrow> fp_Deployments X \<subseteq> fp_Deployments Y \<Longrightarrow> fp_Services X \<subseteq> fp_Services Y \<Longrightarrow> fp_Groups X \<subseteq> fp_Groups Y \<Longrightarrow> stays Y c"
  by (cases c) (auto split: rest_body.splits)

lemma stays_apart: "stays Y c \<Longrightarrow> apart X Y \<Longrightarrow> stays (outside {X}) c"
  by (erule stays_mono) (auto simp: outside_def apart_def)

text \<open>A call acts on a footprint alike in two states that agree there.\<close>

lemma agree_groups:
  "agree X st st' \<Longrightarrow> agree X (st\<lparr>cl_Groups := (cl_Groups st)(key \<mapsto> g)\<rparr>) (st'\<lparr>cl_Groups := (cl_Groups st')(key \<mapsto> g)\<rparr>)"
  "key \<notin> fp_Groups X \<Longrightarrow> agree X (st\<lparr>cl_Groups := (cl_Groups st)(key \<mapsto> g)\<rparr>) st' = agree X st st'"
  "key \<notin> fp_Groups X \<Longrightarrow> agree X st (st'\<lparr>cl_Groups := (cl_Groups st')(key \<mapsto> g)\<rparr>) = agree X st st'"
  by (auto simp: agree_def)

lemma agree_group_at: "agree X st st' \<Longrightarrow> key \<in> fp_Groups X \<Longrightarrow> cl_Groups st' key = cl_Groups st key"
  by (simp add: agree_def)

lemma outside_keys: "key \<in> fp_Deployments Y \<Longrightarrow> key \<notin> fp_Deployments (outside {Y})"
  "key \<in> fp_Services Y \<Longrightarrow> key \<notin> fp_Services (outside {Y})"
  "key \<in> fp_Groups Y \<Longrightarrow> key \<notin> fp_Groups (outside {Y})"
  by (simp_all add: outside_def)

lemma put_group_agree:
  "agree X st st' \<Longrightarrow> (ns, om_Name (cg_Meta g)) \<in> fp_Groups X \<Longrightarrow> snd (put_group A ns g st) = snd (put_group A ns g st')"
  "(ns, om_Name (cg_Meta g)) \<notin> fp_Groups X \<Longrightarrow> agree X (fst (put_group A ns g st)) st"
  "agree X st st' \<Longrightarrow> agree X (fst (put_group A ns g st)) (fst (put_group A ns g st'))"
proof -
  show "(ns, om_Name (cg_Meta g)) \<notin> fp_Groups X \<Longrightarrow> agree X (fst (put_group A ns g st)) st" for st
    by (simp add: put_group_def agree_groups split: option.split)
  moreover show "agree X st st' \<Longrightarrow> (ns, om_Name (cg_Meta g)) \<in> fp_Groups X \<Longrightarrow> snd (put_group A ns g st) = snd (put_group A ns g st')"
    by (simp add: put_group_def agree_group_at split: option.split)
  moreover have "(ns, om_Name (cg_Meta g)) \<in> fp_Groups X \<Longrightarrow> agree X st st' \<Longrightarrow>
      agree X (fst (put_group A ns g st)) (fst (put_group A ns g st'))"
    by (simp add: put_group_def agree_group_at agree_groups(1) split: option.split)
  ultimately show "agree X st st' \<Longrightarrow> agree X (fst (put_group A ns g st)) (fst (put_group A ns g st'))"
    by (metis agree_sym agree_trans)
qed

lemma post_group_agree:
  "agree X st st' \<Longrightarrow> (ns, om_Name (cg_Meta g)) \<in> fp_Groups X \<Longrightarrow> snd (post_group A ns g st) = snd (post_group A ns g st')"
  "(ns, om_Name (cg_Meta g)) \<notin> fp_Groups X \<Longrightarrow> agree X (fst (post_group A ns g st)) st"
  "agree X st st' \<Longrightarrow> agree X (fst (post_group A ns g st)) (fst (post_group A ns g st'))"
proof -
  show "(ns, om_Name (cg_Meta g)) \<notin> fp_Groups X \<Longrightarrow> agree X (fst (post_group A ns g st)) st" for st
    by (simp add: post_group_def agree_groups split: option.split)
  moreover show "agree X st st' \<Longrightarrow> (ns, om_Name (cg_Meta g)) \<in> fp_Groups X \<Longrightarrow> snd (post_group A ns g st) = snd (post_group A ns g st')"
    by (simp add: post_group_def agree_group_at split: option.split)
  moreover have "(ns, om_Name (cg_Meta g)) \<in> fp_Groups X \<Longrightarrow> agree X st st' \<Longrightarrow>
      agree X (fst (post_group A ns g st)) (fst (post_group A ns g st'))"
    by (simp add: post_group_def agree_group_at agree_groups(1) split: option.split)
  ultimately show "agree X st st' \<Longrightarrow> agree X (fst (post_group A ns g st)) (fst (post_group A ns g st'))"
    by (metis agree_sym agree_trans)
qed

lemma live_step_agree:
  assumes "agree X st st'"
  shows "agree X (live_step A c st) (live_step A c st')"
proof (cases c)
  case (Rest rq)
  then show ?thesis
    using assms put_group_agree(3) [OF assms] post_group_agree(3) [OF assms]
    by (simp add: rest_step_def split: rest_body.split)
qed (use assms in \<open>auto simp: agree_def split: option.split\<close>)

lemma live_step_frame:
  assumes "stays X c"
  shows "agree (outside {X}) (live_step A c st) st"
proof (cases c)
  case (Rest rq)
  then show ?thesis
    using assms put_group_agree(2) [OF outside_keys(3)] post_group_agree(2) [OF outside_keys(3)]
    by (auto simp: rest_step_def split: rest_body.splits)
qed (use assms in \<open>auto simp: agree_def outside_def split: option.split\<close>)

lemma answers_agree:
  assumes "answers everything K A S" and "\<And>h. agree X (S h) (S' h)"
  shows "answers X K A S'"
proof -
  have same: "cl_Deployments (S h) key = cl_Deployments (S' h) key" if "key \<in> fp_Deployments X" for h key
    using assms(2) [of h] that by (simp add: agree_def)
  have same_svc: "cl_Services (S h) key = cl_Services (S' h) key" if "key \<in> fp_Services X" for h key
    using assms(2) [of h] that by (simp add: agree_def)
  have same_cg: "cl_Groups (S h) key = cl_Groups (S' h) key" if "key \<in> fp_Groups X" for h key
    using assms(2) [of h] that by (simp add: agree_def)
  have rest: "snd (rest_step A rq (S h)) = snd (rest_step A rq (S' h))"
    if "rq_Body rq = GroupBody g" "(rq_Namespace rq, om_Name (cg_Meta g)) \<in> fp_Groups X" for h and rq :: rest_request and g
    using put_group_agree(1) [OF assms(2)] post_group_agree(1) [OF assms(2)] that by (simp add: rest_step_def)
  show ?thesis
    unfolding answers_def
  proof (intro conjI allI impI)
    fix h and rq :: rest_request and g g0
    assume g: "rq_Body rq = GroupBody g" "(rq_Namespace rq, om_Name (cg_Meta g)) \<in> fp_Groups X"
    show "snd (k_restGroup K h rq g0) = snd (rest_step A rq (S' h))"
      using answersD(7) [OF assms(1) g(1)] rest [OF g] by simp
    show "fst (k_restGroup K h rq g0) = admit_group A g"
      if "rq_Verb rq = ''POST''" "snd (rest_step A rq (S' h)) = None"
      using answersD(8) [OF assms(1) g(1)] rest [OF g] that by simp
  qed (simp_all add: answersD [OF assms(1)] same [symmetric] same_svc [symmetric] same_cg [symmetric])
qed

section \<open>Executions\<close>

definition execution :: "api_server \<Rightarrow> cluster_store \<Rightarrow> schedule \<Rightarrow> (k8s \<times> 'a go) list \<Rightarrow> bool" where
  "execution A st0 T ws \<longleftrightarrow> (\<forall>e \<in> set T. fst e < length ws)
   \<and> (\<forall>i < length ws. snd (snd (ws ! i) []) = calls_of i T
        \<and> (\<exists>S. observes (live_at A st0) T i S \<and> answers everything (fst (ws ! i)) A S))"

lemma live_at_alone:
  assumes "\<forall>e \<in> set T. fst e \<noteq> i \<longrightarrow> stays (outside {X}) (snd e)" and "agree X st st'"
  shows "agree X (live_at A st (map snd T)) (live_at A st' (calls_of i T))"
  using assms
proof (induction T arbitrary: st st')
  case Nil
  then show ?case by (simp add: live_at_def)
next
  case (Cons e T)
  obtain j c where e: "e = (j, c)" by (cases e)
  show ?case
  proof (cases "j = i")
    case True
    with Cons live_step_agree [OF Cons.prems(2)] show ?thesis by (simp add: e live_at_def)
  next
    case False
    then have "agree (outside {outside {X}}) (live_step A c st) st"
      using Cons.prems(1) by (intro live_step_frame) (simp add: e)
    then have "agree X (live_step A c st) st" by (simp add: outside_def agree_def)
    from agree_trans [OF this Cons.prems(2)] Cons False show ?thesis by (simp add: e live_at_def)
  qed
qed

lemma live_at_frame:
  assumes "\<forall>e \<in> set T. \<exists>X \<in> Xs. stays X (snd e)"
  shows "agree (outside Xs) (live_at A st (map snd T)) st"
  using assms
proof (induction T arbitrary: st)
  case Nil
  then show ?case by (simp add: live_at_def)
next
  case (Cons e T)
  then obtain X where "X \<in> Xs" "stays X (snd e)" by auto
  then have "agree (outside Xs) (live_step A (snd e) st) st"
    using agree_outside_mono [OF live_step_frame] by blast
  moreover have "agree (outside Xs) (live_at A (live_step A (snd e) st) (map snd T)) (live_step A (snd e) st)"
    using Cons by auto
  ultimately show ?case by (auto simp: live_at_def intro: agree_trans)
qed

section \<open>Workers that keep to their footprint\<close>

definition worker_laws :: "k8s \<Rightarrow> api_server \<Rightarrow> bool" where
  "worker_laws K A \<longleftrightarrow> controller_ref_laws K \<and> not_found_law K \<and> admission_law A"

text \<open>
  What a worker promises: whatever the answers, it writes within \<open>X\<close> only; with the server's
  answers for the names of \<open>X\<close>, it returns and implements \<open>effect\<close>; and \<open>effect\<close> reads and writes
  nothing but \<open>X\<close>.
\<close>

locale store_worker =
  fixes run :: "k8s \<Rightarrow> go_error option go" and X :: footprint and ok :: "k8s \<Rightarrow> bool"
    and effect :: "k8s \<Rightarrow> api_server \<Rightarrow> cluster_store \<Rightarrow> cluster_store"
  assumes bounded: "emits (\<lambda>_. stays X) (run K)"
    and implements: "answers X K A (live_at A st0) \<Longrightarrow> worker_laws K A \<Longrightarrow> ok K \<Longrightarrow> store_ok (live_at A st0 h) \<Longrightarrow>
      \<exists>new. run K h = (Some None, h @ new) \<and> live_at A st0 (h @ new) = effect K A (live_at A st0 h)"
    and local_effect: "ok K \<Longrightarrow> agree X st st' \<Longrightarrow> agree X (effect K A st) (effect K A st')"
    and framed: "ok K \<Longrightarrow> agree (outside {X}) (effect K A st) st"
begin

lemma own_calls:
  assumes "snd (run K []) = calls_of i T" and "(i, c) \<in> set T"
  shows "stays X c"
proof -
  have "c \<in> set (calls_of i T)" using assms(2) by (force simp: calls_of_def)
  with emits_all [OF bounded, of K "[]"] assms(1) show ?thesis by auto
qed

text \<open>The calls of the others do not matter for what the worker sees of its names and leaves there.\<close>

lemma isolated:
  assumes "observes (live_at A st0) T i S" and "answers everything K A S"
    and "\<forall>e \<in> set T. fst e \<noteq> i \<longrightarrow> stays (outside {X}) (snd e)"
  shows "answers X K A (live_at A st0)"
proof (rule answers_agree [OF assms(2)])
  fix h
  from assms(1) obtain T' where T': "calls_of i T' = h" "\<forall>e \<in> set T'. fst e \<noteq> i \<longrightarrow> e \<in> set T"
    "S h = live_at A st0 (map snd T')" unfolding observes_def by blast
  then have "agree X (live_at A st0 (map snd T')) (live_at A st0 (calls_of i T'))"
    using assms(3) by (intro live_at_alone) auto
  with T' show "agree X (S h) (live_at A st0 h)" by simp
qed

lemma own_part:
  assumes "observes (live_at A st0) T i S" and "answers everything K A S" and "snd (run K []) = calls_of i T"
    and "\<forall>e \<in> set T. fst e \<noteq> i \<longrightarrow> stays (outside {X}) (snd e)"
    and "worker_laws K A" and "ok K" and "store_ok st0"
  shows "fst (run K []) = Some None" and "agree X (live_at A st0 (map snd T)) (effect K A st0)"
proof -
  have start: "live_at A st0 [] = st0" by (simp add: live_at_def)
  from implements [OF isolated [OF assms(1,2,4)] assms(5,6), of "[]"] assms(7) start
  have alone: "fst (run K []) = Some None" "live_at A st0 (calls_of i T) = effect K A st0"
    using assms(3) by auto
  show "fst (run K []) = Some None" by (rule alone(1))
  show "agree X (live_at A st0 (map snd T)) (effect K A st0)"
    using live_at_alone [OF assms(4) agree_refl, of A st0] alone(2) by simp
qed

end

section \<open>The workers of the two queues\<close>

text \<open>The work on a new item of the group queue, on any item of it (\<open>group_turn\<close>: a group that was
  synchronised before is checked first) and on an item of the operator queue.\<close>

datatype job = SyncGroup DatafuseComputeGroup | TurnGroup DatafuseComputeGroup | SyncOperator DatafuseOperator

fun run_job :: "job \<Rightarrow> k8s \<Rightarrow> go_error option go" where
  "run_job (SyncGroup cg) K = processNewComputeGroup K (typed_controller K) cg"
| "run_job (TurnGroup cg) K = group_turn K cg"
| "run_job (SyncOperator op) K = processNewOperator K (typed_controller K) op"

definition set_keys :: "DatafuseComputeGroup \<Rightarrow> store_key set" where
  "set_keys cg = (\<lambda>name. (om_Namespace (cg_Meta cg), name)) `
     ((\<lambda>ls. set_name ls (leader_name cg)) ` set_option (gs_ComputeLeaders (cg_Spec cg))
      \<union> {set_name w (worker_name cg i) | i w. i < length (elems (gs_ComputeWorkers (cg_Spec cg)))
           \<and> elems (gs_ComputeWorkers (cg_Spec cg)) ! i = Some w})"

definition made_key :: "DatafuseComputeGroupSpec \<Rightarrow> store_key" where
  "made_key spec = (if gs_Namespace spec = '''' then ''default'' else gs_Namespace spec, gs_Name spec)"

fun job_footprint :: "job \<Rightarrow> footprint" where
  "job_footprint (SyncGroup cg) =
     \<lparr>fp_Deployments = set_keys cg, fp_Services = {group_key cg}, fp_Groups = {group_key cg}\<rparr>"
| "job_footprint (TurnGroup cg) = \<lparr>fp_Deployments = set_keys cg \<union> status_names cg,
     fp_Services = {group_key cg}, fp_Groups = {group_key cg}\<rparr>"
| "job_footprint (SyncOperator op) = \<lparr>fp_Deployments = {}, fp_Services = {},
     fp_Groups = made_key ` {spec. Some spec \<in> set (elems (os_ComputeGroups (op_Spec op)))}\<rparr>"

fun job_ok :: "job \<Rightarrow> k8s \<Rightarrow> bool" where
  "job_ok (SyncGroup cg) K = (group_plan K cg \<noteq> None)"
| "job_ok (TurnGroup cg) K = (group_plan K cg \<noteq> None \<and> slashed cg \<and> range_law K)"
| "job_ok (SyncOperator op) K = (case operator_specs op of None \<Rightarrow> False | Some specs \<Rightarrow> list_all good_namespace specs)"

fun job_effect :: "job \<Rightarrow> k8s \<Rightarrow> api_server \<Rightarrow> cluster_store \<Rightarrow> cluster_store" where
  "job_effect (SyncGroup cg) K A st = (case group_plan K cg of None \<Rightarrow> st | Some plan \<Rightarrow> fold (sync_set K A cg) plan st)"
| "job_effect (TurnGroup cg) K A st = turn_effect K A cg st"
| "job_effect (SyncOperator op) K A st = (case operator_specs op of None \<Rightarrow> st
     | Some specs \<Rightarrow> fold (sync_spec K A (defaulted op)) specs st)"

lemma stays_group:
  assumes "typed_oc.allowed K cg c"
  shows "stays (job_footprint (SyncGroup cg)) c"
proof -
  have named: "(om_Namespace (cg_Meta cg), om_Name (dep_Meta d)) \<in> set_keys cg" if "wanted K cg l d" for l d
    unfolding set_keys_def
    by (rule imageI) (use that in \<open>fastforce simp: wanted_def split: if_splits dest: desired_deployment_meta(1)\<close>)
  have svc: "om_Name (svc_Meta s) = om_Name (cg_Meta cg)" if "MakeService (om_Name (cg_Meta cg)) d = Some s" for d s
    using MakeService_meta [OF that] by simp
  have "cg_Meta (status_write cg key l) = cg_Meta cg" for key l by (simp add: status_write_def)
  then show ?thesis
    using assms named svc
    by (cases c) (auto simp: typed_oc.allowed_def typed_oc.status_of_def group_update_call_def request_def group_key_def)
qed

text \<open>The check reads deployments and writes to its group.\<close>

lemma emits_stays_checkReady: "emits (\<lambda>_. stays X) (checkReady K remove ks s)"
  by (induction ks arbitrary: s)
    (auto simp: lister_get_deployment_def intro!: emits_intros split: list.split sum.split)

lemma emits_stays_group_turn: "emits (\<lambda>_. stays (job_footprint (TurnGroup cg))) (group_turn K cg)"
proof -
  let ?X = "job_footprint (TurnGroup cg)"
  have new: "emits (\<lambda>_. stays ?X) (processNewComputeGroup K (typed_controller K) g)"
    if "cg_Meta g = cg_Meta cg" "cg_Spec g = cg_Spec cg" for g
  proof (rule typed_oc.emits_weaken [OF typed_oc.emits_processNewComputeGroup])
    have "set_keys g = set_keys cg" "group_key g = group_key cg"
      by (simp_all add: set_keys_def group_key_def leader_name_def worker_name_def that)
    then show "stays ?X c" if "typed_oc.allowed K g c" for c
      by (intro stays_mono [OF stays_group [OF that]]) auto
  qed
  have "emits (\<lambda>_. stays ?X) (if_Update (DatafuseComputeGroups (oc_client (typed_controller K)) (om_Namespace (cg_Meta cg)))
      (cg\<lparr>cg_Status := s\<rparr>) '''')" for s
    by (rule typed_oc.group_client.emits_update) (simp add: group_update_call_def request_def group_key_def)
  with new have "emits (\<lambda>_. stays ?X) (processUpdatedComputeGroup K (typed_controller K) cg)"
    unfolding processUpdatedComputeGroup_def by (auto intro!: emits_intros emits_stays_checkReady)
  with new show ?thesis
    by (cases rule: IsComputeGroupCreated_cases [of cg]) (simp_all add: group_turn_def del: job_footprint.simps)
qed

lemma pruned_agree:
  assumes "agree X st st'" and "status_names cg \<subseteq> fp_Deployments X"
  shows "pruned st cg = pruned st' cg"
proof -
  have same: "gone st key = gone st' key" if "key \<in> status_keys cg" for key
    using that assms by (auto simp: gone_def agree_def status_names_def)
  have "drop_gone st m = drop_gone st' m" if "set (map_keys m) \<subseteq> status_keys cg" for m :: "string gomap"
    using that by (cases m) (auto simp: drop_gone_def map_keys_def same intro!: filter_cong)
  then have "drop_gone st (gst_ReadyComputeLeaders (cg_Status cg)) = drop_gone st' (gst_ReadyComputeLeaders (cg_Status cg))"
    "drop_gone st (gst_ReadyComputeWorkers (cg_Status cg)) = drop_gone st' (gst_ReadyComputeWorkers (cg_Status cg))"
    by (simp_all add: status_keys_def)
  moreover have "any_gone st cg = any_gone st' cg" by (simp add: any_gone_iff same)
  ultimately show ?thesis by (simp add: pruned_def)
qed

lemma check_group_agree:
  assumes "agree X st st'" and "status_names cg \<subseteq> fp_Deployments X"
  shows "agree X (check_group A cg st) (check_group A cg st')"
  using put_group_agree(3) [OF assms(1)] assms(1) pruned_agree [OF assms] by (simp add: check_group_def)

lemma check_group_framed: "group_key cg \<in> fp_Groups X \<Longrightarrow> agree (outside {X}) (check_group A cg st) st"
  using put_group_agree(2) [OF outside_keys(3)] by (simp add: check_group_def group_key_def)

text \<open>A turn is a synchronisation, of the group in its first state or behind the check.\<close>

lemma turn_effect_cases:
  assumes "group_plan K cg = Some plan"
  obtains cg1 where "cg_Meta cg1 = cg_Meta cg" "cg_Spec cg1 = cg_Spec cg" "group_plan K cg1 = Some plan"
      "\<And>A st. turn_effect K A cg st = fold (sync_set K A cg1) plan st"
    | "\<And>A st. turn_effect K A cg st = fold (sync_set K A cg) plan (check_group A cg st)"
proof (rule IsComputeGroupCreated_cases [of cg])
  assume "IsComputeGroupCreated cg = (False, cg)"
  then show thesis using assms by (intro that(2)) (simp add: turn_effect_def)
next
  fix cg1 assume new: "IsComputeGroupCreated cg = (True, cg1)" "cg_Meta cg1 = cg_Meta cg" "cg_Spec cg1 = cg_Spec cg"
  then have "group_plan K cg1 = Some plan" using group_plan_status assms by metis
  with new show thesis by (intro that(1)) (simp_all add: turn_effect_def)
qed

lemma made_key_defaulted:
  assumes "MakeComputeGroup K op spec = Some g0" and "SetDatafuseComputeGroupDefaults K (Some op) (Some g0) = Some g"
  shows "(om_Namespace (cg_Meta g), om_Name (cg_Meta g)) = made_key spec"
  using assms by (auto simp: MakeComputeGroup_def SetDatafuseComputeGroupDefaults_def Let_def made_key_def split: if_splits)

lemma stays_group_create: "(ns, om_Name (cg_Meta g)) \<in> fp_Groups X \<Longrightarrow> stays X (group_create_call ns g opts)"
  by (simp add: group_create_call_def request_def)

lemma stays_operator_update: "stays X (operator_update_call ns op opts)"
  by (simp add: operator_update_call_def request_def)

lemma emits_stays_syncGroup2:
  assumes "\<And>spec. groupSpec = Some spec \<Longrightarrow> made_key spec \<in> fp_Groups X"
  shows "emits (\<lambda>_. stays X) (syncGroup2 K (typed_controller K) op groupSpec)"
proof -
  have create: "emits (\<lambda>_. stays X) (if_Create (DatafuseComputeGroups (oc_client (typed_controller K)) (om_Namespace (cg_Meta g))) g '''')"
    if "(om_Namespace (cg_Meta g), om_Name (cg_Meta g)) \<in> fp_Groups X" for g
    by (rule typed_oc.group_client.emits_create) (rule stays_group_create [OF that])
  have update: "emits (\<lambda>_. stays X) (updateOperatorStatus K (typed_controller K) g op)" for g
    by (auto simp: updateOperatorStatus_def Let_def stays_operator_update
        intro!: emits_intros typed_oc.operator_client.emits_update split: prod.split)
  have read: "emits (\<lambda>_. stays X) (GroupNamespaceLister_Get K ns name)" for ns name
    by (rule emitsI) (simp add: group_lister.one_read)
  show ?thesis
    unfolding syncGroup2_def tell_def
    by (intro emits_lift_bind emits_bind read)
      (use assms made_key_defaulted in \<open>auto intro!: emits_intros create update split: option.split prod.split sum.split\<close>)
qed

lemma emits_stays_processNewOperator:
  "emits (\<lambda>_. stays (job_footprint (SyncOperator op))) (processNewOperator K (typed_controller K) op)"
proof -
  let ?X = "job_footprint (SyncOperator op)"
  have "elems (os_ComputeGroups (op_Spec (defaulted op))) = elems (os_ComputeGroups (op_Spec op))"
    by (rule SetDatafuseOperatorDefault_keeps(1) [OF defaulted])
  moreover have "emits (\<lambda>_. stays ?X) (for_each (\<lambda>groupSpec. bind_io (syncGroup2 K (typed_controller K) op' groupSpec) (\<lambda>e. ret ())) specs)"
    if "set specs \<subseteq> set (elems (os_ComputeGroups (op_Spec op)))" for specs op'
    using that
  proof (induction specs)
    case (Cons spec specs)
    then have "emits (\<lambda>_. stays ?X) (syncGroup2 K (typed_controller K) op' spec)"
      by (intro emits_stays_syncGroup2) auto
    with Cons show ?case by (auto intro!: emits_intros)
  qed (simp add: emits_intros)
  ultimately show ?thesis
    unfolding processNewOperator_def defaulted bind_lift by (intro emits_bind emits_ret) simp
qed

lemma group_plan_set_keys:
  assumes "group_plan K cg = Some plan"
  shows "plan_key ` set plan \<subseteq> set_keys cg"
proof -
  from assms obtain ls ws where sets: "gs_ComputeLeaders (cg_Spec cg) = Some ls" "elems (gs_ComputeWorkers (cg_Spec cg)) = map Some ws"
    by (rule group_planE)
  have worker: "\<exists>i<length ws. name = set_name (ws ! i) (worker_name cg (n + i)) \<and> ws ! i = cs"
    if "(cs, name) \<in> set (worker_sets cg n ws)" for cs name n and ws :: "DatafuseComputeSetSpec list"
    using that
  proof (induction ws arbitrary: n)
    case (Cons w ws)
    show ?case
    proof (cases "(cs, name) = (w, set_name w (worker_name cg n))")
      case False
      then obtain i where "i < length ws" "name = set_name (ws ! i) (worker_name cg (Suc n + i))" "ws ! i = cs"
        using Cons.IH [of "Suc n"] Cons.prems by auto
      then show ?thesis by (intro exI [of _ "Suc i"]) simp
    qed (auto intro: exI [of _ 0])
  qed simp
  have "plan_key ` set plan = (\<lambda>(cs, name). (om_Namespace (cg_Meta cg), name)) `
      set ((ls, set_name ls (leader_name cg)) # worker_sets cg 0 ws)"
    using arg_cong [OF group_plan_keys [OF assms sets], of set] by simp
  also have "\<dots> \<subseteq> set_keys cg"
    using worker [of _ _ 0 ws] by (fastforce simp: set_keys_def sets)
  finally show ?thesis .
qed

lemma settled_agree:
  assumes "agree X st st'" and "plan_key p \<in> fp_Deployments X" and "group_key cg \<in> fp_Services X" and "group_key cg \<in> fp_Groups X"
  shows "agree X (sync_set K A cg p st) (sync_set K A cg p st')"
proof -
  have d: "agree X (settle_deployment K A cg p st) (settle_deployment K A cg p st')"
    using assms(1,2) by (auto simp: agree_def settle_deployment_def)
  have s: "agree X (settle_service cg p a) (settle_service cg p b)" if "agree X a b" for a b
    using that assms(3) by (auto simp: agree_def settle_service_def Let_def group_key_def)
  have "agree X (settle_status K A cg p a) (settle_status K A cg p b)" if "agree X a b" for a b
  proof -
    have "cl_Deployments a (plan_key p) = cl_Deployments b (plan_key p)" using that assms(2) by (simp add: agree_def)
    with put_group_agree(3) [OF that] that show ?thesis by (simp add: settle_status_def)
  qed
  from this [OF s [OF d]] show ?thesis by (simp add: sync_set_def)
qed

lemma sync_set_framed:
  assumes "plan_key p \<in> fp_Deployments X" and "group_key cg \<in> fp_Services X" and "group_key cg \<in> fp_Groups X"
  shows "agree (outside {X}) (sync_set K A cg p st) st"
proof -
  have d: "agree (outside {X}) (settle_deployment K A cg p st) st"
    using assms(1) by (auto simp: agree_def settle_deployment_def outside_def)
  have s: "agree (outside {X}) (settle_service cg p a) a" for a
    using assms(2) by (auto simp: agree_def settle_service_def Let_def group_key_def outside_def)
  have key: "(om_Namespace (cg_Meta cg), om_Name (cg_Meta (status_write cg key l))) \<in> fp_Groups X" for key l
    using assms(3) by (simp add: group_key_def status_write_fields)
  have "agree (outside {X}) (settle_status K A cg p a) a" for a
    using put_group_agree(2) [OF outside_keys(3) [OF key]] by (simp add: settle_status_def)
  from agree_trans [OF this agree_trans [OF s d]] show ?thesis by (simp add: sync_set_def)
qed

lemma fold_agree:
  assumes "\<And>x a b. x \<in> set xs \<Longrightarrow> agree X a b \<Longrightarrow> agree X (f x a) (f x b)" and "agree X st st'"
  shows "agree X (fold f xs st) (fold f xs st')"
  using assms by (induction xs arbitrary: st st') auto

lemma fold_framed:
  assumes "\<And>x a. x \<in> set xs \<Longrightarrow> agree X (f x a) a"
  shows "agree X (fold f xs st) st"
  using assms
proof (induction xs arbitrary: st)
  case (Cons x xs)
  then have "agree X (fold f xs (f x st)) (f x st)" by simp
  from agree_trans [OF this] Cons.prems show ?case by simp
qed simp

lemma sync_spec_agree:
  assumes "agree X st st'"
  shows "agree X (sync_spec K A op spec st) (sync_spec K A op spec st')"
proof (cases "spec_key spec \<in> fp_Groups X")
  case True
  with agree_group_at [OF assms True] assms show ?thesis
    by (auto simp: sync_spec_def agree_groups(1) split: option.split)
next
  case False
  with assms show ?thesis by (auto simp: sync_spec_def agree_groups(2,3) split: option.split)
qed

lemma sync_spec_framed: "spec_key spec \<in> fp_Groups X \<Longrightarrow> agree (outside {X}) (sync_spec K A op spec st) st"
  by (simp add: sync_spec_def agree_groups(2) outside_keys split: option.split)

lemma operator_footprint:
  assumes "operator_specs op = Some specs" and "list_all good_namespace specs"
  shows "spec_key ` set specs \<subseteq> fp_Groups (job_footprint (SyncOperator op))"
  using assms those_map [of "elems (os_ComputeGroups (op_Spec op))" specs]
  by (auto simp: operator_specs_def made_key_def spec_key_def good_namespace_def list_all_iff image_iff)

interpretation job: store_worker "run_job j" "job_footprint j" "job_ok j" "job_effect j" for j
proof
  show "emits (\<lambda>_. stays (job_footprint j)) (run_job j K)" for K
    by (cases j) (simp_all add: typed_oc.emits_weaken [OF typed_oc.emits_processNewComputeGroup stays_group]
        emits_stays_group_turn emits_stays_processNewOperator del: job_footprint.simps)
next
  fix K A st0 h
  assume "answers (job_footprint j) K A (live_at A st0)" "worker_laws K A" "job_ok j K" "store_ok (live_at A st0 h)"
  then show "\<exists>new. run_job j K h = (Some None, h @ new) \<and> live_at A st0 (h @ new) = job_effect j K A (live_at A st0 h)"
  proof (cases j)
    case (SyncGroup cg)
    with \<open>job_ok j K\<close> obtain plan where plan: "group_plan K cg = Some plan" by auto
    from answered_processNewComputeGroup [OF _ _ _ _ this, of "job_footprint j" A st0 h] group_plan_set_keys [OF plan]
    show ?thesis
      using \<open>answers _ _ _ _\<close> \<open>worker_laws K A\<close> \<open>store_ok _\<close> SyncGroup by (simp add: worker_laws_def plan)
  next
    case (TurnGroup cg)
    with \<open>job_ok j K\<close> obtain plan where plan: "group_plan K cg = Some plan" "slashed cg" "range_law K" by auto
    from answered_group_turn [OF _ _ _ _ plan(3,1) _ plan(2), of "job_footprint j" A st0 h] group_plan_set_keys [OF plan(1)]
    show ?thesis
      using \<open>answers _ _ _ _\<close> \<open>worker_laws K A\<close> \<open>store_ok _\<close> TurnGroup by (auto simp: worker_laws_def plan(1))
  next
    case (SyncOperator op)
    with \<open>job_ok j K\<close> obtain specs where specs: "operator_specs op = Some specs" "list_all good_namespace specs"
      by (auto split: option.splits)
    from answered_processNewOperator [OF \<open>answers _ _ _ _\<close>, of specs op h] operator_footprint [OF specs]
    show ?thesis
      using \<open>worker_laws K A\<close> SyncOperator specs by (simp add: worker_laws_def list_all_iff)
  qed
next
  fix K A st st'
  assume "job_ok j K" "agree (job_footprint j) st st'"
  then show "agree (job_footprint j) (job_effect j K A st) (job_effect j K A st')"
  proof (cases j)
    case (SyncGroup cg)
    with \<open>job_ok j K\<close> obtain plan where plan: "group_plan K cg = Some plan" by auto
    then show ?thesis
      using \<open>agree _ _ _\<close> group_plan_set_keys [OF plan] SyncGroup by (auto intro!: fold_agree settled_agree)
  next
    case (TurnGroup cg)
    with \<open>job_ok j K\<close> obtain plan where plan: "group_plan K cg = Some plan" by auto
    note keys = group_plan_set_keys [OF plan]
    show ?thesis
    proof (rule turn_effect_cases [OF plan])
      fix cg1 assume cg1: "cg_Meta cg1 = cg_Meta cg" "cg_Spec cg1 = cg_Spec cg" "group_plan K cg1 = Some plan"
        and turn: "\<And>A st. turn_effect K A cg st = fold (sync_set K A cg1) plan st"
      then have "group_key cg1 = group_key cg" by (simp add: group_key_def)
      then show ?thesis
        using keys \<open>agree _ _ _\<close> TurnGroup by (auto simp: turn intro!: fold_agree settled_agree)
    next
      assume turn: "\<And>A st. turn_effect K A cg st = fold (sync_set K A cg) plan (check_group A cg st)"
      show ?thesis
        using keys \<open>agree _ _ _\<close> TurnGroup by (auto simp: turn intro!: fold_agree settled_agree check_group_agree)
    qed
  next
    case (SyncOperator op)
    then show ?thesis using \<open>agree _ _ _\<close> by (auto intro!: fold_agree sync_spec_agree split: option.split)
  qed
next
  fix K A st
  assume "job_ok j K"
  then show "agree (outside {job_footprint j}) (job_effect j K A st) st"
  proof (cases j)
    case (SyncGroup cg)
    with \<open>job_ok j K\<close> obtain plan where plan: "group_plan K cg = Some plan" by auto
    then show ?thesis
      using group_plan_set_keys [OF plan] SyncGroup by (auto intro!: fold_framed sync_set_framed)
  next
    case (TurnGroup cg)
    with \<open>job_ok j K\<close> obtain plan where plan: "group_plan K cg = Some plan" by auto
    note keys = group_plan_set_keys [OF plan]
    show ?thesis
    proof (rule turn_effect_cases [OF plan])
      fix cg1 assume cg1: "cg_Meta cg1 = cg_Meta cg" "cg_Spec cg1 = cg_Spec cg" "group_plan K cg1 = Some plan"
        and turn: "\<And>A st. turn_effect K A cg st = fold (sync_set K A cg1) plan st"
      then have "group_key cg1 = group_key cg" by (simp add: group_key_def)
      then show ?thesis
        using keys TurnGroup by (auto simp: turn intro!: fold_framed sync_set_framed)
    next
      assume turn: "\<And>A st. turn_effect K A cg st = fold (sync_set K A cg) plan (check_group A cg st)"
      have "agree (outside {job_footprint j}) (fold (sync_set K A cg) plan (check_group A cg st)) (check_group A cg st)"
        using keys TurnGroup by (auto intro!: fold_framed sync_set_framed)
      moreover have "agree (outside {job_footprint j}) (check_group A cg st) st"
        by (rule check_group_framed) (simp add: TurnGroup)
      ultimately show ?thesis using TurnGroup by (auto simp: turn intro: agree_trans)
    qed
  next
    case (SyncOperator op)
    with \<open>job_ok j K\<close> obtain specs where specs: "operator_specs op = Some specs" "list_all good_namespace specs"
      by (auto split: option.splits)
    show ?thesis using operator_footprint [OF specs] specs SyncOperator by (auto intro!: fold_framed sync_spec_framed)
  qed
qed

section \<open>Disjoint jobs, one after the other\<close>

definition disjoint_jobs :: "(k8s \<times> job) list \<Rightarrow> bool" where
  "disjoint_jobs ws \<longleftrightarrow> (\<forall>i < length ws. \<forall>j < length ws. i \<noteq> j \<longrightarrow>
     apart (job_footprint (snd (ws ! i))) (job_footprint (snd (ws ! j))))"

definition ready_jobs :: "api_server \<Rightarrow> (k8s \<times> job) list \<Rightarrow> bool" where
  "ready_jobs A ws \<longleftrightarrow> (\<forall>(K, j) \<in> set ws. worker_laws K A \<and> job_ok j K)"

text \<open>What the \<open>i\<close>-th worker does to the store when it runs alone.\<close>

definition effect_of :: "api_server \<Rightarrow> (k8s \<times> job) list \<Rightarrow> nat \<Rightarrow> cluster_store \<Rightarrow> cluster_store" where
  "effect_of A ws i = job_effect (snd (ws ! i)) (fst (ws ! i)) A"

lemma ready_jobsD:
  "ready_jobs A ws \<Longrightarrow> i < length ws \<Longrightarrow> worker_laws (fst (ws ! i)) A \<and> job_ok (snd (ws ! i)) (fst (ws ! i))"
  by (fastforce simp: ready_jobs_def dest: nth_mem)

lemma effect_of_frame:
  assumes "disjoint_jobs ws" and "ready_jobs A ws" and "i < length ws" and "j < length ws" and "i \<noteq> j"
  shows "agree (job_footprint (snd (ws ! i))) (effect_of A ws j st) st"
  using agree_apart [OF job.framed] ready_jobsD [OF assms(2,4)] assms(1,3-5)
  by (simp add: effect_of_def disjoint_jobs_def)

lemma effects_frame:
  assumes "disjoint_jobs ws" and "ready_jobs A ws" and "i < length ws" and "set order \<subseteq> {..<length ws}" and "i \<notin> set order"
  shows "agree (job_footprint (snd (ws ! i))) (fold (effect_of A ws) order st) st"
  by (rule fold_framed, rule effect_of_frame [OF assms(1-3)]) (use assms(4,5) in auto)

lemma effects_own:
  assumes "disjoint_jobs ws" and "ready_jobs A ws" and "i < length ws"
    and "set order \<subseteq> {..<length ws}" and "distinct order" and "i \<in> set order"
  shows "agree (job_footprint (snd (ws ! i))) (fold (effect_of A ws) order st) (effect_of A ws i st)"
  using assms(4-6)
proof (induction order arbitrary: st)
  case (Cons j order)
  show ?case
  proof (cases "j = i")
    case True
    with Cons.prems effects_frame [OF assms(1-3)] show ?thesis by simp
  next
    case False
    then have "agree (job_footprint (snd (ws ! i))) (fold (effect_of A ws) order (effect_of A ws j st)) (effect_of A ws i (effect_of A ws j st))"
      using Cons by simp
    moreover have "agree (job_footprint (snd (ws ! i))) (effect_of A ws i (effect_of A ws j st)) (effect_of A ws i st)"
      unfolding effect_of_def [of A ws i]
      by (rule job.local_effect)
        (use effect_of_frame [OF assms(1-3)] ready_jobsD [OF assms(2,3)] Cons.prems False in auto)
    ultimately show ?thesis by (auto intro: agree_trans)
  qed
qed simp

text \<open>In an execution of disjoint jobs every worker leaves on its names what it leaves there alone.\<close>

lemma interleaving_stays:
  assumes "execution A st0 T (map (\<lambda>(K, j). (K, run_job j K)) ws)" and "e \<in> set T"
  shows "fst e < length ws" and "stays (job_footprint (snd (ws ! fst e))) (snd e)"
proof -
  show i: "fst e < length ws" using assms by (auto simp: execution_def)
  have "snd (run_job (snd (ws ! fst e)) (fst (ws ! fst e)) []) = calls_of (fst e) T"
    using assms(1) i by (auto simp: execution_def case_prod_beta)
  from job.own_calls [OF this, of "snd e"] assms(2) show "stays (job_footprint (snd (ws ! fst e))) (snd e)" by simp
qed

lemma interleaving_own:
  assumes exec: "execution A st0 T (map (\<lambda>(K, j). (K, run_job j K)) ws)" and "disjoint_jobs ws" and "ready_jobs A ws"
    and "store_ok st0" and i: "i < length ws"
  shows "fst (run_job (snd (ws ! i)) (fst (ws ! i)) []) = Some None"
    and "agree (job_footprint (snd (ws ! i))) (live_at A st0 (map snd T)) (effect_of A ws i st0)"
proof -
  have run: "snd (run_job (snd (ws ! i)) (fst (ws ! i)) []) = calls_of i T"
    using exec i by (auto simp: execution_def case_prod_beta)
  obtain S where S: "observes (live_at A st0) T i S" "answers everything (fst (ws ! i)) A S"
    using exec i by (auto simp: execution_def case_prod_beta)
  have others: "\<forall>e \<in> set T. fst e \<noteq> i \<longrightarrow> stays (outside {job_footprint (snd (ws ! i))}) (snd e)"
    using interleaving_stays [OF exec] assms(2) i stays_apart unfolding disjoint_jobs_def by metis
  note own = job.own_part [OF S run others]
  show "fst (run_job (snd (ws ! i)) (fst (ws ! i)) []) = Some None"
    using own(1) ready_jobsD [OF assms(3) i] assms(4) by blast
  show "agree (job_footprint (snd (ws ! i))) (live_at A st0 (map snd T)) (effect_of A ws i st0)"
    using own(2) ready_jobsD [OF assms(3) i] assms(4) unfolding effect_of_def by blast
qed

lemma interleaving_store:
  assumes "execution A st0 T (map (\<lambda>(K, j). (K, run_job j K)) ws)" and "disjoint_jobs ws" and "ready_jobs A ws"
    and "store_ok st0" and "distinct order" and "set order = {..<length ws}"
  shows "live_at A st0 (map snd T) = fold (effect_of A ws) order st0"
proof -
  let ?X = "\<lambda>i. job_footprint (snd (ws ! i))" and ?final = "live_at A st0 (map snd T)"
  let ?Xs = "?X ` {..<length ws}"
  show "?final = fold (effect_of A ws) order st0"
  proof (rule agree_everywhere [of ?Xs])
    fix X assume "X \<in> ?Xs"
    then obtain i where i: "i < length ws" "X = ?X i" by auto
    with effects_own [OF assms(2,3) i(1) _ assms(5), of st0] interleaving_own(2) [OF assms(1-4) i(1)] assms(6)
    show "agree X ?final (fold (effect_of A ws) order st0)" by (auto intro: agree_trans agree_sym)
  next
    have "agree (outside ?Xs) ?final st0"
      by (rule live_at_frame) (use interleaving_stays [OF assms(1)] in blast)
    moreover have "agree (outside ?Xs) (fold (effect_of A ws) order st0) st0"
    proof (rule fold_framed)
      fix i st assume "i \<in> set order"
      then have "i < length ws" using assms(6) by auto
      then show "agree (outside ?Xs) (effect_of A ws i st) st"
        unfolding effect_of_def
        by (intro agree_outside_mono [OF job.framed]) (use ready_jobsD [OF assms(3)] in auto)
    qed
    ultimately show "agree (outside ?Xs) ?final (fold (effect_of A ws) order st0)"
      by (rule agree_trans [OF _ agree_sym])
  qed
qed

section \<open>Properties\<close>

text \<open>C10 (equivalence).  Any number of workers that work on disjoint names, interleaved call by call on
  one server in any way, return without an error and leave the store that they leave one after the
  other, in any order.\<close>

theorem interleaving_serialises:
  assumes "execution A st0 T (map (\<lambda>(K, j). (K, run_job j K)) ws)" and "disjoint_jobs ws" and "ready_jobs A ws"
    and "store_ok st0" and "distinct order" and "set order = {..<length ws}"
  shows "live_at A st0 (map snd T) = fold (effect_of A ws) order st0
    \<and> (\<forall>(K, j) \<in> set ws. fst (run_job j K []) = Some None)"
  using interleaving_store [OF assms] interleaving_own(1) [OF assms(1-4)] by (fastforce simp: in_set_conv_nth)

section \<open>The properties at concrete inputs\<close>

lemma bind_extends:
  assumes "\<And>x. emits P (f x)"
  shows "\<exists>new. snd (bind_io m f h) = snd (m h) @ new"
  using emits_extends [OF assms] by (cases "m h") (auto simp: io_simps split: option.split)

text \<open>The synchronisation of a group starts with a read.\<close>

lemma first_call_reads:
  assumes "group_plan K cg = Some plan"
  shows "\<exists>ns name rest. snd (processNewComputeGroup K (typed_controller K) cg []) = ListerGetDeployment ns name # rest"
proof -
  from assms obtain ls d where ls: "gs_ComputeLeaders (cg_Spec cg) = Some ls"
    and d: "desired_deployment K cg ls (set_name ls (leader_name cg)) True = Some d"
    by (rule group_planE)
  let ?rest = "\<lambda>r. case r of Inl err \<Rightarrow> ret (Some err) | Inr x \<Rightarrow>
     bind_io (if True then bind_io (lift_io (MakeService (om_Name (cg_Meta cg)) d)) (ensureService K) else ret None) (\<lambda>err.
     case err of Some e \<Rightarrow> ret (Some e) | None \<Rightarrow> syncControlled K (typed_controller K) cg ls d x True)"
  have wanted: "wanted K cg True d" using ls d by (auto simp: wanted_def)
  have "emits (\<lambda>_. typed_oc.allowed K cg) (?rest r)" for r
    using typed_oc.emits_weaken [OF emits_ensureService [OF wanted]] wanted
    by (auto intro!: emits_intros emits_lift_bind typed_oc.emits_syncControlled simp: typed_oc.allowed_def split: sum.split option.split)
  from bind_extends [where f = ?rest and m = "ensureDeployment K d" and h = "[]", OF this] obtain n1
    where n1: "snd (syncComputeGroup K (typed_controller K) cg (Some ls) (set_name ls (leader_name cg)) True []) =
      snd (ensureDeployment K d []) @ n1"
    unfolding syncComputeGroup_desired [OF d] by blast
  have "emits (\<lambda>_. typed_oc.allowed K cg) (bind_io (syncWorkers K (typed_controller K) cg 0 (elems (gs_ComputeWorkers (cg_Spec cg)))) (\<lambda>_. ret None))"
    by (intro emits_intros typed_oc.emits_syncWorkers) simp_all
  from bind_extends [where h = "[]", OF this] obtain n2
    where "snd (processNewComputeGroup K (typed_controller K) cg []) = (snd (ensureDeployment K d []) @ n1) @ n2"
    unfolding processNewComputeGroup_def ls bind_lift n1 [symmetric] by metis
  moreover have "\<exists>ns name new. snd (ensureDeployment K d []) = ListerGetDeployment ns name # new"
    by (simp add: ensureDeployment_def io_simps split: sum.split)
  ultimately show ?thesis by auto
qed

lemma switch_execution:
  assumes "K1 = live_k8s st0" and "h1 = snd (run_job j1 K1 [])"
    and "K0 = server_k8s (switch_states (live_at plain_server st0) h1)" and "h0 = snd (run_job (SyncGroup cg) K0 [])"
    and "group_plan K0 cg = Some plan"
  shows "execution plain_server st0 (switch_schedule h0 h1) (map (\<lambda>(K, j). (K, run_job j K)) [(K0, SyncGroup cg), (K1, j1)])"
proof -
  obtain ns name rest where h0: "h0 = ListerGetDeployment ns name # rest"
    using first_call_reads [OF assms(5)] assms(4) by auto
  have "live_at plain_server st0 (ListerGetDeployment ns name # h) = live_at plain_server st0 h" for h
    by (simp add: live_at_def)
  note seen = switch_observed [of h0 "ListerGetDeployment ns name" rest "live_at plain_server st0" h1, OF h0 this]
  have "answers everything K1 plain_server (live_at plain_server st0)"
    using live_k8s_laws(1) by (simp add: assms(1) live_def)
  moreover have "answers everything K0 plain_server (switch_states (live_at plain_server st0) h1)"
    unfolding assms(3) by (rule server_k8s_laws)
  moreover have "\<forall>e \<in> set (switch_schedule h0 h1). fst e < 2" by (auto simp: switch_schedule_def)
  ultimately show ?thesis
    using seen by (auto simp: execution_def less_Suc_eq assms(2) [symmetric] assms(4) [symmetric] simp del: run_job.simps)
qed

definition second_operator :: DatafuseOperator where
  "second_operator = sample_operator\<lparr>op_Spec := \<lparr>os_ComputeGroups = Some [Some second_spec], os_Version = None\<rparr>\<rparr>"

lemma second_operator_specs: "operator_specs second_operator = Some [second_spec]" "list_all good_namespace [second_spec]"
  "job_footprint (SyncOperator second_operator) = \<lparr>fp_Deployments = {}, fp_Services = {}, fp_Groups = {(''default'', ''groupp2'')}\<rparr>"
  by (simp_all add: operator_specs_def second_operator_def good_namespace_def made_key_def second_spec_def sample_defs)

theorem interleaving_serialises_witness:
  "\<exists>K0 K1 h0 h1. execution plain_server sample_store (switch_schedule h0 h1)
       [(K0, run_job (SyncGroup sample_group) K0), (K1, run_job (SyncOperator second_operator) K1)]
     \<and> live_at plain_server sample_store (map snd (switch_schedule h0 h1)) =
         job_effect (SyncOperator second_operator) K1 plain_server
           (job_effect (SyncGroup sample_group) K0 plain_server sample_store)
     \<and> fst (run_job (SyncGroup sample_group) K0 []) = Some None"
proof -
  define K1 where "K1 = live_k8s sample_store"
  define h1 where "h1 = snd (run_job (SyncOperator second_operator) K1 [])"
  define K0 where "K0 = server_k8s (switch_states (live_at plain_server sample_store) h1)"
  define h0 where "h0 = snd (run_job (SyncGroup sample_group) K0 [])"
  let ?ws = "[(K0, SyncGroup sample_group), (K1, SyncOperator second_operator)]" and ?T = "switch_schedule h0 h1"
  have sets: "\<forall>cs \<in> insert sample_set (set [sample_set, sample_set]). complete_instance K0 (cs_Instance cs)"
    by (simp add: complete_instance_def K0_def server_k8s_def ref_k8s_def sample_defs)
  obtain plan where plan: "group_plan K0 sample_group = Some plan"
    using group_plan_exists [OF _ _ sample_sets(1,2) sets] by (auto simp: sample_names)
  note exec = switch_execution [OF K1_def h1_def K0_def h0_def plan]
  have disjoint: "disjoint_jobs ?ws"
    using second_operator_specs(3) by (auto simp: disjoint_jobs_def less_Suc_eq apart_def group_key_def sample_names)
  have laws: "worker_laws K0 plain_server" "worker_laws K1 plain_server"
    using server_k8s_laws plain_admission live_k8s_laws by (simp_all add: worker_laws_def K0_def K1_def)
  have ready: "ready_jobs plain_server ?ws"
    using laws second_operator_specs(1,2) by (simp add: ready_jobs_def plan)
  have order: "distinct [0, 1::nat]" "set [0, 1] = {..<length ?ws}" by auto
  have "store_ok sample_store" using sample_store_ok by (simp add: live_at_def)
  from interleaving_serialises [OF exec disjoint ready this order] exec show ?thesis
    by (intro exI [of _ K0] exI [of _ K1] exI [of _ h0] exI [of _ h1]) (simp add: effect_of_def)
qed

end
