(* ===== verification/Rollout.thy ===== *)
theory Rollout
  imports Interleaved
begin

text \<open>
  From an operator to the deployments of all its groups: the operator worker makes the groups, and
  group workers, one for each group and interleaved call by call, bring up their deployments.
\<close>

section \<open>A group that is up\<close>

definition running :: "k8s \<Rightarrow> cluster_store \<Rightarrow> DatafuseComputeGroup \<Rightarrow> bool" where
  "running K st cg \<longleftrightarrow> (case group_plan K cg of None \<Rightarrow> False | Some plan \<Rightarrow>
     (\<forall>p \<in> set plan. case cl_Deployments st (plan_key p) of None \<Rightarrow> False
        | Some d \<Rightarrow> owned K cg d \<and> (distinct (map plan_key plan) \<longrightarrow> replicasDiffer (fst p) d = Some False))
     \<and> cl_Services st (group_key cg) \<noteq> None)"

lemma synced_running:
  assumes "controller_ref_laws K" and "admission_law A" and "group_plan K cg = Some plan" and "store_ok st"
    and free: "\<forall>p \<in> set plan. recordable K cg st p"
  shows "running K (fold (sync_set K A cg) plan st) cg"
proof -
  have "\<exists>d. cl_Deployments (fold (sync_set K A cg) plan st) (plan_key p) = Some d \<and> owned K cg d
      \<and> (distinct (map plan_key plan) \<longrightarrow> replicasDiffer (fst p) d = Some False)" if p: "p \<in> set plan" for p
  proof -
    obtain d where d: "cl_Deployments (fold (sync_set K A cg) plan st) (plan_key p) = Some d"
      using plan_exists [of p plan st K A cg] p by auto
    moreover have "owned K cg d"
      using recordable_plan [OF assms(1-3) subset_refl, of st p] d bspec [OF free p] by (simp add: recordable_def)
    moreover have "replicasDiffer (fst p) d = Some False" if dist: "distinct (map plan_key plan)"
      using plan_deployments [OF dist p, of K A cg st] d bspec [OF free p] settled_spec [OF assms(1-3) p assms(4) refl]
      by (auto simp: recordable_def split: option.splits)
    ultimately show ?thesis by blast
  qed
  then show ?thesis
    using plan_service_exists [OF assms(3), of A st] by (fastforce simp: running_def assms(3) group_key_def)
qed

lemma running_agree:
  assumes "agree (job_footprint (SyncGroup cg)) st st'" and "running K st' cg"
  shows "running K st cg"
proof -
  from assms(2) obtain plan where plan: "group_plan K cg = Some plan" by (auto simp: running_def split: option.splits)
  have same: "cl_Deployments st (plan_key p) = cl_Deployments st' (plan_key p)" if "p \<in> set plan" for p
    using group_plan_set_keys [OF plan] assms(1) that by (auto simp: agree_def)
  show ?thesis using assms by (simp add: running_def plan same agree_def)
qed

text \<open>The groups of an operator as the store holds them after its synchronisation.\<close>

definition stored_group :: "cluster_store \<Rightarrow> DatafuseComputeGroupSpec \<Rightarrow> DatafuseComputeGroup" where
  "stored_group st spec = (case cl_Groups st (spec_key spec) of None \<Rightarrow> zero_Group | Some cg \<Rightarrow> cg)"

text \<open>The item that a group worker handles is the stored group in its first state.\<close>

definition group_job :: "cluster_store \<Rightarrow> DatafuseComputeGroupSpec \<Rightarrow> job" where
  "group_job st spec = SyncGroup (snd (IsComputeGroupCreated (stored_group st spec)))"

definition complete_spec :: "k8s \<Rightarrow> DatafuseComputeGroupSpec \<Rightarrow> bool" where
  "complete_spec K spec \<longleftrightarrow> gs_Name spec \<noteq> '''' \<and> gs_ComputeLeaders spec \<noteq> None
     \<and> list_all (\<lambda>cs. cs \<noteq> None) (elems (gs_ComputeWorkers spec))
     \<and> list_all (\<lambda>cs. complete_instance K (cs_Instance cs))
         (List.map_filter id (gs_ComputeLeaders spec # elems (gs_ComputeWorkers spec)))"

lemma complete_spec_plan:
  assumes "complete_spec K (cg_Spec cg)" and "om_Name (cg_Meta cg) \<noteq> ''''" and "om_Namespace (cg_Meta cg) \<noteq> ''''"
  shows "\<exists>plan. group_plan K cg = Some plan"
proof -
  obtain ls where ls: "gs_ComputeLeaders (cg_Spec cg) = Some ls" using assms(1) by (auto simp: complete_spec_def)
  obtain ws where ws: "elems (gs_ComputeWorkers (cg_Spec cg)) = map Some ws"
  proof -
    have "list_all (\<lambda>cs. cs \<noteq> None) xs \<Longrightarrow> \<exists>ws. xs = map Some ws" for xs :: "DatafuseComputeSetSpec option list"
      by (induction xs) (auto simp: Cons_eq_map_conv)
    with that assms(1) show thesis by (auto simp: complete_spec_def)
  qed
  have "List.map_filter id (map Some ws) = ws" by (induction ws) (auto simp: List.map_filter_simps)
  then have "\<forall>cs \<in> insert ls (set ws). complete_instance K (cs_Instance cs)"
    using assms(1) by (simp add: complete_spec_def ls ws List.map_filter_simps list_all_iff)
  from group_plan_exists [OF assms(2,3) ls ws this] show ?thesis .
qed

lemma running_status:
  assumes "cg_Meta cg' = cg_Meta cg" and "cg_Spec cg' = cg_Spec cg"
  shows "running K st cg' = running K st cg"
  unfolding running_def owned_def group_key_def group_plan_status [OF assms] assms ..

lemma stored_group_made:
  assumes "controller_ref_laws K" and "admission_law A" and "good_namespace spec" and "spec \<in> set specs"
    and "distinct (map spec_key specs)" and "cl_Groups st (spec_key spec) = None"
    and st1: "st1 = fold (sync_spec K A op) specs st"
  shows "group_key (stored_group st1 spec) = spec_key spec" and "cg_Spec (stored_group st1 spec) = spec"
    and "k_isControlledBy K (cg_Meta (stored_group st1 spec)) (op_Meta op)"
proof -
  have "spec_key spec \<in> spec_key ` set specs" using assms(4) by simp
  from sync_specs_made [OF assms(1,6) this] obtain spec' g where g: "find (\<lambda>x. spec_key x = spec_key spec) specs = Some spec'"
    "MakeComputeGroup K op spec' = Some g" "cl_Groups st1 (spec_key spec) = Some (admit_group A g)"
    unfolding st1 by blast
  from find_key [OF g(1)] have "spec' \<in> set specs" "spec_key spec' = spec_key spec" by auto
  with assms(4,5) have "spec' = spec" by (auto simp: distinct_map dest: inj_onD)
  with g have made: "MakeComputeGroup K op spec = Some g" "stored_group st1 spec = admit_group A g"
    by (simp_all add: stored_group_def)
  have "gs_Namespace spec \<noteq> ''''" using assms(3) by (simp add: good_namespace_def)
  from created_group [OF assms(1,2) this, of op] made
  show "group_key (stored_group st1 spec) = spec_key spec" "cg_Spec (stored_group st1 spec) = spec"
    "k_isControlledBy K (cg_Meta (stored_group st1 spec)) (op_Meta op)"
    by auto
qed

text \<open>Group workers on stored groups whose namespaces hold no deployment, one for each group.\<close>

lemma groups_come_up:
  assumes "admission_law A" and "store_ok st"
    and stored: "\<forall>spec \<in> set specs. good_namespace spec \<and> group_key (stored_group st spec) = spec_key spec
      \<and> cg_Spec (stored_group st spec) = spec \<and> (\<forall>name. cl_Deployments st (gs_Namespace spec, name) = None)"
    and ws: "ws = zip Ks (map (group_job st) specs)" "length Ks = length specs"
    and Ks: "\<forall>K \<in> set Ks. controller_ref_laws K \<and> not_found_law K \<and> list_all (complete_spec K) specs"
    and T: "disjoint_jobs ws" "execution A st T (map (\<lambda>(K, j). (K, run_job j K)) ws)" and i: "i < length specs"
  shows "running (Ks ! i) (live_at A st (map snd T)) (stored_group st (specs ! i))"
proof -
  define cg where "cg i = snd (IsComputeGroupCreated (stored_group st (specs ! i)))" for i
  have cg: "cg_Meta (cg j) = cg_Meta (stored_group st (specs ! j))" "cg_Spec (cg j) = specs ! j"
    "group_key (cg j) = spec_key (specs ! j)" "good_namespace (specs ! j)" if "j < length specs" for j
    using stored nth_mem [OF that] IsComputeGroupCreated_fields by (simp_all add: cg_def group_key_def)
  have job: "ws ! j = (Ks ! j, SyncGroup (cg j))" if "j < length specs" for j
    using that ws by (simp add: group_job_def cg_def)
  have Kj: "controller_ref_laws (Ks ! j)" "not_found_law (Ks ! j)" "complete_spec (Ks ! j) (specs ! j)" if "j < length specs" for j
    using that Ks ws(2) by (auto simp: list_all_iff)
  have plan: "\<exists>plan. group_plan (Ks ! j) (cg j) = Some plan" if "j < length specs" for j
    using complete_spec_plan [of "Ks ! j" "cg j"] cg(2-4) [OF that] Kj(3) [OF that]
    by (auto simp: group_key_def spec_key_def good_namespace_def complete_spec_def)
  have "worker_laws (Ks ! j) A \<and> job_ok (snd (ws ! j)) (fst (ws ! j))" if "j < length specs" for j
    using that Kj(1,2) assms(1) plan by (auto simp: worker_laws_def job)
  then have "ready_jobs A ws"
    using ws by (auto simp: ready_jobs_def in_set_conv_nth job)
  from interleaving_own [OF T(2,1) this assms(2), of i] i ws have own:
    "agree (job_footprint (SyncGroup (cg i))) (live_at A st (map snd T)) (job_effect (SyncGroup (cg i)) (Ks ! i) A st)"
    by (simp add: effect_of_def group_job_def cg_def)
  obtain plan where p: "group_plan (Ks ! i) (cg i) = Some plan" using plan [OF i] by blast
  have "cl_Deployments st (plan_key q) = None" if q: "q \<in> set plan" for q
  proof -
    have "fst (plan_key q) = gs_Namespace (specs ! i)"
      using group_plan_desired [OF p q] desired_deployment_meta(2) cg(3) [OF i] by (fastforce simp: plan_key_def group_key_def spec_key_def)
    with stored nth_mem [OF i] show ?thesis by (cases "plan_key q") simp
  qed
  then have "\<forall>q \<in> set plan. recordable (Ks ! i) (cg i) st q" by (simp add: recordable_def)
  with synced_running [OF Kj(1) [OF i] assms(1) p assms(2)] running_agree [OF own] p
  have "running (Ks ! i) (live_at A st (map snd T)) (cg i)" by simp
  then show ?thesis
    using running_status [of "cg i" "stored_group st (specs ! i)"] cg [OF i] stored nth_mem [OF i] by simp
qed

section \<open>Properties\<close>

text \<open>From an operator to running deployments: the operator's synchronisation stores every one
  of its groups, owned by the operator; and when one worker for each of these groups takes its item,
  then whatever the interleaving of their calls, every set of every group has its deployment, owned
  by the group and with the replicas of the set, and every group has its service.\<close>

theorem operator_rollout:
  assumes "live K A st0" and "controller_ref_laws K" and "not_found_law K" and "admission_law A"
    and "store_ok (live_at A st0 h)" and "operator_specs op = Some specs" and "distinct (map spec_key specs)"
    and "\<forall>spec \<in> set specs. good_namespace spec \<and> cl_Groups (live_at A st0 h) (spec_key spec) = None
      \<and> (\<forall>name. cl_Deployments (live_at A st0 h) (gs_Namespace spec, name) = None)"
  shows "\<exists>h1. processNewOperator K (typed_controller K) op h = (Some None, h1)
    \<and> (\<forall>spec \<in> set specs. group_key (stored_group (live_at A st0 h1) spec) = spec_key spec
        \<and> cg_Spec (stored_group (live_at A st0 h1) spec) = spec
        \<and> k_isControlledBy K (cg_Meta (stored_group (live_at A st0 h1) spec)) (op_Meta (defaulted op)))
    \<and> (\<forall>Ks T ws. ws = zip Ks (map (group_job (live_at A st0 h1)) specs) \<longrightarrow> length Ks = length specs \<longrightarrow>
        (\<forall>K' \<in> set Ks. controller_ref_laws K' \<and> not_found_law K' \<and> list_all (complete_spec K') specs) \<longrightarrow>
        disjoint_jobs ws \<longrightarrow> execution A (live_at A st0 h1) T (map (\<lambda>(K, j). (K, run_job j K)) ws) \<longrightarrow>
        (\<forall>i < length specs. running (Ks ! i) (live_at A (live_at A st0 h1) (map snd T))
           (stored_group (live_at A st0 h1) (specs ! i))))"
proof -
  have good: "\<forall>spec \<in> set specs. good_namespace spec" using assms(8) by blast
  obtain h1 where h1: "processNewOperator K (typed_controller K) op h = (Some None, h1)"
    "live_at A st0 h1 = fold (sync_spec K A (defaulted op)) specs (live_at A st0 h)"
    using answered_processNewOperator [OF assms(1) [unfolded live_def] _ assms(2-4,6) good, of h] by (fastforce simp: everything_def)
  define st1 where "st1 = live_at A st0 h1"
  have stored: "group_key (stored_group st1 spec) = spec_key spec" "cg_Spec (stored_group st1 spec) = spec"
    "k_isControlledBy K (cg_Meta (stored_group st1 spec)) (op_Meta (defaulted op))" if "spec \<in> set specs" for spec
    using stored_group_made [OF assms(2,4) _ that assms(7) _ st1_def [unfolded h1(2)]] assms(8) that by auto
  have ok: "store_ok st1" using assms(5) by (simp add: st1_def h1(2) store_ok_def sync_specs_others)
  have "\<forall>spec \<in> set specs. good_namespace spec \<and> group_key (stored_group st1 spec) = spec_key spec
      \<and> cg_Spec (stored_group st1 spec) = spec \<and> (\<forall>name. cl_Deployments st1 (gs_Namespace spec, name) = None)"
    using stored good assms(8) by (simp add: st1_def h1(2) sync_specs_others)
  from groups_come_up [OF assms(4) ok this] have up: "running (Ks ! i) (live_at A st1 (map snd T)) (stored_group st1 (specs ! i))"
    if "ws = zip Ks (map (group_job st1) specs)" "length Ks = length specs"
      "\<forall>K' \<in> set Ks. controller_ref_laws K' \<and> not_found_law K' \<and> list_all (complete_spec K') specs"
      "disjoint_jobs ws" "execution A st1 T (map (\<lambda>(K, j). (K, run_job j K)) ws)" "i < length specs" for Ks T ws i
    using that by blast
  from h1(1) stored up show ?thesis unfolding st1_def by blast
qed

section \<open>The property at concrete inputs\<close>

text \<open>Two groups of one operator, whose workers are interleaved.\<close>

lemma two_specs:
  assumes "om_Name (cg_Meta cg) = gs_Name spec" and "om_Namespace (cg_Meta cg) = ''default''" and "cg_Spec cg = spec"
    and "spec = sample_group_spec \<or> spec = second_spec"
  shows "set_keys cg \<subseteq> {(''default'', gs_Name spec @ ''-leader''), (''default'', gs_Name spec @ ''-worker0''),
    (''default'', gs_Name spec @ ''-worker1'')}"
proof -
  have sets: "gs_ComputeLeaders spec = Some sample_set" "elems (gs_ComputeWorkers spec) = [Some sample_set, Some sample_set]"
    "ci_Name (cs_Instance sample_set) = None"
    using assms(4) by (auto simp: second_spec_def sample_group_spec_def sample_set_def sample_instance_def)
  have "set_name w (worker_name cg i) \<in> {gs_Name spec @ ''-worker0'', gs_Name spec @ ''-worker1''}"
    if "i < length (elems (gs_ComputeWorkers spec))" "elems (gs_ComputeWorkers spec) ! i = Some w" for i w
  proof -
    from that(1) have "i = 0 \<or> i = 1" by (auto simp: sets(2))
    with that(2) show ?thesis by (auto simp: sets set_name_def worker_name_def assms(1) sample_decimals)
  qed
  moreover have "set_name sample_set (leader_name cg) = gs_Name spec @ ''-leader''"
    by (simp add: sets set_name_def leader_name_def assms(1))
  ultimately show ?thesis
    unfolding set_keys_def assms(2,3) sets(1) by fastforce
qed

lemma two_specs_complete: "list_all (complete_spec (server_k8s S)) [sample_group_spec, second_spec]"
  by (simp add: complete_spec_def second_spec_def sample_group_spec_def List.map_filter_simps complete_instance_def
      server_k8s_def ref_k8s_def sample_set_def sample_instance_def)

theorem operator_rollout_witness:
  "\<exists>K h1 st1 K0 K1 T. processNewOperator K (typed_controller K) two_group_operator [] = (Some None, h1)
     \<and> st1 = live_at plain_server empty_store h1
     \<and> execution plain_server st1 T (map (\<lambda>(K, j). (K, run_job j K))
         [(K0, group_job st1 sample_group_spec), (K1, group_job st1 second_spec)])
     \<and> running K0 (live_at plain_server st1 (map snd T)) (stored_group st1 sample_group_spec)
     \<and> running K1 (live_at plain_server st1 (map snd T)) (stored_group st1 second_spec)"
proof -
  let ?K = "live_k8s empty_store" and ?specs = "[sample_group_spec, second_spec]"
  have st: "live_at plain_server empty_store [] = empty_store" by (simp add: live_at_def)
  have ok: "store_ok (live_at plain_server empty_store [])" unfolding st by (simp add: store_ok_def empty_store_def)
  have distinct: "distinct (map spec_key ?specs)" by (simp add: two_group_specs(3,4))
  have free: "\<forall>spec \<in> set ?specs. good_namespace spec \<and> cl_Groups (live_at plain_server empty_store []) (spec_key spec) = None
      \<and> (\<forall>name. cl_Deployments (live_at plain_server empty_store []) (gs_Namespace spec, name) = None)"
    unfolding st using two_group_specs(2) by (simp add: empty_store_def)
  obtain h1 where run: "processNewOperator ?K (typed_controller ?K) two_group_operator [] = (Some None, h1)"
    and stored: "\<forall>spec \<in> set ?specs. group_key (stored_group (live_at plain_server empty_store h1) spec) = spec_key spec
        \<and> cg_Spec (stored_group (live_at plain_server empty_store h1) spec) = spec"
    and all: "\<forall>Ks T ws. ws = zip Ks (map (group_job (live_at plain_server empty_store h1)) ?specs) \<longrightarrow> length Ks = length ?specs \<longrightarrow>
        (\<forall>K' \<in> set Ks. controller_ref_laws K' \<and> not_found_law K' \<and> list_all (complete_spec K') ?specs) \<longrightarrow>
        disjoint_jobs ws \<longrightarrow> execution plain_server (live_at plain_server empty_store h1) T (map (\<lambda>(K, j). (K, run_job j K)) ws) \<longrightarrow>
        (\<forall>i < length ?specs. running (Ks ! i) (live_at plain_server (live_at plain_server empty_store h1) (map snd T))
           (stored_group (live_at plain_server empty_store h1) (?specs ! i)))"
    using operator_rollout [OF live_k8s_laws plain_admission ok two_group_specs(1) distinct free] by blast
  define st1 where "st1 = live_at plain_server empty_store h1"
  define cg where "cg spec = snd (IsComputeGroupCreated (stored_group st1 spec))" for spec
  have cg: "om_Name (cg_Meta (cg spec)) = gs_Name spec \<and> om_Namespace (cg_Meta (cg spec)) = ''default'' \<and> cg_Spec (cg spec) = spec"
    if "spec = sample_group_spec \<or> spec = second_spec" for spec
    using stored that IsComputeGroupCreated_fields
    by (auto simp: cg_def st1_def [symmetric] group_key_def spec_key_def second_spec_def sample_group_spec_def)
  have job: "group_job st1 spec = SyncGroup (cg spec)" for spec by (simp add: group_job_def cg_def)
  define K1 where "K1 = live_k8s st1"
  define h1' where "h1' = snd (run_job (SyncGroup (cg second_spec)) K1 [])"
  define K0 where "K0 = server_k8s (switch_states (live_at plain_server st1) h1')"
  define h0 where "h0 = snd (run_job (SyncGroup (cg sample_group_spec)) K0 [])"
  let ?T = "switch_schedule h0 h1'" and ?ws = "[(K0, SyncGroup (cg sample_group_spec)), (K1, SyncGroup (cg second_spec))]"
  have complete: "list_all (complete_spec K0) ?specs" "list_all (complete_spec K1) ?specs"
    unfolding K0_def K1_def live_k8s_def by (rule two_specs_complete)+
  have "\<exists>plan. group_plan K0 (cg sample_group_spec) = Some plan"
    using cg [of sample_group_spec] complete(1) by (intro complete_spec_plan) (auto simp: sample_group_spec_def)
  then obtain plan where plan: "group_plan K0 (cg sample_group_spec) = Some plan" by blast
  note exec = switch_execution [OF K1_def h1'_def K0_def h0_def plan]
  have names: "gs_Name sample_group_spec = ''groupp1''" "gs_Name second_spec = ''groupp2''"
    by (simp_all add: second_spec_def sample_group_spec_def)
  have "apart (job_footprint (SyncGroup (cg sample_group_spec))) (job_footprint (SyncGroup (cg second_spec)))"
    using two_specs [of "cg sample_group_spec" sample_group_spec] two_specs [of "cg second_spec" second_spec] cg
    by (auto simp: apart_def group_key_def names)
  then have disjoint: "disjoint_jobs ?ws"
    by (auto simp: disjoint_jobs_def less_Suc_eq apart_def)
  have "?ws = zip [K0, K1] (map (group_job st1) ?specs)" by (simp add: job)
  moreover have "\<forall>K' \<in> set [K0, K1]. controller_ref_laws K' \<and> not_found_law K' \<and> list_all (complete_spec K') ?specs"
    using complete server_k8s_laws live_k8s_laws by (simp add: K0_def K1_def)
  ultimately have up: "\<forall>i < length ?specs. running ([K0, K1] ! i) (live_at plain_server st1 (map snd ?T)) (stored_group st1 (?specs ! i))"
    using all [folded st1_def, rule_format, of ?ws "[K0, K1]" ?T, OF _ _ _ disjoint exec] by fastforce
  have exec': "execution plain_server st1 ?T (map (\<lambda>(K, j). (K, run_job j K))
      [(K0, group_job st1 sample_group_spec), (K1, group_job st1 second_spec)])"
    unfolding job by (rule exec)
  show ?thesis
  proof (intro exI conjI)
    show "running K0 (live_at plain_server st1 (map snd ?T)) (stored_group st1 sample_group_spec)"
      using up [rule_format, of 0] by simp
    show "running K1 (live_at plain_server st1 (map snd ?T)) (stored_group st1 second_spec)"
      using up [rule_format, of 1] by simp
  qed (rule run st1_def exec')+
qed

end
