(* ===== verification/Status_Convergence.thy ===== *)
theory Status_Convergence
  imports Group_Check
begin

text \<open>
  What a turn of the group worker makes of the status of its group.  A turn records at most one set
  (\<open>one_status_per_synchronisation\<close>), and a turn that takes out what is gone records none;
  \<open>turned_group\<close> is the group that it leaves.  A group is queued by its addition only, and its item is
  never queued again, so a run of the operator gives a group one turn.  The next one comes with the next
  start of the operator, whose informer lists the stored groups and adds each of them once.  The last
  part says what many starts come to: two turns after something has gone the status names nothing
  that is gone, and then each turn records one more set until all are listed.
\<close>

section \<open>Turns\<close>

text \<open>
  One turn for the group as it is stored under a name, which is the item of the addition that a start of
  the operator sees; and \<open>n\<close> such turns, those of \<open>n\<close> starts.
\<close>

definition turn :: "k8s \<Rightarrow> api_server \<Rightarrow> cluster_store \<Rightarrow> store_key \<Rightarrow> call list \<Rightarrow> call list" where
  "turn K A st0 key h = (case cl_Groups (live_at A st0 h) key of None \<Rightarrow> h | Some cg \<Rightarrow> snd (group_turn K cg h))"

primrec turns :: "nat \<Rightarrow> k8s \<Rightarrow> api_server \<Rightarrow> cluster_store \<Rightarrow> store_key \<Rightarrow> call list \<Rightarrow> call list" where
  "turns 0 K A st0 key h = h"
| "turns (Suc n) K A st0 key h = turns n K A st0 key (turn K A st0 key h)"

section \<open>Entries of the status\<close>

definition entry :: "planned \<Rightarrow> string \<times> bool" where
  "entry p = (object_key (fst (plan_key p)) (snd (plan_key p)), snd (snd p))"

fun listed :: "DatafuseComputeGroup \<Rightarrow> string \<times> bool \<Rightarrow> bool" where
  "listed cg (key, l) = (if l
     then map_get (gst_ReadyComputeLeaders (cg_Status cg)) key = Some ComputeInstanceReadyState
       \<and> gst_Status (cg_Status cg) = ComputeGroupDeployed
     else map_get (gst_ReadyComputeWorkers (cg_Status cg)) key = Some ComputeInstanceReadyState)"

lemma map_put_same: "map_get m k = Some v \<Longrightarrow> map_put k v m = m"
  by (cases m) (simp_all add: map_put_def update_triv)

lemma status_write_same: "status_write cg key l = cg \<longleftrightarrow> listed cg (key, l)"
proof
  assume "status_write cg key l = cg"
  then have "cg_Status (status_write cg key l) = cg_Status cg" by simp
  with status_write_fields(1,2,3) [of cg key l] show "listed cg (key, l)"
    by (cases l) (metis listed.simps)+
next
  assume "listed cg (key, l)"
  then show "status_write cg key l = cg"
    by (auto simp: status_write_def group_status_copy_def Let_def map_put_same split: if_splits)
qed

lemma listed_status_write: "e = (key, l) \<or> listed cg e \<Longrightarrow> listed (status_write cg key l) e"
  by (cases e) (auto simp: status_write_fields split: if_splits)

lemma status_keys_write: "status_keys (status_write cg key l) \<subseteq> insert key (status_keys cg)"
  by (auto simp: status_keys_def map_keys_iff status_write_fields split: if_splits)

section \<open>A plan does not depend on the status and the version of its group\<close>

definition same_group :: "DatafuseComputeGroup \<Rightarrow> DatafuseComputeGroup \<Rightarrow> bool" where
  "same_group cg cg' \<longleftrightarrow> cg_Spec cg' = cg_Spec cg
     \<and> om_Name (cg_Meta cg') = om_Name (cg_Meta cg) \<and> om_Namespace (cg_Meta cg') = om_Namespace (cg_Meta cg)
     \<and> om_Labels (cg_Meta cg') = om_Labels (cg_Meta cg) \<and> om_UID (cg_Meta cg') = om_UID (cg_Meta cg)"

lemma same_group_names: "same_group cg cg' \<Longrightarrow> worker_sets cg' i ws = worker_sets cg i ws"
  "same_group cg cg' \<Longrightarrow> leader_name cg' = leader_name cg" "same_group cg cg' \<Longrightarrow> group_key cg' = group_key cg"
  by (induction ws arbitrary: i) (simp_all add: same_group_def worker_name_def leader_name_def group_key_def)

lemma desired_same: "same_group cg cg' \<Longrightarrow> desired_deployment K cg' cs name l = None \<longleftrightarrow> desired_deployment K cg cs name l = None"
  by (simp add: desired_deployment_def same_group_def GetComputeGroupKeys_def split: sum.split)

abbreviation plan_template :: "planned \<Rightarrow> PodTemplateSpec" where
  "plan_template p \<equiv> ds_Template (dep_Spec (fst (snd p)))"

lemma desired_same_template:
  assumes "same_group cg cg'" and "desired_deployment K cg cs name l = Some d" and "desired_deployment K cg' cs name l = Some d'"
  shows "ds_Template (dep_Spec d') = ds_Template (dep_Spec d)"
proof -
  have "GetComputeGroupKeys cg' = GetComputeGroupKeys cg" "om_Namespace (cg_Meta cg') = om_Namespace (cg_Meta cg)"
    using assms(1) by (simp_all add: same_group_def GetComputeGroupKeys_def)
  with assms(2,3) show ?thesis by (auto simp: desired_deployment_def AddDeployOwnership_meta split: sum.splits)
qed

lemma owned_same: "controller_ref_laws K \<Longrightarrow> same_group cg cg' \<Longrightarrow> owned K cg' d = owned K cg d"
  by (simp add: owned_def controller_ref_lawsD same_group_def split: option.split)

lemma planned_sets_same:
  assumes "same_group cg cg'" and "map (planned_set K cg l) xs = map Some ps"
  shows "\<exists>ps'. those (map (planned_set K cg' l) xs) = Some ps' \<and> map entry ps' = map entry ps \<and> map plan_key ps' = map plan_key ps
    \<and> map plan_template ps' = map plan_template ps"
  using assms(2)
proof (induction xs arbitrary: ps)
  case (Cons x xs)
  obtain cs name where x: "x = (cs, name)" by (cases x)
  from Cons.prems obtain p ps0 where p: "ps = p # ps0" "planned_set K cg l x = Some p" "map (planned_set K cg l) xs = map Some ps0"
    by (cases ps) auto
  then obtain d where d: "desired_deployment K cg cs name l = Some d" "p = (cs, d, l)"
    by (auto simp: planned_set_def x)
  then obtain d' where d': "desired_deployment K cg' cs name l = Some d'"
    using desired_same [OF assms(1), of K cs name l] by auto
  have "plan_key (cs, d', l) = plan_key p"
    using plan_key_desired [OF d(1)] plan_key_desired [OF d'] d(2) assms(1) by (simp add: same_group_def)
  moreover have "planned_set K cg' l x = Some (cs, d', l)" by (simp add: planned_set_def x d')
  moreover have "plan_template (cs, d', l) = plan_template p" using desired_same_template [OF assms(1) d(1) d'] d(2) by simp
  ultimately show ?case using Cons.IH [OF p(3)] p(1) d(2) by (auto simp: entry_def)
qed simp

lemma group_plan_same:
  assumes "same_group cg cg'" and "group_plan K cg = Some plan"
  shows "\<exists>plan'. group_plan K cg' = Some plan' \<and> map entry plan' = map entry plan \<and> map plan_key plan' = map plan_key plan
    \<and> map plan_template plan' = map plan_template plan"
proof -
  from assms(2) obtain ls ws d ps where sets: "gs_ComputeLeaders (cg_Spec cg) = Some ls"
      "elems (gs_ComputeWorkers (cg_Spec cg)) = map Some ws"
    and d: "desired_deployment K cg ls (set_name ls (leader_name cg)) True = Some d"
    and ps: "those (map (planned_set K cg False) (worker_sets cg 0 ws)) = Some ps" and plan: "plan = (ls, d, True) # ps"
    by (rule group_planE)
  have ws: "those (map Some ws) = Some ws" by (induction ws) auto
  have "map (planned_set K cg True) [(ls, set_name ls (leader_name cg))] = map Some [(ls, d, True)]"
    by (simp add: planned_set_def d)
  from planned_sets_same [OF assms(1) this] obtain p' where p': "planned_set K cg' True (ls, set_name ls (leader_name cg)) = Some p'"
    "entry p' = entry (ls, d, True)" "plan_key p' = plan_key (ls, d, True)" "plan_template p' = plan_template (ls, d, True)"
    by (auto split: option.splits)
  obtain ps' where ps': "those (map (planned_set K cg' False) (worker_sets cg 0 ws)) = Some ps'"
    "map entry ps' = map entry ps" "map plan_key ps' = map plan_key ps" "map plan_template ps' = map plan_template ps"
    using planned_sets_same [OF assms(1) those_map [OF ps]] by blast
  have spec: "cg_Spec cg' = cg_Spec cg" using assms(1) by (simp add: same_group_def)
  have "group_plan K cg' = Some (p' # ps')"
    unfolding group_plan_def spec sets same_group_names [OF assms(1)] ws bind.bind_lunit by (simp only: bind.bind_lunit p'(1) ps'(1))
  with p' ps' plan show ?thesis by simp
qed

section \<open>One turn\<close>

text \<open>
  A group that is followed: it is stored as it is, and has a plan whose deployments are missing or its
  own.  Its status may name deployments that are gone.
\<close>

definition followed :: "k8s \<Rightarrow> cluster_store \<Rightarrow> DatafuseComputeGroup \<Rightarrow> planned list \<Rightarrow> bool" where
  "followed K st cg plan \<longleftrightarrow> cl_Groups st (group_key cg) = Some cg \<and> store_ok st \<and> CHR ''/'' \<notin> set (om_Namespace (cg_Meta cg))
     \<and> slashed cg \<and> group_plan K cg = Some plan \<and> (\<forall>p \<in> set plan. recordable K cg st p)"

definition next_status :: "api_server \<Rightarrow> (string \<times> bool) list \<Rightarrow> DatafuseComputeGroup \<Rightarrow> DatafuseComputeGroup" where
  "next_status A es cg = (case find (\<lambda>e. \<not> listed cg e) es of None \<Rightarrow> cg
     | Some e \<Rightarrow> versioned A (status_write cg (fst e) (snd e)))"

lemma recorded_entry: "recorded cg p = status_write cg (fst (entry p)) (snd (entry p))"
  by (simp add: recorded_def entry_def)

lemma find_map_entry: "find (\<lambda>e. \<not> listed cg e) (map entry ps) = map_option entry (find (\<lambda>p. recorded cg p \<noteq> cg) ps)"
  by (induction ps) (auto simp: recorded_entry status_write_same)

lemma find_all: "\<forall>x \<in> set xs. P x \<Longrightarrow> find (\<lambda>x. P x \<and> Q x) xs = find Q xs"
  by (induction xs) auto

lemma first_recorded_next:
  assumes "\<forall>p \<in> set plan. recordable K cg st p"
  shows "first_recorded K A cg plan st cg = next_status A (map entry plan) cg"
  using find_all [OF assms] by (simp add: first_recorded_def next_status_def find_map_entry recorded_entry split: option.split)

text \<open>A group that is new gets the entry of its leaders and with it the state that it is deployed.\<close>

lemma first_recorded_created:
  assumes "IsComputeGroupCreated cg = (True, cg')" and "plan = p # ps" and "snd (snd p)" and "recordable K cg' st p"
  shows "first_recorded K A cg' plan st cg = next_status A (map entry plan) cg"
proof -
  have state: "gst_Status (cg_Status cg) \<noteq> ComputeGroupDeployed"
    using assms(1) by (auto simp: IsComputeGroupCreated_def Let_def state_defs split: if_splits)
  have "recorded cg' p = recorded cg p"
    using assms(1,3) by (auto simp: IsComputeGroupCreated_def Let_def recorded_def status_write_def group_status_copy_def state_defs split: if_splits)
  moreover have "\<not> listed cg (entry p)" using state assms(3) by (simp add: entry_def)
  moreover from this have "recorded cg p \<noteq> cg"
    using status_write_same [of cg "fst (entry p)" "snd (entry p)"] by (simp add: recorded_entry)
  ultimately show ?thesis
    using assms(2,4) state by (simp add: first_recorded_def next_status_def find_map_entry recorded_entry)
qed

lemma versioned_fields: "cg_Status (versioned A cg) = cg_Status cg" "same_group cg (versioned A cg)"
  by (simp_all add: versioned_def same_group_def)

lemma next_status_same: "same_group cg (next_status A es cg)"
proof (cases "find (\<lambda>e. \<not> listed cg e) es")
  case (Some e)
  then show ?thesis
    by (simp add: next_status_def same_group_def versioned_def status_write_fields)
qed (simp add: next_status_def same_group_def)

lemma next_status_keys: "status_keys (next_status A es cg) \<subseteq> status_keys cg \<union> fst ` set es"
proof (cases "find (\<lambda>e. \<not> listed cg e) es")
  case (Some e)
  then have "e \<in> set es" by (auto simp: find_Some_iff)
  moreover have "status_keys (next_status A es cg) \<subseteq> insert (fst e) (status_keys cg)"
    using status_keys_write by (simp add: next_status_def Some status_keys_def versioned_fields)
  ultimately show ?thesis by auto
qed (simp add: next_status_def)

lemma planned_exist:
  "cl_Deployments st key \<noteq> None \<or> key \<in> plan_key ` set plan \<Longrightarrow> cl_Deployments (fold (sync_set K A cg) plan st) key \<noteq> None"
  by (induction plan arbitrary: st) (auto simp: sync_set_fields)

lemma recordable_same: "controller_ref_laws K \<Longrightarrow> same_group cg cg' \<Longrightarrow> plan_key p = plan_key q \<Longrightarrow> recordable K cg' st p = recordable K cg st q"
  by (simp add: recordable_def owned_same split: option.split)

lemma slashed_iff: "slashed cg \<longleftrightarrow> (\<forall>key \<in> status_keys cg. CHR ''/'' \<in> set key)"
  by (auto simp: slashed_def status_keys_def list_all_iff)

text \<open>
  Any turn leaves a group that is followed, with a status of its keys and those of its plan; what was
  stored for its plan is there and its own.
\<close>

lemma followed_turn:
  assumes "controller_ref_laws K" and "admission_law A" and "followed K st cg plan"
    and cg1: "cg_Meta cg1 = cg_Meta cg" "cg_Spec cg1 = cg_Spec cg"
    and st1: "cl_Deployments st1 = cl_Deployments st" "store_ok st1"
    and next_group: "cl_Groups (fold (sync_set K A cg1) plan st1) (group_key cg) = Some cg'" "same_group cg cg'"
      "status_keys cg' \<subseteq> status_keys cg \<union> fst ` set (map entry plan)"
  shows "\<exists>plan'. followed K (fold (sync_set K A cg1) plan st1) cg' plan' \<and> map entry plan' = map entry plan"
    and "any_gone (fold (sync_set K A cg1) plan st1) cg' \<Longrightarrow> any_gone st cg"
proof -
  let ?st = "fold (sync_set K A cg1) plan st1"
  note f = assms(3) [unfolded followed_def]
  have plan: "group_plan K cg1 = Some plan" using group_plan_status [OF cg1] f by simp
  obtain plan' where plan': "group_plan K cg' = Some plan'" "map entry plan' = map entry plan" "map plan_key plan' = map plan_key plan"
    using group_plan_same [OF next_group(2), of K plan] f by auto
  have deps: "cl_Deployments ?st key \<noteq> None" if "cl_Deployments st key \<noteq> None \<or> key \<in> plan_key ` set plan" for key
    using planned_exist that st1(1) by metis
  have recordable: "recordable K cg' ?st q" if "q \<in> set plan'" for q
  proof -
    have "plan_key q \<in> set (map plan_key plan)" using that plan'(3) by (metis imageI set_map)
    then obtain p where p: "p \<in> set plan" "plan_key q = plan_key p" by auto
    have "recordable K cg1 st p"
      using f p(1) recordable_same [OF assms(1), of cg cg1 p p st] cg1 by (simp add: same_group_def)
    then have "recordable K cg1 ?st p"
      using recordable_plan [OF assms(1,2) plan subset_refl] st1(1) by (simp add: recordable_def)
    then show ?thesis
      using recordable_same [OF assms(1) _ p(2), of cg1 cg'] next_group(2) cg1 by (simp add: same_group_def)
  qed
  have entries: "CHR ''/'' \<in> set (fst (entry p)) \<and> key_name (fst (entry p)) = plan_key p" if "p \<in> set plan" for p
  proof -
    have "fst (plan_key p) = om_Namespace (cg_Meta cg)"
      using group_plan_desired [OF plan that] desired_deployment_meta(2) cg1 by (fastforce simp: plan_key_def)
    moreover have "SplitN2 (object_key (om_Namespace (cg_Meta cg)) (snd (plan_key p))) (CHR ''/'') = [om_Namespace (cg_Meta cg), snd (plan_key p)]"
      using f by (intro object_key_split) simp
    ultimately show ?thesis by (simp add: entry_def key_name_def prod_eq_iff)
  qed
  have keys: "key \<in> status_keys cg \<or> (\<exists>p \<in> set plan. key = fst (entry p))" if "key \<in> status_keys cg'" for key
    using next_group(3) that by auto
  have "slashed cg'"
    using keys entries f slashedD [of cg] unfolding slashed_iff by metis
  then show "\<exists>plan'. followed K ?st cg' plan' \<and> map entry plan' = map entry plan"
    using next_group plan' recordable store_ok_plan [OF assms(2) st1(2)] f same_group_names(3) [OF next_group(2)]
    by (intro exI [of _ plan']) (simp add: followed_def same_group_def)
  assume "any_gone ?st cg'"
  then obtain key where key: "key \<in> status_keys cg'" "gone ?st key" by (auto simp: any_gone_iff)
  with keys show "any_gone st cg"
    using key(2) deps entries unfolding any_gone_iff gone_def by (metis imageI)
qed

text \<open>The entries that a group's status lacks, and what is left to do for it.\<close>

definition unlisted :: "planned list \<Rightarrow> DatafuseComputeGroup \<Rightarrow> (string \<times> bool) list" where
  "unlisted plan cg = filter (\<lambda>e. \<not> listed cg e) (map entry plan)"

definition remaining :: "cluster_store \<Rightarrow> planned list \<Rightarrow> DatafuseComputeGroup \<Rightarrow> nat" where
  "remaining st plan cg = (if any_gone st cg then length plan + (if fst (IsComputeGroupCreated cg) then 2 else 1)
     else length (unlisted plan cg))"

lemma unlisted_next:
  assumes "map entry plan' = map entry plan"
  shows "length (unlisted plan' (next_status A (map entry plan) cg)) \<le> length (unlisted plan cg) - 1"
proof (cases "find (\<lambda>e. \<not> listed cg e) (map entry plan)")
  case None
  then have "unlisted plan cg = []" by (auto simp: unlisted_def find_None_iff filter_empty_conv)
  with None show ?thesis by (simp add: unlisted_def assms next_status_def)
next
  case (Some e)
  define cg' where "cg' = next_status A (map entry plan) cg"
  have e: "e \<in> set (map entry plan)" "\<not> listed cg e" using Some by (auto simp: find_Some_iff)
  have status: "cg_Status cg' = cg_Status (status_write cg (fst e) (snd e))"
    by (simp add: cg'_def next_status_def Some versioned_fields)
  have "listed cg' = listed (status_write cg (fst e) (snd e))"
    by (rule ext, rename_tac x, case_tac x) (simp add: status)
  then have kept: "listed cg' x" if "x = e \<or> listed cg x" for x
    using that listed_status_write [of x "fst e" "snd e" cg] by simp
  have kept': "filter (\<lambda>x. \<not> listed cg' x) es = filter (\<lambda>x. \<not> listed cg' x) (filter (\<lambda>x. \<not> listed cg x \<and> x \<noteq> e) es)" for es
    unfolding filter_filter by (rule filter_cong) (use kept in blast)+
  have "length (unlisted plan' cg') \<le> length (filter (\<lambda>x. \<not> listed cg x \<and> x \<noteq> e) (map entry plan))"
    unfolding unlisted_def assms kept' [of "map entry plan"] by (rule length_filter_le)
  also have "\<dots> = length (filter (\<lambda>x. x \<noteq> e) (unlisted plan cg))"
    by (simp add: unlisted_def conj_commute)
  also have "\<dots> < length (unlisted plan cg)"
    by (rule length_filter_less [of e]) (use e in \<open>simp_all add: unlisted_def\<close>)
  finally show ?thesis by (simp add: cg'_def)
qed

lemma unlisted_all: "unlisted plan cg = [] \<Longrightarrow> next_status A (map entry plan) cg = cg"
  by (simp add: unlisted_def next_status_def filter_empty_conv find_None_iff [THEN iffD2])

lemma unlisted_length: "map entry plan' = map entry plan \<Longrightarrow> length (unlisted plan' cg) \<le> length plan"
  by (metis length_filter_le length_map unlisted_def)

text \<open>A turn that finds nothing gone, or a new group, adds the first entry of the plan that is not listed.\<close>

lemma turn_records:
  assumes "controller_ref_laws K" and "admission_law A" and "followed K st cg plan"
    and "fst (IsComputeGroupCreated cg) \<or> \<not> any_gone st cg"
  shows "\<exists>cg1. turn_effect K A cg st = fold (sync_set K A cg1) plan st \<and> cg_Meta cg1 = cg_Meta cg \<and> cg_Spec cg1 = cg_Spec cg
    \<and> cl_Groups (turn_effect K A cg st) (group_key cg) = Some (next_status A (map entry plan) cg)"
proof -
  note f = assms(3) [unfolded followed_def]
  have "\<exists>cg1. turn_effect K A cg st = fold (sync_set K A cg1) plan st \<and> cg_Meta cg1 = cg_Meta cg \<and> cg_Spec cg1 = cg_Spec cg
      \<and> group_plan K cg1 = Some plan \<and> first_recorded K A cg1 plan st cg = next_status A (map entry plan) cg"
  proof (rule IsComputeGroupCreated_cases [of cg])
    assume old: "IsComputeGroupCreated cg = (False, cg)"
    then have "check_group A cg st = st" using check_group_stored [of st cg A] assms(4) f by simp
    with old first_recorded_next [of plan K cg st A] f show ?thesis
      by (intro exI [of _ cg]) (simp add: turn_effect_def)
  next
    fix cg' assume new: "IsComputeGroupCreated cg = (True, cg')" "cg_Meta cg' = cg_Meta cg" "cg_Spec cg' = cg_Spec cg"
    from f obtain p ps where p: "plan = p # ps" "snd (snd p)" by (elim conjE group_planE) auto
    have "recordable K cg' st p"
      using f p(1) recordable_same [OF assms(1), of cg cg' p p st] new by (simp add: same_group_def)
    from first_recorded_created [OF new(1) p(1,2) this] new group_plan_status [OF new(2,3), of K] f show ?thesis
      by (intro exI [of _ cg']) (simp add: turn_effect_def)
  qed
  then obtain cg1 where cg1: "turn_effect K A cg st = fold (sync_set K A cg1) plan st" "cg_Meta cg1 = cg_Meta cg"
    "cg_Spec cg1 = cg_Spec cg" "group_plan K cg1 = Some plan" "first_recorded K A cg1 plan st cg = next_status A (map entry plan) cg" by blast
  then show ?thesis
    using plan_groups [OF assms(1,2) cg1(4) subset_refl, of st cg] f by (intro exI [of _ cg1]) (simp add: group_key_def)
qed

text \<open>A turn that finds something gone takes it out; the entries of the same turn are lost to conflicts.\<close>

lemma turn_prunes:
  assumes "controller_ref_laws K" and "admission_law A" and "followed K st cg plan"
    and "\<not> fst (IsComputeGroupCreated cg)" and "any_gone st cg"
  shows "turn_effect K A cg st = fold (sync_set K A cg) plan (check_group A cg st)"
    and "cl_Groups (turn_effect K A cg st) (group_key cg) = Some (versioned A (pruned st cg))"
proof -
  note f = assms(3) [unfolded followed_def]
  have "IsComputeGroupCreated cg = (False, cg)" using assms(4) by (cases rule: IsComputeGroupCreated_cases [of cg]) auto
  then show turn: "turn_effect K A cg st = fold (sync_set K A cg) plan (check_group A cg st)"
    using f by (simp add: turn_effect_def)
  have "\<not> never_ready cg"
    using assms(5) by (auto simp: any_gone_def never_ready_def map_keys_def)
  then have stored: "cl_Groups (check_group A cg st) (group_key cg) = Some (versioned A (pruned st cg))"
    using check_group_stored [of st cg A] assms(5) f by simp
  moreover have "om_ResourceVersion (cg_Meta (versioned A (pruned st cg))) \<noteq> om_ResourceVersion (cg_Meta cg)"
    by (simp add: versioned_def admissionD [OF assms(2)])
  ultimately have "cl_Groups (fold (sync_set K A cg) plan (check_group A cg st)) = cl_Groups (check_group A cg st)"
    using plan_groups_stale [OF assms(1,2) _ subset_refl] f by blast
  with stored show "cl_Groups (turn_effect K A cg st) (group_key cg) = Some (versioned A (pruned st cg))"
    by (simp add: turn)
qed

text \<open>The group that a turn leaves.\<close>

definition turned_group :: "api_server \<Rightarrow> cluster_store \<Rightarrow> planned list \<Rightarrow> DatafuseComputeGroup \<Rightarrow> DatafuseComputeGroup" where
  "turned_group A st plan cg = (if \<not> fst (IsComputeGroupCreated cg) \<and> any_gone st cg then versioned A (pruned st cg)
     else next_status A (map entry plan) cg)"

lemma turned_group_stored:
  assumes "controller_ref_laws K" and "admission_law A" and "followed K st cg plan"
  shows "cl_Groups (turn_effect K A cg st) (group_key cg) = Some (turned_group A st plan cg)"
  using turn_records [OF assms] turn_prunes(2) [OF assms] by (auto simp: turned_group_def)

lemma turned_group_owners: "om_OwnerReferences (cg_Meta (turned_group A st plan cg)) = om_OwnerReferences (cg_Meta cg)"
  by (simp add: turned_group_def next_status_def versioned_def pruned_def status_write_fields split: option.split)

lemma turned_group_spec: "cg_Spec (turned_group A st plan cg) = cg_Spec cg"
  by (simp add: turned_group_def next_status_def versioned_def pruned_def status_write_fields split: option.split)

text \<open>The first turn of a new group lists the leaders.\<close>

lemma turned_new_group:
  assumes "never_ready cg" and "group_plan K cg = Some plan"
  shows "listed (turned_group A st plan cg) (entry (hd plan))"
    and "status_keys (turned_group A st plan cg) = {fst (entry (hd plan))}"
proof -
  obtain p ps where p: "plan = p # ps" "snd (snd p)" using group_plan_flags [OF assms(2)] by (cases plan) auto
  have "\<not> any_gone st cg" "status_keys cg = {}"
    using assms(1) by (auto simp: never_ready_def any_gone_def status_keys_def map_keys_def)
  moreover have "\<not> listed cg (entry p)" using assms(1) p(2) by (simp add: entry_def never_ready_def)
  ultimately have turned: "turned_group A st plan cg = versioned A (status_write cg (fst (entry p)) True)"
    using p by (simp add: turned_group_def next_status_def entry_def)
  show "listed (turned_group A st plan cg) (entry (hd plan))"
    unfolding turned using p by (simp add: entry_def versioned_fields status_write_fields)
  show "status_keys (turned_group A st plan cg) = {fst (entry (hd plan))}"
    unfolding turned using p assms(1)
    by (auto simp: status_keys_def versioned_fields map_keys_iff status_write_fields never_ready_def split: if_splits)
qed

lemma versioned_pruned: "same_group cg (versioned A (pruned st cg))"
  "status_keys (versioned A (pruned st cg)) = {key \<in> status_keys cg. \<not> gone st key}"
  by (simp_all add: same_group_def versioned_def status_keys_pruned [symmetric])
    (simp add: status_keys_def)

lemma deployed_not_created: "gst_Status (cg_Status cg) = ComputeGroupDeployed \<Longrightarrow> \<not> fst (IsComputeGroupCreated cg)"
  by (auto simp: IsComputeGroupCreated_def Let_def state_defs)

lemma turn_progress:
  assumes "controller_ref_laws K" and "admission_law A" and followed: "followed K st cg plan"
  shows "\<exists>cg' plan'. followed K (turn_effect K A cg st) cg' plan' \<and> map entry plan' = map entry plan \<and> same_group cg cg'
    \<and> status_keys cg' \<subseteq> status_keys cg \<union> fst ` set (map entry plan)
    \<and> remaining (turn_effect K A cg st) plan' cg' \<le> remaining st plan cg - 1 \<and> (remaining st plan cg = 0 \<longrightarrow> cg' = cg)"
proof (cases "fst (IsComputeGroupCreated cg) \<or> \<not> any_gone st cg")
  case True
  let ?st = "turn_effect K A cg st" and ?next = "next_status A (map entry plan) cg"
  have ok: "store_ok st" using followed by (simp add: followed_def)
  obtain cg1 where t: "?st = fold (sync_set K A cg1) plan st" "cg_Meta cg1 = cg_Meta cg" "cg_Spec cg1 = cg_Spec cg"
    "cl_Groups ?st (group_key cg) = Some ?next"
    using turn_records [OF assms True] by blast
  note after = followed_turn [OF assms t(2,3) refl ok t(4) [unfolded t(1)] next_status_same next_status_keys, folded t(1)]
  obtain plan' where plan': "followed K ?st ?next plan'" "map entry plan' = map entry plan" using after(1) by blast
  have len: "length plan' = length plan" using plan'(2) by (metis length_map)
  have "remaining ?st plan' ?next \<le> remaining st plan cg - 1"
  proof (cases "any_gone st cg")
    case True
    then have new: "fst (IsComputeGroupCreated cg)" using \<open>_ \<or> _\<close> by blast
    then have "gst_Status (cg_Status cg) \<noteq> ComputeGroupDeployed" using deployed_not_created by blast
    moreover obtain p ps where p: "plan = p # ps" "snd (snd p)"
      using followed by (auto simp: followed_def elim!: group_planE)
    ultimately have "gst_Status (cg_Status ?next) = ComputeGroupDeployed"
      by (simp add: next_status_def entry_def versioned_fields status_write_fields)
    from deployed_not_created [OF this] True new unlisted_length [OF plan'(2), of ?next] len show ?thesis
      by (simp add: remaining_def)
  next
    case False
    with after(2) have "\<not> any_gone ?st ?next" by blast
    with False unlisted_next [OF plan'(2), of A cg] show ?thesis by (simp add: remaining_def)
  qed
  moreover have "?next = cg" if "remaining st plan cg = 0"
    using that by (intro unlisted_all) (simp add: remaining_def split: if_splits)
  ultimately show ?thesis using plan' next_status_same next_status_keys [of A "map entry plan" cg]
    by (intro exI [of _ ?next] exI [of _ plan']) simp
next
  case False
  then have old: "\<not> fst (IsComputeGroupCreated cg)" "any_gone st cg" by auto
  let ?st = "turn_effect K A cg st" and ?next = "versioned A (pruned st cg)"
  have ok: "store_ok (check_group A cg st)" using followed by (intro store_ok_check) (simp add: followed_def)
  note t = turn_prunes [OF assms old]
  have keys: "status_keys ?next \<subseteq> status_keys cg \<union> fst ` set (map entry plan)" by (auto simp: versioned_pruned(2))
  from followed_turn(1) [OF assms refl refl check_group_others(1) ok t(2) [unfolded t(1)] versioned_pruned(1) this, folded t(1)]
  obtain plan' where plan': "followed K ?st ?next plan'" "map entry plan' = map entry plan" by blast
  have "gone st key" if "gone ?st key" for key
    using that planned_exist [of "check_group A cg st" "key_name key" plan K A cg] unfolding gone_def t(1) check_group_others by blast
  then have "\<not> any_gone ?st ?next" by (auto simp: any_gone_iff versioned_pruned(2))
  with old unlisted_length [OF plan'(2), of ?next] plan' versioned_pruned(1) keys show ?thesis
    by (intro exI [of _ ?next] exI [of _ plan']) (simp add: remaining_def)
qed

section \<open>Properties\<close>

lemma turn_followed:
  assumes "live K A st0" and "controller_ref_laws K" and "not_found_law K" and "admission_law A" and "range_law K"
    and "followed K (live_at A st0 h) cg plan"
  shows "live_at A st0 (turn K A st0 (group_key cg) h) = turn_effect K A cg (live_at A st0 h)"
proof -
  note f = assms(6) [unfolded followed_def]
  have "\<exists>new. group_turn K cg h = (Some None, h @ new)
      \<and> live_at A st0 (h @ new) = turn_effect K A cg (live_at A st0 h)"
    by (rule answered_group_turn [OF assms(1) [unfolded live_def] assms(2-5)]) (use f in \<open>auto simp: everything_def\<close>)
  then show ?thesis using f by (auto simp: turn_def)
qed

lemma turns_followed:
  assumes "live K A st0" and "controller_ref_laws K" and "not_found_law K" and "admission_law A" and "range_law K"
    and "followed K (live_at A st0 h) cg plan" and "remaining (live_at A st0 h) plan cg \<le> n"
  shows "\<exists>cg' plan'. followed K (live_at A st0 (turns n K A st0 (group_key cg) h)) cg' plan'
    \<and> map entry plan' = map entry plan \<and> same_group cg cg' \<and> remaining (live_at A st0 (turns n K A st0 (group_key cg) h)) plan' cg' = 0
    \<and> (remaining (live_at A st0 h) plan cg = 0 \<longrightarrow> cg' = cg)"
  using assms(6,7)
proof (induction n arbitrary: h cg plan)
  case 0
  then show ?case by (intro exI [of _ cg] exI [of _ plan]) (simp add: same_group_def)
next
  case (Suc n)
  let ?h = "turn K A st0 (group_key cg) h"
  from turn_progress [OF assms(2,4) Suc.prems(1)] obtain cg1 plan1 where t: "followed K (live_at A st0 ?h) cg1 plan1"
    "map entry plan1 = map entry plan" "same_group cg cg1" "remaining (live_at A st0 ?h) plan1 cg1 \<le> remaining (live_at A st0 h) plan cg - 1"
    "remaining (live_at A st0 h) plan cg = 0 \<longrightarrow> cg1 = cg"
    unfolding turn_followed [OF assms(1-5) Suc.prems(1)] by (elim exE conjE)
  note key = same_group_names(3) [OF t(3)]
  have "remaining (live_at A st0 ?h) plan1 cg1 \<le> n" using t(4) Suc.prems(2) by simp
  from Suc.IH [OF t(1) this] t(2-5) show ?case
    unfolding key by (fastforce simp: same_group_def)
qed

text \<open>The status of a group catches up over the starts of the operator: a group whose status lacks \<open>k\<close> of its sets has all of them, as ready, and the state that it is deployed after \<open>k\<close>
  turns, and when its status names deployments that are gone, after two turns more than it has sets.
  Then its status names nothing that is gone, and from then on no turn changes the group; what it
  asks for is as it was.\<close>

theorem status_catches_up:
  assumes "live K A st0" and "controller_ref_laws K" and "not_found_law K" and "admission_law A" and "range_law K"
    and "followed K (live_at A st0 h) cg plan"
    and "(if any_gone (live_at A st0 h) cg then length plan + 2 else length (unlisted plan cg)) \<le> n"
  shows "\<exists>cg'. cl_Groups (live_at A st0 (turns n K A st0 (group_key cg) h)) (group_key cg) = Some cg'
    \<and> cg_Spec cg' = cg_Spec cg \<and> (\<forall>e \<in> set (map entry plan). listed cg' e)
    \<and> (\<forall>key \<in> status_keys cg'. \<not> gone (live_at A st0 (turns n K A st0 (group_key cg) h)) key)
    \<and> (\<forall>m. cl_Groups (live_at A st0 (turns m K A st0 (group_key cg) (turns n K A st0 (group_key cg) h))) (group_key cg) = Some cg')"
proof -
  let ?h = "turns n K A st0 (group_key cg) h"
  have "remaining (live_at A st0 h) plan cg \<le> n" using assms(7) by (auto simp: remaining_def split: if_splits)
  from turns_followed [OF assms(1-6) this] obtain cg' plan' where cg': "followed K (live_at A st0 ?h) cg' plan'"
    "map entry plan' = map entry plan" "same_group cg cg'" "remaining (live_at A st0 ?h) plan' cg' = 0"
    by blast
  have key: "group_key cg' = group_key cg" by (rule same_group_names(3) [OF cg'(3)])
  have later: "cl_Groups (live_at A st0 (turns m K A st0 (group_key cg) ?h)) (group_key cg) = Some cg'" for m
    using turns_followed [OF assms(1-5) cg'(1), of m] cg'(4) key by (auto simp: followed_def)
  have "\<not> any_gone (live_at A st0 ?h) cg'" "unlisted plan' cg' = []"
    using cg'(4) by (auto simp: remaining_def split: if_splits)
  then have "\<forall>key \<in> status_keys cg'. \<not> gone (live_at A st0 ?h) key" "\<forall>e \<in> set (map entry plan). listed cg' e"
    unfolding unlisted_def cg'(2) by (auto simp: any_gone_iff filter_empty_conv)
  with later [of 0] later cg'(3) show ?thesis by (auto simp: same_group_def)
qed

text \<open>A group whose status names a deployment that is gone.\<close>

definition stale_group :: DatafuseComputeGroup where
  "stale_group = sample_group\<lparr>cg_Status := (cg_Status sample_group)\<lparr>gst_Status := ComputeGroupDeployed,
     gst_ReadyComputeLeaders := Some [(''default/old-leader'', ComputeInstanceReadyState)], gst_ReadyComputeWorkers := None\<rparr>\<rparr>"

definition stale_store :: cluster_store where
  "stale_store = sample_store\<lparr>cl_Groups := [(''default'', ''groupp1'') \<mapsto> stale_group]\<rparr>"

lemma stale_followed:
  assumes "group_plan (live_k8s stale_store) sample_group = Some plan"
  shows "followed (live_k8s stale_store) stale_store stale_group plan" and "length plan = 3"
proof -
  have same: "cg_Meta stale_group = cg_Meta sample_group" "cg_Spec stale_group = cg_Spec sample_group"
    by (simp_all add: stale_group_def)
  have plan: "group_plan (live_k8s stale_store) stale_group = Some plan" using group_plan_status [OF same] assms by simp
  have key: "group_key stale_group = (''default'', ''groupp1'')" by (simp add: group_key_def same sample_names)
  have "store_ok stale_store" using sample_store_ok by (simp add: store_ok_def stale_store_def live_at_def)
  then show "followed (live_k8s stale_store) stale_store stale_group plan"
    using plan unfolding followed_def key
    by (simp add: recordable_def) (simp add: stale_store_def sample_store_def same sample_names slashed_def stale_group_def map_keys_def)
  show "length plan = 3" using arg_cong [OF sample_plan_keys [OF assms], of length] by simp
qed

lemma stale_gone: "any_gone stale_store stale_group"
  by (simp add: any_gone_def gone_def stale_store_def sample_store_def stale_group_def map_keys_def)

theorem status_catches_up_witness:
  "any_gone stale_store stale_group \<and> (\<exists>cg'. cl_Groups (live_at plain_server stale_store
        (turns 5 (live_k8s stale_store) plain_server stale_store (''default'', ''groupp1'') [])) (''default'', ''groupp1'') = Some cg'
     \<and> listed cg' (''default/groupp1-leader'', True) \<and> listed cg' (''default/groupp1-worker0'', False)
     \<and> listed cg' (''default/groupp1-worker1'', False))"
proof -
  let ?K = "live_k8s stale_store" and ?key = "(''default'', ''groupp1'')"
  obtain plan0 where plan0: "group_plan ?K sample_group = Some plan0" using sample_plan by blast
  note keys = sample_plan_keys [OF plan0]
  have key: "group_key stale_group = ?key" by (simp add: group_key_def stale_group_def sample_names)
  have st: "live_at plain_server stale_store [] = stale_store" by (simp add: live_at_def)
  have "followed ?K (live_at plain_server stale_store []) stale_group plan0"
    unfolding st by (rule stale_followed(1) [OF plan0])
  moreover note stale_followed(2) [OF plan0]
  then have "(if any_gone (live_at plain_server stale_store []) stale_group then length plan0 + 2 else length (unlisted plan0 stale_group)) \<le> 5"
    using unlisted_length [of plan0 plan0 stale_group] by simp
  moreover have "range_law ?K" unfolding live_k8s_def by (rule server_k8s_laws)
  ultimately obtain cg' where cg': "cl_Groups (live_at plain_server stale_store (turns 5 ?K plain_server stale_store ?key [])) ?key = Some cg'"
    "\<forall>e \<in> set (map entry plan0). listed cg' e"
    "\<forall>key \<in> status_keys cg'. \<not> gone (live_at plain_server stale_store (turns 5 ?K plain_server stale_store ?key [])) key"
    using status_catches_up [OF live_k8s_laws plain_admission, of stale_store "[]" stale_group plan0 5] key by auto
  obtain p q r where p: "plan0 = [p, q, r]" "plan_key p = (''default'', ''groupp1-leader'')"
    "plan_key q = (''default'', ''groupp1-worker0'')" "plan_key r = (''default'', ''groupp1-worker1'')"
    using keys by (auto simp: map_eq_Cons_conv)
  have "snd (snd p) \<and> \<not> snd (snd q) \<and> \<not> snd (snd r)"
    using group_plan_flags [OF plan0] p(1) by simp
  with p have "map entry plan0 = [(''default/groupp1-leader'', True), (''default/groupp1-worker0'', False), (''default/groupp1-worker1'', False)]"
    by (simp add: entry_def object_key_def)
  with cg' stale_gone show ?thesis by auto
qed

end
