(* ===== verification/Fleet.thy ===== *)
theory Fleet
  imports Rollout Status_Convergence
begin

text \<open>
  Many groups and many workers.  A group is queued by the addition that its informer delivers, and its
  item is never queued again, so a run of the operator gives every group of a fleet one turn, with
  the group as it was stored when the informer delivered it.  The calls of the workers that take
  these turns are interleaved in any way.  Since a turn stays within the names of its group, what it
  does to that group alone (\<open>turned_group\<close>) is what all turns together do to it.  The end of the
  theory follows a fleet over several starts of the operator.
\<close>

section \<open>One turn for every group\<close>

text \<open>
  The workers share what the libraries compute without asking the server: quantities and owner
  references.  So a group leads all of them to the same plan.
\<close>

definition worker_like :: "k8s \<Rightarrow> api_server \<Rightarrow> k8s \<Rightarrow> bool" where
  "worker_like K0 A K \<longleftrightarrow> worker_laws K A \<and> range_law K \<and> k_quantityParses K = k_quantityParses K0
     \<and> k_quantityCmp K = k_quantityCmp K0 \<and> k_newControllerRef K = k_newControllerRef K0"

lemma like_plan:
  assumes "worker_like K0 A K" and "controller_ref_laws K0"
  shows "group_plan K = group_plan K0"
proof -
  have lib: "k_quantityParses K = k_quantityParses K0" "k_quantityCmp K = k_quantityCmp K0"
    "k_newControllerRef K = k_newControllerRef K0" "controller_ref_laws K"
    using assms(1) by (simp_all add: worker_like_def worker_laws_def)
  have ctrl: "k_isControlledBy K = k_isControlledBy K0"
    by (intro ext) (simp add: controller_ref_lawsD [OF lib(4)] controller_ref_lawsD [OF assms(2)])
  have owner: "AddDeployOwnership K = AddDeployOwnership K0" by (intro ext) (simp only: AddDeployOwnership_def lib(3) ctrl)
  have "makeResourceRequirements K = makeResourceRequirements K0"
    unfolding makeResourceRequirements_def fillblank_def MustParse_def lib ..
  then have make: "MakeDeployment K = MakeDeployment K0"
    by (intro ext) (simp only: MakeDeployment_def convertInstanceSpecToPodSpec_def)
  have "desired_deployment K = desired_deployment K0" by (intro ext) (simp only: desired_deployment_def owner make)
  then show ?thesis by (intro ext) (simp only: group_plan_def planned_set_def)
qed

lemma owned_like: "controller_ref_laws K \<Longrightarrow> controller_ref_laws K0 \<Longrightarrow> owned K = owned K0"
  by (simp add: owned_def fun_eq_iff controller_ref_lawsD)

lemma followed_like:
  assumes "controller_ref_laws K" and "controller_ref_laws K0" and "group_plan K = group_plan K0"
  shows "followed K st cg plan = followed K0 st cg plan"
proof -
  have "owned K cg = owned K0 cg" by (rule fun_cong [OF owned_like [OF assms(1,2)]])
  then have "recordable K cg st p = recordable K0 cg st p" for p unfolding recordable_def by metis
  then show ?thesis by (simp add: followed_def assms(3))
qed

lemma running_like:
  assumes "controller_ref_laws K" and "controller_ref_laws K0" and "group_plan K = group_plan K0"
  shows "running K st cg = running K0 st cg"
proof -
  have "owned K cg = owned K0 cg" by (rule fun_cong [OF owned_like [OF assms(1,2)]])
  then show ?thesis unfolding running_def assms(3) by metis
qed

text \<open>A group is up when another one with the same specification and the same names is.\<close>

lemma running_same:
  assumes "controller_ref_laws K" and "same_group cg cg'" and "running K st cg"
  shows "running K st cg'"
proof -
  from assms(3) obtain plan where plan: "group_plan K cg = Some plan" by (auto simp: running_def split: option.splits)
  obtain plan' where plan': "group_plan K cg' = Some plan'" "map entry plan' = map entry plan" "map plan_key plan' = map plan_key plan"
    using group_plan_same [OF assms(2) plan] by blast
  obtain ls ws where sets: "gs_ComputeLeaders (cg_Spec cg) = Some ls" "elems (gs_ComputeWorkers (cg_Spec cg)) = map Some ws"
    using plan by (rule group_planE)
  have fst: "map fst plan' = map fst plan"
    using group_plan_sets [OF plan sets] group_plan_sets [OF plan'(1), of ls ws] assms(2) sets by (simp add: same_group_def)
  have "case cl_Deployments st (plan_key q) of None \<Rightarrow> False
      | Some d \<Rightarrow> owned K cg' d \<and> (distinct (map plan_key plan') \<longrightarrow> replicasDiffer (fst q) d = Some False)" if "q \<in> set plan'" for q
  proof -
    obtain i where i: "i < length plan'" "q = plan' ! i" using \<open>q \<in> set plan'\<close> by (auto simp: in_set_conv_nth)
    then have same: "plan_key q = plan_key (plan ! i)" "fst q = fst (plan ! i)" "plan ! i \<in> set plan"
      using arg_cong [OF plan'(3), of "\<lambda>xs. xs ! i"] arg_cong [OF fst, of "\<lambda>xs. xs ! i"] map_eq_imp_length_eq [OF fst] by simp_all
    with assms(3) plan show ?thesis
      unfolding same(1,2) owned_same [OF assms(1,2)] plan'(3) by (simp add: running_def)
  qed
  moreover have "cl_Services st (group_key cg') \<noteq> None"
    using assms(3) plan same_group_names(3) [OF assms(2)] by (simp add: running_def)
  ultimately show ?thesis using plan'(1) by (simp add: running_def)
qed

text \<open>One turn brings a group up.\<close>

lemma turn_running:
  assumes "controller_ref_laws K" and "admission_law A" and "followed K st cg plan"
  shows "running K (turn_effect K A cg st) cg"
proof -
  note f = assms(3) [unfolded followed_def]
  then have plan: "group_plan K cg = Some plan" by simp
  show ?thesis
  proof (rule turn_effect_cases [OF plan])
    fix cg1 assume cg1: "cg_Meta cg1 = cg_Meta cg" "cg_Spec cg1 = cg_Spec cg" "group_plan K cg1 = Some plan"
      and turn: "\<And>A st. turn_effect K A cg st = fold (sync_set K A cg1) plan st"
    have same: "same_group cg cg1" "same_group cg1 cg" using cg1 by (simp_all add: same_group_def)
    have "\<forall>p \<in> set plan. recordable K cg1 st p" using f recordable_same [OF assms(1) same(1)] by blast
    with synced_running [OF assms(1,2) cg1(3)] f have "running K (turn_effect K A cg st) cg1" by (simp add: turn)
    then show ?thesis by (rule running_same [OF assms(1) same(2)])
  next
    assume turn: "\<And>A st. turn_effect K A cg st = fold (sync_set K A cg) plan (check_group A cg st)"
    have "\<forall>p \<in> set plan. recordable K cg (check_group A cg st) p" using f by (simp add: recordable_def check_group_others)
    with synced_running [OF assms(1,2) plan store_ok_check] f show ?thesis by (simp add: turn)
  qed
qed

text \<open>
  The run of the operator over the groups \<open>cgs\<close>, stored in \<open>st\<close>: each of them is the item of one turn, which
  a worker takes; the interleaved calls lead to \<open>st'\<close>.
\<close>

definition turn_jobs :: "k8s list \<Rightarrow> DatafuseComputeGroup list \<Rightarrow> (k8s \<times> job) list" where
  "turn_jobs Ks cgs = zip Ks (map TurnGroup cgs)"

definition turns_taken :: "k8s \<Rightarrow> api_server \<Rightarrow> cluster_store \<Rightarrow> DatafuseComputeGroup list \<Rightarrow> cluster_store \<Rightarrow> bool" where
  "turns_taken K0 A st cgs st' \<longleftrightarrow> (\<exists>Ks T. length Ks = length cgs \<and> (\<forall>K \<in> set Ks. worker_like K0 A K)
     \<and> execution A st T (map (\<lambda>(K, j). (K, run_job j K)) (turn_jobs Ks cgs)) \<and> st' = live_at A st (map snd T))"

section \<open>A fleet of groups\<close>

text \<open>Groups that are followed and whose names do not overlap.\<close>

definition territory :: "DatafuseComputeGroup \<Rightarrow> footprint" where
  "territory cg = \<lparr>fp_Deployments = set_keys cg \<union> status_names cg, fp_Services = {group_key cg}, fp_Groups = {group_key cg}\<rparr>"

definition fleet :: "k8s \<Rightarrow> cluster_store \<Rightarrow> DatafuseComputeGroup list \<Rightarrow> planned list list \<Rightarrow> bool" where
  "fleet K st cgs plans \<longleftrightarrow> list_all2 (followed K st) cgs plans
     \<and> (\<forall>i < length cgs. \<forall>j < length cgs. i \<noteq> j \<longrightarrow> apart (territory (cgs ! i)) (territory (cgs ! j)))"

lemma job_territory: "job_footprint (TurnGroup cg) = territory cg"
  by (simp add: territory_def)

lemma set_keys_same: "same_group cg cg' \<Longrightarrow> set_keys cg' = set_keys cg"
  by (simp add: set_keys_def same_group_def leader_name_def worker_name_def)

lemma agree_mono: "agree Y st st' \<Longrightarrow> fp_Deployments X \<subseteq> fp_Deployments Y \<Longrightarrow> fp_Services X \<subseteq> fp_Services Y
    \<Longrightarrow> fp_Groups X \<subseteq> fp_Groups Y \<Longrightarrow> agree X st st'"
  by (auto simp: agree_def)

lemma apart_mono:
  assumes "apart X Y" and "fp_Deployments X' \<subseteq> fp_Deployments X" "fp_Services X' \<subseteq> fp_Services X" "fp_Groups X' \<subseteq> fp_Groups X"
    and "fp_Deployments Y' \<subseteq> fp_Deployments Y" "fp_Services Y' \<subseteq> fp_Services Y" "fp_Groups Y' \<subseteq> fp_Groups Y"
  shows "apart X' Y'"
  using assms unfolding apart_def by blast

text \<open>What is said of a group depends on the objects of its territory only.\<close>

lemma followed_agree:
  assumes "agree (territory cg) st st'" and "store_ok st'" and "followed K st cg plan"
  shows "followed K st' cg plan"
proof -
  have plan: "group_plan K cg = Some plan" using assms(3) by (simp add: followed_def)
  have "cl_Deployments st' (plan_key p) = cl_Deployments st (plan_key p)" if "p \<in> set plan" for p
    using assms(1) group_plan_set_keys [OF plan] that by (auto simp: agree_def territory_def)
  then have "recordable K cg st' p = recordable K cg st p" if "p \<in> set plan" for p
    using that by (simp add: recordable_def)
  then show ?thesis using assms by (simp add: followed_def agree_def territory_def)
qed

lemma remaining_agree:
  assumes "agree (territory cg) st st'"
  shows "remaining st' plan cg = remaining st plan cg"
proof -
  have "gone st key = gone st' key" if "key \<in> status_keys cg" for key
    using that assms by (auto simp: gone_def agree_def territory_def status_names_def)
  then show ?thesis by (simp add: remaining_def any_gone_iff)
qed

section \<open>The turns of a run\<close>

text \<open>A turn keeps to the territory of its group, and so does the group that it leaves.\<close>

lemma followed_names:
  assumes "followed K st' cg' plan'" and "same_group cg cg'" and "status_keys cg' \<subseteq> status_keys cg \<union> fst ` set (map entry plan)"
    and "followed K st cg plan"
  shows "fp_Deployments (territory cg') \<subseteq> fp_Deployments (territory cg)"
proof -
  have plan: "group_plan K cg = Some plan" using assms(4) by (simp add: followed_def)
  have "key_name (fst (entry p)) \<in> set_keys cg" if p: "p \<in> set plan" for p
  proof -
    have "fst (plan_key p) = om_Namespace (cg_Meta cg)"
      using group_plan_desired [OF plan p] desired_deployment_meta(2) by (fastforce simp: plan_key_def)
    then have "key_name (fst (entry p)) = plan_key p"
      using assms(4) by (cases "plan_key p") (simp add: followed_def entry_def key_name_def object_key_split)
    then show ?thesis using group_plan_set_keys [OF plan] p by auto
  qed
  then show ?thesis
    using assms(3) set_keys_same [OF assms(2)] by (auto simp: territory_def status_names_def)
qed

lemma group_progress:
  assumes "worker_like K0 A K" and "controller_ref_laws K0" and "followed K0 st cg plan"
    and "agree (territory cg) final (turn_effect K A cg st)" and "store_ok final"
  shows "\<exists>cg' plan'. followed K0 final cg' plan' \<and> running K0 final cg' \<and> map entry plan' = map entry plan \<and> same_group cg cg'
    \<and> fp_Deployments (territory cg') \<subseteq> fp_Deployments (territory cg) \<and> cg' = turned_group A st plan cg
    \<and> remaining final plan' cg' \<le> remaining st plan cg - 1"
proof -
  have K: "controller_ref_laws K" "admission_law A" "group_plan K = group_plan K0"
    using assms(1) like_plan [OF assms(1,2)] by (simp_all add: worker_like_def worker_laws_def)
  note like = followed_like [OF K(1) assms(2) K(3)]
  have f: "followed K st cg plan" unfolding like by (rule assms(3))
  from turn_progress [OF K(1,2) f] obtain cg' plan' where t: "followed K0 (turn_effect K A cg st) cg' plan'"
    "map entry plan' = map entry plan" "same_group cg cg'" "status_keys cg' \<subseteq> status_keys cg \<union> fst ` set (map entry plan)"
    "remaining (turn_effect K A cg st) plan' cg' \<le> remaining st plan cg - 1"
    unfolding like by (elim exE conjE)
  have turned: "cg' = turned_group A st plan cg"
    using turned_group_stored [OF K(1,2) f] t(1) same_group_names(3) [OF t(3)] by (simp add: followed_def)
  have names: "fp_Deployments (territory cg') \<subseteq> fp_Deployments (territory cg)"
    by (rule followed_names [OF t(1,3,4) assms(3)])
  have here: "agree (territory cg') (turn_effect K A cg st) final"
  proof (rule agree_sym, rule agree_mono [OF assms(4) names])
    show "fp_Services (territory cg') \<subseteq> fp_Services (territory cg)" "fp_Groups (territory cg') \<subseteq> fp_Groups (territory cg)"
      using same_group_names(3) [OF t(3)] by (simp_all add: territory_def)
  qed
  note same = followed_agree [OF here assms(5) t(1)] remaining_agree [OF here, of plan']
  have "running K (turn_effect K A cg st) cg'"
    by (rule running_same [OF K(1) t(3) turn_running [OF K(1,2) f]])
  moreover have "agree (job_footprint (SyncGroup cg')) final (turn_effect K A cg st)"
    by (rule agree_mono [OF agree_sym [OF here]]) (auto simp: territory_def)
  ultimately have "running K final cg'" using running_agree by blast
  then have up: "running K0 final cg'" by (simp add: running_like [OF K(1) assms(2) K(3)])
  show ?thesis
    by (intro exI [of _ cg'] exI [of _ plan'] conjI same(1) up t(2,3) names turned) (use same(2) t(5) in simp)
qed

lemma store_ok_turn: "admission_law A \<Longrightarrow> store_ok st \<Longrightarrow> store_ok (turn_effect K A cg st)"
  by (auto simp: turn_effect_def store_ok_plan store_ok_check split: prod.split option.split)

text \<open>When all have had their turn, the territory of every group is as its own turn leaves it.\<close>

lemma turns_own:
  assumes fleet: "fleet K0 st cgs plans" and laws: "controller_ref_laws K0" "admission_law A"
    and Ks: "length Ks = length cgs" "\<forall>K \<in> set Ks. worker_like K0 A K" and "cgs \<noteq> []"
    and exec: "execution A st T (map (\<lambda>(K, j). (K, run_job j K)) (turn_jobs Ks cgs))"
  shows "store_ok (live_at A st (map snd T))"
    and "i < length cgs \<Longrightarrow> agree (territory (cgs ! i)) (live_at A st (map snd T)) (turn_effect (Ks ! i) A (cgs ! i) st)"
proof -
  let ?final = "live_at A st (map snd T)" and ?ws = "turn_jobs Ks cgs"
  have len: "length plans = length cgs" and f: "\<And>i. i < length cgs \<Longrightarrow> followed K0 st (cgs ! i) (plans ! i)"
    using fleet by (auto simp: fleet_def list_all2_conv_all_nth)
  have like: "worker_like K0 A (Ks ! i)" if "i < length cgs" for i using that Ks by simp
  have ws: "length ?ws = length cgs" "?ws ! i = (Ks ! i, TurnGroup (cgs ! i))" if "i < length cgs" for i
    using that f [OF that] Ks(1) by (simp_all add: turn_jobs_def)
  have disjoint: "disjoint_jobs ?ws"
    using fleet ws Ks(1) by (simp add: disjoint_jobs_def fleet_def job_territory turn_jobs_def del: job_footprint.simps)
  have job: "job_ok (snd (?ws ! i)) (fst (?ws ! i)) \<and> worker_laws (fst (?ws ! i)) A" if "i < length cgs" for i
    using f [OF that] like [OF that] ws(2) [OF that] like_plan [OF like [OF that] laws(1)] by (simp add: worker_like_def followed_def)
  have ready: "ready_jobs A ?ws"
    unfolding ready_jobs_def
  proof (rule ballI)
    fix x assume "x \<in> set ?ws"
    then obtain i where "i < length cgs" "x = ?ws ! i"
      using ws(1) [of 0] assms(6) by (auto simp: in_set_conv_nth)
    with job show "case x of (K, j) \<Rightarrow> worker_laws K A \<and> job_ok j K"
      by (simp add: case_prod_beta)
  qed
  have "0 < length cgs" using assms(6) by simp
  then have ok: "store_ok st" and n: "length ?ws = length cgs" using f [of 0] ws(1) [of 0] by (auto simp: followed_def)
  have effect: "effect_of A ?ws i = turn_effect (Ks ! i) A (cgs ! i)" if "i < length cgs" for i
    using ws(2) [OF that] by (simp add: effect_of_def fun_eq_iff)
  have "store_ok (fold (effect_of A ?ws) order st')" if "set order \<subseteq> {..<length cgs}" "store_ok st'" for order st'
    using that by (induction order arbitrary: st') (auto simp: effect store_ok_turn [OF laws(2)])
  then show "store_ok ?final"
    using interleaving_store [OF exec disjoint ready ok, of "[0..<length cgs]"] ok n by (auto simp: atLeast0LessThan)
  show "agree (territory (cgs ! i)) ?final (turn_effect (Ks ! i) A (cgs ! i) st)" if "i < length cgs" for i
    using interleaving_own(2) [OF exec disjoint ready ok, of i] that n ws(2) [OF that] effect [OF that]
    by (simp add: job_territory del: job_footprint.simps)
qed

lemma turns_progress:
  assumes fleet: "fleet K0 st cgs plans" and laws: "controller_ref_laws K0" "admission_law A"
    and turns: "turns_taken K0 A st cgs st'"
  shows "\<exists>plans'. fleet K0 st' (map2 (turned_group A st) plans cgs) plans'
    \<and> (\<forall>i < length cgs. running K0 st' (turned_group A st (plans ! i) (cgs ! i)) \<and> map entry (plans' ! i) = map entry (plans ! i)
        \<and> same_group (cgs ! i) (turned_group A st (plans ! i) (cgs ! i))
        \<and> remaining st' (plans' ! i) (turned_group A st (plans ! i) (cgs ! i)) \<le> remaining st (plans ! i) (cgs ! i) - 1)"
proof (cases "cgs = []")
  case False
  obtain Ks T where run: "length Ks = length cgs" "\<forall>K \<in> set Ks. worker_like K0 A K"
    "execution A st T (map (\<lambda>(K, j). (K, run_job j K)) (turn_jobs Ks cgs))" and st': "st' = live_at A st (map snd T)"
    using turns by (auto simp: turns_taken_def)
  note own = turns_own [OF fleet laws run(1,2) False run(3), folded st']
  have len: "length plans = length cgs" and f: "\<And>i. i < length cgs \<Longrightarrow> followed K0 st (cgs ! i) (plans ! i)"
    using fleet by (auto simp: fleet_def list_all2_conv_all_nth)
  have like: "worker_like K0 A (Ks ! i)" if "i < length cgs" for i using that run by simp
  let ?next = "\<lambda>i. turned_group A st (plans ! i) (cgs ! i)"
  have "\<forall>i < length cgs. \<exists>plan'. followed K0 st' (?next i) plan' \<and> running K0 st' (?next i) \<and> map entry plan' = map entry (plans ! i)
      \<and> same_group (cgs ! i) (?next i) \<and> fp_Deployments (territory (?next i)) \<subseteq> fp_Deployments (territory (cgs ! i))
      \<and> remaining st' plan' (?next i) \<le> remaining st (plans ! i) (cgs ! i) - 1"
    using group_progress [OF like laws(1) f own(2) own(1)] by blast
  then obtain plans' where plans': "length plans' = length cgs" "\<forall>i < length cgs. followed K0 st' (?next i) (plans' ! i)
      \<and> running K0 st' (?next i) \<and> map entry (plans' ! i) = map entry (plans ! i)
      \<and> same_group (cgs ! i) (?next i) \<and> fp_Deployments (territory (?next i)) \<subseteq> fp_Deployments (territory (cgs ! i))
      \<and> remaining st' (plans' ! i) (?next i) \<le> remaining st (plans ! i) (cgs ! i) - 1"
    unfolding Skolem_list_nth by blast
  have "apart (territory (?next i)) (territory (?next j))" if "i < length cgs" "j < length cgs" "i \<noteq> j" for i j
  proof (rule apart_mono)
    show "apart (territory (cgs ! i)) (territory (cgs ! j))" using fleet that by (simp add: fleet_def)
  qed (use plans' that same_group_names(3) in \<open>simp_all add: territory_def\<close>)
  then have "fleet K0 st' (map2 (turned_group A st) plans cgs) plans'"
    using plans' len by (simp add: fleet_def list_all2_conv_all_nth)
  with plans' show ?thesis by blast
qed (use fleet in \<open>simp add: fleet_def\<close>)


section \<open>The groups of an operator\<close>

text \<open>
  The names of the deployments that a specification asks for, and what the API server is relied on
  for: a group that comes without ready sets is stored without.
\<close>

definition spec_sets :: "DatafuseComputeGroupSpec \<Rightarrow> store_key set" where
  "spec_sets spec = set_keys (zero_Group\<lparr>cg_Meta := zero_ObjectMeta\<lparr>om_Name := gs_Name spec, om_Namespace := gs_Namespace spec\<rparr>,
     cg_Spec := spec\<rparr>)"

definition fresh_status_law :: "api_server \<Rightarrow> bool" where
  "fresh_status_law A \<longleftrightarrow> (\<forall>g. never_ready g \<longrightarrow> never_ready (admit_group A g))"

lemma spec_sets_stored:
  "group_key cg = spec_key spec \<Longrightarrow> cg_Spec cg = spec \<Longrightarrow> set_keys cg = spec_sets spec"
  by (simp add: spec_sets_def set_keys_def group_key_def spec_key_def leader_name_def worker_name_def)

lemma never_ready_status: "never_ready cg \<Longrightarrow> status_keys cg = {} \<and> slashed cg \<and> \<not> any_gone st cg"
  by (simp add: never_ready_def status_keys_def slashed_def any_gone_def map_keys_def)

lemma made_never_ready: "MakeComputeGroup K op spec = Some g \<Longrightarrow> never_ready g"
  by (auto simp: MakeComputeGroup_def SetDatafuseComputeGroupDefaults_def Let_def never_ready_def zero_Group_def zero_GroupStatus_def
      split: if_splits)

lemma stored_never_ready:
  assumes "controller_ref_laws K" and "fresh_status_law A" and "spec \<in> set specs" and "cl_Groups st (spec_key spec) = None"
    and st1: "st1 = fold (sync_spec K A op) specs st"
  shows "cl_Groups st1 (spec_key spec) = Some (stored_group st1 spec)" and "never_ready (stored_group st1 spec)"
proof -
  have "spec_key spec \<in> spec_key ` set specs" using assms(3) by simp
  from sync_specs_made [OF assms(1,4) this] obtain spec' g where g: "MakeComputeGroup K op spec' = Some g"
    "cl_Groups st1 (spec_key spec) = Some (admit_group A g)"
    unfolding st1 by blast
  then show "cl_Groups st1 (spec_key spec) = Some (stored_group st1 spec)" by (simp add: stored_group_def)
  from g(2) have "stored_group st1 spec = admit_group A g" by (simp add: stored_group_def)
  with made_never_ready [OF g(1)] assms(2) show "never_ready (stored_group st1 spec)" by (simp add: fresh_status_law_def)
qed

lemma stored_followed:
  assumes "cl_Groups st (spec_key spec) = Some (stored_group st spec)" and "never_ready (stored_group st spec)"
    and "group_key (stored_group st spec) = spec_key spec" and "cg_Spec (stored_group st spec) = spec" and "store_ok st"
    and "good_namespace spec" and "complete_spec K spec" and "\<forall>name. cl_Deployments st (gs_Namespace spec, name) = None"
  shows "\<exists>plan. followed K st (stored_group st spec) plan \<and> length plan = Suc (length (elems (gs_ComputeWorkers spec)))"
proof -
  let ?cg = "stored_group st spec"
  have names: "om_Name (cg_Meta ?cg) = gs_Name spec" "om_Namespace (cg_Meta ?cg) = gs_Namespace spec"
    using assms(3) by (simp_all add: group_key_def spec_key_def)
  obtain plan where plan: "group_plan K ?cg = Some plan"
    using complete_spec_plan [of K ?cg] assms(4,6,7) names by (auto simp: good_namespace_def complete_spec_def)
  obtain ls ws where "gs_ComputeLeaders (cg_Spec ?cg) = Some ls" "elems (gs_ComputeWorkers (cg_Spec ?cg)) = map Some ws"
    using plan by (rule group_planE)
  with arg_cong [OF group_plan_sets [OF plan], of ls ws length] assms(4)
  have len: "length plan = Suc (length (elems (gs_ComputeWorkers spec)))" by simp
  have "recordable K ?cg st p" if p: "p \<in> set plan" for p
  proof -
    have "fst (plan_key p) = gs_Namespace spec"
      using group_plan_desired [OF plan p] desired_deployment_meta(2) names by (fastforce simp: plan_key_def)
    with assms(8) show ?thesis by (cases "plan_key p") (simp add: recordable_def)
  qed
  then have "followed K st ?cg plan"
    using assms plan names never_ready_status [OF assms(2)] by (simp add: followed_def good_namespace_def)
  with len show ?thesis by blast
qed

lemma stored_fleet:
  assumes "\<forall>spec \<in> set specs. cl_Groups st (spec_key spec) = Some (stored_group st spec) \<and> never_ready (stored_group st spec)
      \<and> group_key (stored_group st spec) = spec_key spec \<and> cg_Spec (stored_group st spec) = spec
      \<and> good_namespace spec \<and> complete_spec K spec \<and> (\<forall>name. cl_Deployments st (gs_Namespace spec, name) = None)"
    and "store_ok st" and "distinct (map spec_key specs)"
    and "\<forall>i < length specs. \<forall>j < length specs. i \<noteq> j \<longrightarrow> spec_sets (specs ! i) \<inter> spec_sets (specs ! j) = {}"
  shows "\<exists>plans. fleet K st (map (stored_group st) specs) plans
    \<and> (\<forall>i < length specs. length (plans ! i) = Suc (length (elems (gs_ComputeWorkers (specs ! i)))))"
proof -
  have "\<forall>i < length specs. \<exists>plan. followed K st (stored_group st (specs ! i)) plan
      \<and> length plan = Suc (length (elems (gs_ComputeWorkers (specs ! i))))"
    using stored_followed assms(1,2) by (meson nth_mem)
  then obtain plans where plans: "length plans = length specs" "\<forall>i < length specs. followed K st (stored_group st (specs ! i)) (plans ! i)
      \<and> length (plans ! i) = Suc (length (elems (gs_ComputeWorkers (specs ! i))))"
    unfolding Skolem_list_nth by blast
  have own: "territory (stored_group st (specs ! i)) = \<lparr>fp_Deployments = spec_sets (specs ! i),
      fp_Services = {spec_key (specs ! i)}, fp_Groups = {spec_key (specs ! i)}\<rparr>" if "i < length specs" for i
    using assms(1) nth_mem [OF that] spec_sets_stored [of "stored_group st (specs ! i)" "specs ! i"]
      never_ready_status [of "stored_group st (specs ! i)"] by (simp add: territory_def status_names_def)
  have "spec_key (specs ! i) \<noteq> spec_key (specs ! j)" if "i < length specs" "j < length specs" "i \<noteq> j" for i j
    using assms(3) that by (simp add: distinct_conv_nth)
  with assms(4) own have "apart (territory (stored_group st (specs ! i))) (territory (stored_group st (specs ! j)))"
    if "i < length specs" "j < length specs" "i \<noteq> j" for i j
    using that by (simp add: apart_def)
  with plans show ?thesis by (intro exI [of _ plans]) (simp add: fleet_def list_all2_conv_all_nth)
qed

section \<open>From an operator to groups that are up\<close>

text \<open>The groups of an operator, stored by its synchronisation, are a fleet.\<close>

lemma operator_fleet:
  assumes "live K A st0" and "controller_ref_laws K" and "not_found_law K" and "admission_law A" and "fresh_status_law A"
    and "store_ok (live_at A st0 h)" and "operator_specs op = Some specs" and "distinct (map spec_key specs)"
    and "\<forall>spec \<in> set specs. good_namespace spec \<and> complete_spec K spec \<and> cl_Groups (live_at A st0 h) (spec_key spec) = None
      \<and> (\<forall>name. cl_Deployments (live_at A st0 h) (gs_Namespace spec, name) = None)"
    and "\<forall>i < length specs. \<forall>j < length specs. i \<noteq> j \<longrightarrow> spec_sets (specs ! i) \<inter> spec_sets (specs ! j) = {}"
  obtains h1 plans where "processNewOperator K (typed_controller K) op h = (Some None, h1)"
    and "\<And>spec. spec \<in> set specs \<Longrightarrow> cg_Spec (stored_group (live_at A st0 h1) spec) = spec
      \<and> k_isControlledBy K (cg_Meta (stored_group (live_at A st0 h1) spec)) (op_Meta (defaulted op))
      \<and> group_key (stored_group (live_at A st0 h1) spec) = spec_key spec \<and> never_ready (stored_group (live_at A st0 h1) spec)
      \<and> (\<forall>name. cl_Deployments (live_at A st0 h1) (gs_Namespace spec, name) = None)"
    and "fleet K (live_at A st0 h1) (map (stored_group (live_at A st0 h1)) specs) plans"
    and "\<forall>i < length specs. length (plans ! i) = Suc (length (elems (gs_ComputeWorkers (specs ! i))))"
proof -
  have good: "\<forall>spec \<in> set specs. good_namespace spec" using assms(9) by blast
  obtain h1 where h1: "processNewOperator K (typed_controller K) op h = (Some None, h1)"
    "live_at A st0 h1 = fold (sync_spec K A (defaulted op)) specs (live_at A st0 h)"
    using answered_processNewOperator [OF assms(1) [unfolded live_def] _ assms(2-4,7) good, of h] by (fastforce simp: everything_def)
  define st1 where "st1 = live_at A st0 h1"
  note st1 = st1_def [unfolded h1(2)]
  have made: "group_key (stored_group st1 spec) = spec_key spec" "cg_Spec (stored_group st1 spec) = spec"
    "k_isControlledBy K (cg_Meta (stored_group st1 spec)) (op_Meta (defaulted op))"
    "cl_Groups st1 (spec_key spec) = Some (stored_group st1 spec)" "never_ready (stored_group st1 spec)"
    if "spec \<in> set specs" for spec
    using stored_group_made [OF assms(2,4) _ that assms(8) _ st1] stored_never_ready [OF assms(2,5) that _ st1] assms(9) that by auto
  have ok: "store_ok st1" using assms(6) by (simp add: st1 store_ok_def sync_specs_others)
  have stored: "\<forall>spec \<in> set specs. cl_Groups st1 (spec_key spec) = Some (stored_group st1 spec) \<and> never_ready (stored_group st1 spec)
      \<and> group_key (stored_group st1 spec) = spec_key spec \<and> cg_Spec (stored_group st1 spec) = spec
      \<and> good_namespace spec \<and> complete_spec K spec \<and> (\<forall>name. cl_Deployments st1 (gs_Namespace spec, name) = None)"
    using made assms(9) by (simp add: st1 sync_specs_others)
  from stored_fleet [OF stored ok assms(8,10)] obtain plans where plans: "fleet K st1 (map (stored_group st1) specs) plans"
    "\<forall>i < length specs. length (plans ! i) = Suc (length (elems (gs_ComputeWorkers (specs ! i))))" by blast
  show thesis
    by (rule that [OF h1(1) _ plans(1) [unfolded st1_def] plans(2)]) (use made stored in \<open>simp add: st1_def\<close>)
qed

text \<open>A group whose status lists the leaders, as ready, and nothing else.\<close>

definition leaders_listed :: "k8s \<Rightarrow> DatafuseComputeGroup \<Rightarrow> bool" where
  "leaders_listed K cg \<longleftrightarrow> (case group_plan K cg of None \<Rightarrow> False | Some plan \<Rightarrow>
     listed cg (entry (hd plan)) \<and> status_keys cg = {fst (entry (hd plan))})"

lemma leaders_listed_turned:
  assumes "never_ready cg" and "group_plan K cg = Some plan" and "same_group cg (turned_group A st plan cg)"
  shows "leaders_listed K (turned_group A st plan cg)"
proof -
  obtain plan' where plan': "group_plan K (turned_group A st plan cg) = Some plan'" "map entry plan' = map entry plan"
    using group_plan_same [OF assms(3,2)] by blast
  have "plan \<noteq> []" using group_plan_flags [OF assms(2)] by simp
  moreover from this plan'(2) have "plan' \<noteq> []" by auto
  ultimately have "entry (hd plan') = entry (hd plan)" using plan'(2) by (metis hd_map)
  with turned_new_group [OF assms(1,2)] plan'(1) show ?thesis by (simp add: leaders_listed_def)
qed

lemma stored_turned:
  assumes "controller_ref_laws K" and "admission_law A"
    and fleet: "fleet K st1 (map (stored_group st1) specs) plans"
    and made: "\<And>spec. spec \<in> set specs \<Longrightarrow> group_key (stored_group st1 spec) = spec_key spec \<and> never_ready (stored_group st1 spec)"
    and turns: "turns_taken K A st1 (map (stored_group st1) specs) st'" and spec: "spec \<in> set specs"
  shows "\<exists>cg. cl_Groups st' (spec_key spec) = Some cg \<and> same_group (stored_group st1 spec) cg
    \<and> om_OwnerReferences (cg_Meta cg) = om_OwnerReferences (cg_Meta (stored_group st1 spec))
    \<and> running K st' cg \<and> leaders_listed K cg"
proof -
  obtain i where i: "i < length specs" "spec = specs ! i" using spec by (auto simp: in_set_conv_nth)
  let ?cg = "stored_group st1 spec" and ?plan = "plans ! i"
  obtain plans' where r: "fleet K st' (map2 (turned_group A st1) plans (map (stored_group st1) specs)) plans'"
    "running K st' (turned_group A st1 ?plan ?cg)" "same_group ?cg (turned_group A st1 ?plan ?cg)"
    using turns_progress [OF fleet assms(1,2) turns] i by (metis length_map nth_map)
  have "length plans = length specs" and plan: "group_plan K ?cg = Some ?plan"
    using fleet i by (simp_all add: fleet_def list_all2_conv_all_nth followed_def)
  with r(1) i have "followed K st' (turned_group A st1 ?plan ?cg) (plans' ! i)"
    by (simp add: fleet_def list_all2_conv_all_nth)
  then have "cl_Groups st' (spec_key spec) = Some (turned_group A st1 ?plan ?cg)"
    using made [OF spec] same_group_names(3) [OF r(3)] by (simp add: followed_def)
  with r(2,3) leaders_listed_turned [OF _ plan r(3)] made [OF spec] turned_group_owners show ?thesis by blast
qed

text \<open>C6 (liveness).  From an operator to groups that are up, within one run: the operator's synchronisation stores
  every one of its groups, and each of these additions is one item for the group workers.  When each
  item has been taken once, by workers whose calls are interleaved in any way, every group is
  stored with the specification that was asked for and is owned by the operator, every set of it has its
  deployment, owned by the group and with the replicas of the set, and it has its service.  As the code has
  it, the status of each group then lists its leaders, as ready, and none of its worker sets.\<close>

theorem operator_settles:
  assumes "live K A st0" and "controller_ref_laws K" and "not_found_law K" and "admission_law A" and "fresh_status_law A"
    and "store_ok (live_at A st0 h)" and "operator_specs op = Some specs" and "distinct (map spec_key specs)"
    and "\<forall>spec \<in> set specs. good_namespace spec \<and> complete_spec K spec \<and> cl_Groups (live_at A st0 h) (spec_key spec) = None
      \<and> (\<forall>name. cl_Deployments (live_at A st0 h) (gs_Namespace spec, name) = None)"
    and "\<forall>i < length specs. \<forall>j < length specs. i \<noteq> j \<longrightarrow> spec_sets (specs ! i) \<inter> spec_sets (specs ! j) = {}"
  shows "\<exists>h1. processNewOperator K (typed_controller K) op h = (Some None, h1)
    \<and> (\<forall>spec \<in> set specs. cl_Groups (live_at A st0 h1) (spec_key spec) = Some (stored_group (live_at A st0 h1) spec))
    \<and> (\<forall>st'. turns_taken K A (live_at A st0 h1) (map (stored_group (live_at A st0 h1)) specs) st' \<longrightarrow>
        (\<forall>spec \<in> set specs. \<exists>cg. cl_Groups st' (spec_key spec) = Some cg \<and> cg_Spec cg = spec
           \<and> k_isControlledBy K (cg_Meta cg) (op_Meta (defaulted op)) \<and> running K st' cg \<and> leaders_listed K cg))"
proof (rule operator_fleet [OF assms])
  fix h1 plans
  let ?st1 = "live_at A st0 h1"
  assume h1: "processNewOperator K (typed_controller K) op h = (Some None, h1)"
    and made: "\<And>spec. spec \<in> set specs \<Longrightarrow> cg_Spec (stored_group ?st1 spec) = spec
      \<and> k_isControlledBy K (cg_Meta (stored_group ?st1 spec)) (op_Meta (defaulted op))
      \<and> group_key (stored_group ?st1 spec) = spec_key spec \<and> never_ready (stored_group ?st1 spec)
      \<and> (\<forall>name. cl_Deployments ?st1 (gs_Namespace spec, name) = None)"
    and fleet: "fleet K ?st1 (map (stored_group ?st1) specs) plans"
      "\<forall>i < length specs. length (plans ! i) = Suc (length (elems (gs_ComputeWorkers (specs ! i))))"
  have stored: "cl_Groups ?st1 (spec_key spec) = Some (stored_group ?st1 spec)" if "spec \<in> set specs" for spec
    using that fleet(1) made by (fastforce simp: fleet_def list_all2_conv_all_nth followed_def in_set_conv_nth)
  have "\<exists>cg. cl_Groups st' (spec_key spec) = Some cg \<and> cg_Spec cg = spec
      \<and> k_isControlledBy K (cg_Meta cg) (op_Meta (defaulted op)) \<and> running K st' cg \<and> leaders_listed K cg"
    if turns: "turns_taken K A ?st1 (map (stored_group ?st1) specs) st'" and spec: "spec \<in> set specs" for st' spec
  proof -
    obtain cg where cg: "cl_Groups st' (spec_key spec) = Some cg" "same_group (stored_group ?st1 spec) cg"
      "om_OwnerReferences (cg_Meta cg) = om_OwnerReferences (cg_Meta (stored_group ?st1 spec))" "running K st' cg" "leaders_listed K cg"
      using stored_turned [OF assms(2,4) fleet(1) _ turns spec] made by blast
    with made [OF spec] isControlledBy_owners [OF assms(2) cg(3)] show ?thesis by (auto simp: same_group_def)
  qed
  with h1 stored show ?thesis by blast
qed

section \<open>Executions exist\<close>

text \<open>Jobs that run one behind the other are an execution.\<close>

lemma execution_snoc:
  assumes "execution plain_server st0 T ws" and "K = server_k8s (\<lambda>h. live_at plain_server st0 (map snd T @ h))"
  shows "execution plain_server st0 (T @ map (Pair (length ws)) (snd (run []))) (ws @ [(K, run)])"
proof -
  let ?n = "length ws" and ?T = "T @ map (Pair (length ws)) (snd (run []))"
  have early: "\<forall>e \<in> set T. fst e < ?n" using assms(1) by (simp add: execution_def)
  then have "calls_of ?n T = []" by (auto simp: calls_of_def filter_empty_conv)
  then have last: "calls_of ?n ?T = snd (run [])" by simp
  have "\<exists>S. observes (live_at plain_server st0) ?T ?n S \<and> answers everything K plain_server S"
    using observes_last [OF early] server_k8s_laws(1) unfolding assms(2) by blast
  moreover have "\<exists>S. observes (live_at plain_server st0) ?T i S \<and> answers everything (fst (ws ! i)) plain_server S" if "i < ?n" for i
    using assms(1) that observes_extended [of "live_at plain_server st0" T i _ ?n] by (force simp: execution_def)
  ultimately show ?thesis
    using assms(1) last early by (auto simp: execution_def nth_append less_Suc_eq)
qed

lemma executions_exist:
  "\<exists>Ks T. length Ks = length js \<and> (\<forall>K \<in> set Ks. \<exists>S. K = server_k8s S)
     \<and> execution plain_server st0 T (map (\<lambda>(K, j). (K, run_job j K)) (zip Ks js))"
proof (induction js rule: rev_induct)
  case Nil
  have "execution plain_server st0 [] []" by (simp add: execution_def)
  then show ?case by (intro exI [of _ "[]"]) auto
next
  case (snoc j js)
  then obtain Ks T where IH: "length Ks = length js" "\<forall>K \<in> set Ks. \<exists>S. K = server_k8s S"
    "execution plain_server st0 T (map (\<lambda>(K, j). (K, run_job j K)) (zip Ks js))" by blast
  let ?K = "server_k8s (\<lambda>h. live_at plain_server st0 (map snd T @ h))"
  from execution_snoc [OF IH(3) refl, of "run_job j ?K"] IH(1,2) show ?case
    by (intro exI [of _ "Ks @ [?K]"] exI [of _ "T @ map (Pair (length js)) (snd (run_job j ?K []))"]) (auto simp del: run_job.simps)
qed

lemma server_like: "worker_like (server_k8s S0) plain_server (server_k8s S)"
  using server_k8s_laws plain_admission by (simp add: worker_like_def worker_laws_def) (simp add: server_k8s_def)

lemma turns_exist: "\<exists>st'. turns_taken (server_k8s S) plain_server st cgs st'"
proof -
  obtain Ks T where T: "length Ks = length cgs" "\<forall>K \<in> set Ks. \<exists>S. K = server_k8s S"
    "execution plain_server st T (map (\<lambda>(K, j). (K, run_job j K)) (zip Ks (map TurnGroup cgs)))"
    using executions_exist [of "map TurnGroup cgs" st] by auto
  moreover from T(2) have "\<forall>K \<in> set Ks. worker_like (server_k8s S) plain_server K" using server_like by auto
  ultimately show ?thesis by (auto simp: turns_taken_def turn_jobs_def)
qed

section \<open>Many starts of the operator\<close>

text \<open>
  Each start of the operator lists the stored groups and gives them one turn each.  What a group's status
  still lacks shrinks with every start.
\<close>

inductive starts :: "k8s \<Rightarrow> api_server \<Rightarrow> store_key list \<Rightarrow> nat \<Rightarrow> cluster_store \<Rightarrow> cluster_store \<Rightarrow> bool"
  for K0 A keys where
  no_start: "starts K0 A keys 0 st st"
| one_more: "map (cl_Groups st) keys = map Some cgs \<Longrightarrow> turns_taken K0 A st cgs st1 \<Longrightarrow>
    starts K0 A keys n st1 st' \<Longrightarrow> starts K0 A keys (Suc n) st st'"

inductive_cases starts_0: "starts K0 A keys 0 st st'"

text \<open>A group whose status lists, as ready, every set that it asks for.\<close>

definition all_listed :: "k8s \<Rightarrow> DatafuseComputeGroup \<Rightarrow> bool" where
  "all_listed K cg \<longleftrightarrow> (case group_plan K cg of None \<Rightarrow> False | Some plan \<Rightarrow> list_all (listed cg) (map entry plan))"

lemma remaining_none: "remaining st plan cg = 0 \<Longrightarrow> \<not> any_gone st cg \<and> list_all (listed cg) (map entry plan)"
  by (auto simp: remaining_def unlisted_def filter_empty_conv list_all_iff split: if_splits)

lemma fleet_stored: "fleet K st cgs plans \<Longrightarrow> map (cl_Groups st) (map group_key cgs) = map Some cgs"
  by (auto simp: fleet_def list_all2_conv_all_nth followed_def in_set_conv_nth)

lemma starts_fleet:
  assumes "starts K0 A keys n st st'" and "fleet K0 st cgs plans" and "keys = map group_key cgs"
    and "controller_ref_laws K0" and "admission_law A" and "\<forall>i < length cgs. remaining st (plans ! i) (cgs ! i) \<le> n"
  shows "\<exists>cgs' plans'. fleet K0 st' cgs' plans' \<and> length cgs' = length cgs
    \<and> (\<forall>i < length cgs. (0 < n \<longrightarrow> running K0 st' (cgs' ! i)) \<and> same_group (cgs ! i) (cgs' ! i)
        \<and> remaining st' (plans' ! i) (cgs' ! i) = 0)"
  using assms(1-3,6)
proof (induction arbitrary: cgs plans rule: starts.induct)
  case (no_start st)
  then show ?case by (intro exI [of _ cgs] exI [of _ plans]) (simp add: same_group_def)
next
  case (one_more st listed_groups st1 n st')
  have "map Some listed_groups = map Some cgs"
    using one_more.hyps(1) fleet_stored [OF one_more.prems(1)] one_more.prems(2) by simp
  then have "listed_groups = cgs" by (simp add: inj_map_eq_map)
  then have turns: "turns_taken K0 A st cgs st1" using one_more.hyps(2) by simp
  let ?cgs = "map2 (turned_group A st) plans cgs"
  have len: "length plans = length cgs" using one_more.prems(1) by (simp add: fleet_def list_all2_conv_all_nth)
  obtain plans1 where r: "fleet K0 st1 ?cgs plans1" "\<forall>i < length cgs. running K0 st1 (?cgs ! i) \<and> same_group (cgs ! i) (?cgs ! i)
        \<and> remaining st1 (plans1 ! i) (?cgs ! i) \<le> remaining st (plans ! i) (cgs ! i) - 1"
    using turns_progress [OF one_more.prems(1) assms(4,5) turns] len by auto
  have keys: "keys = map group_key ?cgs"
    unfolding one_more.prems(2) using r(2) len same_group_names(3) by (intro nth_equalityI) auto
  have "\<forall>i < length ?cgs. remaining st1 (plans1 ! i) (?cgs ! i) \<le> n"
    using r(2) one_more.prems(3) len by fastforce
  from one_more.IH [OF r(1) keys this] obtain cgs' plans' where IH: "fleet K0 st' cgs' plans'" "length cgs' = length cgs"
    "\<forall>i < length cgs. (0 < n \<longrightarrow> running K0 st' (cgs' ! i)) \<and> same_group (?cgs ! i) (cgs' ! i) \<and> remaining st' (plans' ! i) (cgs' ! i) = 0"
    using len by auto
  have "running K0 st' (cgs' ! i)" if i: "i < length cgs" for i
  proof (cases n)
    case 0
    then have "st' = st1" using one_more.hyps(3) by (auto elim: starts_0)
    with running_same [OF assms(4)] r(2) IH(3) i show ?thesis by blast
  qed (use IH(3) i in auto)
  moreover have "same_group (cgs ! i) (cgs' ! i)" if "i < length cgs" for i
    using that r(2) IH(3) by (auto simp: same_group_def)
  ultimately show ?case using IH by blast
qed

text \<open>
  After as many starts as the statuses lack sets, or two more than there are sets when one names deployments
  that are gone, every group is up, its status lists every set as ready and names nothing that is gone.
\<close>

lemma fleet_restarted:
  assumes "fleet K st cgs plans" and "controller_ref_laws K" and "admission_law A"
    and "starts K A (map group_key cgs) n st st'" and "0 < n"
    and "\<forall>i < length cgs. (if any_gone st (cgs ! i) then length (plans ! i) + 2 else length (unlisted (plans ! i) (cgs ! i))) \<le> n"
    and i: "i < length cgs"
  shows "\<exists>cg. cl_Groups st' (group_key (cgs ! i)) = Some cg \<and> cg_Spec cg = cg_Spec (cgs ! i)
    \<and> running K st' cg \<and> all_listed K cg \<and> (\<forall>key \<in> status_keys cg. \<not> gone st' key)"
proof -
  have "\<forall>i < length cgs. remaining st (plans ! i) (cgs ! i) \<le> n"
    using assms(6) by (auto simp: remaining_def split: if_splits)
  from starts_fleet [OF assms(4,1) refl assms(2,3) this] obtain cgs' plans' where r: "fleet K st' cgs' plans'"
    "length cgs' = length cgs" "\<forall>i < length cgs. (0 < n \<longrightarrow> running K st' (cgs' ! i))
        \<and> same_group (cgs ! i) (cgs' ! i) \<and> remaining st' (plans' ! i) (cgs' ! i) = 0" by blast
  have f: "followed K st' (cgs' ! i) (plans' ! i)" using r(1,2) i by (simp add: fleet_def list_all2_conv_all_nth)
  have s: "same_group (cgs ! i) (cgs' ! i)" and rem: "remaining st' (plans' ! i) (cgs' ! i) = 0"
    and up: "running K st' (cgs' ! i)" using r(3) i assms(5) by auto
  from f s same_group_names(3) [OF s] remaining_none [OF rem] up show ?thesis
    by (intro exI [of _ "cgs' ! i"]) (simp add: followed_def all_listed_def any_gone_iff same_group_def)
qed

section \<open>The properties at concrete inputs\<close>


lemma plain_fresh: "fresh_status_law plain_server"
  by (simp add: fresh_status_law_def plain_server_def never_ready_def)

lemma two_spec_sets: "spec_sets sample_group_spec \<inter> spec_sets second_spec = {}"
proof -
  have names: "gs_Name sample_group_spec = ''groupp1''" "gs_Name second_spec = ''groupp2''"
    "gs_Namespace sample_group_spec = ''default''" "gs_Namespace second_spec = ''default''"
    by (simp_all add: second_spec_def sample_group_spec_def)
  have "spec_sets spec \<subseteq> {(''default'', gs_Name spec @ ''-leader''), (''default'', gs_Name spec @ ''-worker0''),
      (''default'', gs_Name spec @ ''-worker1'')}" if "spec = sample_group_spec \<or> spec = second_spec" for spec
    unfolding spec_sets_def by (rule two_specs) (use that names in auto)
  then have "spec_sets sample_group_spec \<subseteq> {(''default'', ''groupp1-leader''), (''default'', ''groupp1-worker0''), (''default'', ''groupp1-worker1'')}"
    "spec_sets second_spec \<subseteq> {(''default'', ''groupp2-leader''), (''default'', ''groupp2-worker0''), (''default'', ''groupp2-worker1'')}"
    using names by fastforce+
  then show ?thesis by auto
qed

lemma two_group_start:
  defines "specs \<equiv> [sample_group_spec, second_spec]" and "K \<equiv> live_k8s empty_store"
  shows "store_ok (live_at plain_server empty_store [])" and "distinct (map spec_key specs)"
    and "\<forall>spec \<in> set specs. good_namespace spec \<and> complete_spec K spec \<and> cl_Groups (live_at plain_server empty_store []) (spec_key spec) = None
      \<and> (\<forall>name. cl_Deployments (live_at plain_server empty_store []) (gs_Namespace spec, name) = None)"
    and "\<forall>i < length specs. \<forall>j < length specs. i \<noteq> j \<longrightarrow> spec_sets (specs ! i) \<inter> spec_sets (specs ! j) = {}"
proof -
  have st: "live_at plain_server empty_store [] = empty_store" by (simp add: live_at_def)
  show "store_ok (live_at plain_server empty_store [])" unfolding st by (simp add: store_ok_def empty_store_def)
  show "distinct (map spec_key specs)" by (simp add: specs_def two_group_specs(3,4))
  show "\<forall>spec \<in> set specs. good_namespace spec \<and> complete_spec K spec \<and> cl_Groups (live_at plain_server empty_store []) (spec_key spec) = None
      \<and> (\<forall>name. cl_Deployments (live_at plain_server empty_store []) (gs_Namespace spec, name) = None)"
    unfolding st specs_def K_def using two_group_specs(2) two_specs_complete by (simp add: empty_store_def live_k8s_def)
  show "\<forall>i < length specs. \<forall>j < length specs. i \<noteq> j \<longrightarrow> spec_sets (specs ! i) \<inter> spec_sets (specs ! j) = {}"
    using two_spec_sets by (auto simp: specs_def less_Suc_eq)
qed

theorem operator_settles_witness:
  "\<exists>h1 st' cg1 cg2. processNewOperator (live_k8s empty_store) (typed_controller (live_k8s empty_store)) two_group_operator [] = (Some None, h1)
     \<and> turns_taken (live_k8s empty_store) plain_server (live_at plain_server empty_store h1)
         (map (stored_group (live_at plain_server empty_store h1)) [sample_group_spec, second_spec]) st'
     \<and> cl_Groups st' (''default'', ''groupp1'') = Some cg1 \<and> running (live_k8s empty_store) st' cg1
     \<and> leaders_listed (live_k8s empty_store) cg1
     \<and> cl_Groups st' (''default'', ''groupp2'') = Some cg2 \<and> running (live_k8s empty_store) st' cg2
     \<and> leaders_listed (live_k8s empty_store) cg2"
proof -
  let ?K = "live_k8s empty_store" and ?specs = "[sample_group_spec, second_spec]"
  from operator_settles [OF live_k8s_laws plain_admission plain_fresh two_group_start(1) two_group_specs(1) two_group_start(2-4)] obtain h1
    where h1: "processNewOperator ?K (typed_controller ?K) two_group_operator [] = (Some None, h1)"
    and up: "\<forall>st'. turns_taken ?K plain_server (live_at plain_server empty_store h1)
          (map (stored_group (live_at plain_server empty_store h1)) ?specs) st' \<longrightarrow>
        (\<forall>spec \<in> set ?specs. \<exists>cg. cl_Groups st' (spec_key spec) = Some cg \<and> cg_Spec cg = spec
           \<and> k_isControlledBy ?K (cg_Meta cg) (op_Meta (defaulted two_group_operator)) \<and> running ?K st' cg \<and> leaders_listed ?K cg)"
    by blast
  obtain st' where st': "turns_taken ?K plain_server (live_at plain_server empty_store h1)
      (map (stored_group (live_at plain_server empty_store h1)) ?specs) st'"
    using turns_exist unfolding live_k8s_def by blast
  have settled: "\<exists>cg. cl_Groups st' (spec_key spec) = Some cg \<and> running ?K st' cg \<and> leaders_listed ?K cg"
    if "spec \<in> set ?specs" for spec
    using up [rule_format, OF st' that] by blast
  obtain cg1 cg2 where "cl_Groups st' (''default'', ''groupp1'') = Some cg1 \<and> running ?K st' cg1 \<and> leaders_listed ?K cg1"
    "cl_Groups st' (''default'', ''groupp2'') = Some cg2 \<and> running ?K st' cg2 \<and> leaders_listed ?K cg2"
    using settled [of sample_group_spec] settled [of second_spec] two_group_specs(3,4) by auto
  with h1 st' show ?thesis by blast
qed

end
