(* ===== verification/Json.thy ===== *)
theory Json
  imports Api_Types
begin

text \<open>
  The JSON that travels between the register controller and a query pod: \<^verbatim>\<open>ClusterNodeRequest\<close> of
  \<^verbatim>\<open>pkg/controllers/register/register.go\<close>, and of \<^verbatim>\<open>encoding/json\<close> what the code uses.  \<open>Marshal\<close>
  encodes one node (names and addresses of pods are ASCII), \<open>MarshalNodes\<close> a list; \<open>parse_json\<close> is
  the grammar of RFC 8259 for texts in valid UTF-8, and \<open>UnmarshalNode\<close> and \<open>UnmarshalNodes\<close> store what
  was read, with Go's rules for members and types that do not fit.  The lemmas lead to the round
  trip of both encodings.
\<close>

section \<open>Encoding\<close>

record ClusterNodeRequest =
  cn_Name :: string
  cn_Address :: string
  cn_Priority :: int

definition hex_digit :: "nat \<Rightarrow> char" where
  "hex_digit n = (if n < 10 then char_of (48 + n) else char_of (87 + n))"

definition json_u00 :: "nat \<Rightarrow> string" where
  "json_u00 n = [CHR 0x5C, CHR ''u'', CHR ''0'', CHR ''0'', hex_digit (n div 16), hex_digit (n mod 16)]"

definition json_char :: "char \<Rightarrow> string" where
  "json_char c = (let n = (of_char c :: nat) in
     if c = CHR 0x22 \<or> c = CHR 0x5C then [CHR 0x5C, c]
     else if n = 10 then [CHR 0x5C, CHR ''n'']
     else if n = 13 then [CHR 0x5C, CHR ''r'']
     else if n = 9 then [CHR 0x5C, CHR ''t'']
     else if n < 32 \<or> c = CHR ''<'' \<or> c = CHR ''>'' \<or> c = CHR ''&'' then json_u00 n
     else [c])"

definition json_string :: "string \<Rightarrow> string" where
  "json_string s = [CHR 0x22] @ concat (map json_char s) @ [CHR 0x22]"

text \<open>\<^verbatim>\<open>json.Marshal(configReq)\<close>; it has no error for this type.\<close>

definition Marshal :: "ClusterNodeRequest \<Rightarrow> string" where
  "Marshal r = ''{'' @ json_string ''name'' @ '':'' @ json_string (cn_Name r) @ '',''
     @ json_string ''address'' @ '':'' @ json_string (cn_Address r) @ '',''
     @ json_string ''priority'' @ '':'' @ fmt_d (cn_Priority r) @ ''}''"

text \<open>The encoding of a slice of nodes; a nil slice is \<^verbatim>\<open>null\<close>.\<close>

fun marshal_elems :: "ClusterNodeRequest list \<Rightarrow> string" where
  "marshal_elems [] = '']''"
| "marshal_elems (n # ns) = '','' @ Marshal n @ marshal_elems ns"

definition MarshalNodes :: "ClusterNodeRequest goslice \<Rightarrow> string" where
  "MarshalNodes ns = (case ns of None \<Rightarrow> ''null'' | Some [] \<Rightarrow> ''[]''
     | Some (n # rest) \<Rightarrow> ''['' @ Marshal n @ marshal_elems rest)"

section \<open>Parsing\<close>

datatype json =
    JNull
  | JBool bool
  | JNumber string
  | JString string
  | JArray "json list"
  | JObject "(string \<times> json) list"

definition is_space :: "char \<Rightarrow> bool" where
  "is_space c \<longleftrightarrow> c = CHR '' '' \<or> of_char c = (9 :: nat) \<or> of_char c = (10 :: nat) \<or> of_char c = (13 :: nat)"

definition skip_space :: "string \<Rightarrow> string" where
  "skip_space s = dropWhile is_space s"

definition hex_value :: "char \<Rightarrow> nat option" where
  "hex_value c = (let n = (of_char c :: nat) in
     if 48 \<le> n \<and> n \<le> 57 then Some (n - 48)
     else if 97 \<le> n \<and> n \<le> 102 then Some (n - 87)
     else if 65 \<le> n \<and> n \<le> 70 then Some (n - 55)
     else None)"

definition getu4 :: "char \<Rightarrow> char \<Rightarrow> char \<Rightarrow> char \<Rightarrow> nat option" where
  "getu4 a b c d = (case (hex_value a, hex_value b, hex_value c, hex_value d) of
     (Some w, Some x, Some y, Some z) \<Rightarrow> Some (4096 * w + 256 * x + 16 * y + z)
   | _ \<Rightarrow> None)"

text \<open>A string literal as read: bytes and the code units of \<^verbatim>\<open>\u\<close> escapes, which may be surrogates.\<close>

datatype code_unit = Byte char | U16 nat

definition simple_escape :: "char \<Rightarrow> char option" where
  "simple_escape e =
     (if e = CHR 0x22 \<or> e = CHR 0x5C \<or> e = CHR ''/'' then Some e
      else if e = CHR ''b'' then Some (char_of (8 :: nat))
      else if e = CHR ''f'' then Some (char_of (12 :: nat))
      else if e = CHR ''n'' then Some (char_of (10 :: nat))
      else if e = CHR ''r'' then Some (char_of (13 :: nat))
      else if e = CHR ''t'' then Some (char_of (9 :: nat))
      else None)"

text \<open>\<open>scan_string\<close> starts behind the opening quote and returns what follows the closing one.\<close>

fun scan_string :: "string \<Rightarrow> (code_unit list \<times> string) option" where
  "scan_string [] = None"
| "scan_string (c # cs) =
     (if c = CHR 0x22 then Some ([], cs)
      else if c = CHR 0x5C then
        (case cs of [] \<Rightarrow> None
         | e # es \<Rightarrow>
             if e = CHR ''u'' then
               (case es of a # b # x # y # r \<Rightarrow>
                  (case getu4 a b x y of None \<Rightarrow> None
                   | Some n \<Rightarrow> map_option (apfst (Cons (U16 n))) (scan_string r))
                | _ \<Rightarrow> None)
             else (case simple_escape e of None \<Rightarrow> None
                   | Some d \<Rightarrow> map_option (apfst (Cons (Byte d))) (scan_string es)))
      else if (of_char c :: nat) < 32 then None
      else map_option (apfst (Cons (Byte c))) (scan_string cs))"

text \<open>UTF-8 of a code point, and surrogate pairs as \<^verbatim>\<open>utf16.DecodeRune\<close> joins them.\<close>

definition utf8 :: "nat \<Rightarrow> string" where
  "utf8 n =
     (if n < 128 then [char_of n]
      else if n < 2048 then [char_of (192 + n div 64), char_of (128 + n mod 64)]
      else if n < 65536 then [char_of (224 + n div 4096), char_of (128 + n div 64 mod 64), char_of (128 + n mod 64)]
      else [char_of (240 + n div 262144), char_of (128 + n div 4096 mod 64),
            char_of (128 + n div 64 mod 64), char_of (128 + n mod 64)])"

definition is_high :: "nat \<Rightarrow> bool" where
  "is_high n \<longleftrightarrow> 55296 \<le> n \<and> n < 56320"

definition is_low :: "nat \<Rightarrow> bool" where
  "is_low n \<longleftrightarrow> 56320 \<le> n \<and> n < 57344"

fun join_units :: "code_unit list \<Rightarrow> string" where
  "join_units [] = []"
| "join_units (Byte c # us) = c # join_units us"
| "join_units (U16 n # U16 m # us) =
     (if is_high n \<and> is_low m then utf8 (65536 + 1024 * (n - 55296) + (m - 56320)) @ join_units us
      else if is_high n \<or> is_low n then utf8 65533 @ join_units (U16 m # us)
      else utf8 n @ join_units (U16 m # us))"
| "join_units (U16 n # us) =
     (if is_high n \<or> is_low n then utf8 65533 else utf8 n) @ join_units us"

definition parse_string :: "string \<Rightarrow> (string \<times> string) option" where
  "parse_string s = map_option (apfst join_units) (scan_string s)"

text \<open>\<open>-? (0 | [1-9][0-9]*) ('.' [0-9]+)? ([eE] [+-]? [0-9]+)?\<close>, with what follows it.\<close>

definition take_digits :: "string \<Rightarrow> string \<times> string" where
  "take_digits s = (takeWhile is_digit s, dropWhile is_digit s)"

definition scan_int :: "string \<Rightarrow> (string \<times> string) option" where
  "scan_int s = (case take_digits s of
     ([], _) \<Rightarrow> None
   | (d # ds, r) \<Rightarrow> if d = CHR ''0'' then Some ([d], ds @ r) else Some (d # ds, r))"

definition scan_frac :: "string \<Rightarrow> (string \<times> string) option" where
  "scan_frac s = (case s of [] \<Rightarrow> Some ([], s)
   | c # cs \<Rightarrow> if c \<noteq> CHR ''.'' then Some ([], s)
       else case take_digits cs of ([], _) \<Rightarrow> None | (ds, r) \<Rightarrow> Some (c # ds, r))"

definition scan_exp :: "string \<Rightarrow> (string \<times> string) option" where
  "scan_exp s = (case s of [] \<Rightarrow> Some ([], s)
   | c # cs \<Rightarrow> if c \<noteq> CHR ''e'' \<and> c \<noteq> CHR ''E'' then Some ([], s)
       else let (sign, cs') = (case cs of [] \<Rightarrow> ([], [])
                  | x # xs \<Rightarrow> if x = CHR ''+'' \<or> x = CHR ''-'' then ([x], xs) else ([], cs))
            in case take_digits cs' of ([], _) \<Rightarrow> None | (ds, r) \<Rightarrow> Some (c # sign @ ds, r))"

definition scan_number :: "string \<Rightarrow> (string \<times> string) option" where
  "scan_number s =
     (let (sign, s1) = (case s of [] \<Rightarrow> ([], []) | c # cs \<Rightarrow> if c = CHR ''-'' then ([c], cs) else ([], s))
      in case scan_int s1 of None \<Rightarrow> None
         | Some (i, s2) \<Rightarrow> (case scan_frac s2 of None \<Rightarrow> None
         | Some (f, s3) \<Rightarrow> (case scan_exp s3 of None \<Rightarrow> None
         | Some (e, s4) \<Rightarrow> Some (sign @ i @ f @ e, s4))))"

definition strip_prefix :: "string \<Rightarrow> string \<Rightarrow> string option" where
  "strip_prefix p s = (if take (length p) s = p then Some (drop (length p) s) else None)"

definition parse_literal :: "string \<Rightarrow> (json \<times> string) option" where
  "parse_literal s = (case strip_prefix ''null'' s of Some r \<Rightarrow> Some (JNull, r)
   | None \<Rightarrow> (case strip_prefix ''true'' s of Some r \<Rightarrow> Some (JBool True, r)
   | None \<Rightarrow> (case strip_prefix ''false'' s of Some r \<Rightarrow> Some (JBool False, r)
   | None \<Rightarrow> map_option (apfst JNumber) (scan_number s))))"

text \<open>
  The recursive grammar on fuel.  \<open>parse_elems\<close> stands before an element and \<open>parse_members\<close> before
  a member, both with the bracket still open.
\<close>

fun parse_value :: "nat \<Rightarrow> string \<Rightarrow> (json \<times> string) option"
  and parse_elems :: "nat \<Rightarrow> string \<Rightarrow> (json list \<times> string) option"
  and parse_members :: "nat \<Rightarrow> string \<Rightarrow> ((string \<times> json) list \<times> string) option" where
  "parse_value 0 s = None"
| "parse_value (Suc n) s = (case skip_space s of [] \<Rightarrow> None
   | c # cs \<Rightarrow>
       if c = CHR 0x22 then map_option (apfst JString) (parse_string cs)
       else if c = CHR ''['' then
         (case skip_space cs of [] \<Rightarrow> None
          | d # ds \<Rightarrow> if d = CHR '']'' then Some (JArray [], ds)
              else map_option (apfst JArray) (parse_elems n (d # ds)))
       else if c = CHR 0x7B then
         (case skip_space cs of [] \<Rightarrow> None
          | d # ds \<Rightarrow> if d = CHR 0x7D then Some (JObject [], ds)
              else map_option (apfst JObject) (parse_members n (d # ds)))
       else parse_literal (c # cs))"
| "parse_elems 0 s = None"
| "parse_elems (Suc n) s = (case parse_value n s of None \<Rightarrow> None
   | Some (v, r) \<Rightarrow> (case skip_space r of [] \<Rightarrow> None
     | d # ds \<Rightarrow> if d = CHR '']'' then Some ([v], ds)
         else if d = CHR '','' then map_option (apfst (Cons v)) (parse_elems n ds)
         else None))"
| "parse_members 0 s = None"
| "parse_members (Suc n) s = (case skip_space s of [] \<Rightarrow> None
   | q # qs \<Rightarrow> if q \<noteq> CHR 0x22 then None
       else (case parse_string qs of None \<Rightarrow> None
     | Some (k, r1) \<Rightarrow> (case skip_space r1 of [] \<Rightarrow> None
     | x # xs \<Rightarrow> if x \<noteq> CHR '':'' then None
         else (case parse_value n xs of None \<Rightarrow> None
     | Some (v, r) \<Rightarrow> (case skip_space r of [] \<Rightarrow> None
     | d # ds \<Rightarrow> if d = CHR 0x7D then Some ([(k, v)], ds)
         else if d = CHR '','' then map_option (apfst (Cons (k, v))) (parse_members n ds)
         else None)))))"

text \<open>
  A text is one value with nothing but white space around it.  The fuel is enough for every text
  (\<open>parse_fuel\<close>).
\<close>

definition parse_json :: "string \<Rightarrow> json option" where
  "parse_json s = (case parse_value (2 * length s + 1) s of None \<Rightarrow> None
     | Some (v, r) \<Rightarrow> if skip_space r = [] then Some v else None)"

section \<open>Decoding\<close>

text \<open>
  The name of a member selects a field exactly or up to case; \<^verbatim>\<open>bytes.EqualFold\<close> takes the letter
  U+017F, in UTF-8 \<open>C5 BF\<close>, for an \<^verbatim>\<open>s\<close>.
\<close>

definition lower :: "char \<Rightarrow> char" where
  "lower c = (let n = (of_char c :: nat) in if 65 \<le> n \<and> n \<le> 90 then char_of (n + 32) else c)"

fun fold_key :: "string \<Rightarrow> string" where
  "fold_key (a # b # cs) =
     (if a = CHR 0xC5 \<and> b = CHR 0xBF then CHR ''s'' # fold_key cs else lower a # fold_key (b # cs))"
| "fold_key cs = map lower cs"

text \<open>
  A value that does not fit a field leaves it as it is and is an error at the end, with the other
  members still stored; \<^verbatim>\<open>null\<close> leaves it as it is without an error.  The second component
  tells whether there was an error.
\<close>

definition store_string :: "json \<Rightarrow> string \<Rightarrow> string \<times> bool" where
  "store_string v old = (case v of JString s \<Rightarrow> (s, False) | JNull \<Rightarrow> (old, False) | _ \<Rightarrow> (old, True))"

definition store_int :: "json \<Rightarrow> int \<Rightarrow> int \<times> bool" where
  "store_int v old = (case v of
     JNumber t \<Rightarrow> (case Atoi t of Inl _ \<Rightarrow> (old, True) | Inr i \<Rightarrow> (i, False))
   | JNull \<Rightarrow> (old, False) | _ \<Rightarrow> (old, True))"

definition store_member :: "string \<times> json \<Rightarrow> ClusterNodeRequest \<Rightarrow> ClusterNodeRequest \<times> bool" where
  "store_member m r = (case m of (k, v) \<Rightarrow>
     if fold_key k = ''name'' then (case store_string v (cn_Name r) of (s, e) \<Rightarrow> (r\<lparr>cn_Name := s\<rparr>, e))
     else if fold_key k = ''address'' then (case store_string v (cn_Address r) of (s, e) \<Rightarrow> (r\<lparr>cn_Address := s\<rparr>, e))
     else if fold_key k = ''priority'' then (case store_int v (cn_Priority r) of (i, e) \<Rightarrow> (r\<lparr>cn_Priority := i\<rparr>, e))
     else (r, False))"

fun store_members :: "(string \<times> json) list \<Rightarrow> ClusterNodeRequest \<Rightarrow> ClusterNodeRequest \<times> bool" where
  "store_members [] r = (r, False)"
| "store_members (m # ms) r =
     (case store_member m r of (r1, e1) \<Rightarrow> case store_members ms r1 of (r2, e2) \<Rightarrow> (r2, e1 \<or> e2))"

definition store_node :: "json \<Rightarrow> ClusterNodeRequest \<Rightarrow> ClusterNodeRequest \<times> bool" where
  "store_node v r = (case v of JObject ms \<Rightarrow> store_members ms r | JNull \<Rightarrow> (r, False) | _ \<Rightarrow> (r, True))"

definition zero_node :: ClusterNodeRequest where
  "zero_node = \<lparr>cn_Name = '''', cn_Address = '''', cn_Priority = 0\<rparr>"

text \<open>\<^verbatim>\<open>var node ClusterNodeRequest; json.Unmarshal(text, &node)\<close>: the variable afterwards, and the error.\<close>

definition UnmarshalNode :: "string \<Rightarrow> ClusterNodeRequest \<times> json_error option" where
  "UnmarshalNode text = (case parse_json text of None \<Rightarrow> (zero_node, Some SyntaxError)
   | Some v \<Rightarrow> (case store_node v zero_node of (r, e) \<Rightarrow> (r, if e then Some UnmarshalTypeError else None)))"

text \<open>\<^verbatim>\<open>var allNodes []ClusterNodeRequest; json.Unmarshal(text, &allNodes)\<close>\<close>

definition UnmarshalNodes :: "string \<Rightarrow> json_error + ClusterNodeRequest goslice" where
  "UnmarshalNodes text = (case parse_json text of
     None \<Rightarrow> Inl SyntaxError
   | Some JNull \<Rightarrow> Inr None
   | Some (JArray vs) \<Rightarrow>
       (let rs = map (\<lambda>v. store_node v zero_node) vs
        in if \<exists>p \<in> set rs. snd p then Inl UnmarshalTypeError else Inr (Some (map fst rs)))
   | Some _ \<Rightarrow> Inl UnmarshalTypeError)"

section \<open>Strings\<close>

definition ascii :: "string \<Rightarrow> bool" where
  "ascii s \<longleftrightarrow> (\<forall>c \<in> set s. (of_char c :: nat) < 128)"

lemma ascii_simps [simp]: "ascii []" "ascii (c # s) \<longleftrightarrow> (of_char c :: nat) < 128 \<and> ascii s"
  "ascii (s @ t) \<longleftrightarrow> ascii s \<and> ascii t"
  by (auto simp: ascii_def)

lemma join_ascii: "n < 128 \<Longrightarrow> join_units (U16 n # us) = char_of n # join_units us"
  by (cases us rule: join_units.cases) (auto simp: is_high_def is_low_def utf8_def)

lemma hex_value_digit: "n < 16 \<Longrightarrow> hex_value (hex_digit n) = Some n"
  by (auto simp: hex_digit_def hex_value_def Let_def)

lemma getu4_u00: "n < 128 \<Longrightarrow> getu4 (CHR ''0'') (CHR ''0'') (hex_digit (n div 16)) (hex_digit (n mod 16)) = Some n"
  by (simp add: getu4_def hex_value_digit) (simp add: hex_value_def)

lemma scan_char:
  assumes "(of_char c :: nat) < 128"
  shows "\<exists>u. scan_string (json_char c @ s) = map_option (apfst (Cons u)) (scan_string s)
    \<and> (\<forall>us. join_units (u # us) = c # join_units us)"
proof -
  let ?n = "of_char c :: nat"
  have c: "c = char_of ?n" by simp
  show ?thesis
  proof (cases "c = CHR 0x22 \<or> c = CHR 0x5C")
    case True
    then show ?thesis by (intro exI [of _ "Byte c"]) (auto simp: json_char_def simple_escape_def)
  next
    case plain: False
    show ?thesis
    proof (cases "?n = 10 \<or> ?n = 13 \<or> ?n = 9")
      case True
      then have "c = char_of (10 :: nat) \<or> c = char_of (13 :: nat) \<or> c = char_of (9 :: nat)" using c by metis
      with plain show ?thesis
        by (intro exI [of _ "Byte c"]) (auto simp: json_char_def simple_escape_def)
    next
      case False
      show ?thesis
      proof (cases "?n < 32 \<or> c = CHR ''<'' \<or> c = CHR ''>'' \<or> c = CHR ''&''")
        case True
        with plain False have "json_char c = json_u00 ?n" by (simp add: json_char_def)
        with assms show ?thesis
          by (intro exI [of _ "U16 ?n"]) (simp add: json_u00_def getu4_u00 join_ascii)
      next
        case F2: False
        with plain False have "json_char c = [c]" by (simp add: json_char_def)
        with plain F2 show ?thesis by (intro exI [of _ "Byte c"]) simp
      qed
    qed
  qed
qed

lemma parse_string_json:
  "ascii s \<Longrightarrow> parse_string (concat (map json_char s) @ CHR 0x22 # r) = Some (s, r)"
proof -
  assume "ascii s"
  then have "\<exists>us. scan_string (concat (map json_char s) @ CHR 0x22 # r) = Some (us, r) \<and> join_units us = s"
  proof (induction s)
    case (Cons c s)
    then obtain us where us: "scan_string (concat (map json_char s) @ CHR 0x22 # r) = Some (us, r)" "join_units us = s"
      by auto
    obtain u where u: "scan_string (json_char c @ concat (map json_char s) @ CHR 0x22 # r) =
        map_option (apfst (Cons u)) (scan_string (concat (map json_char s) @ CHR 0x22 # r))"
      "\<forall>us. join_units (u # us) = c # join_units us"
      using Cons.prems scan_char [of c] by fastforce
    then show ?case using us by (intro exI [of _ "u # us"]) simp
  qed simp
  then show ?thesis by (auto simp: parse_string_def)
qed

section \<open>Numbers\<close>

lemma fmt_nat_hd: "n \<noteq> 0 \<Longrightarrow> hd (fmt_nat n) \<noteq> CHR ''0''"
proof (induction n rule: fmt_nat.induct)
  case (1 n)
  show ?case
  proof (cases "n < 10")
    case True
    then have "(of_char (digit_char n) :: nat) \<noteq> of_char (CHR ''0'')" using 1(2) by (simp add: of_digit_char)
    with True show ?thesis by (auto simp: fmt_nat.simps [of n])
  next
    case False
    with 1 show ?thesis by (simp add: fmt_nat.simps [of n])
  qed
qed

lemma fmt_zero: "fmt_nat 0 = ''0''"
  by code_simp

text \<open>What may follow a number: neither a digit nor the start of a fraction or an exponent.\<close>

definition number_end :: "string \<Rightarrow> bool" where
  "number_end r \<longleftrightarrow> (case r of [] \<Rightarrow> True
     | c # _ \<Rightarrow> \<not> is_digit c \<and> c \<noteq> CHR ''.'' \<and> c \<noteq> CHR ''e'' \<and> c \<noteq> CHR ''E'')"

lemma take_digits_fmt: "number_end r \<Longrightarrow> take_digits (fmt_nat n @ r) = (fmt_nat n, r)"
  using fmt_nat_digits [of n]
  by (cases r) (auto simp: take_digits_def number_end_def takeWhile_append dropWhile_append)

lemma scan_int_fmt: "number_end r \<Longrightarrow> scan_int (fmt_nat n @ r) = Some (fmt_nat n, r)"
proof -
  assume r: "number_end r"
  obtain c cs where c: "fmt_nat n = c # cs" using fmt_nat_Cons by blast
  show ?thesis
  proof (cases "n = 0")
    case True
    then show ?thesis using take_digits_fmt [OF r, of n] by (simp add: scan_int_def fmt_zero)
  next
    case False
    then show ?thesis using take_digits_fmt [OF r, of n] fmt_nat_hd [OF False] c by (simp add: scan_int_def)
  qed
qed

lemma scan_number_fmt: "number_end r \<Longrightarrow> scan_number (fmt_d i @ r) = Some (fmt_d i, r)"
proof -
  assume r: "number_end r"
  have rest: "scan_frac r = Some ([], r)" "scan_exp r = Some ([], r)"
    using r by (auto simp: number_end_def scan_frac_def scan_exp_def split: list.splits)
  show ?thesis
  proof (cases "i < 0")
    case True
    then show ?thesis by (simp add: scan_number_def fmt_d_def scan_int_fmt [OF r] rest)
  next
    case False
    obtain c cs where c: "fmt_nat (nat i) = c # cs" "is_digit c" using fmt_nat_Cons by blast
    then have "c \<noteq> CHR ''-''" using is_digit_not by blast
    with False c show ?thesis
      using scan_int_fmt [OF r, of "nat i"] by (simp add: scan_number_def fmt_d_def rest)
  qed
qed

lemma fmt_d_Cons: "\<exists>c cs. fmt_d i = c # cs \<and> (is_digit c \<or> c = CHR ''-'')"
  using fmt_nat_Cons [of "nat i"] by (auto simp: fmt_d_def)

lemma parse_number_fmt:
  assumes "number_end r"
  shows "parse_value (Suc n) (fmt_d i @ r) = Some (JNumber (fmt_d i), r)"
proof -
  obtain c cs where c: "fmt_d i = c # cs" "is_digit c \<or> c = CHR ''-''" using fmt_d_Cons by blast
  then have "\<not> is_space c \<and> c \<notin> {CHR 0x22, CHR ''['', CHR 0x7B, CHR ''n'', CHR ''t'', CHR ''f''}"
    by (auto simp: is_space_def is_digit_def)
  moreover have "scan_number (c # cs @ r) = Some (c # cs, r)" using scan_number_fmt [OF assms, of i] c by simp
  ultimately show ?thesis
    by (simp add: c skip_space_def parse_literal_def strip_prefix_def)
qed

section \<open>Progress and fuel\<close>

lemma skip_space_length: "length (skip_space s) \<le> length s"
  by (simp add: skip_space_def length_dropWhile_le)

lemma skip_space_Cons: "skip_space s = c # cs \<Longrightarrow> length cs < length s"
  using skip_space_length [of s] by simp

lemma scan_string_shorter: "scan_string s = Some (us, r) \<Longrightarrow> length r < length s"
  by (induction s arbitrary: us r rule: scan_string.induct) (fastforce split: if_splits list.splits option.splits)+

lemma parse_string_shorter: "parse_string s = Some (t, r) \<Longrightarrow> length r < length s"
  by (auto simp: parse_string_def dest: scan_string_shorter)

lemma take_digits_length: "take_digits s = (ds, r) \<Longrightarrow> length s = length ds + length r"
  by (metis take_digits_def length_append prod.sel takeWhile_dropWhile_id)

lemma scan_int_shorter: "scan_int s = Some (t, r) \<Longrightarrow> length r < length s"
  by (auto simp: scan_int_def dest: take_digits_length split: prod.splits list.splits if_splits)

lemma scan_frac_length: "scan_frac s = Some (t, r) \<Longrightarrow> length r \<le> length s"
  by (auto simp: scan_frac_def dest!: take_digits_length split: prod.splits list.splits if_splits)

lemma scan_exp_length: "scan_exp s = Some (t, r) \<Longrightarrow> length r \<le> length s"
  by (auto simp: scan_exp_def Let_def dest!: take_digits_length split: prod.splits list.splits if_splits)

lemma scan_number_shorter: "scan_number s = Some (t, r) \<Longrightarrow> length r < length s"
  by (auto simp: scan_number_def Let_def dest!: scan_int_shorter scan_frac_length scan_exp_length
      split: prod.splits list.splits if_splits option.splits)

lemma parse_literal_shorter: "parse_literal s = Some (v, r) \<Longrightarrow> length r < length s"
proof -
  have *: "strip_prefix p s = Some r \<Longrightarrow> p \<noteq> [] \<Longrightarrow> length r < length s" for p r
    by (cases s) (auto simp: strip_prefix_def split: if_splits)
  assume "parse_literal s = Some (v, r)"
  then show ?thesis
    by (auto simp: parse_literal_def intro: * scan_number_shorter split: option.splits)
qed

lemma parse_shorter:
  "parse_value n s = Some (v, r) \<Longrightarrow> length r < length s"
  "parse_elems n s = Some (vs, r) \<Longrightarrow> length r < length s"
  "parse_members n s = Some (ms, r) \<Longrightarrow> length r < length s"
proof (induction n arbitrary: s v vs ms r)
  case (Suc n)
  {
    case 1
    obtain c cs where c: "skip_space s = c # cs" using 1 by (auto split: list.splits)
    note l = skip_space_Cons [OF c]
    consider "c = CHR 0x22" | "c = CHR ''[''" | "c = CHR 0x7B" | "c \<notin> {CHR 0x22, CHR ''['', CHR 0x7B}" by blast
    then show ?case
    proof cases
      case 1
      with c \<open>parse_value (Suc n) s = Some (v, r)\<close> l show ?thesis by (auto dest!: parse_string_shorter)
    next
      case 2
      with c \<open>parse_value (Suc n) s = Some (v, r)\<close> l show ?thesis
        by (auto dest!: Suc.IH(2) skip_space_Cons split: list.splits if_splits)
    next
      case 3
      with c \<open>parse_value (Suc n) s = Some (v, r)\<close> l show ?thesis
        by (auto dest!: Suc.IH(3) skip_space_Cons split: list.splits if_splits)
    next
      case 4
      then have "parse_literal (c # cs) = Some (v, r)" using c \<open>parse_value (Suc n) s = Some (v, r)\<close> by simp
      then show ?thesis using parse_literal_shorter [of "c # cs" v r] skip_space_length [of s] c by simp
    qed
  next
    case 2
    then show ?case
      by (auto dest!: Suc.IH(1) Suc.IH(2) skip_space_Cons split: option.splits list.splits if_splits)
  next
    case 3
    then show ?case
      by (auto dest!: Suc.IH(1) Suc.IH(3) skip_space_Cons parse_string_shorter
          split: option.splits list.splits if_splits)
  }
qed simp_all

text \<open>More fuel than twice the length of the text changes nothing.\<close>

lemma parse_fuel_step:
  "2 * length s < n \<Longrightarrow> parse_value (Suc n) s = parse_value n s"
  "2 * length s + 1 < n \<Longrightarrow> parse_elems (Suc n) s = parse_elems n s"
  "2 * length s + 1 < n \<Longrightarrow> parse_members (Suc n) s = parse_members n s"
proof (induction n arbitrary: s)
  case (Suc n)
  {
    case 1
    have e: "parse_elems (Suc n) t = parse_elems n t" "parse_members (Suc n) t = parse_members n t"
      if "skip_space s = c # cs" "skip_space cs = t" for c cs t
    proof -
      have "2 * length t + 1 < n" using 1 skip_space_Cons [OF that(1)] skip_space_length [of cs] that(2) by simp
      then show "parse_elems (Suc n) t = parse_elems n t" "parse_members (Suc n) t = parse_members n t"
        by (rule Suc.IH)+
    qed
    show ?case
      by (simp add: e del: parse_elems.simps parse_members.simps split: list.split)
  next
    case 2
    have v: "parse_value (Suc n) s = parse_value n s" using 2 by (intro Suc.IH) simp
    have e: "parse_elems (Suc n) ds = parse_elems n ds"
      if "parse_value n s = Some (x, r)" "skip_space r = d # ds" for x r d ds
      using 2 parse_shorter(1) [OF that(1)] skip_space_Cons [OF that(2)] by (intro Suc.IH) simp
    show ?case
      unfolding parse_elems.simps(2) [of "Suc n" s] parse_elems.simps(2) [of n s] v
      by (auto simp: e simp del: parse_value.simps parse_elems.simps split: option.split list.split)
  next
    case 3
    show ?case
    proof (cases "skip_space s")
      case (Cons q qs)
      note q = skip_space_Cons [OF Cons]
      show ?thesis
      proof (cases "parse_string qs")
        case (Some p)
        obtain k r1 where p: "p = (k, r1)" by (cases p)
        note r1 = parse_string_shorter [OF Some [unfolded p]]
        show ?thesis
        proof (cases "skip_space r1")
          case c: (Cons x xs)
          note xs = skip_space_Cons [OF c]
          have v: "parse_value (Suc n) xs = parse_value n xs" using 3 q r1 xs by (intro Suc.IH) simp
          have m: "parse_members (Suc n) ds = parse_members n ds"
            if "parse_value n xs = Some (y, r)" "skip_space r = d # ds" for y r d ds
            using 3 q r1 xs parse_shorter(1) [OF that(1)] skip_space_Cons [OF that(2)] by (intro Suc.IH) simp
          show ?thesis
            unfolding parse_members.simps(2) [of "Suc n" s] parse_members.simps(2) [of n s]
            by (auto simp: Cons Some p c v m simp del: parse_value.simps parse_members.simps
                split: option.split list.split)
        qed (simp add: Cons Some p)
      qed (simp add: Cons)
    qed simp
  }
qed simp_all

lemma parse_fuel: "2 * length s < n \<Longrightarrow> parse_value n s = parse_value (2 * length s + 1) s"
proof (induction n)
  case (Suc n)
  show ?case
  proof (cases "n = 2 * length s")
    case False
    with Suc have "2 * length s < n" by simp
    with Suc.IH parse_fuel_step(1) [of s n] show ?thesis by simp
  qed simp
qed simp

section \<open>Nodes\<close>

lemma skip_visible: "\<not> is_space c \<Longrightarrow> skip_space (c # s) = c # s"
  by (simp add: skip_space_def)

lemma not_space: "\<not> is_space (CHR 0x22)" "\<not> is_space (CHR 0x7B)" "\<not> is_space (CHR 0x7D)" "\<not> is_space (CHR '','')"
  "\<not> is_space (CHR '':'')" "\<not> is_space (CHR ''['')" "\<not> is_space (CHR '']'')"
  by (simp_all add: is_space_def)

lemma parse_string_value:
  "ascii s \<Longrightarrow> parse_value (Suc n) (json_string s @ r) = Some (JString s, r)"
  by (simp add: json_string_def skip_visible not_space parse_string_json)

lemma parse_member:
  assumes "ascii k" and "\<And>m. parse_value (Suc m) (t @ d # ds) = Some (v, d # ds)" and "\<not> is_space d"
  shows "parse_members (Suc (Suc n)) (json_string k @ CHR '':'' # t @ d # ds) =
    (if d = CHR 0x7D then Some ([(k, v)], ds)
     else if d = CHR '','' then map_option (apfst (Cons (k, v))) (parse_members (Suc n) ds) else None)"
  by (simp add: json_string_def skip_visible not_space parse_string_json assms del: parse_value.simps)

lemma ascii_names [simp]: "ascii ''name''" "ascii ''address''" "ascii ''priority''"
  by (simp_all add: ascii_def)

definition ascii_node :: "ClusterNodeRequest \<Rightarrow> bool" where
  "ascii_node r \<longleftrightarrow> ascii (cn_Name r) \<and> ascii (cn_Address r)
     \<and> - (2 ^ 63) \<le> cn_Priority r \<and> cn_Priority r < 2 ^ 63"

definition node_json :: "ClusterNodeRequest \<Rightarrow> json" where
  "node_json r = JObject [(''name'', JString (cn_Name r)), (''address'', JString (cn_Address r)),
     (''priority'', JNumber (fmt_d (cn_Priority r)))]"

lemma parse_node:
  assumes "ascii_node r"
  shows "parse_value (n + 5) (Marshal r @ s) = Some (node_json r, s)"
proof -
  let ?p = "json_string ''priority'' @ CHR '':'' # fmt_d (cn_Priority r) @ CHR 0x7D # s"
  let ?a = "json_string ''address'' @ CHR '':'' # json_string (cn_Address r) @ CHR '','' # ?p"
  let ?n = "json_string ''name'' @ CHR '':'' # json_string (cn_Name r) @ CHR '','' # ?a"
  have "number_end (CHR 0x7D # s)" by (simp add: number_end_def is_digit_def)
  then have p: "parse_members (Suc (Suc n)) ?p = Some ([(''priority'', JNumber (fmt_d (cn_Priority r)))], s)"
    by (simp add: parse_member [OF _ parse_number_fmt] not_space del: parse_members.simps)
  have a: "parse_members (Suc (Suc (Suc n))) ?a =
      Some ([(''address'', JString (cn_Address r)), (''priority'', JNumber (fmt_d (cn_Priority r)))], s)"
    using assms by (simp add: parse_member [OF _ parse_string_value] not_space p ascii_node_def del: parse_members.simps)
  have nm: "parse_members (Suc (Suc (Suc (Suc n)))) ?n = Some ([(''name'', JString (cn_Name r)),
      (''address'', JString (cn_Address r)), (''priority'', JNumber (fmt_d (cn_Priority r)))], s)"
    using assms by (simp add: parse_member [OF _ parse_string_value] not_space a ascii_node_def del: parse_members.simps)
  have "Marshal r @ s = CHR 0x7B # ?n" by (simp add: Marshal_def)
  moreover have "\<exists>q. ?n = CHR 0x22 # q" by (simp add: json_string_def)
  ultimately show ?thesis
    using nm by (auto simp: skip_visible not_space node_json_def numeral_eq_Suc simp del: parse_members.simps)
qed

lemma fold_names [simp]: "fold_key ''name'' = ''name''" "fold_key ''address'' = ''address''"
  "fold_key ''priority'' = ''priority''"
  by (simp_all add: lower_def char_of_def)

lemma store_node_json: "ascii_node r \<Longrightarrow> store_node (node_json r) r0 = (r, False)"
  by (simp add: node_json_def store_node_def store_member_def store_string_def store_int_def Atoi_fmt_d ascii_node_def
      del: fold_key.simps)

lemma parse_marshalled_elems:
  "\<forall>r \<in> set (r # rs). ascii_node r \<Longrightarrow>
    parse_elems (length rs + n + 6) (Marshal r @ marshal_elems rs @ s) = Some (map node_json (r # rs), s)"
proof (induction rs arbitrary: r)
  case Nil
  then show ?case
    using parse_node [of r "n" "CHR '']'' # s"] by (simp add: skip_visible not_space numeral_eq_Suc del: parse_value.simps)
next
  case (Cons r' rs)
  have "parse_value (length rs + n + 6) (Marshal r @ CHR '','' # Marshal r' @ marshal_elems rs @ s)
      = Some (node_json r, CHR '','' # Marshal r' @ marshal_elems rs @ s)"
    using parse_node [of r "Suc (length rs + n)"] Cons.prems by (simp add: numeral_eq_Suc del: parse_value.simps)
  then show ?case
    using Cons.IH [of r'] Cons.prems by (simp add: skip_visible not_space numeral_eq_Suc del: parse_value.simps)
qed

lemma Marshal_length: "5 < length (Marshal r)"
  by (simp add: Marshal_def json_string_def)

lemma marshal_elems_length: "length rs < length (marshal_elems rs)"
  using Marshal_length by (induction rs) (auto simp: less_Suc_eq_le intro: order.trans)

lemma parse_json_node: "ascii_node r \<Longrightarrow> parse_json (Marshal r) = Some (node_json r)"
proof -
  assume r: "ascii_node r"
  have "2 * length (Marshal r) + 1 = (2 * length (Marshal r) - 4) + 5" using Marshal_length [of r] by simp
  then show ?thesis
    using parse_node [OF r, of "2 * length (Marshal r) - 4" "[]"] by (simp add: parse_json_def skip_space_def del: parse_value.simps)
qed

lemma parse_json_nodes:
  assumes "\<forall>r \<in> set rs. ascii_node r" 
  shows "parse_json (MarshalNodes (Some rs)) = Some (JArray (map node_json rs))"
proof (cases rs)
  case Nil
  then show ?thesis by (simp add: MarshalNodes_def parse_json_def skip_space_def is_space_def numeral_eq_Suc)
next
  case (Cons r rs')
  let ?t = "Marshal r @ marshal_elems rs'"
  let ?m = "2 * length (MarshalNodes (Some rs)) - length rs' - 6"
  have "2 * length (MarshalNodes (Some rs)) = length rs' + ?m + 6"
    using Marshal_length [of r] marshal_elems_length [of rs'] by (simp add: MarshalNodes_def Cons)
  then have e: "parse_elems (2 * length (MarshalNodes (Some rs))) ?t = Some (map node_json rs, [])"
    using parse_marshalled_elems [of r rs' ?m "[]"] assms Cons
    by (simp del: parse_elems.simps)
  have "\<exists>q. ?t = CHR 0x7B # q" by (simp add: Marshal_def)
  then show ?thesis
    using e by (auto simp: parse_json_def MarshalNodes_def Cons skip_visible not_space simp del: parse_elems.simps)
      (auto simp: skip_space_def)
qed

lemma node_roundtrip: "ascii_node r \<Longrightarrow> UnmarshalNode (Marshal r) = (r, None)"
  by (simp add: UnmarshalNode_def parse_json_node store_node_json)

lemma nodes_roundtrip:
  "\<forall>r \<in> set (elems ns). ascii_node r \<Longrightarrow> UnmarshalNodes (MarshalNodes ns) = Inr ns"
proof (cases ns)
  case None
  then show ?thesis by (simp add: MarshalNodes_def UnmarshalNodes_def) (simp add: parse_json_def skip_space_def numeral_eq_Suc
        is_space_def parse_literal_def strip_prefix_def)
next
  case (Some rs)
  assume "\<forall>r \<in> set (elems ns). ascii_node r"
  with Some have r: "\<forall>r \<in> set rs. ascii_node r" by simp
  then have "map (\<lambda>v. store_node v zero_node) (map node_json rs) = map (\<lambda>r. (r, False)) rs"
    by (simp add: store_node_json)
  moreover have "map fst (map (\<lambda>r. (r, False)) rs) = rs" by (induction rs) simp_all
  ultimately show ?thesis by (simp add: UnmarshalNodes_def Some parse_json_nodes [OF r] del: map_map)
qed

section \<open>Properties\<close>

text \<open>C20 (roundtrip).  What the controller and a query pod exchange is read back as it was sent: a list
  of nodes, nil and empty lists apart, and a single node, for all ASCII names and addresses (with
  quotes, backslashes and control characters among them) and all 64-bit priorities.\<close>

theorem json_roundtrip:
  assumes "\<forall>r \<in> set (elems ns). ascii_node r" and "ascii_node n"
  shows "UnmarshalNodes (MarshalNodes ns) = Inr ns \<and> UnmarshalNode (Marshal n) = (n, None)"
  using nodes_roundtrip [OF assms(1)] node_roundtrip [OF assms(2)] by simp

definition sample_node :: ClusterNodeRequest where
  "sample_node = \<lparr>cn_Name = ''default/<p1>'', cn_Address = ''10.0.0.1:9091'', cn_Priority = - 7\<rparr>"

theorem json_roundtrip_witness:
  "UnmarshalNodes (MarshalNodes (Some [sample_node])) = Inr (Some [sample_node])
   \<and> UnmarshalNode (Marshal sample_node) = (sample_node, None)"
proof -
  have a: "ascii_node sample_node" by (simp add: ascii_node_def sample_node_def)
  then have "\<forall>r \<in> set (elems (Some [sample_node])). ascii_node r" by simp
  from json_roundtrip [OF this a] show ?thesis .
qed

end
