(* ===== verification/Register.thy ===== *)
theory Register
  imports Operator_Utils Json
begin

text \<open>
  \<^verbatim>\<open>pkg/controllers/register/register.go\<close>: how the operator talks to a running query pod.  The
  pod's ports are read back from the environment variables of its first container, and nodes
  are added to and removed from a leader's cluster list by HTTP requests to it, whose bodies are
  JSON (\<open>Json\<close>).
\<close>

record FuseQueryConfigs =
  fq_MysqlPort :: string
  fq_HTTPPort :: string
  fq_RPCPort :: string
  fq_ClickHousePort :: string
  fq_MetricsPort :: string
  fq_Priority :: string

definition CLUSTER_ADD :: string where
  "CLUSTER_ADD = ''/v1/cluster/add''"

definition CLUSTER_REMOVE :: string where
  "CLUSTER_REMOVE = ''/v1/cluster/remove''"

definition CLUSTER_LIST :: string where
  "CLUSTER_LIST = ''/v1/cluster/list''"

definition CLUSTER_CONFIG :: string where
  "CLUSTER_CONFIG = ''/v1/configs''"

record RegistSetter =
  rs_AllNS :: bool
  rs_Namspaces :: "string list"

definition GetLabelSelectors :: "RegistSetter \<Rightarrow> string list" where
  "GetLabelSelectors r = [ComputeGroupRoleLabel, ComputeGroupLabel]"

definition GetFieldSelectors :: "RegistSetter \<Rightarrow> string list" where
  "GetFieldSelectors r = []"

definition IsGroupLeader :: "RegistSetter \<Rightarrow> Pod \<Rightarrow> bool" where
  "IsGroupLeader r pod = (case map_get (om_Labels (pod_Meta pod)) ComputeGroupRoleLabel of
     None \<Rightarrow> False | Some role \<Rightarrow> role = ComputeGroupRoleLeader)"

definition IsGroupWorker :: "RegistSetter \<Rightarrow> Pod \<Rightarrow> bool" where
  "IsGroupWorker r pod = (case map_get (om_Labels (pod_Meta pod)) ComputeGroupRoleLabel of
     None \<Rightarrow> False | Some role \<Rightarrow> role = ComputeGroupRoleFollower)"

section \<open>HTTP\<close>

definition httpParse :: "string \<Rightarrow> string" where
  "httpParse url = (if HasPrefix url ''http://'' \<or> HasPrefix url ''https://'' then url
     else ''http://'' @ url)"

text \<open>The response's status is not looked at: any answer whose body can be read is a success.\<close>

definition postHTTP :: "k8s \<Rightarrow> string \<Rightarrow> string \<Rightarrow> go_error option go" where
  "postHTTP K url jsonStr =
     (let validURL = httpParse url in
      case k_newRequest K validURL of
        Some err \<Rightarrow> ret (Some err)
      | None \<Rightarrow>
          bind_io (perform (HttpPost validURL jsonStr) (\<lambda>h. k_httpPost K h validURL jsonStr)) (\<lambda>resp.
          case resp of Inl err \<Rightarrow> ret (Some err)
          | Inr (status, body) \<Rightarrow> (case body of Inl err \<Rightarrow> ret (Some err) | Inr _ \<Rightarrow> ret None)))"

definition getHTTP :: "k8s \<Rightarrow> string \<Rightarrow> (go_error + string) go" where
  "getHTTP K url =
     bind_io (perform (HttpGet url) (\<lambda>h. k_httpGet K h url)) (\<lambda>resp.
     case resp of Inl err \<Rightarrow> ret (Inl err)
     | Inr (status, body) \<Rightarrow>
         if status \<noteq> 200
         then ret (Inl (Errorf (''reponse status is not ok, status code: '' @ fmt_d status)))
         else ret body)"

section \<open>The configuration of a pod\<close>

definition zero_config :: FuseQueryConfigs where
  "zero_config = \<lparr>fq_MysqlPort = '''', fq_HTTPPort = '''', fq_RPCPort = '''', fq_ClickHousePort = '''',
     fq_MetricsPort = '''', fq_Priority = ''''\<rparr>"

definition cannot_parse :: "Pod \<Rightarrow> string \<Rightarrow> string \<Rightarrow> go_error" where
  "cannot_parse pod what value = Errorf (''cannot parse pod '' @ om_Namespace (pod_Meta pod) @ ''/''
     @ om_Name (pod_Meta pod) @ '' '' @ what @ '' port with value '' @ value)"

fun buildPodConfigLoop :: "Pod \<Rightarrow> EnvVar list \<Rightarrow> FuseQueryConfigs \<Rightarrow> go_error + FuseQueryConfigs" where
  "buildPodConfigLoop pod [] config = Inr config"
| "buildPodConfigLoop pod (env # envs) config =
     (if ev_Name env = FUSE_QUERY_HTTP_API_ADDRESS then
        (case SplitN2 (ev_Value env) (CHR '':'') of
           [a, b] \<Rightarrow> buildPodConfigLoop pod envs (config\<lparr>fq_HTTPPort := b\<rparr>)
         | _ \<Rightarrow> Inl (cannot_parse pod ''http'' (ev_Value env)))
      else if ev_Name env = FUSE_QUERY_MYSQL_HANDLER_PORT then
        buildPodConfigLoop pod envs (config\<lparr>fq_MysqlPort := ev_Value env\<rparr>)
      else if ev_Name env = FUSE_QUERY_CLICKHOUSE_HANDLER_PORT then
        buildPodConfigLoop pod envs (config\<lparr>fq_ClickHousePort := ev_Value env\<rparr>)
      else if ev_Name env = FUSE_QUERY_RPC_API_ADDRESS then
        (case SplitN2 (ev_Value env) (CHR '':'') of
           [a, b] \<Rightarrow> buildPodConfigLoop pod envs (config\<lparr>fq_RPCPort := b\<rparr>)
         | _ \<Rightarrow> Inl (cannot_parse pod ''rpc'' (ev_Value env)))
      else if ev_Name env = FUSE_QUERY_METRIC_API_ADDRESS then
        (case SplitN2 (ev_Value env) (CHR '':'') of
           [a, b] \<Rightarrow> buildPodConfigLoop pod envs (config\<lparr>fq_MetricsPort := b\<rparr>)
         | _ \<Rightarrow> Inl (cannot_parse pod ''metrics'' (ev_Value env)))
      else if ev_Name env = FUSE_QUERY_PRIORITY then
        buildPodConfigLoop pod envs (config\<lparr>fq_Priority := ev_Value env\<rparr>)
      else buildPodConfigLoop pod envs config)"

text \<open>\<^verbatim>\<open>pod.Spec.Containers[0]\<close> panics for a pod without containers.\<close>

definition BuildPodConfig :: "Pod \<Rightarrow> (go_error + FuseQueryConfigs) option" where
  "BuildPodConfig pod = (case ps_Containers (pod_Spec pod) of
     [] \<Rightarrow> None | c # _ \<Rightarrow> Some (buildPodConfigLoop pod (ct_Env c) zero_config))"

section \<open>Requests to a leader\<close>

definition pod_key :: "Pod \<Rightarrow> string" where
  "pod_key pod = object_key (om_Namespace (pod_Meta pod)) (om_Name (pod_Meta pod))"

text \<open>\<open>fmt.Sprintf("%s:%s%s", pod.Status.PodIP, port, op)\<close>\<close>

definition receiver :: "Pod \<Rightarrow> string \<Rightarrow> string \<Rightarrow> string" where
  "receiver pod port op = pst_PodIP (pod_Status pod) @ '':'' @ port @ op"

text \<open>
  The name, address and priority under which a follower is registered, from its own
  configuration: the lines that \<^verbatim>\<open>AddNode\<close> and \<^verbatim>\<open>RemoveNode\<close> share.
\<close>

definition nodeRequest :: "Pod \<Rightarrow> FuseQueryConfigs \<Rightarrow> go_error + ClusterNodeRequest" where
  "nodeRequest follower followerconfig =
     (case Atoi (fq_Priority followerconfig) of
        Inl e \<Rightarrow> Inl (ErrorfErr ''cannot convert priority to integer, %s''
                        (NumError (fq_Priority followerconfig) e))
      | Inr priority \<Rightarrow> Inr \<lparr>cn_Name = pod_key follower,
          cn_Address = pst_PodIP (pod_Status follower) @ '':'' @ fq_RPCPort followerconfig,
          cn_Priority = priority\<rparr>)"

definition AddNode :: "k8s \<Rightarrow> RegistSetter \<Rightarrow> Pod \<Rightarrow> Pod \<Rightarrow> go_error option go" where
  "AddNode K r leader follower =
     bind_io (lift_io (BuildPodConfig leader)) (\<lambda>lc.
     case lc of Inl err \<Rightarrow> ret (Some err) | Inr leaderConfig \<Rightarrow>
     bind_io (lift_io (BuildPodConfig follower)) (\<lambda>fc.
     case fc of Inl err \<Rightarrow> ret (Some err) | Inr followerconfig \<Rightarrow>
     case nodeRequest follower followerconfig of Inl err \<Rightarrow> ret (Some err) | Inr configReq \<Rightarrow>
     postHTTP K (receiver leader (fq_HTTPPort leaderConfig) CLUSTER_ADD) (Marshal configReq)))"

definition RemoveConfig :: "k8s \<Rightarrow> RegistSetter \<Rightarrow> Pod \<Rightarrow> ClusterNodeRequest \<Rightarrow> go_error option go" where
  "RemoveConfig K r pod config =
     bind_io (lift_io (BuildPodConfig pod)) (\<lambda>lc.
     case lc of Inl err \<Rightarrow> ret (Some err) | Inr leaderConfig \<Rightarrow>
     postHTTP K (receiver pod (fq_HTTPPort leaderConfig) CLUSTER_REMOVE) (Marshal config))"

definition RemoveNode :: "k8s \<Rightarrow> RegistSetter \<Rightarrow> Pod \<Rightarrow> Pod \<Rightarrow> go_error option go" where
  "RemoveNode K r leader follower =
     bind_io (lift_io (BuildPodConfig follower)) (\<lambda>fc.
     case fc of Inl err \<Rightarrow> ret (Some err) | Inr followerconfig \<Rightarrow>
     case nodeRequest follower followerconfig of Inl err \<Rightarrow> ret (Some err) | Inr configReq \<Rightarrow>
     RemoveConfig K r leader configReq)"

definition GetClusterList :: "k8s \<Rightarrow> RegistSetter \<Rightarrow> Pod \<Rightarrow> (go_error + ClusterNodeRequest list) go" where
  "GetClusterList K r pod =
     bind_io (lift_io (BuildPodConfig pod)) (\<lambda>cfg.
     case cfg of Inl err \<Rightarrow> ret (Inl err) | Inr config \<Rightarrow>
     bind_io (getHTTP K (''http://'' @ receiver pod (fq_HTTPPort config) CLUSTER_LIST)) (\<lambda>body.
     case body of Inl err \<Rightarrow> ret (Inl err) | Inr b \<Rightarrow>
     case UnmarshalNodes b of Inl err \<Rightarrow> ret (Inl (JSONError b err))
     | Inr allNodes \<Rightarrow> ret (Inr (elems allNodes))))"

definition GetConfig :: "k8s \<Rightarrow> RegistSetter \<Rightarrow> Pod \<Rightarrow> (go_error + string) go" where
  "GetConfig K r pod =
     bind_io (lift_io (BuildPodConfig pod)) (\<lambda>cfg.
     case cfg of Inl err \<Rightarrow> ret (Inl err) | Inr config \<Rightarrow>
     getHTTP K (''http://'' @ receiver pod (fq_HTTPPort config) CLUSTER_CONFIG))"

section \<open>Reading back what was deployed\<close>

lemma SplitN2_address [simp]:
  "SplitN2 (''0.0.0.0:'' @ fmt_d i) (CHR '':'') = [''0.0.0.0'', fmt_d i]"
  using SplitN2_append [of "CHR '':''" "''0.0.0.0''" "fmt_d i"] by simp

text \<open>The environment variables have pairwise different names.\<close>

lemma env_names_distinct [simp]:
  "FUSE_QUERY_HTTP_API_ADDRESS \<noteq> FUSE_QUERY_MYSQL_HANDLER_PORT"
  "FUSE_QUERY_NUM_CPUS \<noteq> FUSE_QUERY_HTTP_API_ADDRESS"
  "FUSE_QUERY_NUM_CPUS \<noteq> FUSE_QUERY_MYSQL_HANDLER_PORT"
  "FUSE_QUERY_NUM_CPUS \<noteq> FUSE_QUERY_CLICKHOUSE_HANDLER_PORT"
  "FUSE_QUERY_NUM_CPUS \<noteq> FUSE_QUERY_RPC_API_ADDRESS"
  "FUSE_QUERY_NUM_CPUS \<noteq> FUSE_QUERY_METRIC_API_ADDRESS"
  "FUSE_QUERY_NUM_CPUS \<noteq> FUSE_QUERY_PRIORITY"
  by (simp_all add: env_name_defs)

lemma buildPodConfigLoop_makeEnvs:
  assumes "makeEnvs spec = Some envs"
  obtains mysql clickhouse http metrics rpc priority where
    "ci_MysqlPort spec = Some mysql" "ci_ClickhousePort spec = Some clickhouse"
    "ci_HTTPPort spec = Some http" "ci_MetricsPort spec = Some metrics"
    "ci_RPCPort spec = Some rpc" "ci_Priority spec = Some priority"
    "buildPodConfigLoop pod envs zero_config = Inr \<lparr>fq_MysqlPort = fmt_d (sint mysql),
       fq_HTTPPort = fmt_d (sint http), fq_RPCPort = fmt_d (sint rpc),
       fq_ClickHousePort = fmt_d (sint clickhouse), fq_MetricsPort = fmt_d (sint metrics),
       fq_Priority = fmt_d (sint priority)\<rparr>"
proof -
  obtain cores mysql clickhouse http metrics rpc priority where *:
    "ci_Cores spec = Some cores" "ci_MysqlPort spec = Some mysql"
    "ci_ClickhousePort spec = Some clickhouse" "ci_HTTPPort spec = Some http"
    "ci_MetricsPort spec = Some metrics" "ci_RPCPort spec = Some rpc"
    "ci_Priority spec = Some priority"
    using assms unfolding makeEnvs_def Option.bind_eq_Some_conv by blast
  have "buildPodConfigLoop pod envs zero_config = Inr \<lparr>fq_MysqlPort = fmt_d (sint mysql),
       fq_HTTPPort = fmt_d (sint http), fq_RPCPort = fmt_d (sint rpc),
       fq_ClickHousePort = fmt_d (sint clickhouse), fq_MetricsPort = fmt_d (sint metrics),
       fq_Priority = fmt_d (sint priority)\<rparr>"
    using assms SplitN2_address * by (auto simp: makeEnvs_def zero_config_def env_name_defs)
  with * show thesis by (intro that)
qed

text \<open>The calls that a registration and a removal send to the leader, when they can be built.\<close>

definition add_event :: "Pod \<Rightarrow> Pod \<Rightarrow> call option" where
  "add_event leader follower =
     (case (BuildPodConfig leader, BuildPodConfig follower) of
        (Some (Inr lc), Some (Inr fc)) \<Rightarrow> (case nodeRequest follower fc of Inl _ \<Rightarrow> None
          | Inr n \<Rightarrow> Some (HttpPost (httpParse (receiver leader (fq_HTTPPort lc) CLUSTER_ADD)) (Marshal n)))
      | _ \<Rightarrow> None)"

definition remove_event :: "Pod \<Rightarrow> Pod \<Rightarrow> call option" where
  "remove_event leader follower =
     (case (BuildPodConfig leader, BuildPodConfig follower) of
        (Some (Inr lc), Some (Inr fc)) \<Rightarrow> (case nodeRequest follower fc of Inl _ \<Rightarrow> None
          | Inr n \<Rightarrow> Some (HttpPost (httpParse (receiver leader (fq_HTTPPort lc) CLUSTER_REMOVE)) (Marshal n)))
      | _ \<Rightarrow> None)"

lemma postHTTP_success:
  "postHTTP K url json h = (Some None, h') \<Longrightarrow> h' = h @ [HttpPost (httpParse url) json]"
  by (auto simp: postHTTP_def Let_def io_simps split: option.splits sum.splits prod.splits)

lemma postHTTP_any:
  "postHTTP K url json h = (r, h') \<Longrightarrow>
     r \<noteq> None \<and> (h' = h \<or> h' = h @ [HttpPost (httpParse url) json])"
  by (auto simp: postHTTP_def Let_def io_simps split: option.splits sum.splits prod.splits)

lemma postHTTP_run:
  "k_newRequest K (httpParse url) = None \<Longrightarrow> postHTTP K url json h =
     (Some (case k_httpPost K h (httpParse url) json of Inl err \<Rightarrow> Some err
       | Inr (status, Inl err) \<Rightarrow> Some err | Inr (status, Inr body) \<Rightarrow> None),
      h @ [HttpPost (httpParse url) json])"
  by (auto simp: postHTTP_def Let_def io_simps split: sum.splits)

lemma AddNode_run:
  "BuildPodConfig leader = Some (Inr lc) \<Longrightarrow> BuildPodConfig follower = Some (Inr fc) \<Longrightarrow>
   nodeRequest follower fc = Inr n \<Longrightarrow>
     AddNode K r leader follower h =
       postHTTP K (receiver leader (fq_HTTPPort lc) CLUSTER_ADD) (Marshal n) h"
  by (simp add: AddNode_def io_simps)

section \<open>The interface to a leader\<close>

text \<open>
  What the register controller relies on when it adds pods to a leader or removes them: a
  success has sent exactly the call for that pod, a failure has sent that call or nothing.
\<close>

locale leader_interface =
  fixes op :: "Pod \<Rightarrow> Pod \<Rightarrow> go_error option go"
    and event :: "Pod \<Rightarrow> Pod \<Rightarrow> call option"
  assumes op_success: "op l f h = (Some None, h') \<Longrightarrow> \<exists>e. event l f = Some e \<and> h' = h @ [e]"
    and op_failure: "op l f h = (r, h') \<Longrightarrow> h' = h \<or> (\<exists>e. event l f = Some e \<and> h' = h @ [e])"
begin

lemma all_success:
  "for_until_error (op l) fs h = (Some None, h') \<Longrightarrow>
     \<exists>es. map (event l) fs = map Some es \<and> h' = h @ es"
proof (induction fs arbitrary: h)
  case Nil
  then show ?case by (auto simp: io_simps)
next
  case (Cons f fs)
  obtain h1 where 1: "op l f h = (Some None, h1)" and 2: "for_until_error (op l) fs h1 = (Some None, h')"
    using Cons.prems by (auto simp: io_simps split: prod.splits option.splits)
  from op_success [OF 1] obtain e where e: "event l f = Some e" "h1 = h @ [e]" by blast
  from Cons.IH [OF 2] obtain es where "map (event l) fs = map Some es" "h' = h1 @ es" by blast
  with e show ?case by (intro exI [of _ "e # es"]) simp
qed

text \<open>In every outcome, the calls made are those for a prefix of the pods, in order.\<close>

lemma prefix_sent:
  "for_until_error (op l) fs h = (r, h') \<Longrightarrow>
     \<exists>es k. k \<le> length fs \<and> map (event l) (take k fs) = map Some es \<and> h' = h @ es"
proof (induction fs arbitrary: h)
  case Nil
  then show ?case by (auto simp: io_simps)
next
  case (Cons f fs)
  obtain r1 h1 where 1: "op l f h = (r1, h1)" by (cases "op l f h")
  show ?case
  proof (cases "r1 = Some None")
    case True
    with 1 Cons.prems have 2: "for_until_error (op l) fs h1 = (r, h')"
      by (simp add: io_simps)
    from op_success 1 True obtain e where e: "event l f = Some e" "h1 = h @ [e]" by blast
    from Cons.IH [OF 2] obtain es k where
      "k \<le> length fs" "map (event l) (take k fs) = map Some es" "h' = h1 @ es" by blast
    with e show ?thesis by (intro exI [of _ "e # es"] exI [of _ "Suc k"]) simp
  next
    case False
    with 1 Cons.prems have "h' = h1" by (auto simp: io_simps split: option.splits)
    from op_failure [OF 1] consider "h1 = h" | e where "event l f = Some e" "h1 = h @ [e]" by blast
    then show ?thesis
    proof cases
      case 1
      with \<open>h' = h1\<close> show ?thesis by (intro exI [of _ "[]"] exI [of _ 0]) simp
    next
      case 2
      with \<open>h' = h1\<close> show ?thesis by (intro exI [of _ "[e]"] exI [of _ 1]) simp
    qed
  qed
qed

end

interpretation add_node: leader_interface "AddNode K r" add_event for K r
proof
  fix l f h h'
  assume "AddNode K r l f h = (Some None, h')"
  then show "\<exists>e. add_event l f = Some e \<and> h' = h @ [e]"
    by (auto simp: AddNode_def add_event_def io_simps dest!: postHTTP_success
        split: option.splits sum.splits)
next
  fix l f h res h'
  assume "AddNode K r l f h = (res, h')"
  then show "h' = h \<or> (\<exists>e. add_event l f = Some e \<and> h' = h @ [e])"
    by (auto simp: AddNode_def add_event_def io_simps dest!: postHTTP_any
        split: option.splits sum.splits)
qed

interpretation remove_node: leader_interface "RemoveNode K r" remove_event for K r
proof
  fix l f h h'
  assume "RemoveNode K r l f h = (Some None, h')"
  then show "\<exists>e. remove_event l f = Some e \<and> h' = h @ [e]"
    by (auto simp: RemoveNode_def RemoveConfig_def remove_event_def io_simps dest!: postHTTP_success
        split: option.splits sum.splits)
next
  fix l f h res h'
  assume "RemoveNode K r l f h = (res, h')"
  then show "h' = h \<or> (\<exists>e. remove_event l f = Some e \<and> h' = h @ [e])"
    by (auto simp: RemoveNode_def RemoveConfig_def remove_event_def io_simps dest!: postHTTP_any
        split: option.splits sum.splits)
qed

text \<open>The configuration that is read back from a pod whose template was built from a specification.\<close>

lemma BuildPodConfig_deployed:
  assumes "convertInstanceSpecToPodSpec K spec = Some (pod_Spec pod)"
  obtains mysql clickhouse http metrics rpc priority where
    "ci_MysqlPort spec = Some mysql" "ci_ClickhousePort spec = Some clickhouse"
    "ci_HTTPPort spec = Some http" "ci_MetricsPort spec = Some metrics"
    "ci_RPCPort spec = Some rpc" "ci_Priority spec = Some priority"
    "BuildPodConfig pod = Some (Inr \<lparr>fq_MysqlPort = fmt_d (sint mysql), fq_HTTPPort = fmt_d (sint http),
         fq_RPCPort = fmt_d (sint rpc), fq_ClickHousePort = fmt_d (sint clickhouse),
         fq_MetricsPort = fmt_d (sint metrics), fq_Priority = fmt_d (sint priority)\<rparr>)"
proof -
  obtain c envs where c: "ps_Containers (pod_Spec pod) = [c]" "makeEnvs spec = Some envs" "ct_Env c = envs"
    using assms by (rule convertInstanceSpecToPodSpec_SomeE)
  from c(2) show thesis
    by (rule buildPodConfigLoop_makeEnvs [where pod = pod])
      (rule that, simp_all add: c BuildPodConfig_def)
qed

lemma nodeRequest_priority:
  "fq_Priority config = fmt_d (sint (priority :: int32)) \<Longrightarrow> nodeRequest pod config = Inr \<lparr>cn_Name = pod_key pod,
     cn_Address = pst_PodIP (pod_Status pod) @ '':'' @ fq_RPCPort config, cn_Priority = sint priority\<rparr>"
  by (simp add: nodeRequest_def Atoi_fmt_int32)

section \<open>Sample pods\<close>

definition sample_pod :: "string \<Rightarrow> string \<Rightarrow> string \<Rightarrow> Pod" where
  "sample_pod name role ip = \<lparr>
     pod_Meta = zero_ObjectMeta\<lparr>om_Name := name, om_Namespace := ''default'',
       om_Labels := Some [(ComputeGroupLabel, ''default-group1''), (ComputeGroupRoleLabel, role)]\<rparr>,
     pod_Spec = the (convertInstanceSpecToPodSpec ref_k8s sample_instance),
     pod_Status = \<lparr>pst_Phase = ''Running'', pst_PodIP = ip,
       pst_Conditions = [\<lparr>pc_Type = ''Ready'', pc_Status = ''True''\<rparr>]\<rparr>\<rparr>"

lemma sample_pod_spec: "convertInstanceSpecToPodSpec ref_k8s sample_instance = Some (pod_Spec (sample_pod name role ip))"
proof -
  have "convertInstanceSpecToPodSpec ref_k8s sample_instance \<noteq> None"
    unfolding convertInstanceSpecToPodSpec_exists
    by (auto simp: complete_instance_def ref_k8s_def sample_instance_def)
  then show ?thesis by (simp add: sample_pod_def)
qed

lemmas sample_pod_simps = sample_instance_def sample_pod_def pod_key_def object_key_def zero_ObjectMeta_def
  sample_decimals label_defs

definition sample_setter :: RegistSetter where
  "sample_setter = \<lparr>rs_AllNS = True, rs_Namspaces = []\<rparr>"

section \<open>Properties\<close>

text \<open>C21 (roundtrip).  The operator writes a pod's ports and priority into environment variables and
  the register controller reads them back: for every pod whose template was built from an
  instance specification, \<^verbatim>\<open>BuildPodConfig\<close> succeeds and returns exactly the specification's
  ports, and the node is registered under its namespace and name with the pod's address and
  the specification's own priority.\<close>

theorem pod_config_roundtrip:
  assumes "convertInstanceSpecToPodSpec K spec = Some (pod_Spec pod)"
  shows "\<exists>mysql clickhouse http metrics rpc priority config.
     ci_MysqlPort spec = Some mysql \<and> ci_ClickhousePort spec = Some clickhouse
     \<and> ci_HTTPPort spec = Some http \<and> ci_MetricsPort spec = Some metrics
     \<and> ci_RPCPort spec = Some rpc \<and> ci_Priority spec = Some priority
     \<and> BuildPodConfig pod = Some (Inr config)
     \<and> config = \<lparr>fq_MysqlPort = fmt_d (sint mysql), fq_HTTPPort = fmt_d (sint http),
         fq_RPCPort = fmt_d (sint rpc), fq_ClickHousePort = fmt_d (sint clickhouse),
         fq_MetricsPort = fmt_d (sint metrics), fq_Priority = fmt_d (sint priority)\<rparr>
     \<and> nodeRequest pod config = Inr \<lparr>cn_Name = pod_key pod,
         cn_Address = pst_PodIP (pod_Status pod) @ '':'' @ fmt_d (sint rpc),
         cn_Priority = sint priority\<rparr>"
  by (rule BuildPodConfig_deployed [OF assms]) (simp add: nodeRequest_priority)

text \<open>Registering one deployed pod with another sends exactly one request, to the
  leader's HTTP port, with the follower's node as its JSON body, and succeeds whenever a response
  body can be read, whatever its status code.\<close>

theorem AddNode_deployed:
  assumes "convertInstanceSpecToPodSpec K ls = Some (pod_Spec leader)"
    and "convertInstanceSpecToPodSpec K fs = Some (pod_Spec follower)"
    and "ci_HTTPPort ls = Some http" and "ci_RPCPort fs = Some rpc" and "ci_Priority fs = Some priority"
    and "url = httpParse (receiver leader (fmt_d (sint http)) CLUSTER_ADD)"
    and "json = Marshal \<lparr>cn_Name = pod_key follower,
           cn_Address = pst_PodIP (pod_Status follower) @ '':'' @ fmt_d (sint rpc),
           cn_Priority = sint priority\<rparr>"
    and "k_newRequest K url = None"
  shows "AddNode K r leader follower h =
    (Some (case k_httpPost K h url json of Inl err \<Rightarrow> Some err
       | Inr (status, Inl err) \<Rightarrow> Some err
       | Inr (status, Inr body) \<Rightarrow> None),
     h @ [HttpPost url json])"
proof -
  obtain lc where lc: "BuildPodConfig leader = Some (Inr lc)" "fq_HTTPPort lc = fmt_d (sint http)"
    by (rule BuildPodConfig_deployed [OF assms(1)]) (use assms(3) in simp)
  obtain fc where fc: "BuildPodConfig follower = Some (Inr fc)" "fq_RPCPort fc = fmt_d (sint rpc)"
    "fq_Priority fc = fmt_d (sint priority)"
    by (rule BuildPodConfig_deployed [OF assms(2)]) (use assms(4,5) in simp)
  note n = nodeRequest_priority [OF fc(3), of follower, unfolded fc(2)]
  have "AddNode K r leader follower h = postHTTP K (receiver leader (fmt_d (sint http)) CLUSTER_ADD) json h"
    unfolding AddNode_run [OF lc(1) fc(1) n] assms(7) lc(2) ..
  also have "\<dots> = (Some (case k_httpPost K h url json of Inl err \<Rightarrow> Some err
       | Inr (status, Inl err) \<Rightarrow> Some err | Inr (status, Inr body) \<Rightarrow> None), h @ [HttpPost url json])"
    unfolding assms(6) by (rule postHTTP_run) (use assms(6,8) in simp)
  finally show ?thesis .
qed

text \<open>The role label that the operator puts on a deployment's pods is the one the
  register controller tests: a pod with the labels of a leader deployment is a leader and not a
  worker, a pod of any other deployment is a worker and not a leader, and both carry every label
  that the pod informer selects on.\<close>

theorem role_labels_agree:
  assumes "MakeDeployment K cs name ns opKey groupKey isLeader = Some d"
    and "om_Labels (pod_Meta pod) = pt_Labels (ds_Template (dep_Spec d))"
  shows "IsGroupLeader r pod = isLeader \<and> IsGroupWorker r pod = (\<not> isLeader)
     \<and> (\<forall>l \<in> set (GetLabelSelectors r). map_get (om_Labels (pod_Meta pod)) l \<noteq> None)
     \<and> map_get (om_Labels (pod_Meta pod)) ComputeGroupLabel = Some groupKey"
  by (rule MakeDeployment_SomeE [OF assms(1)])
    (simp add: assms(2) IsGroupLeader_def IsGroupWorker_def GetLabelSelectors_def leaderString_def label_defs)

text \<open>The address that a request goes to always has a scheme, an address that has
  one is used as it is, and parsing an address twice changes nothing.\<close>

theorem httpParse_spec:
  "(HasPrefix (httpParse url) ''http://'' \<or> HasPrefix (httpParse url) ''https://'')
   \<and> httpParse (httpParse url) = httpParse url
   \<and> (httpParse url = url \<or> httpParse url = ''http://'' @ url)"
  by (auto simp: httpParse_def HasPrefix_def)

section \<open>The properties at concrete inputs\<close>

theorem pod_config_roundtrip_witness:
  "\<exists>config. BuildPodConfig (sample_pod ''p1'' ''leader'' ''10.0.0.1'') = Some (Inr config)
     \<and> fq_HTTPPort config = ''8080''
     \<and> nodeRequest (sample_pod ''p1'' ''leader'' ''10.0.0.1'') config =
         Inr \<lparr>cn_Name = ''default/p1'', cn_Address = ''10.0.0.1:9091'', cn_Priority = 1\<rparr>"
  using pod_config_roundtrip [OF sample_pod_spec [of "''p1''" "''leader''" "''10.0.0.1''"]]
  by (auto simp: sample_pod_simps)

theorem AddNode_deployed_witness:
  "\<exists>json. AddNode ref_k8s sample_setter (sample_pod ''p1'' ''leader'' ''10.0.0.1'')
       (sample_pod ''p2'' ''follower'' ''10.0.0.2'') [] =
     (Some None, [HttpPost ''http://10.0.0.1:8080/v1/cluster/add'' json])"
proof -
  note AddNode_deployed [where r = sample_setter and h = "[]" and http = 8080 and rpc = 9091 and priority = 1,
      OF sample_pod_spec [of "''p1''" "''leader''" "''10.0.0.1''"]
         sample_pod_spec [of "''p2''" "''follower''" "''10.0.0.2''"] _ _ _ refl refl]
  then show ?thesis
    by (simp add: sample_pod_simps receiver_def CLUSTER_ADD_def httpParse_def HasPrefix_def ref_k8s_def)
qed

theorem role_labels_agree_witness:
  "\<exists>d. MakeDeployment ref_k8s sample_set ''group1-leader'' ''default'' '''' ''default-group1'' True = Some d
   \<and> (let pod = (sample_pod ''p1'' ''leader'' ''10.0.0.1'')\<lparr>pod_Meta :=
          zero_ObjectMeta\<lparr>om_Labels := pt_Labels (ds_Template (dep_Spec d))\<rparr>\<rparr>
      in IsGroupLeader sample_setter pod \<and> \<not> IsGroupWorker sample_setter pod)"
proof -
  obtain d where d: "MakeDeployment ref_k8s sample_set ''group1-leader'' ''default'' '''' ''default-group1'' True = Some d"
    using sample_deployment_exists by blast
  let ?pod = "(sample_pod ''p1'' ''leader'' ''10.0.0.1'')\<lparr>pod_Meta :=
          zero_ObjectMeta\<lparr>om_Labels := pt_Labels (ds_Template (dep_Spec d))\<rparr>\<rparr>"
  have "om_Labels (pod_Meta ?pod) = pt_Labels (ds_Template (dep_Spec d))" by simp
  from role_labels_agree [OF d this] d show ?thesis by (auto simp: Let_def)
qed

end
