(* ===== verification/Register_Controller.thy ===== *)
theory Register_Controller
  imports Register Requeue
begin

text \<open>
  \<^verbatim>\<open>pkg/controllers/register/register_controller.go\<close>: the controller that keeps the cluster list
  of every leader pod in step with the ready pods.  Its state is the setter, the keys of
  \<^verbatim>\<open>podInformers\<close> and the debug flag; the informers' stores and the work queue are outside and
  answer through \<open>k8s\<close>.
\<close>

record RegisterController =
  rc_setter :: RegistSetter
  rc_podInformers :: "string list"
  rc_debug :: bool

section \<open>Construction and events\<close>

definition buildRegisterInformer :: "RegisterController \<Rightarrow> string \<Rightarrow> RegisterController" where
  "buildRegisterInformer c namespace =
     c\<lparr>rc_podInformers := List.insert namespace (rc_podInformers c)\<rparr>"

text \<open>The selectors of the list-watch, beside the controller.\<close>

definition NewRegisterController :: "RegistSetter \<Rightarrow> RegisterController \<times> (string \<times> string) option" where
  "NewRegisterController setter =
     (let c = \<lparr>rc_setter = setter, rc_podInformers = [], rc_debug = False\<rparr>
      in if rs_AllNS setter
         then (buildRegisterInformer c NamespaceAll,
               Some (Join (GetLabelSelectors setter) '','', Join (GetFieldSelectors setter) '',''))
         else (c, None))"

text \<open>The three handlers of \<^verbatim>\<open>buildRegisterInformer\<close>: every event queues the new object.\<close>

fun podEvent :: "informer_event \<Rightarrow> unit go" where
  "podEvent (Added newObj) = tell (QueueAddRateLimited PodQueue newObj)"
| "podEvent (Updated oldObj newObj) = tell (QueueAddRateLimited PodQueue newObj)"
| "podEvent (Deleted newObj) = tell (QueueAddRateLimited PodQueue newObj)"

section \<open>Reads of the pod store\<close>

text \<open>\<^verbatim>\<open>rc.podInformers[metav1.NamespaceAll].GetStore()\<close>: a missing key is a nil interface.\<close>

definition pod_store :: "RegisterController \<Rightarrow> unit go" where
  "pod_store rc = (if NamespaceAll \<in> set (rc_podInformers rc) then ret () else panic)"

fun readyPods :: "k8s \<Rightarrow> (Pod \<Rightarrow> bool) \<Rightarrow> go_obj list \<Rightarrow> Pod list" where
  "readyPods K role [] = []"
| "readyPods K role (obj # objs) =
     (case obj of PodPtr _ pod \<Rightarrow>
        if \<not> k_isPodReady K pod \<or> \<not> role pod then readyPods K role objs
        else pod # readyPods K role objs
      | _ \<Rightarrow> readyPods K role objs)"

definition ListReadyLeaders :: "k8s \<Rightarrow> RegisterController \<Rightarrow> string \<Rightarrow> Pod list go" where
  "ListReadyLeaders K rc groupKey =
     (if rs_AllNS (rc_setter rc)
      then bind_io (pod_store rc) (\<lambda>_.
           bind_io (perform (StoreList NamespaceAll) (\<lambda>h. k_storeList K h)) (\<lambda>objs.
           ret (readyPods K (IsGroupLeader (rc_setter rc)) objs)))
      else ret [])"

definition ListReadyWorkers :: "k8s \<Rightarrow> RegisterController \<Rightarrow> string \<Rightarrow> Pod list go" where
  "ListReadyWorkers K rc groupKey =
     (if rs_AllNS (rc_setter rc)
      then bind_io (pod_store rc) (\<lambda>_.
           bind_io (perform (StoreList NamespaceAll) (\<lambda>h. k_storeList K h)) (\<lambda>objs.
           ret (readyPods K (IsGroupWorker (rc_setter rc)) objs)))
      else ret [])"

text \<open>
  The pod that a read of the store returned: none after an error, for a missing key, or when the
  stored object is not a \<^verbatim>\<open>*v1.Pod\<close>; the code treats the three alike.
\<close>

definition stored_pod :: "go_error + go_obj option \<Rightarrow> Pod option" where
  "stored_pod r = (case r of Inr (Some (PodPtr _ p)) \<Rightarrow> Some p | _ \<Rightarrow> None)"

fun existedLoop :: "k8s \<Rightarrow> ClusterNodeRequest list \<Rightarrow> Pod gomap \<Rightarrow> ClusterNodeRequest list
    \<Rightarrow> (Pod gomap \<times> ClusterNodeRequest list) go" where
  "existedLoop K [] existedWorkers needToRemove = ret (existedWorkers, needToRemove)"
| "existedLoop K (worker # workers) existedWorkers needToRemove =
     bind_io (perform (StoreGetByKey NamespaceAll (cn_Name worker))
                (\<lambda>h. k_storeGetByKey K h (cn_Name worker))) (\<lambda>r.
     case stored_pod r of
       Some p \<Rightarrow> existedLoop K workers (map_put (cn_Name worker) p existedWorkers) needToRemove
     | None \<Rightarrow> existedLoop K workers existedWorkers (needToRemove @ [worker]))"

text \<open>The errors of \<^verbatim>\<open>RemoveConfig\<close> are dropped.\<close>

definition ListExistedWorkers :: "k8s \<Rightarrow> RegisterController \<Rightarrow> Pod \<Rightarrow> (go_error + Pod gomap) go" where
  "ListExistedWorkers K rc leader =
     bind_io (GetClusterList K (rc_setter rc) leader) (\<lambda>r.
     case r of Inl err \<Rightarrow> ret (Inl err)
     | Inr workers \<Rightarrow>
         if rs_AllNS (rc_setter rc)
         then bind_io (pod_store rc) (\<lambda>_.
              bind_io (existedLoop K workers (Some []) []) (\<lambda>(existedWorkers, needToRemove).
              bind_io (for_each (\<lambda>item. bind_io (RemoveConfig K (rc_setter rc) leader item) (\<lambda>_. ret ()))
                         needToRemove) (\<lambda>_.
              ret (Inr existedWorkers))))
         else ret (Inr (Some [])))"

section \<open>Leaders\<close>

fun classifyLoop :: "Pod gomap \<Rightarrow> Pod list \<Rightarrow> Pod gomap \<Rightarrow> Pod list \<Rightarrow> Pod gomap \<times> Pod list" where
  "classifyLoop existedWorkers [] removeHelper neededToAdd = (removeHelper, neededToAdd)"
| "classifyLoop existedWorkers (worker # workers) removeHelper neededToAdd =
     (if map_get existedWorkers (pod_key worker) \<noteq> None
      then classifyLoop existedWorkers workers (map_put (pod_key worker) worker removeHelper) neededToAdd
      else classifyLoop existedWorkers workers removeHelper (neededToAdd @ [worker]))"

fun removeLoop :: "Pod gomap \<Rightarrow> string list \<Rightarrow> Pod gomap \<Rightarrow> Pod list \<Rightarrow> Pod list" where
  "removeLoop existedWorkers [] removeHelper neededToRemove = neededToRemove"
| "removeLoop existedWorkers (key # ks) removeHelper neededToRemove =
     (if map_get removeHelper key \<noteq> None
      then removeLoop existedWorkers ks (map_del key removeHelper) neededToRemove
      else removeLoop existedWorkers ks removeHelper
             (case map_get existedWorkers key of None \<Rightarrow> neededToRemove
              | Some pod \<Rightarrow> neededToRemove @ [pod]))"

definition no_group_label :: "Pod \<Rightarrow> go_error" where
  "no_group_label pod = Errorf (''pod '' @ om_Name (pod_Meta pod) @ '' in ''
     @ om_Namespace (pod_Meta pod) @ '' does not have groupkey label'')"

definition ProcessLeader :: "k8s \<Rightarrow> RegisterController \<Rightarrow> Pod \<Rightarrow> go_error option go" where
  "ProcessLeader K rc pod = (case map_get (om_Labels (pod_Meta pod)) ComputeGroupLabel of
     None \<Rightarrow> ret (Some (no_group_label pod))
   | Some groupKey \<Rightarrow>
       bind_io (ListExistedWorkers K rc pod) (\<lambda>r.
       case r of Inl err \<Rightarrow> ret (Some err)
       | Inr existedWorkers \<Rightarrow>
           bind_io (ListReadyWorkers K rc groupKey) (\<lambda>ready.
           let workers = ready @ [pod];
               (removeHelper, neededToAdd) = classifyLoop existedWorkers workers (Some []) []
           in bind_io (range_keys K existedWorkers) (\<lambda>ks.
              let neededToRemove = removeLoop existedWorkers ks removeHelper []
              in bind_io (for_until_error (AddNode K (rc_setter rc) pod) neededToAdd) (\<lambda>err.
                 case err of Some e \<Rightarrow> ret (Some e)
                 | None \<Rightarrow> for_until_error (RemoveNode K (rc_setter rc) pod) neededToRemove)))))"

section \<open>Workers\<close>

definition ProcessUnreadyWorker :: "k8s \<Rightarrow> RegisterController \<Rightarrow> Pod \<Rightarrow> go_error option go" where
  "ProcessUnreadyWorker K rc pod = (case map_get (om_Labels (pod_Meta pod)) ComputeGroupLabel of
     None \<Rightarrow> ret (Some (no_group_label pod))
   | Some groupKey \<Rightarrow>
       if rs_AllNS (rc_setter rc)
       then bind_io (ListReadyLeaders K rc groupKey) (\<lambda>leaders.
            for_until_error (\<lambda>leader. RemoveNode K (rc_setter rc) leader pod) leaders)
       else ret None)"

definition ProcessReadyWorker :: "k8s \<Rightarrow> RegisterController \<Rightarrow> Pod \<Rightarrow> go_error option go" where
  "ProcessReadyWorker K rc pod = (case map_get (om_Labels (pod_Meta pod)) ComputeGroupLabel of
     None \<Rightarrow> ret (Some (no_group_label pod))
   | Some groupKey \<Rightarrow>
       if rs_AllNS (rc_setter rc)
       then bind_io (ListReadyLeaders K rc groupKey) (\<lambda>leaders.
            for_until_error (\<lambda>leader. AddNode K (rc_setter rc) leader pod) leaders)
       else ret None)"

section \<open>The work queue\<close>

definition podErrorHandler :: "k8s \<Rightarrow> go_obj \<Rightarrow> Pod option \<Rightarrow> go_error option \<Rightarrow> unit go" where
  "podErrorHandler K obj pod err = (case pod of None \<Rightarrow> ret () | Some _ \<Rightarrow>
     (case err of None \<Rightarrow> tell (QueueForget PodQueue obj)
      | Some e \<Rightarrow>
          bind_io (num_requeues K PodQueue obj) (\<lambda>n.
          if n < 50 then tell (QueueAddRateLimited PodQueue obj)
          else bind_io (tell (QueueForget PodQueue obj)) (\<lambda>_. tell (HandleError e)))))"

definition leader_not_ready :: "Pod \<Rightarrow> go_error" where
  "leader_not_ready pod = Errorf (''current leader pod '' @ om_Name (pod_Meta pod) @ '' in ''
     @ om_Namespace (pod_Meta pod) @ '' is not ready'')"

definition processPod :: "k8s \<Rightarrow> RegisterController \<Rightarrow> go_obj \<Rightarrow> Pod \<Rightarrow> unit go" where
  "processPod K rc obj pod =
     (if \<not> k_isPodReady K pod then
        (if IsGroupLeader (rc_setter rc) pod
         then podErrorHandler K obj (Some pod) (Some (leader_not_ready pod))
         else if IsGroupWorker (rc_setter rc) pod
         then bind_io (ProcessUnreadyWorker K rc pod) (\<lambda>err. podErrorHandler K obj (Some pod) err)
         else tell (QueueForget PodQueue obj))
      else
        (if IsGroupLeader (rc_setter rc) pod
         then bind_io (ProcessLeader K rc pod) (\<lambda>err. podErrorHandler K obj (Some pod) err)
         else if IsGroupWorker (rc_setter rc) pod
         then bind_io (ProcessReadyWorker K rc pod) (\<lambda>err. podErrorHandler K obj (Some pod) err)
         else tell (QueueForget PodQueue obj)))"

definition processNextItem :: "k8s \<Rightarrow> RegisterController \<Rightarrow> bool go" where
  "processNextItem K rc =
     bind_io (queue_get K PodQueue) (\<lambda>item.
     case item of None \<Rightarrow> ret False
     | Some obj \<Rightarrow> defer_io (tell (QueueDone PodQueue obj))
         (case obj of
            PodPtr _ pod \<Rightarrow> bind_io (processPod K rc obj pod) (\<lambda>_. ret True)
          | _ \<Rightarrow> bind_io (tell (QueueForget PodQueue obj)) (\<lambda>_. ret True)))"

text \<open>
  \<^verbatim>\<open>Run\<close>: the informers are visited one after the other, and the receive from \<^verbatim>\<open>stopCh\<close> is inside
  the loop, so that the next one is started only when the process stops.
\<close>

fun runLoop :: "k8s \<Rightarrow> string list \<Rightarrow> unit go" where
  "runLoop K [] = ret ()"
| "runLoop K (ns # nss) =
     bind_io (tell (Spawn PodInformerRun)) (\<lambda>_.
     bind_io (perform (WaitForCacheSync [PodCache]) (\<lambda>h. k_cacheSynced K h [PodCache])) (\<lambda>ok.
     if \<not> ok then tell (HandleError (Errorf ''timed out waiting for caches to sync''))
     else bind_io (tell (Spawn PodWorker)) (\<lambda>_.
          bind_io (tell AwaitStop) (\<lambda>_. runLoop K nss))))"

definition Run :: "k8s \<Rightarrow> RegisterController \<Rightarrow> unit go" where
  "Run K rc h = runLoop K (k_rangeOrder K h (rc_podInformers rc)) h"

section \<open>The error handler keeps the requeue policy\<close>

interpretation pod_queue: requeue_policy K PodQueue obj "podErrorHandler K obj (Some pod)" for K obj pod
  by unfold_locales (simp_all add: podErrorHandler_def io_simps)

section \<open>Reads\<close>

fun pods_of :: "go_obj list \<Rightarrow> Pod list" where
  "pods_of [] = []"
| "pods_of (obj # objs) = (case obj of PodPtr _ p \<Rightarrow> p # pods_of objs | _ \<Rightarrow> pods_of objs)"

lemma readyPods_filter:
  "readyPods K role objs = filter (\<lambda>p. k_isPodReady K p \<and> role p) (pods_of objs)"
  by (induction objs) (auto split: go_obj.split)

definition watches_all :: "RegisterController \<Rightarrow> bool" where
  "watches_all rc \<longleftrightarrow> rs_AllNS (rc_setter rc) \<and> NamespaceAll \<in> set (rc_podInformers rc)"

lemma NewRegisterController_watches:
  "rs_AllNS setter \<Longrightarrow> watches_all (fst (NewRegisterController setter))"
  by (simp add: NewRegisterController_def buildRegisterInformer_def watches_all_def Let_def)

lemma ListReadyLeaders_run:
  "watches_all rc \<Longrightarrow> ListReadyLeaders K rc groupKey h =
     (Some (readyPods K (IsGroupLeader (rc_setter rc)) (k_storeList K h)), h @ [StoreList NamespaceAll])"
  by (simp add: ListReadyLeaders_def pod_store_def watches_all_def io_simps)

lemma ListReadyWorkers_run:
  "watches_all rc \<Longrightarrow> ListReadyWorkers K rc groupKey h =
     (Some (readyPods K (IsGroupWorker (rc_setter rc)) (k_storeList K h)), h @ [StoreList NamespaceAll])"
  by (simp add: ListReadyWorkers_def pod_store_def watches_all_def io_simps)

text \<open>An informer's store is keyed by namespace and name.\<close>

definition store_key_law :: "k8s \<Rightarrow> bool" where
  "store_key_law K \<longleftrightarrow>
     (\<forall>h key p. stored_pod (k_storeGetByKey K h key) = Some p \<longrightarrow> pod_key p = key)"

definition keyed :: "Pod gomap \<Rightarrow> bool" where
  "keyed m \<longleftrightarrow> wf_map m \<and> (\<forall>k p. map_get m k = Some p \<longrightarrow> pod_key p = k)"

lemma keyed_empty [simp]: "keyed (Some [])"
  by (simp add: keyed_def)

lemma existedLoop_keyed:
  assumes "store_key_law K" and "keyed m" and "existedLoop K ws m rs h = (Some (m', rs'), h')"
  shows "keyed m'"
  using assms(2,3)
proof (induction ws arbitrary: m rs h)
  case Nil
  then show ?case by (simp add: io_simps)
next
  case (Cons w ws)
  show ?case
  proof (cases "stored_pod (k_storeGetByKey K h (cn_Name w))")
    case None
    with Cons.prems Cons.IH show ?thesis by (simp add: io_simps)
  next
    case (Some p)
    with assms(1) have "pod_key p = cn_Name w" by (simp add: store_key_law_def)
    with Cons.prems(1) have "keyed (map_put (cn_Name w) p m)" by (simp add: keyed_def)
    with Some Cons.prems(2) Cons.IH show ?thesis by (simp add: io_simps)
  qed
qed

lemma ListExistedWorkers_keyed:
  assumes "store_key_law K" and "ListExistedWorkers K rc leader h = (Some (Inr m), h')"
  shows "keyed m"
  using assms(2)
  by (auto simp: ListExistedWorkers_def io_simps split: prod.splits option.splits sum.splits if_splits
      dest: existedLoop_keyed [OF assms(1) keyed_empty])

section \<open>Which pods a leader has to add and to remove\<close>

lemma classifyLoop_add:
  "snd (classifyLoop ex ws rh acc) = acc @ filter (\<lambda>w. map_get ex (pod_key w) = None) ws"
  by (induction ws arbitrary: rh acc) auto

lemma classifyLoop_helper:
  "map_get (fst (classifyLoop ex ws rh acc)) k = None \<longleftrightarrow>
     map_get rh k = None \<and> \<not> (k \<in> pod_key ` set ws \<and> map_get ex k \<noteq> None)"
  by (induction ws arbitrary: rh acc) auto

lemma removeLoop_filter:
  assumes "distinct ks" and "\<forall>k \<in> set ks. map_get ex k \<noteq> None"
  shows "removeLoop ex ks rh acc =
    acc @ map (\<lambda>k. the (map_get ex k)) (filter (\<lambda>k. map_get rh k = None) ks)"
  using assms
proof (induction ks arbitrary: rh acc)
  case Nil
  then show ?case by simp
next
  case (Cons k ks)
  have "filter (\<lambda>x. map_get (map_del k rh) x = None) ks = filter (\<lambda>x. map_get rh x = None) ks"
    using Cons.prems(1) by (intro filter_cong) auto
  with Cons show ?case by auto
qed

lemma leader_diff:
  assumes "keyed ex" and "set ks = set (map_keys ex)" and "distinct ks"
    and "classifyLoop ex ws (Some []) [] = (rh, adds)"
  shows "pod_key ` set adds = pod_key ` set ws - set (map_keys ex)"
    and "pod_key ` set (removeLoop ex ks rh []) = set (map_keys ex) - pod_key ` set ws"
proof -
  have adds: "adds = filter (\<lambda>w. map_get ex (pod_key w) = None) ws"
    using classifyLoop_add [of ex ws "Some []" "[]"] assms(4) by simp
  then show "pod_key ` set adds = pod_key ` set ws - set (map_keys ex)"
    by (auto simp: map_keys_iff)
  have rh: "map_get rh k = None \<longleftrightarrow> \<not> (k \<in> pod_key ` set ws \<and> map_get ex k \<noteq> None)" for k
    using classifyLoop_helper [of ex ws "Some []" "[]" k] assms(4) by simp
  have key: "pod_key (the (map_get ex k)) = k" if "k \<in> set ks" for k
    using that assms(1,2) by (auto simp: keyed_def map_keys_iff)
  have "removeLoop ex ks rh [] = map (\<lambda>k. the (map_get ex k)) (filter (\<lambda>k. map_get rh k = None) ks)"
    using removeLoop_filter [OF assms(3)] assms(2) by (simp add: map_keys_iff)
  then have "pod_key ` set (removeLoop ex ks rh []) =
      (\<lambda>k. pod_key (the (map_get ex k))) ` {k \<in> set ks. map_get rh k = None}"
    by (simp add: image_image)
  also have "\<dots> = {k \<in> set ks. map_get rh k = None}"
    by (simp add: key cong: image_cong_simp)
  also have "\<dots> = set (map_keys ex) - pod_key ` set ws"
    unfolding rh assms(2) using map_keys_iff [of _ ex] by blast
  finally show "pod_key ` set (removeLoop ex ks rh []) = set (map_keys ex) - pod_key ` set ws" .
qed

section \<open>One follower and many leaders\<close>

text \<open>The contract of \<open>leader_interface\<close> with the roles exchanged: the loops of the two worker
  handlers visit leaders with the follower fixed.\<close>

interpretation add_to_leaders: leader_interface "\<lambda>p l. AddNode K r l p" "\<lambda>p l. add_event l p" for K r
  by (rule leader_interface.intro) (rule add_node.op_success add_node.op_failure; assumption)+

interpretation remove_from_leaders: leader_interface "\<lambda>p l. RemoveNode K r l p" "\<lambda>p l. remove_event l p" for K r
  by (rule leader_interface.intro) (rule remove_node.op_success remove_node.op_failure; assumption)+

section \<open>The calls of a handler\<close>

text \<open>A handler only reads the store and talks to pods: it never touches the queue.\<close>

fun pod_work :: "call \<Rightarrow> bool" where
  "pod_work (HttpPost url body) = True"
| "pod_work (HttpGet url) = True"
| "pod_work (StoreList ns) = True"
| "pod_work (StoreGetByKey ns key) = True"
| "pod_work e = False"

lemma emits_postHTTP [emits_intros]: "emits (\<lambda>_. pod_work) (postHTTP K url json)"
  by (auto simp: postHTTP_def Let_def intro!: emits_intros split: option.split sum.split)

lemma emits_getHTTP [emits_intros]: "emits (\<lambda>_. pod_work) (getHTTP K url)"
  by (auto simp: getHTTP_def intro!: emits_intros split: sum.split)

lemma emits_AddNode [emits_intros]: "emits (\<lambda>_. pod_work) (AddNode K r l f)"
  by (auto simp: AddNode_def intro!: emits_intros split: sum.split)

lemma emits_RemoveConfig [emits_intros]: "emits (\<lambda>_. pod_work) (RemoveConfig K r l c)"
  by (auto simp: RemoveConfig_def intro!: emits_intros split: sum.split)

lemma emits_RemoveNode [emits_intros]: "emits (\<lambda>_. pod_work) (RemoveNode K r l f)"
  by (auto simp: RemoveNode_def intro!: emits_intros split: sum.split)

lemma emits_GetClusterList [emits_intros]: "emits (\<lambda>_. pod_work) (GetClusterList K r l)"
  by (auto simp: GetClusterList_def intro!: emits_intros split: sum.split)

lemma emits_pod_store [emits_intros]: "emits P (pod_store rc)"
  by (simp add: pod_store_def emits_intros)

lemma emits_existedLoop [emits_intros]: "emits (\<lambda>_. pod_work) (existedLoop K ws m rs)"
  by (induction ws arbitrary: m rs) (auto intro!: emits_intros split: option.split)

lemma emits_ListExistedWorkers [emits_intros]: "emits (\<lambda>_. pod_work) (ListExistedWorkers K rc l)"
  by (auto simp: ListExistedWorkers_def intro!: emits_intros split: sum.split prod.split)

lemma emits_ListReadyWorkers [emits_intros]: "emits (\<lambda>_. pod_work) (ListReadyWorkers K rc k)"
  by (auto simp: ListReadyWorkers_def intro!: emits_intros)

lemma emits_ListReadyLeaders [emits_intros]: "emits (\<lambda>_. pod_work) (ListReadyLeaders K rc k)"
  by (auto simp: ListReadyLeaders_def intro!: emits_intros)

lemma emits_ProcessLeader [emits_intros]: "emits (\<lambda>_. pod_work) (ProcessLeader K rc pod)"
  by (auto simp: ProcessLeader_def Let_def intro!: emits_intros split: option.split sum.split prod.split)

lemma emits_ProcessReadyWorker [emits_intros]: "emits (\<lambda>_. pod_work) (ProcessReadyWorker K rc pod)"
  by (auto simp: ProcessReadyWorker_def intro!: emits_intros split: option.split)

lemma emits_ProcessUnreadyWorker [emits_intros]: "emits (\<lambda>_. pod_work) (ProcessUnreadyWorker K rc pod)"
  by (auto simp: ProcessUnreadyWorker_def intro!: emits_intros split: option.split)

text \<open>How the queue is left for an item whose handler returned.\<close>

definition settled :: "queue \<Rightarrow> go_obj \<Rightarrow> call list \<Rightarrow> bool" where
  "settled q obj tail \<longleftrightarrow> tail = [QueueForget q obj]
     \<or> tail = [QueueNumRequeues q obj, QueueAddRateLimited q obj]
     \<or> (\<exists>e. tail = [QueueNumRequeues q obj, QueueForget q obj, HandleError e])"

lemma podErrorHandler_settles:
  "\<exists>tail. podErrorHandler K obj (Some pod) err h = (Some (), h @ tail) \<and> settled PodQueue obj tail"
  by (cases err; cases "k_numRequeues K h PodQueue obj < 50")
    (auto simp: podErrorHandler_def settled_def io_simps)

lemma handled_settles:
  assumes "emits (\<lambda>_. pod_work) m"
  shows "\<exists>work tail. snd (bind_io m (\<lambda>err. podErrorHandler K obj (Some pod) err) h) = h @ work @ tail
    \<and> (\<forall>e \<in> set work. pod_work e)
    \<and> (case fst (bind_io m (\<lambda>err. podErrorHandler K obj (Some pod) err) h) of
         None \<Rightarrow> tail = [] | Some _ \<Rightarrow> settled PodQueue obj tail)"
proof -
  obtain r h1 where m: "m h = (r, h1)" by (cases "m h")
  with emits_all [OF assms, of h] obtain work where w: "h1 = h @ work" "\<forall>e \<in> set work. pod_work e" by auto
  show ?thesis
  proof (cases r)
    case None
    with m w show ?thesis by (intro exI [of _ work] exI [of _ "[]"]) (simp add: io_simps)
  next
    case (Some err)
    obtain tail where "podErrorHandler K obj (Some pod) err h1 = (Some (), h1 @ tail)" "settled PodQueue obj tail"
      using podErrorHandler_settles by blast
    with m w Some show ?thesis by (intro exI [of _ work] exI [of _ tail]) (simp add: io_simps)
  qed
qed

lemma processPod_settles:
  "\<exists>work tail. snd (processPod K rc obj pod h) = h @ work @ tail \<and> (\<forall>e \<in> set work. pod_work e)
    \<and> (case fst (processPod K rc obj pod h) of None \<Rightarrow> tail = [] | Some _ \<Rightarrow> settled PodQueue obj tail)"
proof -
  have forget: "\<exists>work tail. snd (tell (QueueForget PodQueue obj) h) = h @ work @ tail
    \<and> (\<forall>e \<in> set work. pod_work e)
    \<and> (case fst (tell (QueueForget PodQueue obj) h) of None \<Rightarrow> tail = [] | Some _ \<Rightarrow> settled PodQueue obj tail)"
    by (intro exI [of _ "[]"] exI [of _ "[QueueForget PodQueue obj]"]) (simp add: io_simps settled_def)
  have unready: "\<exists>work tail. snd (podErrorHandler K obj (Some pod) err h) = h @ work @ tail
    \<and> (\<forall>e \<in> set work. pod_work e)
    \<and> (case fst (podErrorHandler K obj (Some pod) err h) of None \<Rightarrow> tail = [] | Some _ \<Rightarrow> settled PodQueue obj tail)" for err
  proof -
    obtain tail where "podErrorHandler K obj (Some pod) err h = (Some (), h @ tail)" "settled PodQueue obj tail"
      using podErrorHandler_settles by blast
    then show ?thesis by (intro exI [of _ "[]"] exI [of _ tail]) simp
  qed
  show ?thesis
    unfolding processPod_def
    by (simp add: forget unready handled_settles emits_intros)
qed

lemma processNextItem_run:
  assumes "k_queueGet K h PodQueue = Some (PodPtr a pod)"
  shows "processNextItem K rc h =
    (map_option (\<lambda>_. True) (fst (processPod K rc (PodPtr a pod) pod (h @ [QueueGet PodQueue]))),
     snd (processPod K rc (PodPtr a pod) pod (h @ [QueueGet PodQueue])) @ [QueueDone PodQueue (PodPtr a pod)])"
  using assms by (simp add: processNextItem_def io_simps split: prod.split option.split)

text \<open>The names that a leader should have: the ready followers of the store, and itself.\<close>

definition desired_keys :: "k8s \<Rightarrow> RegisterController \<Rightarrow> Pod \<Rightarrow> go_obj list \<Rightarrow> string set" where
  "desired_keys K rc leader objs = insert (pod_key leader)
     (pod_key ` set (filter (\<lambda>p. k_isPodReady K p \<and> IsGroupWorker (rc_setter rc) p) (pods_of objs)))"

lemma range_law_small: "range_law K \<Longrightarrow> k_rangeOrder K h [x] = [x]" "range_law K \<Longrightarrow> k_rangeOrder K h [] = []"
proof -
  assume "range_law K"
  then have *: "mset (k_rangeOrder K h ks) = mset ks" for ks by (simp add: range_law_def)
  from * [of "[x]"] show "k_rangeOrder K h [x] = [x]" by simp
  from * [of "[]"] show "k_rangeOrder K h [] = []" by simp
qed

section \<open>Properties\<close>

text \<open>C2 (functional).  The reconciliation of a leader converges: when \<^verbatim>\<open>ProcessLeader\<close> returns no
  error, it has sent one registration for every pod of the desired list (the ready followers and
  the leader itself) that the leader did not have, and one removal for every registered pod that
  still exists and is not desired, nothing else after the first part of the exchange; so the
  registered names, with these added and those removed, are exactly the desired names.\<close>

theorem ProcessLeader_converges:
  assumes "store_key_law K" and "range_law K" and "watches_all rc"
    and "ProcessLeader K rc leader h = (Some None, h')"
  shows "\<exists>existed h1 adds removes added removed.
     ListExistedWorkers K rc leader h = (Some (Inr existed), h1)
     \<and> map (add_event leader) adds = map Some added \<and> map (remove_event leader) removes = map Some removed
     \<and> h' = h1 @ [StoreList NamespaceAll] @ added @ removed
     \<and> pod_key ` set adds = desired_keys K rc leader (k_storeList K h1) - set (map_keys existed)
     \<and> pod_key ` set removes = set (map_keys existed) - desired_keys K rc leader (k_storeList K h1)
     \<and> (set (map_keys existed) \<union> pod_key ` set adds) - pod_key ` set removes
        = desired_keys K rc leader (k_storeList K h1)"
proof -
  obtain existed h1 where ex: "ListExistedWorkers K rc leader h = (Some (Inr existed), h1)"
    using assms(4) by (auto simp: ProcessLeader_def io_simps split: option.splits prod.splits sum.splits)
  define ws where "ws = readyPods K (IsGroupWorker (rc_setter rc)) (k_storeList K h1) @ [leader]"
  obtain rh adds where cl: "classifyLoop existed ws (Some []) [] = (rh, adds)" by fastforce
  define h2 where "h2 = h1 @ [StoreList NamespaceAll]"
  define ks where "ks = k_rangeOrder K h2 (map_keys existed)"
  define removes where "removes = removeLoop existed ks rh []"
  from assms(4) ex cl obtain h3 where
    a: "for_until_error (AddNode K (rc_setter rc) leader) adds h2 = (Some None, h3)" and
    b: "for_until_error (RemoveNode K (rc_setter rc) leader) removes h3 = (Some None, h')"
    by (auto simp: ProcessLeader_def ListReadyWorkers_run [OF assms(3)] io_simps Let_def
        ws_def [symmetric] h2_def [symmetric] ks_def [symmetric] removes_def [symmetric]
        split: option.splits prod.splits)
  obtain added where added: "map (add_event leader) adds = map Some added" "h3 = h2 @ added"
    using add_node.all_success [OF a] by blast
  obtain removed where removed: "map (remove_event leader) removes = map Some removed" "h' = h3 @ removed"
    using remove_node.all_success [OF b] by blast
  have keyed: "keyed existed" by (rule ListExistedWorkers_keyed [OF assms(1) ex])
  have ks: "mset ks = mset (map_keys existed)" using assms(2) by (simp add: ks_def range_law_def)
  then have "set ks = set (map_keys existed)" by (rule mset_eq_setD)
  moreover have "distinct ks"
    using keyed mset_eq_imp_distinct_iff [OF ks] by (simp add: keyed_def wf_map_def)
  ultimately have diff: "pod_key ` set adds = pod_key ` set ws - set (map_keys existed)"
    "pod_key ` set removes = set (map_keys existed) - pod_key ` set ws"
    using leader_diff [OF keyed _ _ cl] by (simp_all add: removes_def)
  have "pod_key ` set ws = desired_keys K rc leader (k_storeList K h1)"
    by (auto simp: desired_keys_def ws_def readyPods_filter)
  with ex added removed diff show ?thesis
    by (intro exI [of _ existed] exI [of _ h1] exI [of _ adds] exI [of _ removes] exI [of _ added] exI [of _ removed])
      (auto simp: h2_def)
qed

text \<open>A ready follower is registered with every ready leader in the store, and an
  unready one removed from every ready leader, whatever group these leaders belong to: the group
  key that the code reads from the pod's label selects nothing.\<close>

theorem worker_reaches_every_leader:
  assumes "watches_all rc" and "map_get (om_Labels (pod_Meta pod)) ComputeGroupLabel = Some groupKey"
  shows "(ProcessReadyWorker K rc pod h = (Some None, h') \<longrightarrow>
      (\<exists>es. h' = h @ [StoreList NamespaceAll] @ es
        \<and> map (\<lambda>leader. add_event leader pod)
            (filter (\<lambda>p. k_isPodReady K p \<and> IsGroupLeader (rc_setter rc) p) (pods_of (k_storeList K h)))
          = map Some es))
    \<and> (ProcessUnreadyWorker K rc pod h = (Some None, h') \<longrightarrow>
      (\<exists>es. h' = h @ [StoreList NamespaceAll] @ es
        \<and> map (\<lambda>leader. remove_event leader pod)
            (filter (\<lambda>p. k_isPodReady K p \<and> IsGroupLeader (rc_setter rc) p) (pods_of (k_storeList K h)))
          = map Some es))"
proof (intro conjI impI)
  assume "ProcessReadyWorker K rc pod h = (Some None, h')"
  with assms have "for_until_error (\<lambda>leader. AddNode K (rc_setter rc) leader pod)
      (readyPods K (IsGroupLeader (rc_setter rc)) (k_storeList K h)) (h @ [StoreList NamespaceAll]) = (Some None, h')"
    by (simp add: ProcessReadyWorker_def ListReadyLeaders_run io_simps watches_all_def)
  from add_to_leaders.all_success [OF this] show "\<exists>es. h' = h @ [StoreList NamespaceAll] @ es
      \<and> map (\<lambda>leader. add_event leader pod)
          (filter (\<lambda>p. k_isPodReady K p \<and> IsGroupLeader (rc_setter rc) p) (pods_of (k_storeList K h))) = map Some es"
    by (auto simp: readyPods_filter)
next
  assume "ProcessUnreadyWorker K rc pod h = (Some None, h')"
  with assms have "for_until_error (\<lambda>leader. RemoveNode K (rc_setter rc) leader pod)
      (readyPods K (IsGroupLeader (rc_setter rc)) (k_storeList K h)) (h @ [StoreList NamespaceAll]) = (Some None, h')"
    by (simp add: ProcessUnreadyWorker_def ListReadyLeaders_run io_simps watches_all_def)
  from remove_from_leaders.all_success [OF this] show "\<exists>es. h' = h @ [StoreList NamespaceAll] @ es
      \<and> map (\<lambda>leader. remove_event leader pod)
          (filter (\<lambda>p. k_isPodReady K p \<and> IsGroupLeader (rc_setter rc) p) (pods_of (k_storeList K h))) = map Some es"
    by (auto simp: readyPods_filter)
qed

text \<open>C16 (invariant).  Every pod taken from the queue is handed back with \<^verbatim>\<open>Done\<close> exactly once, as the
  last call, also when the handler panics; before that the handler only reads the store and talks
  to pods, and unless it panics the item has then been either forgotten or queued again, one of
  the two.\<close>

theorem pod_item_settled:
  assumes "k_queueGet K h PodQueue = Some (PodPtr a pod)"
  shows "\<exists>work tail. snd (processNextItem K rc h) =
      h @ [QueueGet PodQueue] @ work @ tail @ [QueueDone PodQueue (PodPtr a pod)]
    \<and> (\<forall>e \<in> set work. pod_work e)
    \<and> (case fst (processNextItem K rc h) of
         None \<Rightarrow> tail = []
       | Some again \<Rightarrow> again \<and> settled PodQueue (PodPtr a pod) tail)"
proof -
  let ?h = "h @ [QueueGet PodQueue]" and ?obj = "PodPtr a pod"
  obtain work tail where *: "snd (processPod K rc ?obj pod ?h) = ?h @ work @ tail" "\<forall>e \<in> set work. pod_work e"
    "case fst (processPod K rc ?obj pod ?h) of None \<Rightarrow> tail = [] | Some _ \<Rightarrow> settled PodQueue ?obj tail"
    using processPod_settles by blast
  then show ?thesis
    unfolding processNextItem_run [OF assms]
    by (intro exI [of _ work] exI [of _ tail]) (simp split: option.splits)
qed

text \<open>A leader that is not ready is not spoken to: its item is only queued again, or
  given up with an error that names the pod, without any request to a pod; a pod of neither role
  is forgotten.\<close>

theorem unready_leader_untouched:
  assumes "\<not> k_isPodReady K pod"
  shows "(IsGroupLeader (rc_setter rc) pod \<longrightarrow> processPod K rc obj pod h =
      (Some (), h @ (if k_numRequeues K h PodQueue obj < 50
         then [QueueNumRequeues PodQueue obj, QueueAddRateLimited PodQueue obj]
         else [QueueNumRequeues PodQueue obj, QueueForget PodQueue obj, HandleError (leader_not_ready pod)])))
    \<and> (\<not> IsGroupLeader (rc_setter rc) pod \<and> \<not> IsGroupWorker (rc_setter rc) pod \<longrightarrow>
        processPod K rc obj pod h = (Some (), h @ [QueueForget PodQueue obj]))"
  using assms by (simp add: processPod_def podErrorHandler_def io_simps)

text \<open>C30 (liveness).  A pod whose handler fails every time: every event of the informer queues its item
  at the rate of the queue, and that counts as the first of the 50 queueings.  So the attempts 1 to 49
  end with another queueing, and the 50th forgets the item and reports its error; the count is then back
  at zero.\<close>

theorem pod_given_up_after_50:
  assumes "requeue_law K" and "\<forall>i. quiet PodQueue obj (work i)" and "count_requeues PodQueue obj h 0 = 0"
    and "event \<in> {Added obj, Updated oldObj obj, Deleted obj}"
  shows "(\<forall>n < 49. \<exists>h'. failed_attempts (podErrorHandler K obj (Some pod)) err work (Suc n) (snd (podEvent event h)) =
           h' @ [QueueNumRequeues PodQueue obj, QueueAddRateLimited PodQueue obj])
     \<and> (\<exists>h'. failed_attempts (podErrorHandler K obj (Some pod)) err work 50 (snd (podEvent event h)) =
           h' @ [QueueNumRequeues PodQueue obj, QueueForget PodQueue obj, HandleError (err 49)])
     \<and> count_requeues PodQueue obj (failed_attempts (podErrorHandler K obj (Some pod)) err work 50 (snd (podEvent event h))) 0 = 0"
proof -
  have "snd (podEvent event h) = h @ [QueueAddRateLimited PodQueue obj]" using assms(4) by (auto simp: io_simps)
  then have start: "count_requeues PodQueue obj (snd (podEvent event h)) 0 = 1"
    using assms(3) by (simp add: count_requeues_append)
  have quiet: "quiet PodQueue obj (work i)" for i using assms(2) by blast
  have last: "\<exists>h'. failed_attempts (podErrorHandler K obj (Some pod)) err work 50 (snd (podEvent event h)) =
           h' @ [QueueNumRequeues PodQueue obj, QueueForget PodQueue obj, HandleError (err 49)]"
    using pod_queue.gives_up(2) [where work = work and n = 49, OF assms(1) quiet start] by simp
  moreover from this have "count_requeues PodQueue obj (failed_attempts (podErrorHandler K obj (Some pod)) err work 50
      (snd (podEvent event h))) 0 = 0"
    by (auto simp del: failed_attempts.simps simp: count_requeues_append)
  moreover have "\<exists>h'. failed_attempts (podErrorHandler K obj (Some pod)) err work (Suc n) (snd (podEvent event h)) =
           h' @ [QueueNumRequeues PodQueue obj, QueueAddRateLimited PodQueue obj]" if "n < 49" for n
    by (rule pod_queue.gives_up(1) [OF assms(1) quiet start]) (use that in simp)
  ultimately show ?thesis by blast
qed

text \<open>Starting the controller: with all namespaces watched, one pod informer is run
  and awaited, and the pod worker is started only when its cache has synced; otherwise an error is
  reported and no worker runs.  Without it nothing is started.\<close>

theorem register_start:
  assumes "range_law K"
  shows "Run K (fst (NewRegisterController setter)) h =
     (Some (), h @ (if \<not> rs_AllNS setter then [] else
        [Spawn PodInformerRun, WaitForCacheSync [PodCache]] @
          (if k_cacheSynced K (h @ [Spawn PodInformerRun]) [PodCache] then [Spawn PodWorker, AwaitStop]
           else [HandleError (Errorf ''timed out waiting for caches to sync'')])))"
  by (simp add: Run_def NewRegisterController_def buildRegisterInformer_def Let_def io_simps
      range_law_small [OF assms])

section \<open>The properties at concrete inputs\<close>

text \<open>A store with a ready leader, a ready follower and a follower that is not ready but still
  registered with the leader.\<close>

definition stale_pod :: Pod where
  "stale_pod = (sample_pod ''p3'' ''follower'' ''10.0.0.3'')\<lparr>
     pod_Status := \<lparr>pst_Phase = ''Running'', pst_PodIP = ''10.0.0.3'', pst_Conditions = []\<rparr>\<rparr>"

definition stale_node :: ClusterNodeRequest where
  "stale_node = \<lparr>cn_Name = ''default/p3'', cn_Address = ''10.0.0.3:9091'', cn_Priority = 1\<rparr>"

definition busy_k8s :: k8s where
  "busy_k8s = ref_k8s\<lparr>
     k_storeList := \<lambda>h. [PodPtr 1 (sample_pod ''p1'' ''leader'' ''10.0.0.1''),
                          PodPtr 2 (sample_pod ''p2'' ''follower'' ''10.0.0.2''), PodPtr 3 stale_pod],
     k_storeGetByKey := \<lambda>h key. Inr (if key = ''default/p3'' then Some (PodPtr 3 stale_pod) else None),
     k_queueGet := \<lambda>h q. Some (PodPtr 3 stale_pod),
     k_httpGet := \<lambda>h url. Inr (200, Inr (MarshalNodes (Some [stale_node])))\<rparr>"

definition sample_rc :: RegisterController where
  "sample_rc = \<lparr>rc_setter = sample_setter, rc_podInformers = [NamespaceAll], rc_debug = False\<rparr>"

lemma sample_pod_config: "BuildPodConfig (sample_pod name role ip) = Some (Inr
    \<lparr>fq_MysqlPort = fmt_d 3306, fq_HTTPPort = ''8080'', fq_RPCPort = ''9091'', fq_ClickHousePort = fmt_d 9000,
     fq_MetricsPort = fmt_d 9098, fq_Priority = ''1''\<rparr>)"
  by (rule BuildPodConfig_deployed [OF sample_pod_spec [of name role ip]])
    (simp add: sample_instance_def sample_decimals)

lemma stale_pod_config: "BuildPodConfig stale_pod = Some (Inr
    \<lparr>fq_MysqlPort = fmt_d 3306, fq_HTTPPort = ''8080'', fq_RPCPort = ''9091'', fq_ClickHousePort = fmt_d 9000,
     fq_MetricsPort = fmt_d 9098, fq_Priority = ''1''\<rparr>)"
proof -
  have "convertInstanceSpecToPodSpec ref_k8s sample_instance = Some (pod_Spec stale_pod)"
    using sample_pod_spec [of "''p3''" "''follower''" "''10.0.0.3''"] by (simp add: stale_pod_def)
  then show ?thesis
    by (rule BuildPodConfig_deployed) (simp add: sample_instance_def sample_decimals)
qed

lemma busy_store_key_law: "store_key_law busy_k8s"
  by (simp add: store_key_law_def busy_k8s_def stored_pod_def stale_pod_def sample_pod_simps split: if_splits)

lemma busy_range_law: "range_law busy_k8s"
  by (simp add: range_law_def busy_k8s_def ref_k8s_def)

lemma sample_rc_watches: "watches_all sample_rc"
  by (simp add: watches_all_def sample_rc_def sample_setter_def)

lemma sample_nodeRequest: "fq_Priority c = ''1'' \<Longrightarrow> nodeRequest pod c = Inr \<lparr>cn_Name = pod_key pod,
     cn_Address = pst_PodIP (pod_Status pod) @ '':'' @ fq_RPCPort c, cn_Priority = 1\<rparr>"
  using nodeRequest_priority [of c 1 pod] by (simp add: sample_decimals)

lemma busy_post: "postHTTP busy_k8s url json h = (Some None, h @ [HttpPost (httpParse url) json])"
  by (simp add: postHTTP_def busy_k8s_def ref_k8s_def io_simps Let_def)

lemma busy_keys:
  "pod_key (sample_pod name role ip) = ''default/'' @ name" "pod_key stale_pod = ''default/p3''"
  by (simp_all add: stale_pod_def sample_pod_simps)

lemma busy_list: "GetClusterList busy_k8s sample_setter (sample_pod ''p1'' ''leader'' ''10.0.0.1'') h =
    (Some (Inr [stale_node]), h @ [HttpGet ''http://10.0.0.1:8080/v1/cluster/list''])"
proof -
  have "UnmarshalNodes (MarshalNodes (Some [stale_node])) = Inr (Some [stale_node])"
    by (rule nodes_roundtrip) (simp add: ascii_node_def stale_node_def)
  then show ?thesis
    by (simp add: GetClusterList_def getHTTP_def sample_pod_config receiver_def CLUSTER_LIST_def busy_k8s_def
        io_simps) (simp add: sample_pod_def)
qed

lemma busy_existed: "ListExistedWorkers busy_k8s sample_rc (sample_pod ''p1'' ''leader'' ''10.0.0.1'') h =
    (Some (Inr (Some [(''default/p3'', stale_pod)])),
     h @ [HttpGet ''http://10.0.0.1:8080/v1/cluster/list'', StoreGetByKey NamespaceAll ''default/p3''])"
  using busy_list [of h]
  by (simp add: ListExistedWorkers_def sample_rc_def sample_setter_def pod_store_def stale_node_def io_simps)
     (simp add: busy_k8s_def stored_pod_def map_put_def io_simps)

lemma busy_workers: "ListReadyWorkers busy_k8s sample_rc k h =
    (Some [sample_pod ''p2'' ''follower'' ''10.0.0.2''], h @ [StoreList NamespaceAll])"
  unfolding ListReadyWorkers_run [OF sample_rc_watches]
  by (simp add: busy_k8s_def ref_k8s_def ref_isPodReady_def IsGroupWorker_def stale_pod_def sample_pod_simps)

lemma busy_leader_run: "\<exists>h'. ProcessLeader busy_k8s sample_rc (sample_pod ''p1'' ''leader'' ''10.0.0.1'') [] = (Some None, h')"
proof -
  have label: "map_get (om_Labels (pod_Meta (sample_pod ''p1'' ''leader'' ''10.0.0.1''))) ComputeGroupLabel
      = Some ''default-group1''"
    by (simp add: sample_pod_simps)
  have order: "k_rangeOrder busy_k8s h ks = ks" for h ks
    by (simp add: busy_k8s_def ref_k8s_def)
  show ?thesis
    by (simp add: ProcessLeader_def label busy_existed busy_workers busy_keys order io_simps Let_def map_keys_def
        AddNode_def RemoveNode_def RemoveConfig_def sample_pod_config stale_pod_config sample_nodeRequest busy_post)
qed

theorem ProcessLeader_converges_witness:
  "\<exists>h1 adds removes added removed.
     map (add_event (sample_pod ''p1'' ''leader'' ''10.0.0.1'')) adds = map Some added
     \<and> map (remove_event (sample_pod ''p1'' ''leader'' ''10.0.0.1'')) removes = map Some removed
     \<and> snd (ProcessLeader busy_k8s sample_rc (sample_pod ''p1'' ''leader'' ''10.0.0.1'') []) =
         h1 @ [StoreList NamespaceAll] @ added @ removed
     \<and> pod_key ` set removes = {''default/p3''} - desired_keys busy_k8s sample_rc
         (sample_pod ''p1'' ''leader'' ''10.0.0.1'') (k_storeList busy_k8s h1)"
proof -
  obtain h' where run: "ProcessLeader busy_k8s sample_rc (sample_pod ''p1'' ''leader'' ''10.0.0.1'') [] = (Some None, h')"
    using busy_leader_run by blast
  from ProcessLeader_converges [OF busy_store_key_law busy_range_law sample_rc_watches run] run
  show ?thesis by (auto simp: busy_existed map_keys_def)
qed

text \<open>The follower of the sample is registered with the one ready leader of the store.\<close>

lemma busy_leaders: "ListReadyLeaders busy_k8s sample_rc k h =
    (Some [sample_pod ''p1'' ''leader'' ''10.0.0.1''], h @ [StoreList NamespaceAll])"
  unfolding ListReadyLeaders_run [OF sample_rc_watches]
  by (simp add: busy_k8s_def ref_k8s_def ref_isPodReady_def IsGroupLeader_def stale_pod_def sample_pod_simps)

theorem worker_reaches_every_leader_witness:
  "\<exists>h'. ProcessReadyWorker busy_k8s sample_rc (sample_pod ''p2'' ''follower'' ''10.0.0.2'') [] = (Some None, h')
     \<and> (\<exists>e. h' = [StoreList NamespaceAll, e]
          \<and> add_event (sample_pod ''p1'' ''leader'' ''10.0.0.1'') (sample_pod ''p2'' ''follower'' ''10.0.0.2'') = Some e)"
proof -
  let ?p = "sample_pod ''p2'' ''follower'' ''10.0.0.2''"
  have label: "map_get (om_Labels (pod_Meta ?p)) ComputeGroupLabel = Some ''default-group1''"
    by (simp add: sample_pod_simps)
  obtain h' where run: "ProcessReadyWorker busy_k8s sample_rc ?p [] = (Some None, h')"
    by (simp add: ProcessReadyWorker_def label busy_leaders io_simps AddNode_def sample_pod_config
        sample_nodeRequest busy_post sample_rc_def sample_setter_def)
      (simp add: sample_rc_def [symmetric] sample_setter_def [symmetric] busy_leaders sample_pod_config
        sample_nodeRequest busy_post io_simps)
  have leaders: "filter (\<lambda>p. k_isPodReady busy_k8s p \<and> IsGroupLeader (rc_setter sample_rc) p)
      (pods_of (k_storeList busy_k8s [])) = [sample_pod ''p1'' ''leader'' ''10.0.0.1'']"
    by (simp add: busy_k8s_def ref_k8s_def ref_isPodReady_def IsGroupLeader_def stale_pod_def sample_pod_simps)
  from worker_reaches_every_leader [OF sample_rc_watches label, of busy_k8s "[]" h'] run
  show ?thesis unfolding leaders by auto
qed

theorem pod_item_settled_witness:
  "\<exists>new. snd (processNextItem busy_k8s sample_rc []) =
     [QueueGet PodQueue] @ new @ [QueueDone PodQueue (PodPtr 3 stale_pod)]"
proof -
  have "k_queueGet busy_k8s [] PodQueue = Some (PodPtr 3 stale_pod)" by (simp add: busy_k8s_def)
  from pod_item_settled [OF this, of sample_rc] show ?thesis by auto
qed

theorem unready_leader_untouched_witness:
  "processPod busy_k8s sample_rc (PodPtr 4 (stale_pod\<lparr>pod_Meta := zero_ObjectMeta\<rparr>))
       (stale_pod\<lparr>pod_Meta := zero_ObjectMeta\<rparr>) [] =
     (Some (), [QueueForget PodQueue (PodPtr 4 (stale_pod\<lparr>pod_Meta := zero_ObjectMeta\<rparr>))])"
proof -
  have "\<not> k_isPodReady busy_k8s (stale_pod\<lparr>pod_Meta := zero_ObjectMeta\<rparr>)"
    by (simp add: busy_k8s_def ref_k8s_def ref_isPodReady_def stale_pod_def)
  from unready_leader_untouched [OF this, of sample_rc _ "[]"] show ?thesis
    by (simp add: IsGroupLeader_def IsGroupWorker_def zero_ObjectMeta_def)
qed

theorem pod_given_up_after_50_witness:
  "\<exists>h'. failed_attempts (podErrorHandler ref_k8s (PodPtr 3 stale_pod) (Some stale_pod))
     (\<lambda>i. leader_not_ready stale_pod) (\<lambda>i. [QueueGet PodQueue]) 50 [QueueAddRateLimited PodQueue (PodPtr 3 stale_pod)] =
       h' @ [QueueNumRequeues PodQueue (PodPtr 3 stale_pod), QueueForget PodQueue (PodPtr 3 stale_pod),
             HandleError (leader_not_ready stale_pod)]"
proof -
  have quiet: "\<forall>i. quiet PodQueue (PodPtr 3 stale_pod) [QueueGet PodQueue]" by simp
  have event: "Added (PodPtr 3 stale_pod) \<in> {Added (PodPtr 3 stale_pod), Updated (PodPtr 2 stale_pod) (PodPtr 3 stale_pod),
      Deleted (PodPtr 3 stale_pod)}" by simp
  have "snd (podEvent (Added (PodPtr 3 stale_pod)) []) = [QueueAddRateLimited PodQueue (PodPtr 3 stale_pod)]"
    by (simp add: io_simps)
  with pod_given_up_after_50 [OF ref_requeue_law quiet _ event, of "[]" stale_pod "\<lambda>i. leader_not_ready stale_pod"]
  show ?thesis by (auto simp del: failed_attempts.simps)
qed

theorem register_start_witness:
  "Run ref_k8s (fst (NewRegisterController sample_setter)) [] =
     (Some (), [Spawn PodInformerRun, WaitForCacheSync [PodCache], Spawn PodWorker, AwaitStop])"
  using register_start [OF ref_range_law, of sample_setter "[]"]
  by (simp add: sample_setter_def ref_k8s_def)

end
