(* ===== verification/Query_Server.thy ===== *)
theory Query_Server
  imports Register_Controller
begin

text \<open>
  The other side of the register controller: the fuse-query server that
  \<^verbatim>\<open>pkg/controllers/register/register_test_utils.go\<close> gives as its stand-in.  \<open>ServeHTTP\<close> is its handler
  on the server's state, a configuration and the cluster list.  A parameter record \<open>k8s\<close> \<open>serves\<close> a
  base address when its answers there are the handler's, from the state that the requests made so
  far have led to; against such a server a reconciliation can be followed to its effect, which is
  stated on the abstract state, the set of the registered names.
\<close>

section \<open>The handler\<close>

record query_server =
  qs_Config :: string
  qs_Nodes :: "ClusterNodeRequest goslice"

fun withoutNode :: "string \<Rightarrow> ClusterNodeRequest list \<Rightarrow> ClusterNodeRequest list \<Rightarrow> ClusterNodeRequest list" where
  "withoutNode name [] updatedList = updatedList"
| "withoutNode name (item # items) updatedList =
     (if cn_Name item \<noteq> name then withoutNode name items (updatedList @ [item])
      else withoutNode name items updatedList)"

text \<open>The body of the response, whose status is always 200, and the state afterwards.\<close>

definition ServeHTTP :: "string \<Rightarrow> string \<Rightarrow> string \<Rightarrow> query_server \<Rightarrow> string \<times> query_server" where
  "ServeHTTP method path body s =
     (if method = ''GET'' \<and> path = CLUSTER_CONFIG then (qs_Config s, s)
      else if method = ''GET'' \<and> path = CLUSTER_LIST then (MarshalNodes (qs_Nodes s), s)
      else if method = ''POST'' \<and> path = CLUSTER_ADD then
        let node = fst (UnmarshalNode body)
        in if \<exists>item \<in> set (elems (qs_Nodes s)). cn_Name item = cn_Name node then ('''', s)
           else ('''', s\<lparr>qs_Nodes := Some (elems (qs_Nodes s) @ [node])\<rparr>)
      else if method = ''POST'' \<and> path = CLUSTER_REMOVE then
        let node = fst (UnmarshalNode body)
        in ('''', s\<lparr>qs_Nodes := Some (withoutNode (cn_Name node) (elems (qs_Nodes s)) [])\<rparr>)
      else ('''', s))"

section \<open>The fixtures of the tests\<close>

definition DefaultComputeSpec :: DatafuseComputeSetSpec where
  "DefaultComputeSpec = \<lparr>cs_Replicas = Some 1, cs_Instance = \<lparr>ci_Name = None, ci_Cores = Some 1,
     ci_CoreLimit = Some ''1300m'', ci_Memory = Some ''512m'', ci_MemoryLimit = Some ''512m'', ci_Labels = None,
     ci_Image = Some ''zhihanz/fuse-query:latest'', ci_ImagePullPolicy = Some ''Always'', ci_Priority = Some 1,
     ci_MysqlPort = Some 3306, ci_ClickhousePort = Some 9000, ci_HTTPPort = Some 8080, ci_RPCPort = Some 9091,
     ci_MetricsPort = Some 9098\<rparr>\<rparr>"

definition createMockStatus :: "Pod \<Rightarrow> string \<Rightarrow> Pod" where
  "createMockStatus pod conditionType = pod\<lparr>pod_Status := (pod_Status pod)
     \<lparr>pst_Conditions := pst_Conditions (pod_Status pod) @ [\<lparr>pc_Type = conditionType, pc_Status = ''True''\<rparr>]\<rparr>\<rparr>"

definition makeMockPod :: "k8s \<Rightarrow> string \<Rightarrow> string \<Rightarrow> string \<Rightarrow> string \<Rightarrow> bool \<Rightarrow> bool \<Rightarrow> Pod option" where
  "makeMockPod K groupKey name namespace ip isLeader isReady =
     map_option (\<lambda>pod.
       let pod1 = (if isReady then createMockStatus pod ''Ready'' else pod)
       in pod1\<lparr>pod_Status := (pod_Status pod1)\<lparr>pst_PodIP := ip\<rparr>\<rparr>)
     (MakeFuseQueryPod K DefaultComputeSpec name namespace groupKey isLeader)"

definition makeIreleventMockPod :: "k8s \<Rightarrow> string \<Rightarrow> string \<Rightarrow> string \<Rightarrow> bool \<Rightarrow> bool \<Rightarrow> Pod option" where
  "makeIreleventMockPod K groupKey name namespace isLeader isReady =
     map_option (\<lambda>pod.
       let pod1 = pod\<lparr>pod_Meta := (pod_Meta pod)\<lparr>om_Labels := Some []\<rparr>\<rparr>
       in if isReady then createMockStatus pod1 ''Ready'' else pod1)
     (MakeFuseQueryPod K DefaultComputeSpec name namespace groupKey isLeader)"

text \<open>
  The URL of the test server gives the pod its address and its HTTP port.  The outer option is a
  panic (no port in the URL), the inner one a nil pod.
\<close>

definition makeMockPodFromServer :: "k8s \<Rightarrow> string \<Rightarrow> string \<Rightarrow> string \<Rightarrow> string \<Rightarrow> bool \<Rightarrow> bool \<Rightarrow> Pod option option" where
  "makeMockPodFromServer K serverURL groupKey name namespace isLeader isReady =
     (case SplitN2 (TrimPrefix serverURL ''http://'') (CHR '':'') of
        [host, port] \<Rightarrow> (case Atoi port of Inl _ \<Rightarrow> Some None
          | Inr s \<Rightarrow>
              let computeSet = DefaultComputeSpec\<lparr>cs_Instance := (cs_Instance DefaultComputeSpec)
                    \<lparr>ci_HTTPPort := Some (word_of_int s)\<rparr>\<rparr>
              in map_option (\<lambda>pod.
                   let pod1 = (if isReady then createMockStatus pod ''Ready'' else pod)
                   in Some (pod1\<lparr>pod_Status := (pod_Status pod1)\<lparr>pst_PodIP := host\<rparr>\<rparr>))
                 (MakeFuseQueryPod K computeSet name namespace groupKey isLeader))
      | _ \<Rightarrow> None)"

section \<open>A cluster in which a server runs\<close>

definition server_step :: "string \<Rightarrow> call \<Rightarrow> query_server \<Rightarrow> query_server" where
  "server_step base c s = (case c of
     HttpPost url body \<Rightarrow> (case strip_prefix base url of None \<Rightarrow> s | Some path \<Rightarrow> snd (ServeHTTP ''POST'' path body s))
   | HttpGet url \<Rightarrow> (case strip_prefix base url of None \<Rightarrow> s | Some path \<Rightarrow> snd (ServeHTTP ''GET'' path '''' s))
   | _ \<Rightarrow> s)"

definition server_at :: "string \<Rightarrow> query_server \<Rightarrow> call list \<Rightarrow> query_server" where
  "server_at base s0 h = fold (server_step base) h s0"

text \<open>The server answers from the states \<open>S\<close>; when nobody else talks to it, these follow from the calls so far.\<close>

definition serves_from :: "k8s \<Rightarrow> string \<Rightarrow> (call list \<Rightarrow> query_server) \<Rightarrow> bool" where
  "serves_from K base S \<longleftrightarrow> (\<forall>path. k_newRequest K (base @ path) = None)
     \<and> (\<forall>h path body. k_httpPost K h (base @ path) body = Inr (200, Inr (fst (ServeHTTP ''POST'' path body (S h)))))
     \<and> (\<forall>h path. k_httpGet K h (base @ path) = Inr (200, Inr (fst (ServeHTTP ''GET'' path '''' (S h)))))"

definition serves :: "k8s \<Rightarrow> string \<Rightarrow> query_server \<Rightarrow> bool" where
  "serves K base s0 \<longleftrightarrow> serves_from K base (server_at base s0)"

section \<open>The contract of a cluster list\<close>

text \<open>
  What the controller needs of a leader's list: a registration adds a name and nothing else, a
  removal takes a name away and nothing else, and both keep the list well formed.
\<close>

locale node_registry =
  fixes add remove :: "ClusterNodeRequest \<Rightarrow> 's \<Rightarrow> 's"
    and nodes :: "'s \<Rightarrow> ClusterNodeRequest set"
    and wf :: "'s \<Rightarrow> bool"
    and good :: "ClusterNodeRequest \<Rightarrow> bool"
  assumes nodes_add: "good n \<Longrightarrow> nodes (add n s) =
      (if cn_Name n \<in> cn_Name ` nodes s then nodes s else insert n (nodes s))"
    and nodes_remove: "good n \<Longrightarrow> nodes (remove n s) = {m \<in> nodes s. cn_Name m \<noteq> cn_Name n}"
    and wf_add: "good n \<Longrightarrow> wf s \<Longrightarrow> wf (add n s)"
    and wf_remove: "good n \<Longrightarrow> wf s \<Longrightarrow> wf (remove n s)"
begin

lemma names_add: "good n \<Longrightarrow> cn_Name ` nodes (add n s) = insert (cn_Name n) (cn_Name ` nodes s)"
  by (auto simp: nodes_add)

lemma names_remove: "good n \<Longrightarrow> cn_Name ` nodes (remove n s) = cn_Name ` nodes s - {cn_Name n}"
  by (auto simp: nodes_remove)

lemma names_add_all:
  "\<forall>n \<in> set ns. good n \<Longrightarrow> cn_Name ` nodes (fold add ns s) = cn_Name ` nodes s \<union> cn_Name ` set ns"
  by (induction ns arbitrary: s) (auto simp: names_add)

lemma names_remove_all:
  "\<forall>n \<in> set ns. good n \<Longrightarrow> cn_Name ` nodes (fold remove ns s) = cn_Name ` nodes s - cn_Name ` set ns"
  by (induction ns arbitrary: s) (auto simp: names_remove)

lemma wf_add_all: "\<forall>n \<in> set ns. good n \<Longrightarrow> wf s \<Longrightarrow> wf (fold add ns s)"
  by (induction ns arbitrary: s) (auto simp: wf_add)

lemma wf_remove_all: "\<forall>n \<in> set ns. good n \<Longrightarrow> wf s \<Longrightarrow> wf (fold remove ns s)"
  by (induction ns arbitrary: s) (auto simp: wf_remove)

lemma nodes_add_all: "\<forall>n \<in> set ns. good n \<Longrightarrow> nodes (fold add ns s) \<subseteq> nodes s \<union> set ns"
proof (induction ns arbitrary: s)
  case (Cons n ns)
  then have "nodes (fold add ns (add n s)) \<subseteq> nodes (add n s) \<union> set ns" by simp
  with Cons.prems show ?case by (auto simp: nodes_add split: if_splits)
qed simp

lemma nodes_remove_all: "\<forall>n \<in> set ns. good n \<Longrightarrow> nodes (fold remove ns s) \<subseteq> nodes s"
proof (induction ns arbitrary: s)
  case (Cons n ns)
  then have "nodes (fold remove ns (remove n s)) \<subseteq> nodes (remove n s)" by simp
  with Cons.prems show ?case by (auto simp: nodes_remove)
qed simp

end

definition server_add :: "ClusterNodeRequest \<Rightarrow> query_server \<Rightarrow> query_server" where
  "server_add n s = snd (ServeHTTP ''POST'' CLUSTER_ADD (Marshal n) s)"

definition server_remove :: "ClusterNodeRequest \<Rightarrow> query_server \<Rightarrow> query_server" where
  "server_remove n s = snd (ServeHTTP ''POST'' CLUSTER_REMOVE (Marshal n) s)"

definition server_nodes :: "query_server \<Rightarrow> ClusterNodeRequest set" where
  "server_nodes s = set (elems (qs_Nodes s))"

text \<open>No name is registered twice, and every entry is one that JSON carries unchanged.\<close>

definition server_ok :: "query_server \<Rightarrow> bool" where
  "server_ok s \<longleftrightarrow> distinct (map cn_Name (elems (qs_Nodes s))) \<and> (\<forall>n \<in> set (elems (qs_Nodes s)). ascii_node n)"

lemma withoutNode_filter: "withoutNode name items acc = acc @ filter (\<lambda>n. cn_Name n \<noteq> name) items"
  by (induction items arbitrary: acc) auto

lemma path_defs: "CLUSTER_ADD = ''/v1/cluster/add'' \<and> CLUSTER_REMOVE = ''/v1/cluster/remove''
    \<and> CLUSTER_LIST = ''/v1/cluster/list'' \<and> CLUSTER_CONFIG = ''/v1/configs''"
  by (simp add: CLUSTER_ADD_def CLUSTER_REMOVE_def CLUSTER_LIST_def CLUSTER_CONFIG_def)

lemma server_add_run:
  "ascii_node n \<Longrightarrow> server_add n s =
    (if cn_Name n \<in> cn_Name ` server_nodes s then s else s\<lparr>qs_Nodes := Some (elems (qs_Nodes s) @ [n])\<rparr>)"
  by (simp add: server_add_def ServeHTTP_def path_defs node_roundtrip Let_def server_nodes_def)
    (auto simp: image_iff Bex_def)

lemma server_remove_run:
  "ascii_node n \<Longrightarrow> server_remove n s =
    s\<lparr>qs_Nodes := Some (filter (\<lambda>m. cn_Name m \<noteq> cn_Name n) (elems (qs_Nodes s)))\<rparr>"
  by (simp add: server_remove_def ServeHTTP_def path_defs node_roundtrip Let_def withoutNode_filter)

interpretation query_list: node_registry server_add server_remove server_nodes server_ok ascii_node
proof
  fix n :: ClusterNodeRequest and s
  assume n: "ascii_node n"
  show "server_nodes (server_add n s) =
      (if cn_Name n \<in> cn_Name ` server_nodes s then server_nodes s else insert n (server_nodes s))"
    by (simp add: server_add_run [OF n]) (simp add: server_nodes_def)
  show "server_nodes (server_remove n s) = {m \<in> server_nodes s. cn_Name m \<noteq> cn_Name n}"
    by (auto simp: server_remove_run [OF n] server_nodes_def)
  assume s: "server_ok s"
  show "server_ok (server_add n s)"
    using s n by (auto simp: server_add_run [OF n] server_ok_def server_nodes_def image_iff)
  show "server_ok (server_remove n s)"
    using s n by (auto simp: server_remove_run [OF n] server_ok_def distinct_map_filter)
qed

section \<open>Requests to the server\<close>

lemma strip_prefix_append [simp]: "strip_prefix p (p @ s) = Some s"
  by (simp add: strip_prefix_def)

lemma server_at_append: "server_at base s0 (h @ es) = fold (server_step base) es (server_at base s0 h)"
  by (simp add: server_at_def)

text \<open>The address of a leader, and what the test for a scheme makes of it.\<close>

definition leader_base :: "Pod \<Rightarrow> string \<Rightarrow> bool" where
  "leader_base leader base \<longleftrightarrow> (\<exists>lc. BuildPodConfig leader = Some (Inr lc)
     \<and> pst_PodIP (pod_Status leader) \<noteq> [] \<and> hd (pst_PodIP (pod_Status leader)) \<noteq> CHR ''h''
     \<and> base = ''http://'' @ pst_PodIP (pod_Status leader) @ '':'' @ fq_HTTPPort lc)"

lemma httpParse_receiver:
  "BuildPodConfig leader = Some (Inr lc) \<Longrightarrow> leader_base leader base \<Longrightarrow>
    httpParse (receiver leader (fq_HTTPPort lc) op) = base @ op"
  by (cases "pst_PodIP (pod_Status leader)")
    (auto simp: leader_base_def httpParse_def receiver_def HasPrefix_def)

lemma serves_post:
  assumes "serves_from K base S" and "BuildPodConfig leader = Some (Inr lc)" and "leader_base leader base"
  shows "postHTTP K (receiver leader (fq_HTTPPort lc) op) json h = (Some None, h @ [HttpPost (base @ op) json])"
  using assms(1) postHTTP_run [of K "receiver leader (fq_HTTPPort lc) op" json h]
  by (simp add: httpParse_receiver [OF assms(2,3)] serves_from_def)

text \<open>The node under which a pod is registered.\<close>

definition node_for :: "Pod \<Rightarrow> ClusterNodeRequest \<Rightarrow> bool" where
  "node_for pod n \<longleftrightarrow> (\<exists>fc. BuildPodConfig pod = Some (Inr fc) \<and> nodeRequest pod fc = Inr n) \<and> ascii_node n"

lemma nodeRequest_name: "nodeRequest pod fc = Inr n \<Longrightarrow> cn_Name n = pod_key pod"
  by (cases "Atoi (fq_Priority fc)") (auto simp: nodeRequest_def)

lemma node_for_name: "node_for pod n \<Longrightarrow> cn_Name n = pod_key pod"
  by (auto simp: node_for_def nodeRequest_name)

lemma node_for_unique: "node_for pod n \<Longrightarrow> node_for pod m \<Longrightarrow> n = m"
  by (auto simp: node_for_def)

definition the_node :: "Pod \<Rightarrow> ClusterNodeRequest" where
  "the_node pod = (case BuildPodConfig pod of Some (Inr fc) \<Rightarrow>
     (case nodeRequest pod fc of Inr n \<Rightarrow> n | Inl _ \<Rightarrow> zero_node) | _ \<Rightarrow> zero_node)"

lemma the_node_for: "node_for pod n \<Longrightarrow> the_node pod = n"
  by (auto simp: node_for_def the_node_def)

definition registrable :: "Pod \<Rightarrow> bool" where
  "registrable pod \<longleftrightarrow> node_for pod (the_node pod)"

lemma registrable_name: "registrable pod \<Longrightarrow> cn_Name (the_node pod) = pod_key pod"
  by (simp add: registrable_def node_for_name)

lemma registrable_ascii: "registrable pod \<Longrightarrow> ascii_node (the_node pod)"
  by (simp add: registrable_def node_for_def)

text \<open>The requests as events, and what a sequence of them does to the server.\<close>

definition add_post :: "string \<Rightarrow> ClusterNodeRequest \<Rightarrow> call" where
  "add_post base n = HttpPost (base @ CLUSTER_ADD) (Marshal n)"

definition remove_post :: "string \<Rightarrow> ClusterNodeRequest \<Rightarrow> call" where
  "remove_post base n = HttpPost (base @ CLUSTER_REMOVE) (Marshal n)"

lemma fold_posts:
  "fold (server_step base) (map (add_post base) ns) s = fold server_add ns s"
  "fold (server_step base) (map (remove_post base) ns) s = fold server_remove ns s"
  by (induction ns arbitrary: s)
    (simp_all add: add_post_def remove_post_def server_step_def server_add_def server_remove_def)

lemma ServeHTTP_get: "snd (ServeHTTP ''GET'' path body s) = s"
  by (simp add: ServeHTTP_def)

lemma server_reads:
  "server_step base (HttpGet url) s = s" "server_step base (StoreList ns) s = s"
  "server_step base (StoreGetByKey ns key) s = s"
  by (simp_all add: server_step_def ServeHTTP_get split: option.split)

lemma fold_store_reads: "fold (server_step base) (map (\<lambda>w. StoreGetByKey ns (f w)) ws) s = s"
  by (induction ws) (simp_all add: server_reads)

lemma AddNode_served:
  assumes "serves_from K base S" and "leader_base leader base" and "registrable f"
  shows "AddNode K r leader f h = (Some None, h @ [add_post base (the_node f)])"
proof -
  obtain lc where lc: "BuildPodConfig leader = Some (Inr lc)" using assms(2) by (auto simp: leader_base_def)
  obtain fc where fc: "BuildPodConfig f = Some (Inr fc)" "nodeRequest f fc = Inr (the_node f)"
    using assms(3) by (auto simp: registrable_def node_for_def)
  show ?thesis
    unfolding AddNode_run [OF lc fc] add_post_def by (rule serves_post [OF assms(1) lc assms(2)])
qed

lemma RemoveConfig_served:
  assumes "serves_from K base S" and "leader_base leader base"
  shows "RemoveConfig K r leader n h = (Some None, h @ [remove_post base n])"
proof -
  obtain lc where lc: "BuildPodConfig leader = Some (Inr lc)" using assms(2) by (auto simp: leader_base_def)
  show ?thesis
    using serves_post [OF assms(1) lc assms(2)] by (simp add: RemoveConfig_def lc io_simps remove_post_def)
qed

lemma RemoveNode_served:
  assumes "serves_from K base S" and "leader_base leader base" and "registrable f"
  shows "RemoveNode K r leader f h = (Some None, h @ [remove_post base (the_node f)])"
proof -
  obtain fc where fc: "BuildPodConfig f = Some (Inr fc)" "nodeRequest f fc = Inr (the_node f)"
    using assms(3) by (auto simp: registrable_def node_for_def)
  then show ?thesis
    using RemoveConfig_served [OF assms(1,2)] by (simp add: RemoveNode_def io_simps)
qed

lemma GetClusterList_served:
  assumes "serves_from K base S" and "leader_base leader base" and "server_ok (S h)"
  shows "GetClusterList K r leader h =
    (Some (Inr (elems (qs_Nodes (S h)))), h @ [HttpGet (base @ CLUSTER_LIST)])"
proof -
  obtain lc where lc: "BuildPodConfig leader = Some (Inr lc)"
    and base: "base = ''http://'' @ pst_PodIP (pod_Status leader) @ '':'' @ fq_HTTPPort lc"
    using assms(2) by (auto simp: leader_base_def)
  have url: "''http://'' @ receiver leader (fq_HTTPPort lc) CLUSTER_LIST = base @ CLUSTER_LIST"
    by (simp add: receiver_def base)
  have "UnmarshalNodes (MarshalNodes (qs_Nodes (S h))) = Inr (qs_Nodes (S h))"
    using assms(3) by (intro nodes_roundtrip) (simp add: server_ok_def)
  moreover have "k_httpGet K h (base @ CLUSTER_LIST) = Inr (200, Inr (MarshalNodes (qs_Nodes (S h))))"
    using assms(1) by (simp add: serves_from_def ServeHTTP_def path_defs)
  ultimately show ?thesis
    unfolding GetClusterList_def by (simp add: lc getHTTP_def io_simps url [simplified])
qed

section \<open>A reconciliation against the server\<close>

text \<open>The pods of the informer's store, which do not change while one item is processed.\<close>

definition static_store :: "k8s \<Rightarrow> go_obj list \<Rightarrow> bool" where
  "static_store K objs \<longleftrightarrow> (\<forall>h. k_storeList K h = objs)
     \<and> (\<forall>h key. stored_pod (k_storeGetByKey K h key) = find (\<lambda>p. pod_key p = key) (pods_of objs))"

lemma static_store_key_law: "static_store K objs \<Longrightarrow> store_key_law K"
  by (auto simp: static_store_def store_key_law_def find_Some_iff)

definition in_store :: "go_obj list \<Rightarrow> string \<Rightarrow> bool" where
  "in_store objs key \<longleftrightarrow> (\<exists>p \<in> set (pods_of objs). pod_key p = key)"

lemma find_in_store: "find (\<lambda>p. pod_key p = key) (pods_of objs) = None \<longleftrightarrow> \<not> in_store objs key"
  by (auto simp: find_None_iff in_store_def)

lemma existedLoop_run:
  assumes "static_store K objs"
  shows "\<exists>m'. existedLoop K ws m rs h = (Some (m', rs @ filter (\<lambda>w. \<not> in_store objs (cn_Name w)) ws),
      h @ map (\<lambda>w. StoreGetByKey NamespaceAll (cn_Name w)) ws)
    \<and> (\<forall>k. map_get m' k = (if k \<in> cn_Name ` set ws \<and> in_store objs k
         then find (\<lambda>p. pod_key p = k) (pods_of objs) else map_get m k))"
proof (induction ws arbitrary: m rs h)
  case Nil
  then show ?case by (simp add: io_simps)
next
  case (Cons w ws)
  have get: "stored_pod (k_storeGetByKey K h (cn_Name w)) = find (\<lambda>p. pod_key p = cn_Name w) (pods_of objs)"
    using assms by (simp add: static_store_def)
  show ?case
  proof (cases "in_store objs (cn_Name w)")
    case True
    then obtain p where p: "find (\<lambda>p. pod_key p = cn_Name w) (pods_of objs) = Some p"
      using find_in_store by (metis option.exhaust)
    with get Cons.IH [of "map_put (cn_Name w) p m" rs "h @ [StoreGetByKey NamespaceAll (cn_Name w)]"] True
    show ?thesis by (auto simp: io_simps)
  next
    case False
    then have "stored_pod (k_storeGetByKey K h (cn_Name w)) = None" using get find_in_store by metis
    with Cons.IH [of m "rs @ [w]" "h @ [StoreGetByKey NamespaceAll (cn_Name w)]"] False
    show ?thesis by (auto simp: io_simps)
  qed
qed

lemma for_each_run:
  "(\<And>x h. body x h = (Some (), h @ [e x])) \<Longrightarrow> for_each body xs h = (Some (), h @ map e xs)"
  by (induction xs arbitrary: h) (simp_all add: io_simps)

lemma for_until_error_run:
  "(\<And>x h. x \<in> set xs \<Longrightarrow> body x h = (Some None, h @ [e x])) \<Longrightarrow> for_until_error body xs h = (Some None, h @ map e xs)"
  by (induction xs arbitrary: h) (simp_all add: io_simps)

text \<open>The registered nodes whose pods are gone are removed at once; the map holds the others.\<close>

lemma ListExistedWorkers_served:
  assumes "serves_from K base S" and "leader_base leader base" and "server_ok (S h)"
    and "static_store K objs" and "watches_all rc"
  obtains m es where
    "ListExistedWorkers K rc leader h = (Some (Inr m), h @ es)"
    "keyed m" "set (map_keys m) = {k \<in> cn_Name ` server_nodes (S h). in_store objs k}"
    "\<And>k p. map_get m k = Some p \<Longrightarrow> p \<in> set (pods_of objs)"
    "es = HttpGet (base @ CLUSTER_LIST)
       # map (\<lambda>w. StoreGetByKey NamespaceAll (cn_Name w)) (elems (qs_Nodes (S h)))
       @ map (remove_post base) (filter (\<lambda>w. \<not> in_store objs (cn_Name w)) (elems (qs_Nodes (S h))))"
proof -
  let ?ns = "elems (qs_Nodes (S h))"
  let ?gone = "filter (\<lambda>w. \<not> in_store objs (cn_Name w)) ?ns"
  let ?reads = "map (\<lambda>w. StoreGetByKey NamespaceAll (cn_Name w)) ?ns"
  let ?es = "HttpGet (base @ CLUSTER_LIST) # ?reads @ map (remove_post base) ?gone"
  obtain m where m: "existedLoop K ?ns (Some []) [] (h @ [HttpGet (base @ CLUSTER_LIST)]) =
      (Some (m, ?gone), h @ HttpGet (base @ CLUSTER_LIST) # ?reads)"
    "\<And>k. map_get m k = (if k \<in> cn_Name ` set ?ns \<and> in_store objs k
         then find (\<lambda>p. pod_key p = k) (pods_of objs) else None)"
    using existedLoop_run [OF assms(4), of ?ns "Some []" "[]" "h @ [HttpGet (base @ CLUSTER_LIST)]"] by auto
  have "for_each (\<lambda>item. bind_io (RemoveConfig K (rc_setter rc) leader item) (\<lambda>_. ret ())) ?gone h1 =
      (Some (), h1 @ map (remove_post base) ?gone)" for h1
    by (rule for_each_run) (simp add: RemoveConfig_served [OF assms(1,2)] io_simps)
  then have run: "ListExistedWorkers K rc leader h = (Some (Inr m), h @ ?es)"
    using GetClusterList_served [OF assms(1-3)] m(1) assms(5)
    by (simp add: ListExistedWorkers_def pod_store_def watches_all_def io_simps)
  have "keyed m" by (rule ListExistedWorkers_keyed [OF static_store_key_law [OF assms(4)] run])
  moreover have "set (map_keys m) = {k \<in> cn_Name ` server_nodes (S h). in_store objs k}"
    using find_in_store by (auto simp: map_keys_iff m(2) server_nodes_def split: if_splits)
  moreover have "p \<in> set (pods_of objs)" if "map_get m k = Some p" for k p
    using that by (auto simp: m(2) find_Some_iff split: if_splits)
  ultimately show thesis using run that by blast
qed

text \<open>The whole exchange: what is sent, and what the server holds at the end.\<close>

lemma ProcessLeader_served:
  assumes "serves_from K base S" and "leader_base leader base" and "server_ok (S h)"
    and "static_store K objs" and "range_law K" and "watches_all rc"
    and "map_get (om_Labels (pod_Meta leader)) ComputeGroupLabel = Some groupKey"
    and regs: "\<forall>p \<in> insert leader (set (pods_of objs)). registrable p"
  obtains gone adds removes h' where
    "ProcessLeader K rc leader h = (Some None, h')"
    "gone = filter (\<lambda>w. \<not> in_store objs (cn_Name w)) (elems (qs_Nodes (S h)))"
    "h' = h @ HttpGet (base @ CLUSTER_LIST)
       # map (\<lambda>w. StoreGetByKey NamespaceAll (cn_Name w)) (elems (qs_Nodes (S h)))
       @ map (remove_post base) gone @ [StoreList NamespaceAll]
       @ map (add_post base) (map the_node adds) @ map (remove_post base) (map the_node removes)"
    "\<forall>p \<in> set adds \<union> set removes. registrable p"
    "pod_key ` set adds = desired_keys K rc leader objs
       - {k \<in> cn_Name ` server_nodes (S h). in_store objs k}"
    "pod_key ` set removes = {k \<in> cn_Name ` server_nodes (S h). in_store objs k}
       - desired_keys K rc leader objs"
    "set adds \<subseteq> insert leader {p \<in> set (pods_of objs). k_isPodReady K p \<and> IsGroupWorker (rc_setter rc) p}"
proof -
  let ?gone = "filter (\<lambda>w. \<not> in_store objs (cn_Name w)) (elems (qs_Nodes (S h)))"
  obtain m es where ex: "ListExistedWorkers K rc leader h = (Some (Inr m), h @ es)"
    and keyed: "keyed m"
    and keys: "set (map_keys m) = {k \<in> cn_Name ` server_nodes (S h). in_store objs k}"
    and vals: "\<And>k p. map_get m k = Some p \<Longrightarrow> p \<in> set (pods_of objs)"
    and es: "es = HttpGet (base @ CLUSTER_LIST)
       # map (\<lambda>w. StoreGetByKey NamespaceAll (cn_Name w)) (elems (qs_Nodes (S h)))
       @ map (remove_post base) ?gone"
    by (rule ListExistedWorkers_served [OF assms(1-4,6)]) (rule that, assumption+)
  define ws where "ws = readyPods K (IsGroupWorker (rc_setter rc)) objs @ [leader]"
  obtain rh adds where cl: "classifyLoop m ws (Some []) [] = (rh, adds)" by fastforce
  define h2 where "h2 = h @ es @ [StoreList NamespaceAll]"
  define ks where "ks = k_rangeOrder K h2 (map_keys m)"
  define removes where "removes = removeLoop m ks rh []"
  have ks: "mset ks = mset (map_keys m)" using assms(5) by (simp add: ks_def range_law_def)
  then have set_ks: "set ks = set (map_keys m)" by (rule mset_eq_setD)
  have dist: "distinct ks"
    using keyed mset_eq_imp_distinct_iff [OF ks] by (simp add: keyed_def wf_map_def)
  have adds: "adds = filter (\<lambda>w. map_get m (pod_key w) = None) ws"
    using classifyLoop_add [of m ws "Some []" "[]"] cl by simp
  have removes: "set removes \<subseteq> set (pods_of objs)"
    using removeLoop_filter [OF dist, of m rh "[]"] set_ks vals
    by (auto simp: removes_def map_keys_iff)
  have ws: "set ws = insert leader {p \<in> set (pods_of objs). k_isPodReady K p \<and> IsGroupWorker (rc_setter rc) p}"
    by (auto simp: ws_def readyPods_filter)
  have reg: "\<forall>p \<in> set adds \<union> set removes. registrable p"
    using regs removes ws adds by auto
  have a: "for_until_error (AddNode K (rc_setter rc) leader) adds h2 =
      (Some None, h2 @ map (\<lambda>p. add_post base (the_node p)) adds)"
    using reg by (intro for_until_error_run AddNode_served [OF assms(1,2)]) simp
  have b: "for_until_error (RemoveNode K (rc_setter rc) leader) removes h3 =
      (Some None, h3 @ map (\<lambda>p. remove_post base (the_node p)) removes)" for h3
    using reg by (intro for_until_error_run RemoveNode_served [OF assms(1,2)]) simp
  let ?h' = "h2 @ map (add_post base) (map the_node adds) @ map (remove_post base) (map the_node removes)"
  have list: "k_storeList K h1 = objs" for h1 using assms(4) by (simp add: static_store_def)
  have run: "ProcessLeader K rc leader h = (Some None, ?h')"
    using a b
    by (simp add: ProcessLeader_def assms(7) ex ListReadyWorkers_run [OF assms(6)] list io_simps Let_def
        ws_def [symmetric] cl h2_def [symmetric, simplified] ks_def [symmetric] removes_def [symmetric] o_def)
      (simp add: h2_def ks_def removes_def)?
  have "pod_key ` set ws = desired_keys K rc leader objs"
    by (auto simp: desired_keys_def ws)
  then have diff: "pod_key ` set adds = desired_keys K rc leader objs
       - {k \<in> cn_Name ` server_nodes (S h). in_store objs k}"
    "pod_key ` set removes = {k \<in> cn_Name ` server_nodes (S h). in_store objs k}
       - desired_keys K rc leader objs"
    using leader_diff [OF keyed set_ks dist cl] by (simp_all add: keys removes_def)
  have "set adds \<subseteq> insert leader {p \<in> set (pods_of objs). k_isPodReady K p \<and> IsGroupWorker (rc_setter rc) p}"
    using adds ws by auto
  then show thesis
    using that [of ?h' ?gone adds removes] run reg diff by (simp add: h2_def es)
qed

section \<open>Many leaders\<close>

text \<open>A registration sent to one address is either seen by the server at another one as its own, when
  the addresses are the same, or not at all.\<close>

lemma strip_prefix_Some: "strip_prefix p s = Some r \<longleftrightarrow> s = p @ r"
  unfolding strip_prefix_def by (metis append_eq_conv_conj append_take_drop_id option.inject option.distinct(1))

lemma foreign_path:
  assumes "strip_prefix b (base @ p) = Some path" and "path \<in> {CLUSTER_ADD, CLUSTER_REMOVE}"
    and "p \<in> {CLUSTER_ADD, CLUSTER_REMOVE}"
  shows "b = base \<and> path = p"
proof -
  have e: "base @ p = b @ path" using assms(1) by (simp add: strip_prefix_Some)
  have "last (b @ path) = last path" "last (base @ p) = last p"
    using assms(2,3) by (auto simp: path_defs)
  with e have "last p = last path" by simp
  then have "path = p" using assms(2,3) by (auto simp: path_defs)
  with e show ?thesis by simp
qed

lemma ServeHTTP_other: "path \<noteq> CLUSTER_ADD \<Longrightarrow> path \<noteq> CLUSTER_REMOVE \<Longrightarrow> snd (ServeHTTP ''POST'' path body s) = s"
  by (simp add: ServeHTTP_def)

lemma add_post_step:
  "server_step b (add_post base n) s = (if b = base then server_add n s else s)"
proof (cases "strip_prefix b (base @ CLUSTER_ADD)")
  case None
  then show ?thesis by (auto simp: add_post_def server_step_def)
next
  case (Some path)
  show ?thesis
  proof (cases "path \<in> {CLUSTER_ADD, CLUSTER_REMOVE}")
    case True
    with foreign_path [OF Some True] show ?thesis by (simp add: add_post_def server_step_def server_add_def)
  next
    case False
    then have "b \<noteq> base" using Some by auto
    with Some False show ?thesis by (simp add: add_post_def server_step_def ServeHTTP_other)
  qed
qed

lemma remove_post_step:
  "server_step b (remove_post base n) s = (if b = base then server_remove n s else s)"
proof (cases "strip_prefix b (base @ CLUSTER_REMOVE)")
  case None
  then show ?thesis by (auto simp: remove_post_def server_step_def)
next
  case (Some path)
  show ?thesis
  proof (cases "path \<in> {CLUSTER_ADD, CLUSTER_REMOVE}")
    case True
    with foreign_path [OF Some True] show ?thesis by (simp add: remove_post_def server_step_def server_remove_def)
  next
    case False
    then have "b \<noteq> base" using Some by auto
    with Some False show ?thesis by (simp add: remove_post_def server_step_def ServeHTTP_other)
  qed
qed

lemma names_after_adds:
  "ascii_node n \<Longrightarrow> cn_Name ` server_nodes (fold (server_step b) (map (\<lambda>l. add_post (base l) n) ls) s) =
    (if b \<in> base ` set ls then insert (cn_Name n) (cn_Name ` server_nodes s) else cn_Name ` server_nodes s)"
  by (induction ls arbitrary: s) (auto simp: add_post_step query_list.names_add)

lemma names_after_removes:
  "ascii_node n \<Longrightarrow> cn_Name ` server_nodes (fold (server_step b) (map (\<lambda>l. remove_post (base l) n) ls) s) =
    (if b \<in> base ` set ls then cn_Name ` server_nodes s - {cn_Name n} else cn_Name ` server_nodes s)"
  by (induction ls arbitrary: s) (auto simp: remove_post_step query_list.names_remove)

text \<open>The reconciliation of a leader, as a function of the list of its server.\<close>

lemma leader_list_served:
  assumes "serves K base s0" and "leader_base leader base" and "server_ok (server_at base s0 h)"
    and "static_store K objs" and "range_law K" and "watches_all rc"
    and "map_get (om_Labels (pod_Meta leader)) ComputeGroupLabel = Some groupKey"
    and "\<forall>p \<in> insert leader (set (pods_of objs)). registrable p"
  shows "\<exists>h'. ProcessLeader K rc leader h = (Some None, h')
    \<and> cn_Name ` server_nodes (server_at base s0 h') = desired_keys K rc leader objs
    \<and> server_ok (server_at base s0 h')
    \<and> (\<forall>n \<in> server_nodes (server_at base s0 h'). n \<in> server_nodes (server_at base s0 h)
         \<or> n \<in> the_node ` insert leader {p \<in> set (pods_of objs). k_isPodReady K p \<and> IsGroupWorker (rc_setter rc) p})"
proof -
  let ?s = "server_at base s0 h"
  obtain gone adds removes h' where run: "ProcessLeader K rc leader h = (Some None, h')"
    and gone: "gone = filter (\<lambda>w. \<not> in_store objs (cn_Name w)) (elems (qs_Nodes ?s))"
    and h': "h' = h @ HttpGet (base @ CLUSTER_LIST)
       # map (\<lambda>w. StoreGetByKey NamespaceAll (cn_Name w)) (elems (qs_Nodes ?s))
       @ map (remove_post base) gone @ [StoreList NamespaceAll]
       @ map (add_post base) (map the_node adds) @ map (remove_post base) (map the_node removes)"
    and reg: "\<forall>p \<in> set adds \<union> set removes. registrable p"
    and diff: "pod_key ` set adds = desired_keys K rc leader objs - {k \<in> cn_Name ` server_nodes ?s. in_store objs k}"
      "pod_key ` set removes = {k \<in> cn_Name ` server_nodes ?s. in_store objs k} - desired_keys K rc leader objs"
    and sub: "set adds \<subseteq> insert leader {p \<in> set (pods_of objs). k_isPodReady K p \<and> IsGroupWorker (rc_setter rc) p}"
    by (rule ProcessLeader_served [OF assms(1) [unfolded serves_def] assms(2-8)]) (rule that, assumption+)
  have srv: "server_at base s0 h' = fold server_remove (map the_node removes)
       (fold server_add (map the_node adds) (fold server_remove gone ?s))"
    by (simp add: h' server_at_append fold_store_reads fold_posts server_reads del: map_map)
  have good: "\<forall>n \<in> set gone. ascii_node n" "\<forall>n \<in> set (map the_node adds). ascii_node n"
    "\<forall>n \<in> set (map the_node removes). ascii_node n"
    using assms(3) reg by (auto simp: gone server_ok_def registrable_ascii)
  have names: "cn_Name ` set (map the_node adds) = pod_key ` set adds"
    "cn_Name ` set (map the_node removes) = pod_key ` set removes"
    using reg registrable_name by (force simp: image_image)+
  have gone_names: "cn_Name ` set gone = {k \<in> cn_Name ` server_nodes ?s. \<not> in_store objs k}"
    by (auto simp: gone server_nodes_def)
  have algebra: "(N - {k \<in> N. \<not> Q k} \<union> (D - {k \<in> N. Q k})) - ({k \<in> N. Q k} - D) = D" for N D :: "string set" and Q
    by blast
  have "cn_Name ` server_nodes (server_at base s0 h') =
      (cn_Name ` server_nodes ?s - cn_Name ` set gone \<union> pod_key ` set adds) - pod_key ` set removes"
    unfolding srv query_list.names_remove_all [OF good(3)] query_list.names_add_all [OF good(2)]
      query_list.names_remove_all [OF good(1)] names ..
  then have "cn_Name ` server_nodes (server_at base s0 h') = desired_keys K rc leader objs"
    unfolding gone_names diff algebra .
  moreover have "server_ok (server_at base s0 h')"
    using assms(3) good by (simp add: srv query_list.wf_remove_all query_list.wf_add_all)
  moreover have "server_nodes (server_at base s0 h') \<subseteq> server_nodes ?s \<union> set (map the_node adds)"
    using query_list.nodes_remove_all [OF good(3)] query_list.nodes_add_all [OF good(2)]
      query_list.nodes_remove_all [OF good(1)] unfolding srv by blast
  ultimately show ?thesis using run sub by (intro exI [of _ h']) auto
qed

section \<open>Properties\<close>

text \<open>C3 (refinement).  Against a leader that runs the query server, a reconciliation implements the
  assignment of the desired names to the abstract cluster list: it succeeds, and afterwards the
  registered names are exactly those of the ready followers in the store and of the leader itself,
  each once; entries of pods that are gone from the store are dropped, and every entry is one that
  was there or the node of a desired pod.\<close>

theorem leader_list_synchronised:
  assumes "serves K base s0" and "leader_base leader base" and "server_ok (server_at base s0 h)"
    and "static_store K objs" and "range_law K" and "watches_all rc"
    and "map_get (om_Labels (pod_Meta leader)) ComputeGroupLabel = Some groupKey"
    and "\<forall>p \<in> insert leader (set (pods_of objs)). registrable p"
  shows "\<exists>h'. ProcessLeader K rc leader h = (Some None, h')
    \<and> cn_Name ` server_nodes (server_at base s0 h') = desired_keys K rc leader objs
    \<and> server_ok (server_at base s0 h')
    \<and> (\<forall>n \<in> server_nodes (server_at base s0 h'). n \<in> server_nodes (server_at base s0 h)
         \<or> n \<in> the_node ` insert leader {p \<in> set (pods_of objs). k_isPodReady K p \<and> IsGroupWorker (rc_setter rc) p})"
  by (rule leader_list_served [OF assms])

text \<open>C33 (functional).  A leader whose list is right is left alone: when the registered names are the
  desired ones and every one of these pods is in the store, a reconciliation only reads; it sends
  neither a registration nor a removal.\<close>

theorem synchronised_leader_quiet:
  assumes "serves K base s0" and "leader_base leader base" and "server_ok (server_at base s0 h)"
    and "static_store K objs" and "range_law K" and "watches_all rc"
    and "map_get (om_Labels (pod_Meta leader)) ComputeGroupLabel = Some groupKey"
    and "\<forall>p \<in> insert leader (set (pods_of objs)). registrable p"
    and "cn_Name ` server_nodes (server_at base s0 h) = desired_keys K rc leader objs"
    and "leader \<in> set (pods_of objs)"
  shows "ProcessLeader K rc leader h = (Some None, h @ HttpGet (base @ CLUSTER_LIST)
       # map (\<lambda>w. StoreGetByKey NamespaceAll (cn_Name w)) (elems (qs_Nodes (server_at base s0 h)))
       @ [StoreList NamespaceAll])"
proof -
  have stored: "in_store objs k" if "k \<in> desired_keys K rc leader objs" for k
    using that assms(10) by (auto simp: desired_keys_def in_store_def)
  then have keep: "{k \<in> cn_Name ` server_nodes (server_at base s0 h). in_store objs k} = desired_keys K rc leader objs"
    using assms(9) by blast
  have none: "filter (\<lambda>w. \<not> in_store objs (cn_Name w)) (elems (qs_Nodes (server_at base s0 h))) = []"
    using stored assms(9) by (auto simp: filter_empty_conv server_nodes_def)
  show ?thesis
    by (rule ProcessLeader_served [OF assms(1) [unfolded serves_def] assms(2-8)]) (simp add: none keep)
qed

text \<open>C19 (functional).  A follower that becomes ready is afterwards in the list of every ready leader of
  the store, and one that is no longer ready is in none; no other name changes in any of them.\<close>

theorem worker_registered_everywhere:
  assumes "static_store K objs" and "watches_all rc" and "registrable pod"
    and "map_get (om_Labels (pod_Meta pod)) ComputeGroupLabel = Some groupKey"
    and "leaders = {p \<in> set (pods_of objs). k_isPodReady K p \<and> IsGroupLeader (rc_setter rc) p}"
    and "\<forall>l \<in> leaders. serves K (base l) (s0 l) \<and> leader_base l (base l)"
  shows "(\<exists>h'. ProcessReadyWorker K rc pod h = (Some None, h')
      \<and> (\<forall>l \<in> leaders. cn_Name ` server_nodes (server_at (base l) (s0 l) h') =
           insert (pod_key pod) (cn_Name ` server_nodes (server_at (base l) (s0 l) h))))
    \<and> (\<exists>h'. ProcessUnreadyWorker K rc pod h = (Some None, h')
      \<and> (\<forall>l \<in> leaders. cn_Name ` server_nodes (server_at (base l) (s0 l) h') =
           cn_Name ` server_nodes (server_at (base l) (s0 l) h) - {pod_key pod}))"
proof -
  define ls where "ls = readyPods K (IsGroupLeader (rc_setter rc)) objs"
  have ls: "set ls = leaders" by (auto simp: ls_def readyPods_filter assms(5))
  have all: "rs_AllNS (rc_setter rc)" using assms(2) by (simp add: watches_all_def)
  have objs: "k_storeList K h = objs" using assms(1) by (simp add: static_store_def)
  note ascii = registrable_ascii [OF assms(3)] and name = registrable_name [OF assms(3)]
  have a: "for_until_error (\<lambda>l. AddNode K (rc_setter rc) l pod) ls h1 =
      (Some None, h1 @ map (\<lambda>l. add_post (base l) (the_node pod)) ls)" for h1
    using assms(3,6) ls by (intro for_until_error_run AddNode_served) (auto simp: serves_def)
  have r: "for_until_error (\<lambda>l. RemoveNode K (rc_setter rc) l pod) ls h1 =
      (Some None, h1 @ map (\<lambda>l. remove_post (base l) (the_node pod)) ls)" for h1
    using assms(3,6) ls by (intro for_until_error_run RemoveNode_served) (auto simp: serves_def)
  show ?thesis
    using ls
    by (simp add: ProcessReadyWorker_def ProcessUnreadyWorker_def assms(4) all ListReadyLeaders_run [OF assms(2)]
        objs io_simps ls_def [symmetric] a r server_at_append server_reads names_after_adds names_after_removes ascii name)
qed

section \<open>The properties at concrete inputs\<close>

text \<open>A cluster in which one query server runs, and pods as the tests make them.\<close>

definition query_from :: "string \<Rightarrow> (call list \<Rightarrow> query_server) \<Rightarrow> go_obj list \<Rightarrow> k8s" where
  "query_from base S objs = ref_k8s\<lparr>
     k_storeList := \<lambda>h. objs,
     k_storeGetByKey := \<lambda>h key. Inr (map_option (PodPtr 0) (find (\<lambda>p. pod_key p = key) (pods_of objs))),
     k_newRequest := \<lambda>url. None,
     k_httpPost := \<lambda>h url body. (case strip_prefix base url of None \<Rightarrow> Inl (ForeignError ''no route to host'')
       | Some path \<Rightarrow> Inr (200, Inr (fst (ServeHTTP ''POST'' path body (S h))))),
     k_httpGet := \<lambda>h url. (case strip_prefix base url of None \<Rightarrow> Inl (ForeignError ''no route to host'')
       | Some path \<Rightarrow> Inr (200, Inr (fst (ServeHTTP ''GET'' path '''' (S h)))))\<rparr>"

definition query_k8s :: "string \<Rightarrow> query_server \<Rightarrow> go_obj list \<Rightarrow> k8s" where
  "query_k8s base s0 objs = query_from base (server_at base s0) objs"

lemma query_from_laws: "serves_from (query_from base S objs) base S" "static_store (query_from base S objs) objs"
  "range_law (query_from base S objs)" "k_isPodReady (query_from base S objs) = ref_isPodReady"
  by (auto simp: serves_from_def static_store_def range_law_def query_from_def stored_pod_def ref_k8s_def split: option.split)

lemma query_k8s_laws: "serves (query_k8s base s0 objs) base s0" "static_store (query_k8s base s0 objs) objs"
  "range_law (query_k8s base s0 objs)" "k_isPodReady (query_k8s base s0 objs) = ref_isPodReady"
  by (simp_all add: query_k8s_def query_from_laws serves_def)

definition mock_pod :: "string \<Rightarrow> string \<Rightarrow> bool \<Rightarrow> Pod" where
  "mock_pod name ip isLeader = the (makeMockPod ref_k8s ''default-group1'' name ''default'' ip isLeader True)"

lemma mock_pod_made: "makeMockPod ref_k8s ''default-group1'' name ''default'' ip l True = Some (mock_pod name ip l)"
proof -
  have "complete_instance ref_k8s (cs_Instance DefaultComputeSpec)"
    by (auto simp: complete_instance_def ref_k8s_def DefaultComputeSpec_def)
  then have "MakeFuseQueryPod ref_k8s DefaultComputeSpec name ''default'' ''default-group1'' l \<noteq> None"
    by (simp add: MakeFuseQueryPod_def convertInstanceSpecToPodSpec_exists [symmetric] Option.bind_eq_None_conv)
  then have "makeMockPod ref_k8s ''default-group1'' name ''default'' ip l True \<noteq> None"
    by (simp add: makeMockPod_def)
  then show ?thesis by (auto simp: mock_pod_def)
qed

lemma mock_pod_fields:
  "convertInstanceSpecToPodSpec ref_k8s (cs_Instance DefaultComputeSpec) = Some (pod_Spec (mock_pod name ip l))"
  "pod_key (mock_pod name ip l) = ''default/'' @ name" "pst_PodIP (pod_Status (mock_pod name ip l)) = ip"
  "om_Labels (pod_Meta (mock_pod name ip l)) =
     Some [(ComputeGroupLabel, ''default-group1''), (ComputeGroupRoleLabel, leaderString l)]"
  "ref_isPodReady (mock_pod name ip l)"
proof -
  obtain spec where spec: "convertInstanceSpecToPodSpec ref_k8s (cs_Instance DefaultComputeSpec) = Some spec"
    using mock_pod_made [of name ip l] by (auto simp: makeMockPod_def MakeFuseQueryPod_def Option.bind_eq_Some_conv)
  have made: "mock_pod name ip l = \<lparr>
      pod_Meta = zero_ObjectMeta\<lparr>om_Name := name, om_Namespace := ''default'',
        om_Labels := Some [(ComputeGroupLabel, ''default-group1''), (ComputeGroupRoleLabel, leaderString l)]\<rparr>,
      pod_Spec = spec,
      pod_Status = \<lparr>pst_Phase = '''', pst_PodIP = ip, pst_Conditions = [\<lparr>pc_Type = ''Ready'', pc_Status = ''True''\<rparr>]\<rparr>\<rparr>"
    by (simp add: mock_pod_def makeMockPod_def MakeFuseQueryPod_def spec createMockStatus_def Let_def)
  show "convertInstanceSpecToPodSpec ref_k8s (cs_Instance DefaultComputeSpec) = Some (pod_Spec (mock_pod name ip l))"
    "pod_key (mock_pod name ip l) = ''default/'' @ name" "pst_PodIP (pod_Status (mock_pod name ip l)) = ip"
    "om_Labels (pod_Meta (mock_pod name ip l)) =
       Some [(ComputeGroupLabel, ''default-group1''), (ComputeGroupRoleLabel, leaderString l)]"
    "ref_isPodReady (mock_pod name ip l)"
    by (simp_all add: made spec pod_key_def object_key_def zero_ObjectMeta_def ref_isPodReady_def)
qed

lemma mock_pod_config:
  "\<exists>c. BuildPodConfig (mock_pod name ip l) = Some (Inr c) \<and> fq_HTTPPort c = ''8080'' \<and> fq_RPCPort c = ''9091''
     \<and> fq_Priority c = fmt_d (sint (1 :: int32))"
  by (rule BuildPodConfig_deployed [OF mock_pod_fields(1) [of name ip l]])
    (simp add: DefaultComputeSpec_def sample_decimals)

lemma mock_pod_registrable:
  assumes "ascii name" and "ascii ip"
  shows "registrable (mock_pod name ip l)"
proof -
  obtain c where c: "BuildPodConfig (mock_pod name ip l) = Some (Inr c)" "fq_RPCPort c = ''9091''"
    "fq_Priority c = fmt_d (sint (1 :: int32))" using mock_pod_config by blast
  have "nodeRequest (mock_pod name ip l) c = Inr \<lparr>cn_Name = ''default/'' @ name, cn_Address = ip @ '':9091'', cn_Priority = 1\<rparr>"
    using nodeRequest_priority [OF c(3), of "mock_pod name ip l"] by (simp add: mock_pod_fields c(2))
  then have "node_for (mock_pod name ip l) \<lparr>cn_Name = ''default/'' @ name, cn_Address = ip @ '':9091'', cn_Priority = 1\<rparr>"
    using assms c(1) by (auto simp: node_for_def ascii_node_def ascii_def)
  then show ?thesis by (simp add: registrable_def the_node_for)
qed

definition mock_leader :: Pod where
  "mock_leader = mock_pod ''p1'' ''10.0.0.1'' True"

definition mock_worker :: Pod where
  "mock_worker = mock_pod ''p2'' ''10.0.0.2'' False"

definition mock_objs :: "go_obj list" where
  "mock_objs = [PodPtr 1 mock_leader, PodPtr 2 mock_worker]"

definition mock_node :: "string \<Rightarrow> ClusterNodeRequest" where
  "mock_node name = \<lparr>cn_Name = ''default/'' @ name, cn_Address = ''10.0.0.3:9091'', cn_Priority = 1\<rparr>"

definition mock_server :: "string list \<Rightarrow> query_server" where
  "mock_server names = \<lparr>qs_Config = '''', qs_Nodes = Some (map mock_node names)\<rparr>"

lemma mock_base: "leader_base mock_leader ''http://10.0.0.1:8080''"
proof -
  obtain c where "BuildPodConfig mock_leader = Some (Inr c)" "fq_HTTPPort c = ''8080''"
    using mock_pod_config unfolding mock_leader_def by blast
  then show ?thesis by (auto simp: leader_base_def mock_leader_def mock_pod_fields)
qed

lemma mock_registrable: "registrable mock_leader" "registrable mock_worker"
  by (simp_all add: mock_leader_def mock_worker_def mock_pod_registrable ascii_def)

lemma mock_label: "map_get (om_Labels (pod_Meta mock_leader)) ComputeGroupLabel = Some ''default-group1''"
  "map_get (om_Labels (pod_Meta mock_worker)) ComputeGroupLabel = Some ''default-group1''"
  by (simp_all add: mock_leader_def mock_worker_def mock_pod_fields)

lemma mock_roles: "IsGroupWorker r mock_worker" "\<not> IsGroupWorker r mock_leader" "IsGroupLeader r mock_leader"
  "\<not> IsGroupLeader r mock_worker"
  by (simp_all add: mock_leader_def mock_worker_def mock_pod_fields IsGroupWorker_def IsGroupLeader_def
      leaderString_def label_defs)

lemma mock_keys: "pod_key mock_leader = ''default/p1''" "pod_key mock_worker = ''default/p2''"
  "ref_isPodReady mock_leader" "ref_isPodReady mock_worker"
  by (simp_all add: mock_leader_def mock_worker_def mock_pod_fields)

lemma mock_desired: "k_isPodReady K = ref_isPodReady \<Longrightarrow> desired_keys K rc mock_leader mock_objs = {''default/p1'', ''default/p2''}"
  by (auto simp: desired_keys_def mock_objs_def mock_roles mock_keys)

lemma mock_server_ok: "distinct names \<Longrightarrow> \<forall>n \<in> set names. ascii n \<Longrightarrow> server_ok (mock_server names)"
  by (auto simp: server_ok_def mock_server_def mock_node_def ascii_node_def ascii_def distinct_map inj_on_def o_def)

theorem leader_list_synchronised_witness:
  "\<exists>h'. ProcessLeader (query_k8s ''http://10.0.0.1:8080'' (mock_server [''p1'', ''old'']) mock_objs) sample_rc mock_leader [] = (Some None, h')
     \<and> cn_Name ` server_nodes (server_at ''http://10.0.0.1:8080'' (mock_server [''p1'', ''old'']) h') = {''default/p1'', ''default/p2''}"
proof -
  let ?s = "mock_server [''p1'', ''old'']" and ?b = "''http://10.0.0.1:8080''"
  have ok: "server_ok (server_at ?b ?s [])" by (simp add: server_at_def mock_server_ok ascii_def)
  have reg: "\<forall>p \<in> insert mock_leader (set (pods_of mock_objs)). registrable p"
    by (simp add: mock_objs_def mock_registrable)
  from leader_list_synchronised [OF query_k8s_laws(1) mock_base ok query_k8s_laws(2,3) sample_rc_watches mock_label(1) reg]
  show ?thesis by (auto simp: mock_desired query_k8s_laws(4))
qed

theorem synchronised_leader_quiet_witness:
  "ProcessLeader (query_k8s ''http://10.0.0.1:8080'' (mock_server [''p1'', ''p2'']) mock_objs) sample_rc mock_leader [] =
     (Some None, [HttpGet ''http://10.0.0.1:8080/v1/cluster/list'', StoreGetByKey NamespaceAll ''default/p1'',
        StoreGetByKey NamespaceAll ''default/p2'', StoreList NamespaceAll])"
proof -
  let ?s = "mock_server [''p1'', ''p2'']" and ?b = "''http://10.0.0.1:8080''"
  have ok: "server_ok (server_at ?b ?s [])" by (simp add: server_at_def mock_server_ok ascii_def)
  have reg: "\<forall>p \<in> insert mock_leader (set (pods_of mock_objs)). registrable p"
    by (simp add: mock_objs_def mock_registrable)
  have names: "cn_Name ` server_nodes (server_at ?b ?s []) =
      desired_keys (query_k8s ?b ?s mock_objs) sample_rc mock_leader mock_objs"
    by (simp add: mock_desired query_k8s_laws(4) server_at_def server_nodes_def mock_server_def mock_node_def)
  have "mock_leader \<in> set (pods_of mock_objs)" by (simp add: mock_objs_def)
  from synchronised_leader_quiet [OF query_k8s_laws(1) mock_base ok query_k8s_laws(2,3) sample_rc_watches mock_label(1)
      reg names this]
  show ?thesis by (simp add: server_at_def mock_server_def mock_node_def path_defs)
qed

theorem worker_registered_everywhere_witness:
  "\<exists>h'. ProcessReadyWorker (query_k8s ''http://10.0.0.1:8080'' (mock_server [''p1'']) mock_objs) sample_rc mock_worker [] = (Some None, h')
     \<and> cn_Name ` server_nodes (server_at ''http://10.0.0.1:8080'' (mock_server [''p1'']) h') = {''default/p1'', ''default/p2''}"
proof -
  let ?s = "mock_server [''p1'']" and ?b = "''http://10.0.0.1:8080''"
  let ?K = "query_k8s ?b ?s mock_objs"
  have leaders: "{mock_leader} = {p \<in> set (pods_of mock_objs). k_isPodReady ?K p \<and> IsGroupLeader (rc_setter sample_rc) p}"
    by (auto simp: mock_objs_def query_k8s_laws(4) mock_roles mock_keys)
  have serve: "\<forall>l \<in> {mock_leader}. serves ?K ((\<lambda>_. ?b) l) ((\<lambda>_. ?s) l) \<and> leader_base l ((\<lambda>_. ?b) l)"
    by (simp add: query_k8s_laws(1) mock_base)
  from worker_registered_everywhere [OF query_k8s_laws(2) sample_rc_watches mock_registrable(2) mock_label(2) leaders serve, of "[]"]
  show ?thesis by (auto simp: mock_keys server_at_def server_nodes_def mock_server_def mock_node_def)
qed

end
