(* ===== verification/Pipeline.thy ===== *)
theory Pipeline
  imports Live_Cluster Query_Server
begin

text \<open>
  Both controllers after each other: the operator controller brings up the deployments of a group, the
  cluster runs pods of these deployments, and the register controller fills the cluster list of a
  leader with the workers among them.  The kubelet is not code of the repository: \<open>pod_of\<close> states what a
  pod takes over from the template of its deployment.
\<close>

section \<open>Pods of a deployment\<close>

text \<open>A pod has the specification of the template and at least its labels; the cluster adds labels of its own.\<close>

definition pod_of :: "Deployment \<Rightarrow> Pod \<Rightarrow> bool" where
  "pod_of d pod \<longleftrightarrow> pod_Spec pod = pt_Spec (ds_Template (dep_Spec d))
     \<and> (\<forall>k v. map_get (pt_Labels (ds_Template (dep_Spec d))) k = Some v \<longrightarrow> map_get (om_Labels (pod_Meta pod)) k = Some v)"

text \<open>A pod that has an address, which no prefix \<^verbatim>\<open>http\<close> can be confused with, and a name that JSON carries unchanged.\<close>

definition addressed :: "Pod \<Rightarrow> bool" where
  "addressed pod \<longleftrightarrow> pst_PodIP (pod_Status pod) \<noteq> [] \<and> hd (pst_PodIP (pod_Status pod)) \<noteq> CHR ''h''
     \<and> ascii (pst_PodIP (pod_Status pod)) \<and> ascii (pod_key pod)"

text \<open>The server keeps the template of a deployment.\<close>

definition template_law :: "api_server \<Rightarrow> bool" where
  "template_law A \<longleftrightarrow> (\<forall>d. ds_Template (dep_Spec (admit_deployment A d)) = ds_Template (dep_Spec d))"

lemma desired_deployment_spec:
  assumes "desired_deployment K cg cs name isLeader = Some d"
  shows "convertInstanceSpecToPodSpec K (cs_Instance cs) = Some (pt_Spec (ds_Template (dep_Spec d)))"
proof -
  obtain ok gk d0 where d0: "MakeDeployment K cs name (om_Namespace (cg_Meta cg)) ok gk isLeader = Some d0"
    and d: "d = AddDeployOwnership K d0 cg"
    using assms by (auto simp: desired_deployment_def split: sum.splits)
  show ?thesis
    by (rule MakeDeployment_SomeE [OF d0]) (simp add: d AddDeployOwnership_meta)
qed

lemma role_of_labels:
  assumes "map_get (om_Labels (pod_Meta pod)) ComputeGroupRoleLabel = Some (leaderString l)"
  shows "IsGroupLeader r pod = l" and "IsGroupWorker r pod = (\<not> l)"
  using assms by (simp_all add: IsGroupLeader_def IsGroupWorker_def leaderString_def label_defs)

lemma ascii_fmt_d [simp]: "ascii (fmt_d i)"
proof -
  have "(of_char c :: nat) < 128" if "c \<in> set (fmt_d i)" for c
    using fmt_d_chars [OF that] by (auto simp: is_digit_def)
  then show ?thesis by (simp add: ascii_def)
qed

lemma ascii_append [simp]: "ascii (s @ t) \<longleftrightarrow> ascii s \<and> ascii t"
  by (auto simp: ascii_def)

text \<open>The node that a worker pod is registered as, from the specification of its set.\<close>

definition set_node :: "DatafuseComputeSetSpec \<Rightarrow> Pod \<Rightarrow> ClusterNodeRequest \<Rightarrow> bool" where
  "set_node cs pod n \<longleftrightarrow> cn_Name n = pod_key pod
     \<and> (\<exists>rpc priority. ci_RPCPort (cs_Instance cs) = Some rpc \<and> ci_Priority (cs_Instance cs) = Some priority
          \<and> cn_Address n = pst_PodIP (pod_Status pod) @ '':'' @ fmt_d (sint rpc) \<and> cn_Priority n = sint priority)"

lemma pod_of_desired:
  assumes "desired_deployment K cg cs name l = Some w" and "ds_Template (dep_Spec d) = ds_Template (dep_Spec w)" and "pod_of d pod"
  shows "IsGroupLeader r pod = l" and "IsGroupWorker r pod = (\<not> l)"
    and "map_get (om_Labels (pod_Meta pod)) ComputeGroupLabel = Some (om_Namespace (cg_Meta cg) @ ''-'' @ om_Name (cg_Meta cg))"
    and "addressed pod \<Longrightarrow> registrable pod" and "set_node cs pod (the_node pod)"
    and "addressed pod \<Longrightarrow> ci_HTTPPort (cs_Instance cs) = Some http \<Longrightarrow>
      leader_base pod (''http://'' @ pst_PodIP (pod_Status pod) @ '':'' @ fmt_d (sint http))"
proof -
  note w = desired_deployment_meta [OF assms(1)]
  have labels: "map_get (om_Labels (pod_Meta pod)) k = Some v" if "map_get (om_Labels (dep_Meta w)) k = Some v" for k v
    using assms(2,3) w(6) that by (simp add: pod_of_def)
  from role_of_labels [OF labels [OF w(4)]]
  show "IsGroupLeader r pod = l" and "IsGroupWorker r pod = (\<not> l)" by simp_all
  from labels [OF w(5)]
  show "map_get (om_Labels (pod_Meta pod)) ComputeGroupLabel = Some (om_Namespace (cg_Meta cg) @ ''-'' @ om_Name (cg_Meta cg))" .
  have "convertInstanceSpecToPodSpec K (cs_Instance cs) = Some (pod_Spec pod)"
    using desired_deployment_spec [OF assms(1)] assms(2,3) by (simp add: pod_of_def)
  then obtain http' rpc priority c where c: "ci_HTTPPort (cs_Instance cs) = Some http'" "ci_RPCPort (cs_Instance cs) = Some rpc"
    "ci_Priority (cs_Instance cs) = Some priority" "BuildPodConfig pod = Some (Inr c)" "fq_HTTPPort c = fmt_d (sint http')"
    "fq_RPCPort c = fmt_d (sint rpc)" "fq_Priority c = fmt_d (sint priority)"
    by (rule BuildPodConfig_deployed) (rule that, assumption+, simp_all)
  let ?n = "\<lparr>cn_Name = pod_key pod, cn_Address = pst_PodIP (pod_Status pod) @ '':'' @ fmt_d (sint rpc), cn_Priority = sint priority\<rparr>"
  have n: "nodeRequest pod c = Inr ?n" using nodeRequest_priority [OF c(7)] c(6) by simp
  then have node: "the_node pod = ?n" using c(4) by (simp add: the_node_def)
  then show "set_node cs pod (the_node pod)" using c(2,3) by (simp add: set_node_def)
  show "registrable pod" if "addressed pod"
    using that n c(4) node sint_int32_bounds [of priority] by (auto simp: registrable_def node_for_def ascii_node_def addressed_def)
  show "leader_base pod (''http://'' @ pst_PodIP (pod_Status pod) @ '':'' @ fmt_d (sint http))"
    if "addressed pod" "ci_HTTPPort (cs_Instance cs) = Some http"
    using that c by (auto simp: leader_base_def addressed_def)
qed

section \<open>The deployments of a synchronised group\<close>

text \<open>What is stored under the names of a group was made for it.\<close>

definition templates_right :: "cluster_store \<Rightarrow> planned list \<Rightarrow> bool" where
  "templates_right st plan \<longleftrightarrow> (\<forall>p \<in> set plan. case cl_Deployments st (plan_key p) of None \<Rightarrow> True
     | Some d \<Rightarrow> ds_Template (dep_Spec d) = ds_Template (dep_Spec (fst (snd p))))"

lemma synced_templates:
  assumes "template_law A" and "distinct (map plan_key plan)" and "templates_right st plan" and "p \<in> set plan"
  shows "\<exists>d. cl_Deployments (fold (sync_set K A cg) plan st) (plan_key p) = Some d
    \<and> ds_Template (dep_Spec d) = ds_Template (dep_Spec (fst (snd p)))"
  using bspec [OF assms(3) [unfolded templates_right_def] assms(4)] assms(1)
  by (simp add: plan_deployments [OF assms(2,4)] Live_Cluster.settled_def template_law_def split: option.splits)

text \<open>A pod that runs for a set of the plan.\<close>

definition runs_for :: "cluster_store \<Rightarrow> Pod \<Rightarrow> planned \<Rightarrow> bool" where
  "runs_for st pod p \<longleftrightarrow> (case cl_Deployments st (plan_key p) of None \<Rightarrow> False | Some d \<Rightarrow> pod_of d pod)"

lemma synced_pod:
  assumes "template_law A" and "group_plan K cg = Some plan" and "distinct (map plan_key plan)" and "templates_right st0 plan"
    and "st = fold (sync_set K A cg) plan st0" and "p \<in> set plan" and "runs_for st pod p"
  shows "IsGroupLeader r pod = snd (snd p)" and "IsGroupWorker r pod = (\<not> snd (snd p))"
    and "map_get (om_Labels (pod_Meta pod)) ComputeGroupLabel = Some (om_Namespace (cg_Meta cg) @ ''-'' @ om_Name (cg_Meta cg))"
    and "addressed pod \<Longrightarrow> registrable pod" and "set_node (fst p) pod (the_node pod)"
    and "addressed pod \<Longrightarrow> ci_HTTPPort (cs_Instance (fst p)) = Some http \<Longrightarrow>
      leader_base pod (''http://'' @ pst_PodIP (pod_Status pod) @ '':'' @ fmt_d (sint http))"
proof -
  obtain d where d: "cl_Deployments st (plan_key p) = Some d" "ds_Template (dep_Spec d) = ds_Template (dep_Spec (fst (snd p)))"
    using synced_templates [OF assms(1,3,4,6)] assms(5) by blast
  with assms(7) have made: "pod_of d pod" by (simp add: runs_for_def)
  obtain name where w: "desired_deployment K cg (fst p) name (snd (snd p)) = Some (fst (snd p))"
    using group_plan_desired [OF assms(2,6)] by blast
  note facts = pod_of_desired [OF w d(2) made]
  show "IsGroupLeader r pod = snd (snd p)" and "IsGroupWorker r pod = (\<not> snd (snd p))"
    and "map_get (om_Labels (pod_Meta pod)) ComputeGroupLabel = Some (om_Namespace (cg_Meta cg) @ ''-'' @ om_Name (cg_Meta cg))"
    and "addressed pod \<Longrightarrow> registrable pod" and "set_node (fst p) pod (the_node pod)"
    and "addressed pod \<Longrightarrow> ci_HTTPPort (cs_Instance (fst p)) = Some http \<Longrightarrow>
      leader_base pod (''http://'' @ pst_PodIP (pod_Status pod) @ '':'' @ fmt_d (sint http))"
    by (rule facts; assumption)+
qed

text \<open>A worker runs for a worker set of the plan, or for no set of it.\<close>

lemma synced_worker:
  assumes "template_law A" and "group_plan K cg = Some plan" and "distinct (map plan_key plan)" and "templates_right st0 plan"
    and "st = fold (sync_set K A cg) plan st0"
  shows "IsGroupWorker r pod \<longleftrightarrow> (\<exists>p \<in> set (tl plan). runs_for st pod p)
    \<or> (\<forall>p \<in> set plan. \<not> runs_for st pod p) \<and> IsGroupWorker r pod"
proof -
  have "\<forall>p \<in> set (tl plan). \<not> snd (snd p) \<and> p \<in> set plan" "\<forall>p \<in> set plan. \<not> snd (snd p) \<longrightarrow> p \<in> set (tl plan)"
    using group_plan_flags [OF assms(2)] by (cases plan; auto)+
  with synced_pod(2) [OF assms] show ?thesis by metis
qed

section \<open>Properties\<close>

text \<open>C8 (liveness).  From a compute group to a query cluster: after the operator controller has synchronised
  a group, and when the store of the register controller holds pods of the group's deployments beside
  any other pods, of other groups for instance, that can be registered, the reconciliation of a leader
  pod of the group succeeds.  It leaves in the leader's cluster list exactly the leader itself, the ready
  pods of the group's worker sets and, as the code has it, every ready worker among the other pods.
  A new entry for a pod of the group has the address, the RPC port and the priority that the
  specification of the pod's own set gives, one for another pod what that pod's own environment gives.\<close>

theorem group_becomes_cluster:
  assumes "live K A st0" and "controller_ref_laws K" and "not_found_law K" and "admission_law A" and "template_law A"
    and "group_plan K cg = Some plan" and "distinct (map plan_key plan)"
    and "store_ok (live_at A st0 h)" and "templates_right (live_at A st0 h) plan"
    and st: "st = live_at A st0 (snd (processNewComputeGroup K (typed_controller K) cg h))"
    and "static_store R objs" and "range_law R" and "watches_all rc"
    and pods: "\<forall>pod \<in> set (pods_of objs). (\<exists>p \<in> set plan. runs_for st pod p) \<and> addressed pod
      \<or> (\<forall>p \<in> set plan. \<not> runs_for st pod p) \<and> registrable pod"
    and leader: "leader \<in> set (pods_of objs)" "runs_for st leader (hd plan)"
    and http: "ci_HTTPPort (cs_Instance (fst (hd plan))) = Some http"
    and base: "base = ''http://'' @ pst_PodIP (pod_Status leader) @ '':'' @ fmt_d (sint http)"
    and "serves R base s0" and "server_ok (server_at base s0 hr)"
  shows "fst (processNewComputeGroup K (typed_controller K) cg h) = Some None
    \<and> (\<exists>h'. ProcessLeader R rc leader hr = (Some None, h')
      \<and> cn_Name ` server_nodes (server_at base s0 h') = insert (pod_key leader)
          (pod_key ` {pod \<in> set (pods_of objs). k_isPodReady R pod \<and> ((\<exists>p \<in> set (tl plan). runs_for st pod p)
             \<or> (\<forall>p \<in> set plan. \<not> runs_for st pod p) \<and> IsGroupWorker (rc_setter rc) pod)})
      \<and> (\<forall>n \<in> server_nodes (server_at base s0 h'). n \<in> server_nodes (server_at base s0 hr)
           \<or> (\<exists>pod \<in> set (pods_of objs). \<exists>p \<in> set plan. runs_for st pod p \<and> set_node (fst p) pod n)
           \<or> (\<exists>pod \<in> set (pods_of objs). (\<forall>p \<in> set plan. \<not> runs_for st pod p) \<and> k_isPodReady R pod
                \<and> IsGroupWorker (rc_setter rc) pod \<and> node_for pod n)))"
proof -
  obtain new where run: "processNewComputeGroup K (typed_controller K) cg h = (Some None, h @ new)"
    "live_at A st0 (h @ new) = fold (sync_set K A cg) plan (live_at A st0 h)"
    using live_processNewComputeGroup [OF assms(1-4,6,8)] by blast
  note pod = synced_pod [OF assms(5,6,7,9) st [unfolded run(1) snd_conv run(2)]]
  have first: "hd plan \<in> set plan" using group_plan_flags [OF assms(6)] by simp
  have reg: "\<forall>p \<in> insert leader (set (pods_of objs)). registrable p" using pods pod(4) leader(1) by blast
  have addressed: "addressed leader" using pods leader first by blast
  have lbl: "map_get (om_Labels (pod_Meta leader)) ComputeGroupLabel = Some (om_Namespace (cg_Meta cg) @ ''-'' @ om_Name (cg_Meta cg))"
    by (rule pod(3) [OF first leader(2)])
  have lbase: "leader_base leader base"
    unfolding base by (rule pod(6) [OF first leader(2) addressed http])
  let ?own = "\<lambda>pod. \<exists>p \<in> set (tl plan). runs_for st pod p"
    and ?other = "\<lambda>pod. (\<forall>p \<in> set plan. \<not> runs_for st pod p) \<and> IsGroupWorker (rc_setter rc) pod"
  note worker = synced_worker [OF assms(5,6,7,9) st [unfolded run(1) snd_conv run(2)], of "rc_setter rc"]
  have keys: "desired_keys R rc leader objs = insert (pod_key leader)
      (pod_key ` {pod \<in> set (pods_of objs). k_isPodReady R pod \<and> (?own pod \<or> ?other pod)})"
    unfolding desired_keys_def set_filter by (intro arg_cong2 [of _ _ _ _ insert] arg_cong [of _ _ "image pod_key"] refl Collect_cong conj_cong worker)
  have node: "(\<exists>p \<in> set plan. runs_for st x p \<and> set_node (fst p) x (the_node x)) \<or> (\<forall>p \<in> set plan. \<not> runs_for st x p) \<and> node_for x (the_node x)"
    if "x \<in> set (pods_of objs)" for x
    using bspec [OF pods that]
  proof (elim disjE conjE)
    assume "\<exists>p \<in> set plan. runs_for st x p"
    then show ?thesis using pod(5) by blast
  qed (simp add: registrable_def)
  obtain h' where h': "ProcessLeader R rc leader hr = (Some None, h')"
    "cn_Name ` server_nodes (server_at base s0 h') = desired_keys R rc leader objs"
    "\<forall>n \<in> server_nodes (server_at base s0 h'). n \<in> server_nodes (server_at base s0 hr)
       \<or> n \<in> the_node ` insert leader {p \<in> set (pods_of objs). k_isPodReady R p \<and> IsGroupWorker (rc_setter rc) p}"
    using leader_list_served [OF assms(19) lbase assms(20,11,12,13) lbl reg] by blast
  have "n \<in> server_nodes (server_at base s0 hr)
      \<or> (\<exists>pod \<in> set (pods_of objs). \<exists>p \<in> set plan. runs_for st pod p \<and> set_node (fst p) pod n)
      \<or> (\<exists>pod \<in> set (pods_of objs). (\<forall>p \<in> set plan. \<not> runs_for st pod p) \<and> k_isPodReady R pod
           \<and> IsGroupWorker (rc_setter rc) pod \<and> node_for pod n)"
    if n: "n \<in> server_nodes (server_at base s0 h')" for n
  proof (cases "n \<in> server_nodes (server_at base s0 hr)")
    case False
    then obtain x where x: "x \<in> set (pods_of objs)" "n = the_node x" "x = leader \<or> k_isPodReady R x \<and> IsGroupWorker (rc_setter rc) x"
      using h'(3) n leader(1) by blast
    from node [OF x(1)] x first leader(2) show ?thesis by blast
  qed simp
  with run(1) h'(1) h'(2) [unfolded keys] show ?thesis by simp
qed

section \<open>The property at a concrete input\<close>

text \<open>A ready pod made from the template of a deployment.\<close>

definition template_pod :: "string \<Rightarrow> string \<Rightarrow> planned \<Rightarrow> Pod" where
  "template_pod name ip p = \<lparr>
     pod_Meta = zero_ObjectMeta\<lparr>om_Name := name, om_Namespace := ''default'', om_Labels := pt_Labels (ds_Template (dep_Spec (fst (snd p))))\<rparr>,
     pod_Spec = pt_Spec (ds_Template (dep_Spec (fst (snd p)))),
     pod_Status = \<lparr>pst_Phase = ''Running'', pst_PodIP = ip, pst_Conditions = [\<lparr>pc_Type = ''Ready'', pc_Status = ''True''\<rparr>]\<rparr>\<rparr>"

lemma template_pod_fields:
  "pod_key (template_pod name ip p) = ''default/'' @ name" "ref_isPodReady (template_pod name ip p)"
  "pst_PodIP (pod_Status (template_pod name ip p)) = ip"
  by (simp_all add: template_pod_def pod_key_def object_key_def ref_isPodReady_def zero_ObjectMeta_def)

lemma template_pod_runs:
  assumes "template_law A" and "distinct (map plan_key plan)" and "templates_right st plan" and "p \<in> set plan"
  shows "runs_for (fold (sync_set K A cg) plan st) (template_pod name ip p) p"
  using synced_templates [OF assms, of K cg] by (auto simp: runs_for_def pod_of_def template_pod_def)

lemma plain_template_law: "template_law plain_server"
  by (simp add: template_law_def plain_server_def)

theorem group_becomes_cluster_witness:
  "\<exists>plan h'. group_plan (live_k8s sample_store) sample_group = Some plan
     \<and> ProcessLeader (query_k8s ''http://10.0.0.1:8080'' (mock_server [''old''])
           [PodPtr 1 (template_pod ''p1'' ''10.0.0.1'' (plan ! 0)), PodPtr 2 (template_pod ''p2'' ''10.0.0.2'' (plan ! 1)),
            PodPtr 3 (mock_pod ''p3'' ''10.0.0.3'' False)])
         sample_rc (template_pod ''p1'' ''10.0.0.1'' (plan ! 0)) [] = (Some None, h')
     \<and> cn_Name ` server_nodes (server_at ''http://10.0.0.1:8080'' (mock_server [''old'']) h')
         = {''default/p1'', ''default/p2'', ''default/p3''}"
proof -
  let ?K = "live_k8s sample_store" and ?A = plain_server and ?b = "''http://10.0.0.1:8080''" and ?s = "mock_server [''old'']"
  obtain plan where plan: "group_plan ?K sample_group = Some plan" using sample_plan by blast
  have keys: "distinct (map plan_key plan)" unfolding sample_plan_keys [OF plan] by simp
  have sets: "map fst plan = [sample_set, sample_set, sample_set]"
    using group_plan_sets [OF plan sample_sets(1,2)] by simp
  then obtain p0 p1 p2 where ps: "plan = [p0, p1, p2]" "fst p0 = sample_set" by (auto simp: map_eq_Cons_conv)
  let ?p = "template_pod ''p1'' ''10.0.0.1'' p0" and ?q = "template_pod ''p2'' ''10.0.0.2'' p1"
  let ?r = "mock_pod ''p3'' ''10.0.0.3'' False"
  let ?objs = "[PodPtr 1 ?p, PodPtr 2 ?q, PodPtr 3 ?r]" and ?st = "live_at ?A sample_store (snd (processNewComputeGroup ?K (typed_controller ?K) sample_group []))"
  have start: "live_at ?A sample_store [] = sample_store" by (simp add: live_at_def)
  have right: "templates_right (live_at ?A sample_store []) plan"
    unfolding start by (simp add: templates_right_def sample_store_def)
  obtain new where run: "processNewComputeGroup ?K (typed_controller ?K) sample_group [] = (Some None, [] @ new)"
    "live_at ?A sample_store ([] @ new) = fold (sync_set ?K ?A sample_group) plan (live_at ?A sample_store [])"
    using live_processNewComputeGroup [OF live_k8s_laws(1-3) plain_admission plan sample_store_ok] by blast
  have runs: "runs_for ?st ?p p0" "runs_for ?st ?q p1"
    unfolding run(1) snd_conv run(2)
    by (rule template_pod_runs [OF plain_template_law keys right]; simp add: ps)+
  have "?st = fold (sync_set ?K ?A sample_group) plan (live_at ?A sample_store [])" unfolding run(1) snd_conv run(2) ..
  note label = synced_pod(3) [OF plain_template_law plan keys right this]
  have other: "\<not> runs_for ?st ?r p" if "p \<in> set plan" for p
  proof
    assume "runs_for ?st ?r p"
    from label [OF that this] show False by (simp add: mock_pod_fields(4) sample_names)
  qed
  have third: "registrable ?r" "IsGroupWorker (rc_setter sample_rc) ?r" "ref_isPodReady ?r"
    by (simp_all add: mock_pod_registrable mock_pod_fields IsGroupWorker_def leaderString_def label_defs ascii_def)
  have pods: "\<forall>pod \<in> set (pods_of ?objs). (\<exists>p \<in> set plan. runs_for ?st pod p) \<and> addressed pod
      \<or> (\<forall>p \<in> set plan. \<not> runs_for ?st pod p) \<and> registrable pod"
    using runs other third(1) by (auto simp: addressed_def template_pod_fields ps(1))
  have http: "ci_HTTPPort (cs_Instance (fst (hd plan))) = Some 8080" by (simp add: ps sample_set_def sample_instance_def)
  have base: "?b = ''http://'' @ pst_PodIP (pod_Status ?p) @ '':'' @ fmt_d (sint (8080 :: int32))"
    by (simp add: template_pod_fields sample_decimals)
  have ok: "server_ok (server_at ?b ?s [])" by (simp add: server_at_def mock_server_ok ascii_def)
  have "?p \<in> set (pods_of ?objs)" "runs_for ?st ?p (hd plan)" using runs by (simp_all add: ps(1))
  from group_becomes_cluster [OF live_k8s_laws(1-3) plain_admission plain_template_law plan keys sample_store_ok right refl
      query_k8s_laws(2,3) sample_rc_watches pods this http base query_k8s_laws(1) ok]
  obtain h' where h': "ProcessLeader (query_k8s ?b ?s ?objs) sample_rc ?p [] = (Some None, h')"
    "cn_Name ` server_nodes (server_at ?b ?s h') = insert (pod_key ?p) (pod_key ` {pod \<in> set (pods_of ?objs).
        k_isPodReady (query_k8s ?b ?s ?objs) pod \<and> ((\<exists>p \<in> set (tl plan). runs_for ?st pod p)
          \<or> (\<forall>p \<in> set plan. \<not> runs_for ?st pod p) \<and> IsGroupWorker (rc_setter sample_rc) pod)})" by blast
  let ?S = "{pod \<in> set (pods_of ?objs). k_isPodReady (query_k8s ?b ?s ?objs) pod \<and> ((\<exists>p \<in> set (tl plan). runs_for ?st pod p)
      \<or> (\<forall>p \<in> set plan. \<not> runs_for ?st pod p) \<and> IsGroupWorker (rc_setter sample_rc) pod)}"
  have "?q \<in> ?S" using runs(2) by (simp add: query_k8s_laws(4) template_pod_fields(2) ps(1))
  moreover have "?r \<in> ?S" using other third(2,3) by (simp add: query_k8s_laws(4))
  ultimately have "{pod_key ?q, pod_key ?r} \<subseteq> pod_key ` ?S" by blast
  moreover have "pod_key ` ?S \<subseteq> {pod_key ?p, pod_key ?q, pod_key ?r}" by auto
  ultimately have "cn_Name ` server_nodes (server_at ?b ?s h') = {pod_key ?p, pod_key ?q, pod_key ?r}"
    unfolding h'(2) by blast
  then have "cn_Name ` server_nodes (server_at ?b ?s h') = {''default/p1'', ''default/p2'', ''default/p3''}"
    by (simp add: template_pod_fields(1) mock_pod_fields(2))
  with plan h'(1) show ?thesis by (auto simp: ps(1))
qed

end
