(* ===== verification/Interleaved_Register.thy ===== *)
theory Interleaved_Register
  imports Query_Server Schedules
begin

text \<open>
  Several workers of the register controller, interleaved call by call, on the query servers of all
  leaders.  A worker handles one pod (\<open>processPod\<close>): a ready leader is reconciled, a follower is sent to
  every leader.  So two workers may write to the same list.  They do not get into each other's way:
  towards the list of one leader every other worker only adds what this leader should have and only
  removes what it should not have, and under this reliance its reconciliation reaches its goal.
\<close>

section \<open>What a call does to the names of a list\<close>

abbreviation names :: "query_server \<Rightarrow> string set" where
  "names s \<equiv> cn_Name ` server_nodes s"

definition adds :: "string \<Rightarrow> string \<Rightarrow> call \<Rightarrow> bool" where
  "adds b k c \<longleftrightarrow> (\<exists>n. c = add_post b n \<and> ascii_node n \<and> cn_Name n = k)"

definition drops :: "string \<Rightarrow> string \<Rightarrow> call \<Rightarrow> bool" where
  "drops b k c \<longleftrightarrow> (\<exists>n. c = remove_post b n \<and> ascii_node n \<and> cn_Name n = k)"

text \<open>The calls of the controller: they leave the list alone, or add or remove one node.\<close>

definition proper :: "string \<Rightarrow> call \<Rightarrow> bool" where
  "proper b c \<longleftrightarrow> (\<forall>s. server_step b c s = s) \<or> (\<exists>k. adds b k c \<or> drops b k c)"

fun is_post :: "call \<Rightarrow> bool" where
  "is_post (HttpPost url body) = True"
| "is_post c = False"

lemma no_post: "\<not> is_post c \<Longrightarrow> proper b c \<and> \<not> adds b k c \<and> \<not> drops b k c"
  by (cases c) (auto simp: proper_def adds_def drops_def add_post_def remove_post_def server_step_def ServeHTTP_get
      split: option.split)

lemma posts_distinct: "add_post b n \<noteq> remove_post b' m"
proof
  assume "add_post b n = remove_post b' m"
  then have "last (b @ CLUSTER_ADD) = last (b' @ CLUSTER_REMOVE)" by (simp add: add_post_def remove_post_def)
  then show False by (simp add: path_defs)
qed

lemma post_base: "add_post b n = add_post b' m \<Longrightarrow> b = b'" "remove_post b n = remove_post b' m \<Longrightarrow> b = b'"
  by (simp_all add: add_post_def remove_post_def)

lemma post_name:
  assumes "ascii_node n" and "ascii_node m" and "Marshal n = Marshal m"
  shows "n = m"
  using node_roundtrip [OF assms(1)] node_roundtrip [OF assms(2)] assms(3) by (metis prod.inject)

lemma adds_post: "ascii_node n \<Longrightarrow> adds b k (add_post b' n) \<longleftrightarrow> b = b' \<and> cn_Name n = k" "\<not> adds b k (remove_post b' n)"
proof -
  show "\<not> adds b k (remove_post b' n)" unfolding adds_def using posts_distinct by metis
  assume n: "ascii_node n"
  show "adds b k (add_post b' n) \<longleftrightarrow> b = b' \<and> cn_Name n = k"
  proof
    assume "adds b k (add_post b' n)"
    then obtain m where m: "add_post b' n = add_post b m" "ascii_node m" "cn_Name m = k" by (auto simp: adds_def)
    have "Marshal n = Marshal m" using m(1) by (simp add: add_post_def)
    from post_name [OF n m(2) this] post_base(1) [OF m(1)] m(3) show "b = b' \<and> cn_Name n = k" by simp
  qed (use n in \<open>auto simp: adds_def\<close>)
qed

lemma drops_post: "ascii_node n \<Longrightarrow> drops b k (remove_post b' n) \<longleftrightarrow> b = b' \<and> cn_Name n = k" "\<not> drops b k (add_post b' n)"
proof -
  show "\<not> drops b k (add_post b' n)" unfolding drops_def using posts_distinct by metis
  assume n: "ascii_node n"
  show "drops b k (remove_post b' n) \<longleftrightarrow> b = b' \<and> cn_Name n = k"
  proof
    assume "drops b k (remove_post b' n)"
    then obtain m where m: "remove_post b' n = remove_post b m" "ascii_node m" "cn_Name m = k" by (auto simp: drops_def)
    have "Marshal n = Marshal m" using m(1) by (simp add: remove_post_def)
    from post_name [OF n m(2) this] post_base(2) [OF m(1)] m(3) show "b = b' \<and> cn_Name n = k" by simp
  qed (use n in \<open>auto simp: drops_def\<close>)
qed

lemma proper_post: "ascii_node n \<Longrightarrow> proper b (add_post b' n)" "ascii_node n \<Longrightarrow> proper b (remove_post b' n)"
  by (cases "b = b'"; auto simp: proper_def add_post_step remove_post_step adds_def drops_def)+

lemma step_adds: "adds b k c \<Longrightarrow> names (server_step b c s) = insert k (names s)"
  unfolding adds_def by (elim exE conjE, hypsubst, simp only: add_post_step refl if_True query_list.names_add)

lemma step_drops: "drops b k c \<Longrightarrow> names (server_step b c s) = names s - {k}"
  unfolding drops_def by (elim exE conjE, hypsubst, simp only: remove_post_step refl if_True query_list.names_remove)

lemma step_names:
  "adds b k c \<Longrightarrow> k \<in> names (server_step b c s)" "drops b k c \<Longrightarrow> k \<notin> names (server_step b c s)"
  "proper b c \<Longrightarrow> \<not> adds b k c \<Longrightarrow> \<not> drops b k c \<Longrightarrow> k \<in> names (server_step b c s) \<longleftrightarrow> k \<in> names s"
proof -
  show "adds b k c \<Longrightarrow> k \<in> names (server_step b c s)" by (simp only: step_adds) simp
  show "drops b k c \<Longrightarrow> k \<notin> names (server_step b c s)" by (simp only: step_drops) simp
  assume "proper b c" "\<not> adds b k c" "\<not> drops b k c"
  then consider "server_step b c s = s" | k' where "adds b k' c" "k' \<noteq> k" | k' where "drops b k' c" "k' \<noteq> k"
    by (auto simp: proper_def)
  then show "k \<in> names (server_step b c s) \<longleftrightarrow> k \<in> names s"
  proof cases
    case 1
    then show ?thesis by simp
  next
    case 2
    then show ?thesis by (simp only: step_adds [OF 2(1)]) simp
  next
    case 3
    then show ?thesis by (simp only: step_drops [OF 3(1)]) simp
  qed
qed

lemma proper_ok: "proper b c \<Longrightarrow> server_ok s \<Longrightarrow> server_ok (server_step b c s)"
  by (auto simp: proper_def adds_def drops_def add_post_step remove_post_step query_list.wf_add query_list.wf_remove)

lemma proper_ok_all: "\<forall>c \<in> set cs. proper b c \<Longrightarrow> server_ok s \<Longrightarrow> server_ok (fold (server_step b) cs s)"
  by (induction cs arbitrary: s) (simp_all add: proper_ok)

lemma stays_in: "k \<in> names s \<Longrightarrow> \<forall>c \<in> set cs. proper b c \<and> \<not> drops b k c \<Longrightarrow> k \<in> names (fold (server_step b) cs s)"
proof (induction cs arbitrary: s)
  case (Cons c cs)
  then have "k \<in> names (server_step b c s)" using step_names(1) [of b k c s] step_names(3) [of b c k s] by auto
  with Cons show ?case by simp
qed simp

lemma stays_out: "k \<notin> names s \<Longrightarrow> \<forall>c \<in> set cs. proper b c \<and> \<not> adds b k c \<Longrightarrow> k \<notin> names (fold (server_step b) cs s)"
proof (induction cs arbitrary: s)
  case (Cons c cs)
  then have "k \<notin> names (server_step b c s)" using step_names(2) [of b k c s] step_names(3) [of b c k s] by auto
  with Cons show ?case by simp
qed simp

section \<open>A reconciliation that relies on the others\<close>

lemma suffix_calls:
  assumes "xs @ x # ys = P @ Q" and "x \<notin> set P"
  shows "set ys \<subseteq> set Q"
  using assms by (auto simp: append_eq_append_conv2 append_eq_Cons_conv Cons_eq_append_conv)

text \<open>
  A worker has read the names of \<open>s\<close> and goes on to remove \<open>gone\<close>, to add \<open>news\<close> and to remove \<open>olds\<close>.
  Meanwhile the others add only names of \<open>D\<close> and remove only names outside.
\<close>

lemma goal_reached:
  assumes own: "calls_of i T = reads @ map (remove_post b) gone @ pause @ map (add_post b) news @ map (remove_post b) olds @ closing"
    and quiet: "\<forall>c \<in> set reads \<union> set pause \<union> set closing. \<not> is_post c"
    and ascii: "\<forall>n \<in> set gone \<union> set news \<union> set olds. ascii_node n"
    and others: "\<forall>(j, c) \<in> set T. j \<noteq> i \<longrightarrow> proper b c \<and> (\<forall>k. (adds b k c \<longrightarrow> k \<in> D) \<and> (drops b k c \<longrightarrow> k \<notin> D))"
    and gone: "cn_Name ` set gone = {k \<in> names s. \<not> Q k}"
    and news: "cn_Name ` set news = D - {k \<in> names s. Q k}"
    and olds: "cn_Name ` set olds = {k \<in> names s. Q k} - D"
  shows "names (fold (server_step b) (map snd T) s) = D"
proof -
  let ?own = "calls_of i T"
  have all: "proper b c" if "(j, c) \<in> set T" for j c
  proof (cases "j = i")
    case True
    with that have "c \<in> set ?own" by (simp add: calls_of_set)
    then show ?thesis using own quiet ascii no_post proper_post by auto
  qed (use that others in auto)
  have own_adds: "k \<in> cn_Name ` set news" if "c \<in> set ?own" "adds b k c" for c k
    using that own quiet no_post ascii adds_post by auto
  have own_drops: "k \<in> cn_Name ` set gone \<union> cn_Name ` set olds" if "c \<in> set ?own" "drops b k c" for c k
    using that own quiet no_post ascii drops_post by auto
  have adds_D: "k \<in> D" if "(j, c) \<in> set T" "adds b k c" for j c k
    using that others own_adds [of c k] news by (cases "j = i") (auto simp: calls_of_set)
  have drops_outside: "k \<notin> D \<or> k \<in> cn_Name ` set gone" if "(j, c) \<in> set T" "drops b k c" for j c k
    using that others own_drops [of c k] olds by (cases "j = i") (auto simp: calls_of_set)
  show ?thesis
  proof (rule set_eqI)
    fix k
    show "k \<in> names (fold (server_step b) (map snd T) s) \<longleftrightarrow> k \<in> D"
    proof (cases "k \<in> D")
      case True
      show ?thesis
      proof (cases "k \<in> names s \<and> Q k")
        case True
        then have "k \<notin> cn_Name ` set gone" unfolding gone by simp
        then have "\<forall>c \<in> set (map snd T). proper b c \<and> \<not> drops b k c" using all drops_outside \<open>k \<in> D\<close> by fastforce
        with stays_in [of k s "map snd T" b] True \<open>k \<in> D\<close> show ?thesis by blast
      next
        case False
        then have "k \<in> cn_Name ` set news" using \<open>k \<in> D\<close> unfolding news by blast
        then obtain n where n: "n \<in> set news" "cn_Name n = k" by auto
        then have "(i, add_post b n) \<in> set T" using own by (simp add: calls_of_set [symmetric])
        then obtain U V where T: "T = U @ (i, add_post b n) # V" by (auto simp: in_set_conv_decomp)
        have "calls_of i U @ add_post b n # calls_of i V = (reads @ map (remove_post b) gone @ pause)
            @ (map (add_post b) news @ map (remove_post b) olds @ closing)"
          using own by (simp add: T)
        moreover have "is_post (add_post b n)" by (simp add: add_post_def)
        then have "add_post b n \<notin> set (reads @ map (remove_post b) gone @ pause)"
          using quiet posts_distinct by auto
        ultimately have after: "set (calls_of i V) \<subseteq> set (map (add_post b) news @ map (remove_post b) olds @ closing)"
          by (rule suffix_calls)
        have "\<not> drops b k c" if "(j, c) \<in> set V" for j c
        proof (cases "j = i")
          case True
          with that after have "c \<in> set (map (add_post b) news @ map (remove_post b) olds @ closing)"
            using calls_of_set by blast
          moreover have "k \<notin> cn_Name ` set olds" using \<open>k \<in> D\<close> unfolding olds by simp
          ultimately show ?thesis using quiet no_post ascii drops_post by auto
        next
          case False
          with that others \<open>k \<in> D\<close> show ?thesis by (auto simp: T)
        qed
        then have "\<forall>c \<in> set (map snd V). proper b c \<and> \<not> drops b k c" using all by (fastforce simp: T)
        moreover have "adds b k (add_post b n)" using n ascii by (auto simp: adds_def)
        ultimately show ?thesis
          using stays_in [OF step_names(1)] \<open>k \<in> D\<close> by (simp add: T)
      qed
    next
      case False
      then have no_adds: "\<not> adds b k c" if "(j, c) \<in> set T" for j c using adds_D that by blast
      show ?thesis
      proof (cases "k \<in> names s")
        case True
        then have "k \<in> cn_Name ` (set gone \<union> set olds)" using False unfolding image_Un gone olds by blast
        then obtain n where n: "n \<in> set gone \<union> set olds" "cn_Name n = k" by auto
        then have "(i, remove_post b n) \<in> set T" using own by (auto simp: calls_of_set [symmetric])
        then obtain U V where T: "T = U @ (i, remove_post b n) # V" by (auto simp: in_set_conv_decomp)
        have "\<forall>c \<in> set (map snd V). proper b c \<and> \<not> adds b k c" using all no_adds by (fastforce simp: T)
        moreover have "drops b k (remove_post b n)" using n ascii by (auto simp: drops_def)
        ultimately show ?thesis using stays_out [OF step_names(2)] False by (simp add: T)
      next
        case False
        moreover have "\<forall>c \<in> set (map snd T). proper b c \<and> \<not> adds b k c" using all no_adds by fastforce
        ultimately show ?thesis using stays_out [of k s "map snd T" b] \<open>k \<notin> D\<close> by blast
      qed
    qed
  qed
qed

section \<open>The workers\<close>

definition base_of :: "Pod \<Rightarrow> string" where
  "base_of pod = (case BuildPodConfig pod of
     Some (Inr c) \<Rightarrow> ''http://'' @ pst_PodIP (pod_Status pod) @ '':'' @ fq_HTTPPort c | _ \<Rightarrow> '''')"

definition ready_leaders :: "(Pod \<Rightarrow> bool) \<Rightarrow> RegisterController \<Rightarrow> go_obj list \<Rightarrow> Pod list" where
  "ready_leaders ready rc objs = filter (\<lambda>p. ready p \<and> IsGroupLeader (rc_setter rc) p) (pods_of objs)"

text \<open>
  The pods of the store can be registered, carry the label of their group and have different names;
  the ready leaders have servers of their own.
\<close>

definition pod_cluster :: "(Pod \<Rightarrow> bool) \<Rightarrow> RegisterController \<Rightarrow> go_obj list \<Rightarrow> (string \<Rightarrow> query_server) \<Rightarrow> bool" where
  "pod_cluster ready rc objs servers \<longleftrightarrow> watches_all rc \<and> distinct (map pod_key (pods_of objs))
     \<and> (\<forall>p \<in> set (pods_of objs). registrable p \<and> map_get (om_Labels (pod_Meta p)) ComputeGroupLabel \<noteq> None)
     \<and> (\<forall>l \<in> set (ready_leaders ready rc objs). leader_base l (base_of l) \<and> server_ok (servers (base_of l)))
     \<and> inj_on base_of (set (ready_leaders ready rc objs))"

definition pod_worker :: "(Pod \<Rightarrow> bool) \<Rightarrow> go_obj list \<Rightarrow> k8s \<Rightarrow> bool" where
  "pod_worker ready objs K \<longleftrightarrow> static_store K objs \<and> range_law K \<and> k_isPodReady K = ready"

lemma roles_exclude: "IsGroupLeader r p \<Longrightarrow> \<not> IsGroupWorker r p"
  by (auto simp: IsGroupLeader_def IsGroupWorker_def label_defs split: option.splits)

text \<open>The reconciliation of a ready leader, by the names that it finds in its list.\<close>

lemma leader_job:
  assumes "pod_cluster ready rc objs servers" and "pod_worker ready objs K" and "pod \<in> set (ready_leaders ready rc objs)"
    and "serves_from K (base_of pod) S" and "server_ok (S [])"
  obtains reads gone news olds where
    "processPod K rc obj pod [] = (Some (), reads @ map (remove_post (base_of pod)) gone @ [StoreList NamespaceAll]
       @ map (add_post (base_of pod)) news @ map (remove_post (base_of pod)) olds @ [QueueForget PodQueue obj])"
    "\<forall>c \<in> set reads. \<not> is_post c" "\<exists>cs. reads = HttpGet (base_of pod @ CLUSTER_LIST) # cs"
    "\<forall>n \<in> set gone \<union> set news \<union> set olds. ascii_node n"
    "cn_Name ` set gone = {k \<in> names (S []). \<not> in_store objs k}"
    "cn_Name ` set news = desired_keys K rc pod objs - {k \<in> names (S []). in_store objs k}"
    "cn_Name ` set olds = {k \<in> names (S []). in_store objs k} - desired_keys K rc pod objs"
proof -
  let ?b = "base_of pod"
  have pod: "pod \<in> set (pods_of objs)" "ready pod" "IsGroupLeader (rc_setter rc) pod"
    using assms(3) by (auto simp: ready_leaders_def)
  have base: "leader_base pod ?b" using assms(1,3) by (simp add: pod_cluster_def)
  obtain groupKey where label: "map_get (om_Labels (pod_Meta pod)) ComputeGroupLabel = Some groupKey"
    using assms(1) pod(1) by (auto simp: pod_cluster_def)
  have reg: "\<forall>p \<in> insert pod (set (pods_of objs)). registrable p" using assms(1) pod(1) by (auto simp: pod_cluster_def)
  have K: "static_store K objs" "range_law K" "watches_all rc" "k_isPodReady K = ready"
    using assms(1,2) by (simp_all add: pod_worker_def pod_cluster_def)
  obtain gone adds removes h' where run: "ProcessLeader K rc pod [] = (Some None, h')"
    and gone: "gone = filter (\<lambda>w. \<not> in_store objs (cn_Name w)) (elems (qs_Nodes (S [])))"
    and h': "h' = [] @ HttpGet (?b @ CLUSTER_LIST)
       # map (\<lambda>w. StoreGetByKey NamespaceAll (cn_Name w)) (elems (qs_Nodes (S [])))
       @ map (remove_post ?b) gone @ [StoreList NamespaceAll]
       @ map (add_post ?b) (map the_node adds) @ map (remove_post ?b) (map the_node removes)"
    and regs: "\<forall>p \<in> set adds \<union> set removes. registrable p"
    and diff: "pod_key ` set adds = desired_keys K rc pod objs - {k \<in> names (S []). in_store objs k}"
      "pod_key ` set removes = {k \<in> names (S []). in_store objs k} - desired_keys K rc pod objs"
    by (rule ProcessLeader_served [OF assms(4) base assms(5) K(1-3) label reg]) (rule that, assumption+)
  have "processPod K rc obj pod [] = (Some (), h' @ [QueueForget PodQueue obj])"
    using run pod K(4) by (simp add: processPod_def podErrorHandler_def io_simps)
  moreover have "cn_Name ` set gone = {k \<in> names (S []). \<not> in_store objs k}" by (auto simp: gone server_nodes_def)
  moreover have "cn_Name ` set (map the_node adds) = pod_key ` set adds"
    "cn_Name ` set (map the_node removes) = pod_key ` set removes"
    using regs registrable_name by (force simp: image_image)+
  moreover have "\<forall>n \<in> set gone \<union> set (map the_node adds) \<union> set (map the_node removes). ascii_node n"
    using assms(5) regs by (auto simp: gone server_ok_def registrable_ascii)
  ultimately show thesis
    using diff that [of "HttpGet (?b @ CLUSTER_LIST) # map (\<lambda>w. StoreGetByKey NamespaceAll (cn_Name w)) (elems (qs_Nodes (S [])))"
        gone "map the_node adds" "map the_node removes"] by (simp add: h' del: map_map)
qed

text \<open>Any other pod: a follower is sent to or taken from every leader, and nothing else is posted.\<close>

lemma other_job:
  assumes "pod_cluster ready rc objs servers" and "pod_worker ready objs K" and "pod \<in> set (pods_of objs)"
    and "pod \<notin> set (ready_leaders ready rc objs)"
    and "\<forall>l \<in> set (ready_leaders ready rc objs). \<exists>S. serves_from K (base_of l) S"
  shows "\<exists>calls. processPod K rc obj pod [] = (Some (), calls) \<and> (\<forall>c \<in> set calls. \<not> is_post c
     \<or> ready pod \<and> IsGroupWorker (rc_setter rc) pod \<and> (\<exists>l \<in> set (ready_leaders ready rc objs). c = add_post (base_of l) (the_node pod))
     \<or> \<not> ready pod \<and> (\<exists>l \<in> set (ready_leaders ready rc objs). c = remove_post (base_of l) (the_node pod)))"
proof -
  let ?ls = "ready_leaders ready rc objs"
  have K: "static_store K objs" "watches_all rc" "k_isPodReady K = ready" "k_storeList K h = objs" for h
    using assms(1,2) by (simp_all add: pod_worker_def pod_cluster_def static_store_def)
  have reg: "registrable pod" using assms(1,3) by (simp add: pod_cluster_def)
  obtain groupKey where label: "map_get (om_Labels (pod_Meta pod)) ComputeGroupLabel = Some groupKey"
    using assms(1,3) by (auto simp: pod_cluster_def)
  have ls: "readyPods K (IsGroupLeader (rc_setter rc)) objs = ?ls" by (simp add: readyPods_filter ready_leaders_def K(3))
  have base: "leader_base l (base_of l)" if "l \<in> set ?ls" for l using assms(1) that by (simp add: pod_cluster_def)
  have a: "for_until_error (\<lambda>l. AddNode K (rc_setter rc) l pod) ?ls h1 =
      (Some None, h1 @ map (\<lambda>l. add_post (base_of l) (the_node pod)) ?ls)" for h1
    using assms(5) base reg by (intro for_until_error_run) (metis AddNode_served)
  have r: "for_until_error (\<lambda>l. RemoveNode K (rc_setter rc) l pod) ?ls h1 =
      (Some None, h1 @ map (\<lambda>l. remove_post (base_of l) (the_node pod)) ?ls)" for h1
    using assms(5) base reg by (intro for_until_error_run) (metis RemoveNode_served)
  have all: "rs_AllNS (rc_setter rc)" using K(2) by (simp add: watches_all_def)
  note runs = ProcessReadyWorker_def ProcessUnreadyWorker_def label all ListReadyLeaders_run [OF K(2)] K(4) ls a r io_simps
  consider "ready pod" "IsGroupWorker (rc_setter rc) pod" | "\<not> ready pod" "IsGroupWorker (rc_setter rc) pod"
    | "\<not> IsGroupWorker (rc_setter rc) pod" "IsGroupLeader (rc_setter rc) pod" "\<not> ready pod"
    | "\<not> IsGroupWorker (rc_setter rc) pod" "\<not> IsGroupLeader (rc_setter rc) pod"
    using assms(3,4) by (auto simp: ready_leaders_def)
  then show ?thesis
  proof cases
    case 1
    then have "\<not> IsGroupLeader (rc_setter rc) pod" using roles_exclude by blast
    with 1 show ?thesis by (simp add: processPod_def K(3) podErrorHandler_def runs) auto
  next
    case 2
    then have "\<not> IsGroupLeader (rc_setter rc) pod" using roles_exclude by blast
    with 2 show ?thesis by (simp add: processPod_def K(3) podErrorHandler_def runs) auto
  next
    case 3
    then show ?thesis by (simp add: processPod_def K(3) podErrorHandler_def io_simps)
  next
    case 4
    then show ?thesis by (simp add: processPod_def K(3) io_simps)
  qed
qed

section \<open>Executions\<close>

text \<open>
  Workers with their items, each an address and a pod; each ran to its end, its calls are those of the
  schedule, and the servers of all ready leaders answered it from the states that the schedule led to.
\<close>

definition register_execution :: "(Pod \<Rightarrow> bool) \<Rightarrow> RegisterController \<Rightarrow> go_obj list \<Rightarrow> (string \<Rightarrow> query_server)
    \<Rightarrow> schedule \<Rightarrow> (k8s \<times> nat \<times> Pod) list \<Rightarrow> bool" where
  "register_execution ready rc objs servers T ws \<longleftrightarrow> (\<forall>e \<in> set T. fst e < length ws)
     \<and> (\<forall>i < length ws. case ws ! i of (K, a, pod) \<Rightarrow> pod_worker ready objs K
          \<and> snd (processPod K rc (PodPtr a pod) pod []) = calls_of i T
          \<and> (\<forall>l \<in> set (ready_leaders ready rc objs).
               \<exists>S. observes (server_at (base_of l) (servers (base_of l))) T i S \<and> serves_from K (base_of l) S))"

text \<open>What the worker of a pod may post.\<close>

definition job_call :: "(Pod \<Rightarrow> bool) \<Rightarrow> RegisterController \<Rightarrow> go_obj list \<Rightarrow> Pod \<Rightarrow> call \<Rightarrow> bool" where
  "job_call ready rc objs pod c \<longleftrightarrow> \<not> is_post c
     \<or> pod \<in> set (ready_leaders ready rc objs) \<and> (\<exists>n. ascii_node n \<and> (c = add_post (base_of pod) n \<or> c = remove_post (base_of pod) n))
     \<or> pod \<notin> set (ready_leaders ready rc objs) \<and> ascii_node (the_node pod)
         \<and> (ready pod \<and> IsGroupWorker (rc_setter rc) pod \<and> (\<exists>l. c = add_post (base_of l) (the_node pod))
            \<or> \<not> ready pod \<and> (\<exists>l. c = remove_post (base_of l) (the_node pod)))"

lemma job_call_proper: "job_call ready rc objs pod c \<Longrightarrow> proper b c"
  by (auto simp: job_call_def no_post proper_post)

lemma job_calls:
  assumes "pod_cluster ready rc objs servers" and "register_execution ready rc objs servers T ws" and "i < length ws"
    and "ws ! i = (K, a, pod)" and "pod \<in> set (pods_of objs)" and "(i, c) \<in> set T"
    and "pod \<in> set (ready_leaders ready rc objs) \<Longrightarrow>
      server_ok (server_at (base_of pod) (servers (base_of pod)) (map snd (before_call i 0 T)))"
  shows "job_call ready rc objs pod c"
proof -
  have K: "pod_worker ready objs K" and run: "snd (processPod K rc (PodPtr a pod) pod []) = calls_of i T"
    and served: "\<forall>l \<in> set (ready_leaders ready rc objs).
       \<exists>S. observes (server_at (base_of l) (servers (base_of l))) T i S \<and> serves_from K (base_of l) S"
    using assms(2-4) by (auto simp: register_execution_def)
  have c: "c \<in> set (calls_of i T)" using assms(6) by (simp add: calls_of_set)
  have ascii: "ascii_node (the_node pod)" using assms(1,5) by (simp add: pod_cluster_def registrable_ascii)
  show ?thesis
  proof (cases "pod \<in> set (ready_leaders ready rc objs)")
    case True
    then obtain S where S: "observes (server_at (base_of pod) (servers (base_of pod))) T i S" "serves_from K (base_of pod) S"
      using served by blast
    have "0 < length (calls_of i T)" using c by auto
    with S(1) have "S (take 0 (calls_of i T)) = server_at (base_of pod) (servers (base_of pod)) (map snd (before_call i 0 T))"
      unfolding observes_def by blast
    then have ok: "server_ok (S [])" using assms(7) [OF True] by simp
    obtain reads gone news olds where calls: "processPod K rc (PodPtr a pod) pod [] = (Some (), reads @ map (remove_post (base_of pod)) gone @ [StoreList NamespaceAll]
          @ map (add_post (base_of pod)) news @ map (remove_post (base_of pod)) olds @ [QueueForget PodQueue (PodPtr a pod)])"
        and quiet: "\<forall>c \<in> set reads. \<not> is_post c" and ok: "\<forall>n \<in> set gone \<union> set news \<union> set olds. ascii_node n"
      by (rule leader_job [OF assms(1) K True S(2) ok, of "PodPtr a pod"])
    have "c \<in> set (reads @ map (remove_post (base_of pod)) gone @ [StoreList NamespaceAll]
        @ map (add_post (base_of pod)) news @ map (remove_post (base_of pod)) olds @ [QueueForget PodQueue (PodPtr a pod)])"
      using run c by (simp add: calls)
    then show ?thesis using quiet ok True by (auto simp: job_call_def)
  next
    case False
    have "\<forall>l \<in> set (ready_leaders ready rc objs). \<exists>S. serves_from K (base_of l) S" using served by blast
    from other_job [OF assms(1) K assms(5) False this, of "PodPtr a pod"] run c False ascii show ?thesis
      by (auto simp: job_call_def)
  qed
qed

text \<open>All lists stay well formed: the calls before a reconciliation have kept them so.\<close>

lemma all_job_calls:
  assumes "pod_cluster ready rc objs servers" and "register_execution ready rc objs servers T ws"
    and "\<forall>(K, a, pod) \<in> set ws. pod \<in> set (pods_of objs)"
  shows "T = U @ V \<Longrightarrow> \<forall>(i, c) \<in> set U. job_call ready rc objs (snd (snd (ws ! i))) c"
proof (induction U arbitrary: V rule: rev_induct)
  case (snoc e U)
  obtain i c where e: "e = (i, c)" by (cases e)
  have IH: "\<forall>(i, c) \<in> set U. job_call ready rc objs (snd (snd (ws ! i))) c" by (rule snoc.IH [of "e # V"]) (simp add: snoc.prems)
  have T: "T = U @ (i, c) # V" using snoc.prems e by simp
  then have i: "i < length ws" using assms(2) by (simp add: register_execution_def)
  obtain K a pod where w: "ws ! i = (K, a, pod)" by (cases "ws ! i")
  then have pod: "pod \<in> set (pods_of objs)" using assms(3) nth_mem [OF i] by fastforce
  have "server_ok (server_at (base_of pod) (servers (base_of pod)) (map snd (before_call i 0 T)))"
    if l: "pod \<in> set (ready_leaders ready rc objs)"
  proof -
    have "set (before_call i 0 T) \<subseteq> set U" unfolding T by (rule before_first_call)
    then have "\<forall>c \<in> set (map snd (before_call i 0 T)). proper (base_of pod) c"
      using IH job_call_proper by fastforce
    moreover have "server_ok (servers (base_of pod))" using assms(1) l by (simp add: pod_cluster_def)
    ultimately show ?thesis unfolding server_at_def by (rule proper_ok_all)
  qed
  from job_calls [OF assms(1,2) i w pod _ this] have "job_call ready rc objs pod c" by (simp add: T)
  with IH w show ?case by (simp add: e)
qed simp

section \<open>Properties\<close>

text \<open>What another worker does to the list of a leader is what the leader wants.\<close>

lemma other_calls:
  assumes "pod_cluster ready rc objs servers" and "pod_worker ready objs K" and "leader \<in> set (ready_leaders ready rc objs)"
    and "pod \<in> set (pods_of objs)" and "pod_key pod \<noteq> pod_key leader" and "job_call ready rc objs pod c"
  shows "adds (base_of leader) k c \<Longrightarrow> k \<in> desired_keys K rc leader objs"
    and "drops (base_of leader) k c \<Longrightarrow> k \<notin> desired_keys K rc leader objs"
proof -
  have K: "k_isPodReady K = ready" using assms(2) by (simp add: pod_worker_def)
  have key: "cn_Name (the_node pod) = pod_key pod" using assms(1,4) by (simp add: pod_cluster_def registrable_name)
  have own: "base_of pod \<noteq> base_of leader" if "pod \<in> set (ready_leaders ready rc objs)"
    using assms(1,3,5) that by (auto simp: pod_cluster_def dest: inj_onD)
  have inj: "inj_on pod_key (set (pods_of objs))" using assms(1) by (simp add: pod_cluster_def distinct_map)
  show "k \<in> desired_keys K rc leader objs" if add: "adds (base_of leader) k c"
  proof -
    have "k = pod_key pod \<and> ready pod \<and> IsGroupWorker (rc_setter rc) pod"
      using assms(6) add own no_post adds_post key by (auto simp: job_call_def)
    with assms(4) show ?thesis by (auto simp: desired_keys_def K)
  qed
  assume drop: "drops (base_of leader) k c"
  then have "k = pod_key pod \<and> \<not> ready pod"
    using assms(6) own no_post drops_post key by (auto simp: job_call_def)
  with assms(4,5) inj_onD [OF inj] show "k \<notin> desired_keys K rc leader objs"
    by (auto simp: desired_keys_def K)
qed

lemma lists_settle:
  assumes cluster: "pod_cluster ready rc objs servers" and exec: "register_execution ready rc objs servers T ws"
    and pods: "\<forall>(K, a, pod) \<in> set ws. pod \<in> set (pods_of objs)" and dist: "distinct (map (\<lambda>(K, a, pod). pod_key pod) ws)"
    and i: "i < length ws" "ws ! i = (K, a, leader)" and leader: "leader \<in> set (ready_leaders ready rc objs)"
  shows "fst (processPod K rc (PodPtr a leader) leader []) = Some ()"
    and "names (server_at (base_of leader) (servers (base_of leader)) (map snd T)) = desired_keys K rc leader objs"
    and "server_ok (server_at (base_of leader) (servers (base_of leader)) (map snd T))"
proof -
  let ?b = "base_of leader" and ?D = "desired_keys K rc leader objs"
  have jobs: "job_call ready rc objs (snd (snd (ws ! j))) c" if "(j, c) \<in> set T" for j c
    using all_job_calls [OF cluster exec pods, of T "[]"] that by auto
  then have proper: "\<forall>c \<in> set (map snd T). proper ?b c" using job_call_proper by fastforce
  have start_ok: "server_ok (servers ?b)" using cluster leader by (simp add: pod_cluster_def)
  from proper_ok_all [OF proper this] show "server_ok (server_at ?b (servers ?b) (map snd T))" by (simp add: server_at_def)
  have K: "pod_worker ready objs K" and run: "snd (processPod K rc (PodPtr a leader) leader []) = calls_of i T"
    and served: "\<forall>l \<in> set (ready_leaders ready rc objs).
       \<exists>S. observes (server_at (base_of l) (servers (base_of l))) T i S \<and> serves_from K (base_of l) S"
    using exec i by (auto simp: register_execution_def)
  obtain S where S: "observes (server_at ?b (servers ?b)) T i S" "serves_from K ?b S"
    using bspec [OF served leader] by blast
  have "server_ok (S [])"
  proof -
    obtain T' where T': "calls_of i T' = []" "\<forall>e \<in> set T'. fst e \<noteq> i \<longrightarrow> e \<in> set T" "S [] = server_at ?b (servers ?b) (map snd T')"
      using S(1) unfolding observes_def by blast
    have "(i, c) \<notin> set T'" for c using T'(1) calls_of_set [of c i T'] by simp
    then have "\<forall>c \<in> set (map snd T'). proper ?b c" using T'(2) proper by fastforce
    from proper_ok_all [OF this start_ok] show ?thesis by (simp add: T'(3) server_at_def)
  qed
  then obtain reads gone news olds where job: "processPod K rc (PodPtr a leader) leader [] = (Some (), reads @ map (remove_post ?b) gone @ [StoreList NamespaceAll]
        @ map (add_post ?b) news @ map (remove_post ?b) olds @ [QueueForget PodQueue (PodPtr a leader)])"
      "\<forall>c \<in> set reads. \<not> is_post c" "\<exists>cs. reads = HttpGet (?b @ CLUSTER_LIST) # cs" "\<forall>n \<in> set gone \<union> set news \<union> set olds. ascii_node n"
    and keys: "cn_Name ` set gone = {k \<in> names (S []). \<not> in_store objs k}"
      "cn_Name ` set news = ?D - {k \<in> names (S []). in_store objs k}"
      "cn_Name ` set olds = {k \<in> names (S []). in_store objs k} - ?D"
    by (rule leader_job [OF cluster K leader S(2), of "PodPtr a leader"])
  then show "fst (processPod K rc (PodPtr a leader) leader []) = Some ()" by simp
  from job(3) obtain cs where cs: "reads = HttpGet (?b @ CLUSTER_LIST) # cs" by blast
  let ?rest = "cs @ map (remove_post ?b) gone @ [StoreList NamespaceAll] @ map (add_post ?b) news @ map (remove_post ?b) olds
      @ [QueueForget PodQueue (PodPtr a leader)]"
  have own: "calls_of i T = HttpGet (?b @ CLUSTER_LIST) # ?rest" using run job(1) by (simp add: cs)
  then obtain T1 T2 where T2: "T = T1 @ (i, HttpGet (?b @ CLUSTER_LIST)) # T2" "calls_of i T2 = ?rest" and T1: "before_call i 0 T = T1"
    by (rule first_call_split) blast
  have "S (take 0 (calls_of i T)) = server_at ?b (servers ?b) (map snd (before_call i 0 T))"
    using S(1) own unfolding observes_def by fastforce
  then have seen: "S [] = fold (server_step ?b) (map snd T1) (servers ?b)" by (simp add: server_at_def T1)
  have "names (fold (server_step ?b) (map snd T2) (S [])) = ?D"
  proof (rule goal_reached [OF T2(2) _ job(4) _ keys])
    show "\<forall>c \<in> set cs \<union> set [StoreList NamespaceAll] \<union> set [QueueForget PodQueue (PodPtr a leader)]. \<not> is_post c"
      using job(2) cs by auto
    have "proper ?b c \<and> (\<forall>k. (adds ?b k c \<longrightarrow> k \<in> ?D) \<and> (drops ?b k c \<longrightarrow> k \<notin> ?D))" if e: "(j, c) \<in> set T2" "j \<noteq> i" for j c
    proof -
      have T: "(j, c) \<in> set T" using e(1) by (simp add: T2(1))
      then have j: "j < length ws" using exec by (auto simp: register_execution_def)
      obtain K' a' pod where w: "ws ! j = (K', a', pod)" by (cases "ws ! j")
      have "map (\<lambda>(K, a, pod). pod_key pod) ws ! j \<noteq> map (\<lambda>(K, a, pod). pod_key pod) ws ! i"
        using dist i(1) j e(2) by (subst nth_eq_iff_index_eq) simp_all
      then have "pod_key pod \<noteq> pod_key leader" using i w j by simp
      moreover have "job_call ready rc objs pod c" using jobs [OF T] w by simp
      ultimately show ?thesis
        using other_calls [OF cluster K leader] pods nth_mem [OF j] w job_call_proper by fastforce
    qed
    then show "\<forall>(j, c) \<in> set T2. j \<noteq> i \<longrightarrow> proper ?b c \<and> (\<forall>k. (adds ?b k c \<longrightarrow> k \<in> ?D) \<and> (drops ?b k c \<longrightarrow> k \<notin> ?D))"
      by auto
  qed
  moreover have "server_at ?b (servers ?b) (map snd T) = fold (server_step ?b) (map snd T2) (S [])"
    by (simp add: server_at_def seen T2(1) server_reads)
  ultimately show "names (server_at ?b (servers ?b) (map snd T)) = ?D" by simp
qed

lemma register_workers_settle:
  assumes "pod_cluster ready rc objs servers" and "register_execution ready rc objs servers T ws"
    and "\<forall>(K, a, pod) \<in> set ws. pod \<in> set (pods_of objs)" and "distinct (map (\<lambda>(K, a, pod). pod_key pod) ws)"
  shows "\<forall>(K, a, pod) \<in> set ws. fst (processPod K rc (PodPtr a pod) pod []) = Some ()
     \<and> (ready pod \<and> IsGroupLeader (rc_setter rc) pod \<longrightarrow>
          (let s = server_at (base_of pod) (servers (base_of pod)) (map snd T)
           in cn_Name ` server_nodes s = desired_keys K rc pod objs \<and> server_ok s))"
proof clarify
  fix K a pod assume w: "(K, a, pod) \<in> set ws"
  then obtain i where i: "i < length ws" "ws ! i = (K, a, pod)" by (auto simp: in_set_conv_nth)
  have pod: "pod \<in> set (pods_of objs)" using assms(3) w by auto
  show "fst (processPod K rc (PodPtr a pod) pod []) = Some ()
     \<and> (ready pod \<and> IsGroupLeader (rc_setter rc) pod \<longrightarrow>
          (let s = server_at (base_of pod) (servers (base_of pod)) (map snd T)
           in cn_Name ` server_nodes s = desired_keys K rc pod objs \<and> server_ok s))"
  proof (cases "pod \<in> set (ready_leaders ready rc objs)")
    case True
    from lists_settle [OF assms i True] show ?thesis by (simp add: Let_def)
  next
    case False
    have "pod_worker ready objs K" and "\<forall>l \<in> set (ready_leaders ready rc objs).
        \<exists>S. observes (server_at (base_of l) (servers (base_of l))) T i S \<and> serves_from K (base_of l) S"
      using assms(2) i by (auto simp: register_execution_def)
    then have "pod_worker ready objs K" "\<forall>l \<in> set (ready_leaders ready rc objs). \<exists>S. serves_from K (base_of l) S"
      by blast+
    from other_job [OF assms(1) this(1) pod False this(2), of "PodPtr a pod"] False pod show ?thesis
      by (auto simp: ready_leaders_def)
  qed
qed

text \<open>C9 (safety).  Any number of register workers handle different pods at once, their requests to the
  query servers interleaved in any order: every worker's handler returns without a panic, and when all are
  done the list of every ready leader that was handled holds exactly the leader and the ready followers,
  whatever it held before, without duplicates.\<close>

theorem concurrent_pods_settle:
  assumes "pod_cluster ready rc objs servers" and "register_execution ready rc objs servers T ws"
    and "\<forall>(K, a, pod) \<in> set ws. pod \<in> set (pods_of objs)" and "distinct (map (\<lambda>(K, a, pod). pod_key pod) ws)"
  shows "\<forall>(K, a, pod) \<in> set ws. fst (processPod K rc (PodPtr a pod) pod []) = Some ()
     \<and> (ready pod \<and> IsGroupLeader (rc_setter rc) pod \<longrightarrow>
          (let s = server_at (base_of pod) (servers (base_of pod)) (map snd T)
           in cn_Name ` server_nodes s = desired_keys K rc pod objs \<and> server_ok s))"
  by (rule register_workers_settle [OF assms])

section \<open>A concrete execution\<close>

lemma base_of_leader: "leader_base l b \<Longrightarrow> base_of l = b"
  by (auto simp: leader_base_def base_of_def)

text \<open>
  The leader reads its list, which lacks the follower, then the worker of the follower adds it, then the
  leader goes on with what it has read.
\<close>

lemma mock_ready_leaders: "ready_leaders ref_isPodReady sample_rc mock_objs = [mock_leader]"
  by (simp add: ready_leaders_def mock_objs_def mock_roles mock_keys)

lemma mock_cluster: "server_ok s \<Longrightarrow> pod_cluster ref_isPodReady sample_rc mock_objs (\<lambda>_. s)"
  by (simp add: pod_cluster_def mock_ready_leaders sample_rc_watches base_of_leader [OF mock_base] mock_base mock_label)
     (simp add: mock_objs_def mock_keys mock_registrable mock_label)

lemma pair_execution:
  assumes "pod_cluster ref_isPodReady rc objs (\<lambda>_. s)" and "ready_leaders ref_isPodReady rc objs = [l]" and "base_of l = b"
    and "K1 = query_from b (server_at b s) objs" and "h1 = snd (processPod K1 rc (PodPtr a1 w) w [])"
    and "K0 = query_from b (switch_states (server_at b s) h1) objs" and "h0 = snd (processPod K0 rc (PodPtr a0 l) l [])"
  shows "register_execution ref_isPodReady rc objs (\<lambda>_. s) (switch_schedule h0 h1) [(K0, a0, l), (K1, a1, w)]"
proof -
  have work: "pod_worker ref_isPodReady objs (query_from b S objs)" for S
    by (simp add: pod_worker_def query_from_laws)
  have serve: "serves_from K0 b (switch_states (server_at b s) h1)" "serves_from K1 b (server_at b s)"
    by (simp_all add: assms(4,6) query_from_laws)
  have "server_ok s" using assms(1,2) by (simp add: pod_cluster_def)
  then have "server_ok (switch_states (server_at b s) h1 [])" by (simp add: switch_states_def server_at_def)
  then obtain rest where h0: "h0 = HttpGet (b @ CLUSTER_LIST) # rest"
    using leader_job [OF assms(1), of K0 l "switch_states (server_at b s) h1" "PodPtr a0 l"]
      work serve(1) by (fastforce simp: assms(2,3,6,7))
  have "server_at b s (HttpGet (b @ CLUSTER_LIST) # h) = server_at b s h" for h
    by (simp add: server_at_def server_reads)
  note seen = switch_observed [of h0 "HttpGet (b @ CLUSTER_LIST)" rest "server_at b s" h1, OF h0 this]
  have "\<forall>e \<in> set (switch_schedule h0 h1). fst e < 2" by (auto simp: switch_schedule_def)
  then show ?thesis
    using seen serve work assms(2-7) by (auto simp: register_execution_def less_Suc_eq)
qed

theorem concurrent_pods_settle_witness:
  "\<exists>K0 K1 h0 h1. register_execution ref_isPodReady sample_rc mock_objs (\<lambda>_. mock_server [''p1'', ''old'']) (switch_schedule h0 h1)
       [(K0, 1, mock_leader), (K1, 2, mock_worker)]
     \<and> cn_Name ` server_nodes (server_at ''http://10.0.0.1:8080'' (mock_server [''p1'', ''old'']) (map snd (switch_schedule h0 h1)))
         = {''default/p1'', ''default/p2''}"
proof -
  let ?s = "mock_server [''p1'', ''old'']" and ?b = "''http://10.0.0.1:8080''"
  define K1 where "K1 = query_from ?b (server_at ?b ?s) mock_objs"
  define h1 where "h1 = snd (processPod K1 sample_rc (PodPtr 2 mock_worker) mock_worker [])"
  define K0 where "K0 = query_from ?b (switch_states (server_at ?b ?s) h1) mock_objs"
  define h0 where "h0 = snd (processPod K0 sample_rc (PodPtr 1 mock_leader) mock_leader [])"
  let ?ws = "[(K0, 1, mock_leader), (K1, 2, mock_worker)]"
  have ok: "server_ok ?s" by (simp add: mock_server_ok ascii_def)
  have exec: "register_execution ref_isPodReady sample_rc mock_objs (\<lambda>_. ?s) (switch_schedule h0 h1) ?ws"
    by (rule pair_execution [OF mock_cluster [OF ok] mock_ready_leaders base_of_leader [OF mock_base] K1_def h1_def K0_def h0_def])
  have pods: "\<forall>(K, a, pod) \<in> set ?ws. pod \<in> set (pods_of mock_objs)" by (simp add: mock_objs_def)
  have dist: "distinct (map (\<lambda>(K, a, pod). pod_key pod) ?ws)" by (simp add: mock_keys)
  have "k_isPodReady K0 = ref_isPodReady" by (simp add: K0_def query_from_laws)
  from concurrent_pods_settle [OF mock_cluster [OF ok] exec pods dist] mock_desired [OF this]
  have "cn_Name ` server_nodes (server_at ?b ?s (map snd (switch_schedule h0 h1))) = {''default/p1'', ''default/p2''}"
    by (simp add: mock_keys mock_roles base_of_leader [OF mock_base] Let_def)
  with exec show ?thesis by blast
qed

end
