(* ===== verification/Cluster_Formation.thy ===== *)
theory Cluster_Formation
  imports Fleet Pipeline Interleaved_Register
begin

text \<open>
  The whole way from an operator to the cluster lists, with all workers of both controllers interleaved:
  the operator worker stores the groups, one turn of a group worker for each of them brings up its
  deployments, the cluster runs pods of these deployments, and register workers fill the lists of the
  leaders.
\<close>

section \<open>Templates stay through the turns\<close>

lemma templates_right_zip:
  "templates_right st plan \<longleftrightarrow> (\<forall>x \<in> set (zip (map plan_key plan) (map plan_template plan)).
     case cl_Deployments st (fst x) of None \<Rightarrow> True | Some d \<Rightarrow> ds_Template (dep_Spec d) = snd x)"
  by (simp add: templates_right_def zip_map_map zip_same_conv_map split: option.split)

lemma templates_same:
  assumes "same_group cg cg'" and "group_plan K cg = Some plan" and "group_plan K cg' = Some plan'"
  shows "templates_right st plan' = templates_right st plan" and "map plan_key plan' = map plan_key plan"
  using group_plan_same [OF assms(1,2)] assms(3) by (auto simp: templates_right_zip)

lemma templates_synced:
  assumes "template_law A" and "distinct (map plan_key plan)" and "templates_right st plan"
  shows "templates_right (fold (sync_set K A cg) plan st) plan"
  unfolding templates_right_def using synced_templates [OF assms, of _ K cg] by fastforce

lemma templates_turn:
  assumes "template_law A" and "group_plan K cg = Some plan" and "distinct (map plan_key plan)" and "templates_right st plan"
  shows "templates_right (turn_effect K A cg st) plan"
proof (rule turn_effect_cases [OF assms(2)])
  fix cg1 assume "\<And>A st. turn_effect K A cg st = fold (sync_set K A cg1) plan st"
  then show ?thesis using templates_synced [OF assms(1,3,4)] by simp
next
  assume turn: "\<And>A st. turn_effect K A cg st = fold (sync_set K A cg) plan (check_group A cg st)"
  have "templates_right (check_group A cg st) plan" using assms(4) by (simp add: templates_right_def check_group_others)
  then show ?thesis using templates_synced [OF assms(1,3)] turn by simp
qed

lemma templates_agree:
  assumes "agree (territory cg) st st'" and "group_plan K cg = Some plan"
  shows "templates_right st' plan = templates_right st plan"
proof -
  have "cl_Deployments st' (plan_key p) = cl_Deployments st (plan_key p)" if "p \<in> set plan" for p
    using assms(1) group_plan_set_keys [OF assms(2)] that by (auto simp: agree_def territory_def)
  then show ?thesis by (simp add: templates_right_def)
qed

lemma turns_templates:
  assumes fleet: "fleet K0 st cgs plans" and laws: "controller_ref_laws K0" "admission_law A" and "template_law A"
    and turns: "turns_taken K0 A st cgs st'" and i: "i < length cgs"
    and "distinct (map plan_key (plans ! i))" and "templates_right st (plans ! i)"
  shows "templates_right st' (plans ! i)"
proof -
  obtain Ks T where run: "length Ks = length cgs" "\<forall>K \<in> set Ks. worker_like K0 A K"
    "execution A st T (map (\<lambda>(K, j). (K, run_job j K)) (turn_jobs Ks cgs))" and st': "st' = live_at A st (map snd T)"
    using turns by (auto simp: turns_taken_def)
  have "cgs \<noteq> []" using i by auto
  note own = turns_own(2) [OF fleet laws run(1,2) this run(3) i, folded st']
  have "group_plan K0 (cgs ! i) = Some (plans ! i)"
    using fleet i by (simp add: fleet_def list_all2_conv_all_nth followed_def)
  moreover have "worker_like K0 A (Ks ! i)" using i run(1,2) by simp
  ultimately have K: "group_plan (Ks ! i) (cgs ! i) = Some (plans ! i)" using like_plan laws(1) by metis
  from templates_turn [OF assms(4) K assms(7,8)] templates_agree [OF own K] show ?thesis by simp
qed

section \<open>Pods of groups that are up\<close>

text \<open>Every set of the group has a deployment with the template that was asked for.\<close>

definition deployed :: "k8s \<Rightarrow> cluster_store \<Rightarrow> DatafuseComputeGroup \<Rightarrow> bool" where
  "deployed K st cg \<longleftrightarrow> (case group_plan K cg of None \<Rightarrow> False | Some plan \<Rightarrow>
     \<forall>p \<in> set plan. case cl_Deployments st (plan_key p) of None \<Rightarrow> False | Some d \<Rightarrow> ds_Template (dep_Spec d) = plan_template p)"

lemma running_deployed:
  assumes "running K st cg" and "group_plan K cg = Some plan" and "templates_right st plan"
  shows "deployed K st cg"
  using assms by (fastforce simp: running_def deployed_def templates_right_def split: option.splits)

text \<open>The pod runs for a set of the group, the leaders (\<open>l\<close>) or a worker set.\<close>

definition pod_role :: "k8s \<Rightarrow> cluster_store \<Rightarrow> DatafuseComputeGroup \<Rightarrow> bool \<Rightarrow> Pod \<Rightarrow> bool" where
  "pod_role K st cg l pod \<longleftrightarrow> (case group_plan K cg of None \<Rightarrow> False | Some plan \<Rightarrow>
     \<exists>p \<in> set plan. snd (snd p) = l \<and> runs_for st pod p)"

lemma pod_role_facts:
  assumes "deployed K st cg" and "pod_role K st cg l pod"
  shows "IsGroupLeader r pod = l" and "IsGroupWorker r pod = (\<not> l)" and "map_get (om_Labels (pod_Meta pod)) ComputeGroupLabel \<noteq> None"
    and "addressed pod \<Longrightarrow> registrable pod" and "addressed pod \<Longrightarrow> leader_base pod (base_of pod)"
proof -
  obtain plan p where p: "group_plan K cg = Some plan" "p \<in> set plan" "snd (snd p) = l" "runs_for st pod p"
    using assms(2) by (auto simp: pod_role_def split: option.splits)
  obtain name where w: "desired_deployment K cg (fst p) name l = Some (fst (snd p))"
    using group_plan_desired [OF p(1,2)] p(3) by blast
  obtain d where d: "cl_Deployments st (plan_key p) = Some d" "ds_Template (dep_Spec d) = plan_template p" "pod_of d pod"
    using assms(1) p by (force simp: deployed_def runs_for_def split: option.splits)
  note facts = pod_of_desired [OF w d(2,3)]
  show "IsGroupLeader r pod = l" and "IsGroupWorker r pod = (\<not> l)" by (rule facts)+
  show "map_get (om_Labels (pod_Meta pod)) ComputeGroupLabel \<noteq> None" using facts(3) by simp
  show "addressed pod \<Longrightarrow> registrable pod" by (rule facts(4))
  have "convertInstanceSpecToPodSpec K (cs_Instance (fst p)) = Some (pod_Spec pod)"
    using desired_deployment_spec [OF w] d(2,3) by (simp add: pod_of_def)
  then obtain http where "ci_HTTPPort (cs_Instance (fst p)) = Some http" by (rule BuildPodConfig_deployed) (rule that)
  then show "leader_base pod (base_of pod)" if "addressed pod" using facts(6) [OF that] base_of_leader by metis
qed

text \<open>
  The pods of the register controller's store run for the groups and have addresses, or are foreign: pods
  for none of the groups that carry the label of some group and can be registered.  The pods have names of
  their own, and the ready leaders have servers of their own.
\<close>

definition foreign :: "(DatafuseComputeGroup \<Rightarrow> bool \<Rightarrow> Pod \<Rightarrow> bool) \<Rightarrow> DatafuseComputeGroup list \<Rightarrow> Pod \<Rightarrow> bool" where
  "foreign role cgs pod \<longleftrightarrow> (\<forall>cg \<in> set cgs. \<forall>l. \<not> role cg l pod)"

definition pods_run :: "(DatafuseComputeGroup \<Rightarrow> bool \<Rightarrow> Pod \<Rightarrow> bool) \<Rightarrow> DatafuseComputeGroup list \<Rightarrow> (Pod \<Rightarrow> bool) \<Rightarrow> RegisterController
    \<Rightarrow> go_obj list \<Rightarrow> (string \<Rightarrow> query_server) \<Rightarrow> bool" where
  "pods_run role cgs ready rc objs servers \<longleftrightarrow> watches_all rc \<and> distinct (map pod_key (pods_of objs))
     \<and> (\<forall>pod \<in> set (pods_of objs). if foreign role cgs pod
          then registrable pod \<and> map_get (om_Labels (pod_Meta pod)) ComputeGroupLabel \<noteq> None \<and> leader_base pod (base_of pod)
          else addressed pod)
     \<and> (\<forall>pod \<in> set (ready_leaders ready rc objs). server_ok (servers (base_of pod)))
     \<and> inj_on base_of (set (ready_leaders ready rc objs))"

lemma pods_run_cluster:
  assumes "pods_run (pod_role K st) cgs ready rc objs servers" and "\<forall>cg \<in> set cgs. deployed K st cg"
  shows "pod_cluster ready rc objs servers"
proof -
  have "registrable pod \<and> map_get (om_Labels (pod_Meta pod)) ComputeGroupLabel \<noteq> None \<and> leader_base pod (base_of pod)"
    if pod: "pod \<in> set (pods_of objs)" for pod
  proof (cases "foreign (pod_role K st) cgs pod")
    case False
    then obtain cg l where "cg \<in> set cgs" "pod_role K st cg l pod" by (auto simp: foreign_def)
    moreover have "addressed pod" using assms(1) pod False by (auto simp: pods_run_def)
    ultimately show ?thesis using assms(2) pod_role_facts(3-5) by blast
  qed (use assms(1) pod in \<open>auto simp: pods_run_def\<close>)
  moreover have "set (ready_leaders ready rc objs) \<subseteq> set (pods_of objs)" by (auto simp: ready_leaders_def)
  ultimately show ?thesis using assms(1) by (auto simp: pod_cluster_def pods_run_def)
qed

text \<open>The pods that a leader's list should have, by the groups they run for.\<close>

definition listed_worker :: "(DatafuseComputeGroup \<Rightarrow> bool \<Rightarrow> Pod \<Rightarrow> bool) \<Rightarrow> DatafuseComputeGroup list \<Rightarrow> RegisterController \<Rightarrow> Pod \<Rightarrow> bool" where
  "listed_worker role cgs rc pod \<longleftrightarrow> (\<exists>cg \<in> set cgs. role cg False pod) \<or> foreign role cgs pod \<and> IsGroupWorker (rc_setter rc) pod"

lemma listed_worker_role:
  assumes "\<forall>cg \<in> set cgs. deployed K st cg"
  shows "IsGroupWorker (rc_setter rc) pod \<longleftrightarrow> listed_worker (pod_role K st) cgs rc pod"
proof (cases "foreign (pod_role K st) cgs pod")
  case False
  then obtain cg l where "cg \<in> set cgs" "pod_role K st cg l pod" by (auto simp: foreign_def)
  with assms False pod_role_facts(2) show ?thesis unfolding listed_worker_def by metis
qed (auto simp: listed_worker_def foreign_def)

lemma pods_run_desired:
  assumes "\<forall>cg \<in> set cgs. deployed K st cg" and "k_isPodReady R = ready"
  shows "desired_keys R rc leader objs = insert (pod_key leader)
    (pod_key ` {pod \<in> set (pods_of objs). ready pod \<and> listed_worker (pod_role K st) cgs rc pod})"
  by (simp add: desired_keys_def assms(2) listed_worker_role [OF assms(1)])

section \<open>The names of the sets of a specification\<close>

definition spec_names :: "DatafuseComputeGroupSpec \<Rightarrow> string list" where
  "spec_names spec = (let cg = zero_Group\<lparr>cg_Meta := zero_ObjectMeta\<lparr>om_Name := gs_Name spec, om_Namespace := gs_Namespace spec\<rparr>\<rparr>
     in case (gs_ComputeLeaders spec, those (elems (gs_ComputeWorkers spec))) of
          (Some ls, Some ws) \<Rightarrow> set_name ls (leader_name cg) # map snd (worker_sets cg 0 ws) | _ \<Rightarrow> [])"

lemma worker_sets_names: "om_Name (cg_Meta cg) = om_Name (cg_Meta cg') \<Longrightarrow> worker_sets cg i ws = worker_sets cg' i ws"
  by (induction ws arbitrary: i) (simp_all add: worker_name_def)

lemma spec_names_plan:
  assumes "group_plan K cg = Some plan" and "group_key cg = spec_key spec" and "cg_Spec cg = spec" and "distinct (spec_names spec)"
  shows "distinct (map plan_key plan)"
proof -
  obtain ls ws where sets: "gs_ComputeLeaders (cg_Spec cg) = Some ls" "elems (gs_ComputeWorkers (cg_Spec cg)) = map Some ws"
    using assms(1) by (rule group_planE)
  let ?cg = "zero_Group\<lparr>cg_Meta := zero_ObjectMeta\<lparr>om_Name := gs_Name spec, om_Namespace := gs_Namespace spec\<rparr>\<rparr>"
  have name: "om_Name (cg_Meta cg) = om_Name (cg_Meta ?cg)" using assms(2) by (simp add: group_key_def spec_key_def)
  have "those (map Some ws) = Some ws" by (induction ws) auto
  then have "map snd (map plan_key plan) = spec_names spec"
    using sets assms(3) group_plan_keys [OF assms(1) sets] worker_sets_names [OF name] name
    by (simp add: spec_names_def Let_def leader_name_def comp_def case_prod_beta)
  with assms(4) have "distinct (map snd (map plan_key plan))" by simp
  then show ?thesis unfolding distinct_map by blast
qed

section \<open>Properties\<close>

lemma groups_deployed:
  assumes laws: "controller_ref_laws K" "admission_law A" "template_law A"
    and fleet: "fleet K st1 (map (stored_group st1) specs) plans"
    and made: "\<And>spec. spec \<in> set specs \<Longrightarrow> cg_Spec (stored_group st1 spec) = spec
      \<and> group_key (stored_group st1 spec) = spec_key spec \<and> never_ready (stored_group st1 spec)
      \<and> (\<forall>name. cl_Deployments st1 (gs_Namespace spec, name) = None)"
    and names: "\<forall>spec \<in> set specs. distinct (spec_names spec)"
    and turns: "turns_taken K A st1 (map (stored_group st1) specs) st'"
    and spec: "spec \<in> set specs"
  shows "deployed K st' (stored_group st' spec)"
proof -
  obtain cg where cg: "cl_Groups st' (spec_key spec) = Some cg" "same_group (stored_group st1 spec) cg" "running K st' cg"
    using stored_turned [OF laws(1,2) fleet _ turns spec] made by blast
  then have stored: "stored_group st' spec = cg" by (simp add: stored_group_def)
  obtain i where i: "i < length specs" "spec = specs ! i" using spec by (auto simp: in_set_conv_nth)
  have plan: "group_plan K (stored_group st1 (specs ! j)) = Some (plans ! j)" if "j < length specs" for j
    using that fleet by (simp add: fleet_def list_all2_conv_all_nth followed_def)
  have start: "distinct (map plan_key (plans ! j)) \<and> templates_right st1 (plans ! j)" if j: "j < length specs" for j
  proof
    note m = made [OF nth_mem [OF j]]
    show "distinct (map plan_key (plans ! j))"
      using spec_names_plan [OF plan [OF j]] m names nth_mem [OF j] by blast
    have "om_Namespace (cg_Meta (stored_group st1 (specs ! j))) = gs_Namespace (specs ! j)"
      using m by (simp add: group_key_def spec_key_def)
    then have "fst (plan_key p) = gs_Namespace (specs ! j)" if "p \<in> set (plans ! j)" for p
      using group_plan_desired [OF plan [OF j] that] desired_deployment_meta(2) by (fastforce simp: plan_key_def)
    then have "cl_Deployments st1 (plan_key p) = None" if "p \<in> set (plans ! j)" for p
      using m that by (cases "plan_key p") fastforce
    then show "templates_right st1 (plans ! j)" by (simp add: templates_right_def)
  qed
  have "templates_right st' (plans ! i)"
    using turns_templates [OF fleet laws turns, of i] start [OF i(1)] i(1) by simp
  moreover obtain plan' where plan': "group_plan K cg = Some plan'" using cg(3) by (auto simp: running_def split: option.splits)
  ultimately have "templates_right st' plan'"
    using templates_same(1) [OF cg(2) _ plan'] plan [OF i(1)] i(2) by simp
  with running_deployed [OF cg(3) plan'] show ?thesis by (simp add: stored)
qed

text \<open>C7 (liveness).  From an operator to query clusters, with everything interleaved, within one run: the
  operator's synchronisation succeeds; the groups that it stored are taken once each, by interleaved
  group workers; and when the store of the register controller then holds pods of the groups'
  deployments, beside any foreign pods that can be registered, any number of interleaved register workers
  return, and the list of every ready leader of these groups that was handled holds exactly the leader,
  the ready pods of the operator's worker sets and the ready foreign workers.  As the code has it, these
  are the workers of all groups, not only of the leader's own.\<close>

theorem operator_becomes_clusters:
  assumes "live K A st0" and "controller_ref_laws K" and "not_found_law K" and "admission_law A" and "fresh_status_law A"
    and "store_ok (live_at A st0 h)" and "operator_specs op = Some specs" and "distinct (map spec_key specs)"
    and "\<forall>spec \<in> set specs. good_namespace spec \<and> complete_spec K spec \<and> cl_Groups (live_at A st0 h) (spec_key spec) = None
      \<and> (\<forall>name. cl_Deployments (live_at A st0 h) (gs_Namespace spec, name) = None)"
    and "\<forall>i < length specs. \<forall>j < length specs. i \<noteq> j \<longrightarrow> spec_sets (specs ! i) \<inter> spec_sets (specs ! j) = {}"
    and "template_law A" and "\<forall>spec \<in> set specs. distinct (spec_names spec)"
    and h1: "h1 = snd (processNewOperator K (typed_controller K) op h)"
    and turns: "turns_taken K A (live_at A st0 h1) (map (stored_group (live_at A st0 h1)) specs) st'"
    and pods: "pods_run (pod_role K st') (map (stored_group st') specs) ready rc objs servers"
    and exec: "register_execution ready rc objs servers T ws" "\<forall>(R, a, pod) \<in> set ws. pod \<in> set (pods_of objs)"
      "distinct (map (\<lambda>(R, a, pod). pod_key pod) ws)"
  shows "fst (processNewOperator K (typed_controller K) op h) = Some None
    \<and> (\<forall>(R, a, pod) \<in> set ws. fst (processPod R rc (PodPtr a pod) pod []) = Some ()
       \<and> (ready pod \<and> (\<exists>spec \<in> set specs. pod_role K st' (stored_group st' spec) True pod) \<longrightarrow>
            cn_Name ` server_nodes (server_at (base_of pod) (servers (base_of pod)) (map snd T)) =
              insert (pod_key pod) (pod_key ` {q \<in> set (pods_of objs). ready q
                \<and> listed_worker (pod_role K st') (map (stored_group st') specs) rc q})))"
proof (rule operator_fleet [OF assms(1-10)])
  fix h2 plans
  let ?st1 = "live_at A st0 h2" and ?cgs = "map (stored_group st') specs"
  assume h2: "processNewOperator K (typed_controller K) op h = (Some None, h2)"
    and made: "\<And>spec. spec \<in> set specs \<Longrightarrow> cg_Spec (stored_group ?st1 spec) = spec
      \<and> k_isControlledBy K (cg_Meta (stored_group ?st1 spec)) (op_Meta (defaulted op))
      \<and> group_key (stored_group ?st1 spec) = spec_key spec \<and> never_ready (stored_group ?st1 spec)
      \<and> (\<forall>name. cl_Deployments ?st1 (gs_Namespace spec, name) = None)"
    and fleet: "fleet K ?st1 (map (stored_group ?st1) specs) plans"
      "\<forall>i < length specs. length (plans ! i) = Suc (length (elems (gs_ComputeWorkers (specs ! i))))"
  have t: "turns_taken K A ?st1 (map (stored_group ?st1) specs) st'" using turns h1 h2 by simp
  have up: "\<forall>cg \<in> set ?cgs. deployed K st' cg"
    using groups_deployed [OF assms(2,4,11) fleet(1) _ assms(12) t] made by simp
  note settle = register_workers_settle [OF pods_run_cluster [OF pods up] exec]
  have handled: "fst (processPod R rc (PodPtr a pod) pod []) = Some ()
      \<and> (ready pod \<and> (\<exists>spec \<in> set specs. pod_role K st' (stored_group st' spec) True pod) \<longrightarrow>
           cn_Name ` server_nodes (server_at (base_of pod) (servers (base_of pod)) (map snd T)) =
             insert (pod_key pod) (pod_key ` {q \<in> set (pods_of objs). ready q
               \<and> listed_worker (pod_role K st') ?cgs rc q}))"
    if w: "(R, a, pod) \<in> set ws" for R a pod
  proof -
    have pod: "pod \<in> set (pods_of objs)" using exec(2) w by auto
    obtain i where "i < length ws" "ws ! i = (R, a, pod)" using w by (auto simp: in_set_conv_nth)
    then have R: "k_isPodReady R = ready" using exec(1) by (auto simp: register_execution_def pod_worker_def)
    have "IsGroupLeader (rc_setter rc) pod" if "\<exists>spec \<in> set specs. pod_role K st' (stored_group st' spec) True pod"
      using that up pod_role_facts(1) by auto
    with bspec [OF settle w] pods_run_desired [OF up R] show ?thesis by (simp add: Let_def)
  qed
  show ?thesis unfolding h2
  proof (intro conjI ballI)
    fix w assume w: "w \<in> set ws"
    obtain R a pod where x: "w = (R, a, pod)" by (cases w)
    show "case w of (R, a, pod) \<Rightarrow> fst (processPod R rc (PodPtr a pod) pod []) = Some ()
      \<and> (ready pod \<and> (\<exists>spec \<in> set specs. pod_role K st' (stored_group st' spec) True pod) \<longrightarrow>
           cn_Name ` server_nodes (server_at (base_of pod) (servers (base_of pod)) (map snd T)) =
             insert (pod_key pod) (pod_key ` {q \<in> set (pods_of objs). ready q
               \<and> listed_worker (pod_role K st') ?cgs rc q}))"
      unfolding x prod.case by (rule handled [OF w [unfolded x]])
  qed simp
qed

section \<open>The property at a concrete input\<close>

lemma template_pod_role:
  assumes "deployed K st cg" and "group_plan K cg = Some plan" and "p \<in> set plan"
  shows "pod_role K st cg (snd (snd p)) (template_pod name ip p)"
proof -
  obtain d where "cl_Deployments st (plan_key p) = Some d" "ds_Template (dep_Spec d) = plan_template p"
    using assms by (auto simp: deployed_def split: option.splits)
  then have "runs_for st (template_pod name ip p) p" by (simp add: runs_for_def pod_of_def template_pod_def)
  with assms(2,3) show ?thesis by (auto simp: pod_role_def)
qed

lemma template_pod_addressed: "ascii name \<Longrightarrow> addressed (template_pod name (CHR ''1'' # ip) p) \<longleftrightarrow> ascii (CHR ''1'' # ip)"
  by (simp add: addressed_def template_pod_fields)

lemma filter_second: "set xs = {a, b} \<Longrightarrow> \<not> Q a \<Longrightarrow> Q b \<Longrightarrow> {q \<in> set xs. Q q} = {b}"
  by auto

text \<open>An operator of two groups; a leader of the first and a follower of the second are handled at the same time.\<close>

theorem operator_becomes_clusters_witness:
  "\<exists>h1 st' leader follower K0 K1 T. processNewOperator (live_k8s empty_store) (typed_controller (live_k8s empty_store)) two_group_operator [] = (Some None, h1)
     \<and> turns_taken (live_k8s empty_store) plain_server (live_at plain_server empty_store h1)
         (map (stored_group (live_at plain_server empty_store h1)) [sample_group_spec, second_spec]) st'
     \<and> register_execution ref_isPodReady sample_rc [PodPtr 1 leader, PodPtr 2 follower] (\<lambda>_. mock_server [''old'']) T
         [(K0, 1, leader), (K1, 2, follower)]
     \<and> cn_Name ` server_nodes (server_at (base_of leader) (mock_server [''old'']) (map snd T)) = {''default/l1'', ''default/w1''}"
proof (rule operator_fleet [OF live_k8s_laws plain_admission plain_fresh two_group_start(1) two_group_specs(1) two_group_start(2-4)])
  let ?K = "live_k8s empty_store" and ?specs = "[sample_group_spec, second_spec]"
  fix h1 plans
  let ?st1 = "live_at plain_server empty_store h1"
  assume h1: "processNewOperator ?K (typed_controller ?K) two_group_operator [] = (Some None, h1)"
    and made: "\<And>spec. spec \<in> set ?specs \<Longrightarrow> cg_Spec (stored_group ?st1 spec) = spec
      \<and> k_isControlledBy ?K (cg_Meta (stored_group ?st1 spec)) (op_Meta (defaulted two_group_operator))
      \<and> group_key (stored_group ?st1 spec) = spec_key spec \<and> never_ready (stored_group ?st1 spec)
      \<and> (\<forall>name. cl_Deployments ?st1 (gs_Namespace spec, name) = None)"
    and fleet: "fleet ?K ?st1 (map (stored_group ?st1) ?specs) plans"
      "\<forall>i < length ?specs. length (plans ! i) = Suc (length (elems (gs_ComputeWorkers (?specs ! i))))"
  obtain st' where st': "turns_taken ?K plain_server ?st1 (map (stored_group ?st1) ?specs) st'"
    using turns_exist unfolding live_k8s_def by blast
  have names: "\<forall>spec \<in> set ?specs. distinct (spec_names spec)"
    by (simp add: spec_names_def second_spec_def sample_group_spec_def sample_set_def sample_instance_def set_name_def leader_name_def
        worker_name_def sample_decimals)
  have up: "deployed ?K st' (stored_group st' spec)" if "spec \<in> set ?specs" for spec
    using groups_deployed [OF live_k8s_laws(2) plain_admission plain_template_law fleet(1) _ names st' that] made by blast
  obtain plan1 where plan1: "group_plan ?K (stored_group st' sample_group_spec) = Some plan1"
    using up [of sample_group_spec] by (auto simp: deployed_def split: option.splits)
  obtain plan2 where plan2: "group_plan ?K (stored_group st' second_spec) = Some plan2"
    using up [of second_spec] by (auto simp: deployed_def split: option.splits)
  obtain cg where "cl_Groups st' (spec_key second_spec) = Some cg" "same_group (stored_group ?st1 second_spec) cg"
    using stored_turned [OF live_k8s_laws(2) plain_admission fleet(1) _ st', of second_spec] made by auto
  then have spec2: "cg_Spec (stored_group st' second_spec) = second_spec"
    using made [of second_spec] by (simp add: stored_group_def [of st'] same_group_def)
  obtain p where p: "p \<in> set plan1" "snd (snd p)" using group_plan_flags [OF plan1] by (cases plan1) auto
  have "map fst plan2 = [sample_set, sample_set, sample_set]"
    using group_plan_sets [OF plan2, of sample_set "[sample_set, sample_set]"] spec2 by (simp add: second_spec_def sample_group_spec_def)
  then have q: "hd (tl plan2) \<in> set plan2" "\<not> snd (snd (hd (tl plan2)))" using group_plan_flags [OF plan2] by auto
  define leader follower where "leader = template_pod ''l1'' ''10.0.0.1'' p" and "follower = template_pod ''w1'' ''10.0.0.2'' (hd (tl plan2))"
  let ?objs = "[PodPtr 1 leader, PodPtr 2 follower]" and ?cgs = "map (stored_group st') ?specs" and ?s = "mock_server [''old'']"
  have role: "pod_role ?K st' (stored_group st' sample_group_spec) True leader" "pod_role ?K st' (stored_group st' second_spec) False follower"
    using template_pod_role [OF up plan1 p(1)] template_pod_role [OF up plan2 q(1)] p(2) q(2) by (simp_all add: leader_def follower_def)
  have fields: "pod_key leader = ''default/l1''" "pod_key follower = ''default/w1''" "ref_isPodReady leader" "ref_isPodReady follower"
    "addressed leader" "addressed follower"
    by (simp_all add: leader_def follower_def template_pod_fields template_pod_addressed ascii_def)
  have leads: "IsGroupLeader r leader" "\<not> IsGroupLeader r follower" for r
    using pod_role_facts(1) [OF up role(1)] pod_role_facts(1) [OF up role(2)] by simp_all
  have ready: "ready_leaders ref_isPodReady sample_rc ?objs = [leader]"
    by (simp add: ready_leaders_def fields leads)
  have ok: "server_ok ?s" by (simp add: mock_server_ok ascii_def)
  have near: "\<not> foreign (pod_role ?K st') ?cgs leader" "\<not> foreign (pod_role ?K st') ?cgs follower"
    using role by (auto simp: foreign_def)
  have run: "pods_run (pod_role ?K st') ?cgs ref_isPodReady sample_rc ?objs (\<lambda>_. ?s)"
    unfolding pods_run_def ready using near ok by (simp add: sample_rc_watches fields)
  have cluster: "pod_cluster ref_isPodReady sample_rc ?objs (\<lambda>_. ?s)"
    by (rule pods_run_cluster [OF run]) (use up in simp)
  define K1 where "K1 = query_from (base_of leader) (server_at (base_of leader) ?s) ?objs"
  define c1 where "c1 = snd (processPod K1 sample_rc (PodPtr 2 follower) follower [])"
  define K0 where "K0 = query_from (base_of leader) (switch_states (server_at (base_of leader) ?s) c1) ?objs"
  define c0 where "c0 = snd (processPod K0 sample_rc (PodPtr 1 leader) leader [])"
  let ?ws = "[(K0, 1, leader), (K1, 2, follower)]" and ?T = "switch_schedule c0 c1"
  have exec: "register_execution ref_isPodReady sample_rc ?objs (\<lambda>_. ?s) ?T ?ws"
    by (rule pair_execution [OF cluster ready refl K1_def c1_def K0_def c0_def])
  have ws: "\<forall>(R, a, pod) \<in> set ?ws. pod \<in> set (pods_of ?objs)" "distinct (map (\<lambda>(R, a, pod). pod_key pod) ?ws)"
    by (simp_all add: fields)
  have h1': "h1 = snd (processNewOperator ?K (typed_controller ?K) two_group_operator [])" using h1 by simp
  have "\<not> pod_role ?K st' cg False leader" if "cg \<in> set ?cgs" for cg
    using pod_role_facts(1) [of ?K st' cg False leader] up leads that by auto
  then have other: "\<not> listed_worker (pod_role ?K st') ?cgs sample_rc leader" using near(1) by (auto simp: listed_worker_def)
  have lead: "ref_isPodReady leader \<and> (\<exists>spec \<in> set ?specs. pod_role ?K st' (stored_group st' spec) True leader)"
    "listed_worker (pod_role ?K st') ?cgs sample_rc follower"
    using role fields(3) by (simp_all add: listed_worker_def)
  have first: "(K0, 1, leader) \<in> set ?ws" by simp
  note settled = operator_becomes_clusters [OF live_k8s_laws plain_admission plain_fresh two_group_start(1) two_group_specs(1) two_group_start(2-4)
      plain_template_law names h1' st' run exec ws, THEN conjunct2]
  have "cn_Name ` server_nodes (server_at (base_of leader) ?s (map snd ?T)) = insert (pod_key leader) (pod_key ` {q \<in> set (pods_of ?objs).
      ref_isPodReady q \<and> listed_worker (pod_role ?K st') ?cgs sample_rc q})"
    by (rule bspec [OF settled first, unfolded prod.case, THEN conjunct2, THEN mp, OF lead(1)])
  also have "{q \<in> set (pods_of ?objs). ref_isPodReady q \<and> listed_worker (pod_role ?K st') ?cgs sample_rc q} = {follower}"
    by (rule filter_second [of _ leader]) (use other lead(2) fields(4) in \<open>simp_all del: list.set\<close>, simp)
  finally have "cn_Name ` server_nodes (server_at (base_of leader) ?s (map snd ?T)) = {''default/l1'', ''default/w1''}"
    by (simp add: fields)
  note final = this
  show ?thesis by (intro exI conjI) (rule h1, rule st', rule exec, rule final)
qed

end
