(* ===== verification/Well_Formed.thy ===== *)
theory Well_Formed
  imports Operator_Controller
begin

text \<open>
  The type of the custom resources beyond what the Go types say: a status is a map from keys to one
  of the states that \<^verbatim>\<open>datafusecomputeinstance_types.go\<close> and its neighbours declare, without
  duplicate keys, and the state of the resource is a declared one or not set.  The theory shows that
  the operator controller keeps this type: from well-formed objects it only ever writes well-formed
  objects, whatever the cluster answers.
\<close>

section \<open>Well-formed resources\<close>

definition instance_states :: "ComputeInstanceState set" where
  "instance_states = {ComputeInstanceReadyState, ComputeInstanceLivenessState, ComputeInstancePendingState}"

definition group_states :: "ComputeGroupState set" where
  "group_states = {ComputeGroupCreated, ComputeGroupPending, ComputeGroupDeployed}"

definition operator_states :: "OperatorState set" where
  "operator_states = {OperatorCreated, OperatorPending, OperatorReady}"

definition wf_states :: "string set \<Rightarrow> string gomap \<Rightarrow> bool" where
  "wf_states S m \<longleftrightarrow> wf_map m \<and> (\<forall>k v. map_get m k = Some v \<longrightarrow> v \<in> S)"

definition wf_group_status :: "DatafuseComputeGroupStatus \<Rightarrow> bool" where
  "wf_group_status st \<longleftrightarrow> wf_states instance_states (gst_ReadyComputeLeaders st)
     \<and> wf_states instance_states (gst_ReadyComputeWorkers st) \<and> gst_Status st \<in> insert '''' group_states"

definition wf_operator_status :: "DatafuseOperatorStatus \<Rightarrow> bool" where
  "wf_operator_status st \<longleftrightarrow> wf_states group_states (ost_ComputeGroupStates st)
     \<and> ost_Status st \<in> insert '''' operator_states"

definition well_formed_write :: "call \<Rightarrow> bool" where
  "well_formed_write e = (case e of
     Rest rq \<Rightarrow> (case rq_Body rq of
         GroupBody g \<Rightarrow> wf_group_status (cg_Status g)
       | OperatorBody op \<Rightarrow> wf_operator_status (op_Status op)
       | _ \<Rightarrow> True)
   | _ \<Rightarrow> True)"

lemma well_formed_write_simps [simp]:
  "well_formed_write (group_update_call ns g opts) = wf_group_status (cg_Status g)"
  "well_formed_write (group_create_call ns g opts) = wf_group_status (cg_Status g)"
  "well_formed_write (operator_update_call ns op opts) = wf_operator_status (op_Status op)"
  "well_formed_write (ListerGetDeployment ns name)" "well_formed_write (RecordEvent m ty reason msg)"
  "well_formed_write (IndexerGetByKey i key)" "well_formed_write (QueueGet q)" "well_formed_write (QueueDone q x)"
  "well_formed_write (QueueForget q x)" "well_formed_write (QueueNumRequeues q x)" "well_formed_write (QueueAddRateLimited q x)"
  "well_formed_write (HandleError e)"
  by (simp_all add: well_formed_write_def group_update_call_def group_create_call_def operator_update_call_def)

section \<open>The operations on a status keep it well formed\<close>

lemma wf_states_nil [simp, intro]: "wf_states S None" "wf_states S (Some [])"
  by (simp_all add: wf_states_def)

lemma wf_states_put [simp, intro]: "wf_states S m \<Longrightarrow> v \<in> S \<Longrightarrow> wf_states S (map_put k v m)"
  by (simp add: wf_states_def)

lemma wf_states_del [simp, intro]: "wf_states S m \<Longrightarrow> wf_states S (map_del k m)"
  by (simp add: wf_states_def)

lemma declared_states [simp]: "ComputeInstanceReadyState \<in> instance_states" "ComputeGroupDeployed \<in> group_states"
  "ComputeGroupPending \<in> group_states" "ComputeGroupCreated \<in> group_states" "OperatorReady \<in> operator_states"
  "OperatorCreated \<in> operator_states"
  by (simp_all add: instance_states_def group_states_def operator_states_def)

lemma wf_group_status_copy: "wf_group_status st \<Longrightarrow> wf_group_status (group_status_copy st key l)"
  by (auto simp: wf_group_status_def group_status_copy_def Let_def)

lemma wf_status_write: "wf_group_status (cg_Status cg) \<Longrightarrow> wf_group_status (cg_Status (status_write cg key l))"
  by (simp add: status_write_def wf_group_status_copy)

lemma wf_drop: "wf_group_status st \<Longrightarrow> wf_group_status (dropLeader key (st\<lparr>gst_Status := ComputeGroupPending\<rparr>))"
  "wf_group_status st \<Longrightarrow> wf_group_status (dropWorker key (st\<lparr>gst_Status := ComputeGroupPending\<rparr>))"
  by (simp_all add: wf_group_status_def dropLeader_def dropWorker_def)

lemma checkReady_wf:
  assumes "\<And>key st. wf_group_status st \<Longrightarrow> wf_group_status (remove key (st\<lparr>gst_Status := ComputeGroupPending\<rparr>))"
    and "wf_group_status st" and "checkReady K remove ks st h = (Some st', h')"
  shows "wf_group_status st'"
  using assms(2,3)
  by (induction ks arbitrary: st h)
    (auto simp: io_simps intro: assms(1) split: list.splits prod.splits option.splits sum.splits if_splits)

lemma wf_IsComputeGroupCreated:
  "wf_group_status (cg_Status cg) \<Longrightarrow> wf_group_status (cg_Status (snd (IsComputeGroupCreated cg)))"
  by (auto simp: IsComputeGroupCreated_def wf_group_status_def Let_def)

lemma wf_operator_default:
  "SetDatafuseOperatorDefault (Some op) = Some op' \<Longrightarrow> wf_operator_status (op_Status op) \<Longrightarrow> wf_operator_status (op_Status op')"
proof -
  have same: "op_Status (default_operator_groups (default_operator_name (default_operator_namespace op))) = op_Status op" for op
    by (simp add: default_operator_defs)
  have "wf_operator_status (op_Status op) \<Longrightarrow> wf_operator_status (op_Status (default_operator_status op))" for op
    by (auto simp: default_operator_status_def wf_operator_status_def)
  then show "SetDatafuseOperatorDefault (Some op) = Some op' \<Longrightarrow> wf_operator_status (op_Status op)
      \<Longrightarrow> wf_operator_status (op_Status op')"
    by (auto simp: SetDatafuseOperatorDefault_def same)
qed

lemma wf_IsOperatorCreated:
  "wf_operator_status (op_Status op) \<Longrightarrow> wf_operator_status (op_Status (snd (IsOperatorCreated op)))"
  by (auto simp: IsOperatorCreated_def wf_operator_status_def Let_def)

lemma wf_made_group:
  assumes "MakeComputeGroup K op spec = Some g0" and "SetDatafuseComputeGroupDefaults K (Some op) (Some g0) = Some g"
  shows "wf_group_status (cg_Status g)"
proof -
  have keep: "cg_Status g' = cg_Status g" if "SetDatafuseComputeGroupDefaults K (Some op) (Some g) = Some g'" for g g'
    using that by (clarsimp simp: SetDatafuseComputeGroupDefaults_def Let_def)
  have "cg_Status g0 = zero_GroupStatus"
    using assms(1) keep by (auto simp: MakeComputeGroup_def Let_def zero_Group_def Option.bind_eq_Some_conv)
  then show ?thesis using keep [OF assms(2)] by (simp add: wf_group_status_def zero_GroupStatus_def)
qed

section \<open>Every write is well formed\<close>

abbreviation keeps_type :: "'a go \<Rightarrow> bool" where
  "keeps_type m \<equiv> emits (\<lambda>_. well_formed_write) m"

named_theorems type_intros \<open>operations that only write well-formed objects\<close>

lemma keeps_processNewComputeGroup [type_intros]:
  assumes "wf_group_status (cg_Status cg)"
  shows "keeps_type (processNewComputeGroup K (typed_controller K) cg)"
proof (rule typed_oc.emits_weaken [OF typed_oc.emits_processNewComputeGroup])
  fix e assume "typed_oc.allowed K cg e"
  then show "well_formed_write e"
    using wf_status_write [OF assms]
    by (cases e) (auto simp: typed_oc.allowed_def typed_oc.status_of_def well_formed_write_def group_update_call_def)
qed

lemma keeps_group_update [type_intros]:
  "wf_group_status (cg_Status g) \<Longrightarrow>
   keeps_type (if_Update (DatafuseComputeGroups (oc_client (typed_controller K)) ns) g opts)"
  by (rule typed_oc.group_client.emits_update) simp

lemma keeps_group_create [type_intros]:
  "wf_group_status (cg_Status g) \<Longrightarrow>
   keeps_type (if_Create (DatafuseComputeGroups (oc_client (typed_controller K)) ns) g opts)"
  by (rule typed_oc.group_client.emits_create) simp

lemma keeps_operator_update [type_intros]:
  "wf_operator_status (op_Status op) \<Longrightarrow>
   keeps_type (if_Update (DatafuseOperators (oc_client (typed_controller K)) ns) op opts)"
  by (rule typed_oc.operator_client.emits_update) simp

lemma keeps_checkReady [type_intros]: "keeps_type (checkReady K remove ks st)"
proof (induction ks arbitrary: st)
  case (Cons k ks)
  then show ?case
    by (auto simp: lister_get_deployment_def intro!: emits_intros split: list.split sum.split)
qed (simp add: emits_intros)

lemma keeps_processUpdatedComputeGroup [type_intros]:
  assumes "wf_group_status (cg_Status cg)"
  shows "keeps_type (processUpdatedComputeGroup K (typed_controller K) cg)"
proof -
  have "wf_group_status st2"
    if "checkReady K dropLeader ls (cg_Status cg) h = (Some st1, h1)" "checkReady K dropWorker ws st1 h' = (Some st2, h2)"
    for st1 st2 ls ws h h1 h' h2
    using checkReady_wf [OF wf_drop(2) checkReady_wf [OF wf_drop(1) assms that(1)] that(2)] .
  then show ?thesis
    unfolding processUpdatedComputeGroup_def
    by (auto intro!: emits_bind_run emits_range_keys type_intros assms)
qed

lemma keeps_updateOperatorStatus [type_intros]:
  assumes "wf_operator_status (op_Status op)"
  shows "keeps_type (updateOperatorStatus K (typed_controller K) g op)"
  using assms
  by (auto simp: updateOperatorStatus_def Let_def wf_operator_status_def map_put_nil
      intro!: emits_intros type_intros split: prod.split)

lemma keeps_group_lister [type_intros]: "keeps_type (GroupNamespaceLister_Get K ns name)"
  by (rule emitsI) (simp add: group_lister.one_read)

lemma keeps_syncGroup2 [type_intros]:
  assumes "wf_operator_status (op_Status op)"
  shows "keeps_type (syncGroup2 K (typed_controller K) op spec)"
  unfolding syncGroup2_def tell_def
  by (auto intro!: emits_intros type_intros emits_lift_bind assms wf_made_group
      split: option.split prod.split sum.split)

lemma keeps_processNewOperator [type_intros]:
  assumes "wf_operator_status (op_Status op)"
  shows "keeps_type (processNewOperator K (typed_controller K) op)"
  unfolding processNewOperator_def
  by (auto intro!: emits_intros emits_lift_bind type_intros wf_operator_default [OF _ assms])

lemma keeps_error_handlers [type_intros]:
  "keeps_type (groupErrorHandler K x err)" "keeps_type (operatorErrorHandler K x err)"
  by (auto simp: groupErrorHandler_def operatorErrorHandler_def num_requeues_def tell_def intro!: emits_intros
      split: option.split)

lemma queue_getE:
  assumes "queue_get K q h = (Some item, h')"
  shows "k_queueGet K h q = item"
  using assms by (simp add: io_simps)

lemma keeps_processNextComputeGroup:
  assumes "\<And>h a cg. k_queueGet K h GroupQueue = Some (GroupPtr a cg) \<Longrightarrow> wf_group_status (cg_Status cg)"
  shows "keeps_type (processNextComputeGroup K (typed_controller K))"
proof -
  have get: "keeps_type (queue_get K GroupQueue)" by (simp add: queue_get_def emits_intros)
  have wf: "wf_group_status (cg_Status cg')"
    if "queue_get K GroupQueue h = (Some (Some (GroupPtr a cg)), h')" "IsComputeGroupCreated cg = (created, cg')"
    for h a cg h' created cg'
    using wf_IsComputeGroupCreated [OF assms [OF queue_getE [OF that(1)]]] that(2) by simp
  show ?thesis
    unfolding processNextComputeGroup_def tell_def Let_def
    by (rule emits_bind_run [OF get])
      (auto dest: wf intro!: emits_intros type_intros split: option.split go_obj.split prod.split)
qed

lemma keeps_processNextOperator:
  assumes "\<And>h a op. k_queueGet K h OperatorQueue = Some (OperatorPtr a op) \<Longrightarrow> wf_operator_status (op_Status op)"
  shows "keeps_type (processNextOperator K (typed_controller K))"
proof -
  have get: "keeps_type (queue_get K OperatorQueue)" by (simp add: queue_get_def emits_intros)
  have wf: "wf_operator_status (op_Status (snd (IsOperatorCreated op)))"
    if "queue_get K OperatorQueue h = (Some (Some (OperatorPtr a op)), h')" for h a op h'
    by (rule wf_IsOperatorCreated [OF assms [OF queue_getE [OF that]]])
  show ?thesis
    unfolding processNextOperator_def tell_def Let_def
    by (rule emits_bind_run [OF get])
      (auto dest: wf intro!: emits_intros type_intros split: option.split go_obj.split)
qed

section \<open>Properties\<close>

text \<open>C23 (type).  The controller keeps the type of the resources: when the statuses of the items in its
  queues are well formed, every group and operator that a round of either queue's worker writes
  has a well-formed status, with distinct keys and declared states only, whatever the cluster
  answers.\<close>

theorem written_statuses_well_formed:
  assumes "\<And>h a cg. k_queueGet K h GroupQueue = Some (GroupPtr a cg) \<Longrightarrow> wf_group_status (cg_Status cg)"
    and "\<And>h a op. k_queueGet K h OperatorQueue = Some (OperatorPtr a op) \<Longrightarrow> wf_operator_status (op_Status op)"
  shows "(\<exists>new. snd (processNextComputeGroup K (typed_controller K) h) = h @ new
      \<and> (\<forall>rq g. Rest rq \<in> set new \<and> rq_Body rq = GroupBody g \<longrightarrow> wf_group_status (cg_Status g)))
    \<and> (\<exists>new. snd (processNextOperator K (typed_controller K) h) = h @ new
      \<and> (\<forall>rq g. Rest rq \<in> set new \<and> rq_Body rq = GroupBody g \<longrightarrow> wf_group_status (cg_Status g))
      \<and> (\<forall>rq op. Rest rq \<in> set new \<and> rq_Body rq = OperatorBody op \<longrightarrow> wf_operator_status (op_Status op)))"
proof -
  have "keeps_type (processNextComputeGroup K (typed_controller K))"
    by (rule keeps_processNextComputeGroup) (rule assms(1))
  then obtain n1 where n1: "snd (processNextComputeGroup K (typed_controller K) h) = h @ n1"
      "\<forall>e \<in> set n1. well_formed_write e"
    by (rule exE [OF emits_all, of _ _ h]) blast
  have "keeps_type (processNextOperator K (typed_controller K))"
    by (rule keeps_processNextOperator) (rule assms(2))
  then obtain n2 where n2: "snd (processNextOperator K (typed_controller K) h) = h @ n2"
      "\<forall>e \<in> set n2. well_formed_write e"
    by (rule exE [OF emits_all, of _ _ h]) blast
  have "wf_group_status (cg_Status g)" if "well_formed_write (Rest rq)" "rq_Body rq = GroupBody g" for rq g
    using that by (simp add: well_formed_write_def)
  moreover have "wf_operator_status (op_Status op)" if "well_formed_write (Rest rq)" "rq_Body rq = OperatorBody op" for rq op
    using that by (simp add: well_formed_write_def)
  ultimately show ?thesis using n1 n2 by blast
qed

text \<open>A worker of the groups takes the sample group, one of the operators the sample operator.\<close>

theorem written_statuses_well_formed_witness:
  "\<exists>new. snd (processNextComputeGroup (queue_k8s (\<lambda>q. if q = GroupQueue then GroupPtr 0 sample_group else OperatorPtr 0 sample_operator))
       (typed_controller (queue_k8s (\<lambda>q. if q = GroupQueue then GroupPtr 0 sample_group else OperatorPtr 0 sample_operator))) []) = new
     \<and> (\<forall>rq g. Rest rq \<in> set new \<and> rq_Body rq = GroupBody g \<longrightarrow> wf_group_status (cg_Status g))"
proof -
  let ?K = "queue_k8s (\<lambda>q. if q = GroupQueue then GroupPtr 0 sample_group else OperatorPtr 0 sample_operator)"
  have "wf_group_status (cg_Status cg)" if "k_queueGet ?K h GroupQueue = Some (GroupPtr a cg)" for h a cg
    using that by (simp add: queue_k8s_def wf_group_status_def sample_defs split: if_splits) auto
  moreover have "wf_operator_status (op_Status op)" if "k_queueGet ?K h OperatorQueue = Some (OperatorPtr a op)" for h a op
    using that by (simp add: queue_k8s_def wf_operator_status_def sample_defs split: if_splits) auto
  ultimately show ?thesis using written_statuses_well_formed [of ?K "[]"] by simp
qed

end
