(* ===== verification/DeepCopy.thy ===== *)
theory DeepCopy
  imports Reference_Cluster
begin

text \<open>
  \<^verbatim>\<open>pkg/apis/datafuse/v1alpha1/zz_generated.deepcopy.go\<close> over an explicit heap.  The other theories
  take a deep copy for the value itself; here the structures are held with their pointers, and
  the lemmas show what entitles them to do so: a copy reads as the same value, and no write through
  one of the two can be seen through the other.

  A heap is the list of the cells allocated so far and an address is an index; a pointer, a map and
  a slice are an address or nil.  An embedded struct is a value, and so is the metadata of
  \<^verbatim>\<open>k8s.io/apimachinery\<close>, whose own deep copy is outside.  \<^verbatim>\<open>DeepCopyInto\<close> takes the receiver's
  fields and gives the fields of \<^verbatim>\<open>out\<close>; a new cell is appended when its content is complete.
\<close>

section \<open>Structures with pointers\<close>

type_synonym pointer = "nat option"

record InstanceSpec_p =
  ip_Name :: pointer
  ip_Cores :: pointer
  ip_CoreLimit :: pointer
  ip_Memory :: pointer
  ip_MemoryLimit :: pointer
  ip_Labels :: pointer
  ip_Image :: pointer
  ip_ImagePullPolicy :: pointer
  ip_Priority :: pointer
  ip_MysqlPort :: pointer
  ip_ClickhousePort :: pointer
  ip_HTTPPort :: pointer
  ip_RPCPort :: pointer
  ip_MetricsPort :: pointer

record SetSpec_p =
  csp_Replicas :: pointer
  csp_Instance :: InstanceSpec_p

record SetStatus_p =
  cssp_Replicas :: int32
  cssp_Selector :: string
  cssp_InstancesStatus :: pointer

record GroupSpec_p =
  gsp_ComputeLeaders :: pointer
  gsp_ComputeWorkers :: pointer
  gsp_Name :: string
  gsp_Namespace :: string

record GroupStatus_p =
  gstp_ReadyComputeLeaders :: pointer
  gstp_ReadyComputeWorkers :: pointer
  gstp_Status :: ComputeGroupState
  gstp_GroupServiceStatus :: ComputeGroupServiceStatus

record Group_p =
  cgp_TypeMeta :: TypeMeta
  cgp_Meta :: ObjectMeta
  cgp_Spec :: GroupSpec_p
  cgp_Status :: GroupStatus_p

record GroupList_p =
  cglp_TypeMeta :: TypeMeta
  cglp_ListMeta :: ListMeta
  cglp_Items :: pointer

record OperatorSpec_p =
  osp_ComputeGroups :: pointer
  osp_Version :: pointer

record OperatorStatus_p =
  ostp_ComputeGroupStates :: pointer
  ostp_Status :: OperatorState

record Operator_p =
  opp_TypeMeta :: TypeMeta
  opp_Meta :: ObjectMeta
  opp_Spec :: OperatorSpec_p
  opp_Status :: OperatorStatus_p

record OperatorList_p =
  oplp_TypeMeta :: TypeMeta
  oplp_ListMeta :: ListMeta
  oplp_Items :: pointer

datatype cell =
    Int32Cell int32
  | StringCell string
  | MapCell "(string \<times> string) list"
  | PointerSlice "pointer list"
  | GroupSlice "Group_p list"
  | OperatorSlice "Operator_p list"
  | ServiceStatusCell ComputeGroupServiceStatus
  | InstanceSpecCell InstanceSpec_p
  | InstanceStatusCell DatafuseComputeInstanceStatus
  | SetSpecCell SetSpec_p
  | SetStatusCell SetStatus_p
  | GroupSpecCell GroupSpec_p
  | GroupStatusCell GroupStatus_p
  | GroupCell Group_p
  | GroupListCell GroupList_p
  | OperatorSpecCell OperatorSpec_p
  | OperatorStatusCell OperatorStatus_p
  | OperatorCell Operator_p
  | OperatorListCell OperatorList_p

type_synonym heap = "cell list"
type_synonym 'r copier = "'r \<Rightarrow> heap \<Rightarrow> 'r \<times> heap"

section \<open>The contract of a deep copy\<close>

text \<open>
  \<open>read\<close> is the value that a structure stands for, following its pointers (\<open>None\<close> when one dangles),
  and \<open>reach\<close> the addresses of the cells that it consists of.
\<close>

locale deep_copy =
  fixes copy :: "'r copier"
    and read :: "heap \<Rightarrow> 'r \<Rightarrow> 'v option"
    and reach :: "heap \<Rightarrow> 'r \<Rightarrow> nat set"
  assumes copy_extends: "\<exists>new. snd (copy r h) = h @ new"
    and copy_reads: "read h r = Some v \<Longrightarrow> read (snd (copy r h)) (fst (copy r h)) = Some v"
    and copy_fresh: "read h r = Some v \<Longrightarrow> a \<in> reach (snd (copy r h)) (fst (copy r h)) \<Longrightarrow> length h \<le> a"
    and read_extends: "read h r = Some v \<Longrightarrow> read (h @ new) r = Some v"
    and reach_extends: "read h r = Some v \<Longrightarrow> reach (h @ new) r = reach h r"
    and reach_bound: "read h r = Some v \<Longrightarrow> a \<in> reach h r \<Longrightarrow> a < length h"
    and read_local: "read h r = Some v \<Longrightarrow> a \<notin> reach h r \<Longrightarrow> read (h[a := c]) r = Some v"
begin

lemma original_in_copy: "read h r = Some v \<Longrightarrow> read (snd (copy r h)) r = Some v"
  using copy_extends [of r h] read_extends by auto

lemma separated: "read h r = Some v \<Longrightarrow>
    reach (snd (copy r h)) r \<inter> reach (snd (copy r h)) (fst (copy r h)) = {}"
  using copy_extends [of r h] reach_extends [of h r v] reach_bound [of h r v] copy_fresh [of h r v]
  by (metis disjoint_iff linorder_not_less)

text \<open>A write through the copy is not seen through the original, and conversely.\<close>

lemma original_unchanged:
  assumes "read h r = Some v" and "a \<in> reach (snd (copy r h)) (fst (copy r h))"
  shows "read ((snd (copy r h))[a := c]) r = Some v"
  using separated [OF assms(1)] assms(2) by (intro read_local original_in_copy assms(1)) blast

lemma copy_unchanged:
  assumes "read h r = Some v" and "a \<in> reach (snd (copy r h)) r"
  shows "read ((snd (copy r h))[a := c]) (fst (copy r h)) = Some v"
  using separated [OF assms(1)] assms(2) by (intro read_local copy_reads assms(1)) blast

end

section \<open>Parts\<close>

definition copy_plain :: "'r copier" where
  "copy_plain r h = (r, h)"

definition read_plain :: "heap \<Rightarrow> 'r \<Rightarrow> 'r option" where
  "read_plain h r = Some r"

definition reach_plain :: "heap \<Rightarrow> 'r \<Rightarrow> nat set" where
  "reach_plain h r = {}"

definition copy_pair :: "'r copier \<Rightarrow> 's copier \<Rightarrow> ('r \<times> 's) copier" where
  "copy_pair c d p h = (case c (fst p) h of (r, h1) \<Rightarrow> case d (snd p) h1 of (s, h2) \<Rightarrow> ((r, s), h2))"

definition read_pair :: "(heap \<Rightarrow> 'r \<Rightarrow> 'v option) \<Rightarrow> (heap \<Rightarrow> 's \<Rightarrow> 'w option) \<Rightarrow> heap \<Rightarrow> 'r \<times> 's \<Rightarrow> ('v \<times> 'w) option" where
  "read_pair c d h p = (case c h (fst p) of None \<Rightarrow> None | Some v \<Rightarrow> map_option (Pair v) (d h (snd p)))"

definition reach_pair :: "(heap \<Rightarrow> 'r \<Rightarrow> nat set) \<Rightarrow> (heap \<Rightarrow> 's \<Rightarrow> nat set) \<Rightarrow> heap \<Rightarrow> 'r \<times> 's \<Rightarrow> nat set" where
  "reach_pair c d h p = c h (fst p) \<union> d h (snd p)"

text \<open>The cell that a pointer points to, if it has the type that \<open>dest\<close> takes.\<close>

definition deref :: "(cell \<Rightarrow> 'r option) \<Rightarrow> heap \<Rightarrow> nat \<Rightarrow> 'r option" where
  "deref dest h a = (if a < length h then dest (h ! a) else None)"

text \<open>
  \<^verbatim>\<open>if in.F != nil { in, out := &in.F, &out.F; *out = new(T); (*in).DeepCopyInto(*out) }\<close>, and
  \<^verbatim>\<open>func (in *T) DeepCopy() *T\<close>.
\<close>

definition copy_ptr :: "(cell \<Rightarrow> 'r option) \<Rightarrow> ('r \<Rightarrow> cell) \<Rightarrow> 'r copier \<Rightarrow> pointer copier" where
  "copy_ptr dest mk cp p h = (case p of None \<Rightarrow> (None, h)
   | Some a \<Rightarrow> (case deref dest h a of None \<Rightarrow> (p, h)
       | Some r \<Rightarrow> (case cp r h of (r', h') \<Rightarrow> (Some (length h'), h' @ [mk r']))))"

definition read_ptr :: "(cell \<Rightarrow> 'r option) \<Rightarrow> (heap \<Rightarrow> 'r \<Rightarrow> 'v option) \<Rightarrow> heap \<Rightarrow> pointer \<Rightarrow> 'v option option" where
  "read_ptr dest rd h p = (case p of None \<Rightarrow> Some None
   | Some a \<Rightarrow> (case deref dest h a of None \<Rightarrow> None | Some r \<Rightarrow> map_option Some (rd h r)))"

definition reach_ptr :: "(cell \<Rightarrow> 'r option) \<Rightarrow> (heap \<Rightarrow> 'r \<Rightarrow> nat set) \<Rightarrow> heap \<Rightarrow> pointer \<Rightarrow> nat set" where
  "reach_ptr dest rc h p = (case p of None \<Rightarrow> {}
   | Some a \<Rightarrow> insert a (case deref dest h a of None \<Rightarrow> {} | Some r \<Rightarrow> rc h r))"

text \<open>\<^verbatim>\<open>for i := range *in { (*in)[i].DeepCopyInto(&(*out)[i]) }\<close>\<close>

fun copy_list :: "'r copier \<Rightarrow> 'r list copier" where
  "copy_list cp [] h = ([], h)"
| "copy_list cp (r # rs) h = (case cp r h of (r', h1) \<Rightarrow> case copy_list cp rs h1 of (rs', h2) \<Rightarrow> (r' # rs', h2))"

fun read_list :: "(heap \<Rightarrow> 'r \<Rightarrow> 'v option) \<Rightarrow> heap \<Rightarrow> 'r list \<Rightarrow> 'v list option" where
  "read_list rd h [] = Some []"
| "read_list rd h (r # rs) = (case rd h r of None \<Rightarrow> None | Some v \<Rightarrow> map_option (Cons v) (read_list rd h rs))"

fun reach_list :: "(heap \<Rightarrow> 'r \<Rightarrow> nat set) \<Rightarrow> heap \<Rightarrow> 'r list \<Rightarrow> nat set" where
  "reach_list rc h [] = {}"
| "reach_list rc h (r # rs) = rc h r \<union> reach_list rc h rs"

text \<open>A record as the tuple of its fields: \<open>split\<close> takes it apart, \<open>join\<close> builds it, \<open>val\<close> its value.\<close>

definition copy_as :: "('r \<Rightarrow> 't) \<Rightarrow> ('t \<Rightarrow> 'r) \<Rightarrow> 't copier \<Rightarrow> 'r copier" where
  "copy_as split join cp r h = (case cp (split r) h of (t, h') \<Rightarrow> (join t, h'))"

definition read_as :: "('r \<Rightarrow> 't) \<Rightarrow> ('u \<Rightarrow> 'v) \<Rightarrow> (heap \<Rightarrow> 't \<Rightarrow> 'u option) \<Rightarrow> heap \<Rightarrow> 'r \<Rightarrow> 'v option" where
  "read_as split val rd h r = map_option val (rd h (split r))"

definition reach_as :: "('r \<Rightarrow> 't) \<Rightarrow> (heap \<Rightarrow> 't \<Rightarrow> nat set) \<Rightarrow> heap \<Rightarrow> 'r \<Rightarrow> nat set" where
  "reach_as split rc h r = rc h (split r)"

named_theorems deep_copy_intros \<open>deep copies from deep copies of the parts\<close>

lemma deep_copy_plain [deep_copy_intros]: "deep_copy copy_plain read_plain reach_plain"
  by unfold_locales (simp_all add: copy_plain_def read_plain_def reach_plain_def)

lemma deep_copy_as:
  assumes d: "deep_copy cp rd rc" and "\<And>t. split (join t) = t"
  shows "deep_copy (copy_as split join cp) (read_as split val rd) (reach_as split rc)"
proof
  fix r h v a new c
  show "\<exists>new. snd (copy_as split join cp r h) = h @ new"
    using deep_copy.copy_extends [OF d, of "split r" h] by (auto simp: copy_as_def split_beta)
  assume "read_as split val rd h r = Some v"
  then obtain u where u: "rd h (split r) = Some u" "v = val u" by (auto simp: read_as_def)
  obtain t h' where t: "cp (split r) h = (t, h')" by fastforce
  show "read_as split val rd (snd (copy_as split join cp r h)) (fst (copy_as split join cp r h)) = Some v"
    using deep_copy.copy_reads [OF d u(1)] u(2) t by (simp add: copy_as_def read_as_def assms(2))
  show "length h \<le> a" if "a \<in> reach_as split rc (snd (copy_as split join cp r h)) (fst (copy_as split join cp r h))"
    using deep_copy.copy_fresh [OF d u(1), of a] that t by (simp add: copy_as_def reach_as_def assms(2))
  show "read_as split val rd (h @ new) r = Some v"
    using deep_copy.read_extends [OF d u(1)] u(2) by (simp add: read_as_def)
  show "reach_as split rc (h @ new) r = reach_as split rc h r"
    using deep_copy.reach_extends [OF d u(1)] by (simp add: reach_as_def)
  show "a < length h" if "a \<in> reach_as split rc h r"
    using deep_copy.reach_bound [OF d u(1)] that by (simp add: reach_as_def)
  show "read_as split val rd (h[a := c]) r = Some v" if "a \<notin> reach_as split rc h r"
    using deep_copy.read_local [OF d u(1)] u(2) that by (simp add: reach_as_def read_as_def)
qed

lemma deep_copy_pair [deep_copy_intros]:
  assumes c: "deep_copy (c :: 'r copier) rd rc" and d: "deep_copy (d :: 's copier) rd' rc'"
  shows "deep_copy (copy_pair c d) (read_pair rd rd') (reach_pair rc rc')"
proof
  fix p :: "'r \<times> 's" and h v a new cl
  obtain r s where p: "p = (r, s)" by (cases p)
  obtain r' h1 where 1: "c r h = (r', h1)" by fastforce
  obtain s' h2 where 2: "d s h1 = (s', h2)" by fastforce
  obtain n1 where n1: "h1 = h @ n1" using deep_copy.copy_extends [OF c, of r h] 1 by auto
  obtain n2 where n2: "h2 = h1 @ n2" using deep_copy.copy_extends [OF d, of s h1] 2 by auto
  have run: "copy_pair c d p h = ((r', s'), h2)" by (simp add: copy_pair_def p 1 2)
  show "\<exists>new. snd (copy_pair c d p h) = h @ new" by (simp add: run n1 n2)
  assume "read_pair rd rd' h p = Some v"
  then obtain x y where x: "rd h r = Some x" and y: "rd' h s = Some y" and v: "v = (x, y)"
    by (auto simp: read_pair_def p split: option.splits)
  have y1: "rd' h1 s = Some y" using deep_copy.read_extends [OF d y] n1 by simp
  have x1: "rd h1 r' = Some x" using deep_copy.copy_reads [OF c x] 1 by simp
  show "read_pair rd rd' (snd (copy_pair c d p h)) (fst (copy_pair c d p h)) = Some v"
    using deep_copy.read_extends [OF c x1] deep_copy.copy_reads [OF d y1] 2 n2 v
    by (simp add: run read_pair_def)
  show "length h \<le> a" if "a \<in> reach_pair rc rc' (snd (copy_pair c d p h)) (fst (copy_pair c d p h))"
    using that deep_copy.reach_extends [OF c x1, of n2] deep_copy.copy_fresh [OF c x, of a]
      deep_copy.copy_fresh [OF d y1, of a] 1 2 n1 n2
    by (auto simp: run reach_pair_def)
  show "read_pair rd rd' (h @ new) p = Some v"
    using deep_copy.read_extends [OF c x] deep_copy.read_extends [OF d y] v by (simp add: read_pair_def p)
  show "reach_pair rc rc' (h @ new) p = reach_pair rc rc' h p"
    using deep_copy.reach_extends [OF c x] deep_copy.reach_extends [OF d y] by (simp add: reach_pair_def p)
  show "a < length h" if "a \<in> reach_pair rc rc' h p"
    using that deep_copy.reach_bound [OF c x] deep_copy.reach_bound [OF d y] by (auto simp: reach_pair_def p)
  show "read_pair rd rd' (h[a := cl]) p = Some v" if "a \<notin> reach_pair rc rc' h p"
    using that deep_copy.read_local [OF c x] deep_copy.read_local [OF d y] v
    by (simp add: reach_pair_def read_pair_def p)
qed

lemma deref_append: "deref dest h a = Some r \<Longrightarrow> deref dest (h @ new) a = Some r"
  by (auto simp: deref_def nth_append split: if_splits)

lemma deref_update: "a \<noteq> b \<Longrightarrow> deref dest (h[b := c]) a = deref dest h a"
  by (simp add: deref_def)

lemma deep_copy_ptr [deep_copy_intros]:
  assumes d: "deep_copy cp rd rc" and dest: "\<And>r. dest (mk r) = Some r"
  shows "deep_copy (copy_ptr dest mk cp) (read_ptr dest rd) (reach_ptr dest rc)"
proof
  fix p h v a new c
  show "\<exists>new. snd (copy_ptr dest mk cp p h) = h @ new"
  proof (cases "\<exists>b r. p = Some b \<and> deref dest h b = Some r")
    case True
    then obtain b r where "p = Some b" "deref dest h b = Some r" by blast
    with deep_copy.copy_extends [OF d, of r h] show ?thesis
      by (auto simp: copy_ptr_def split: prod.split)
  next
    case False
    then show ?thesis by (auto simp: copy_ptr_def split: option.split)
  qed
  assume rd: "read_ptr dest rd h p = Some v"
  consider "p = None" "v = None"
    | b r x where "p = Some b" "deref dest h b = Some r" "rd h r = Some x" "v = Some x"
    using rd by (auto simp: read_ptr_def split: option.splits)
  note shape = this
  show "read_ptr dest rd (snd (copy_ptr dest mk cp p h)) (fst (copy_ptr dest mk cp p h)) = Some v"
  proof (cases rule: shape)
    case 1
    then show ?thesis by (simp add: copy_ptr_def read_ptr_def)
  next
    case 2
    obtain r' h1 where r': "cp r h = (r', h1)" by fastforce
    have "rd h1 r' = Some x" using deep_copy.copy_reads [OF d 2(3)] r' by simp
    from deep_copy.read_extends [OF d this] 2 r' show ?thesis
      by (simp add: copy_ptr_def read_ptr_def deref_def dest)
  qed
  show "length h \<le> a" if a: "a \<in> reach_ptr dest rc (snd (copy_ptr dest mk cp p h)) (fst (copy_ptr dest mk cp p h))"
  proof (cases rule: shape)
    case 1
    with a show ?thesis by (simp add: copy_ptr_def reach_ptr_def)
  next
    case 2
    obtain r' h1 where r': "cp r h = (r', h1)" by fastforce
    obtain n where n: "h1 = h @ n" using deep_copy.copy_extends [OF d, of r h] r' by auto
    have "rd h1 r' = Some x" using deep_copy.copy_reads [OF d 2(3)] r' by simp
    from deep_copy.reach_extends [OF d this, of "[mk r']"] deep_copy.copy_fresh [OF d 2(3), of a] a 2 r' n
    show ?thesis by (auto simp: copy_ptr_def reach_ptr_def deref_def dest)
  qed
  show "read_ptr dest rd (h @ new) p = Some v"
    by (cases rule: shape) (simp_all add: read_ptr_def deref_append deep_copy.read_extends [OF d])
  show "reach_ptr dest rc (h @ new) p = reach_ptr dest rc h p"
    by (cases rule: shape) (simp_all add: reach_ptr_def deref_append deep_copy.reach_extends [OF d])
  show "a < length h" if "a \<in> reach_ptr dest rc h p"
    using that by (cases rule: shape)
      (auto simp: reach_ptr_def deref_def dest: deep_copy.reach_bound [OF d] split: if_splits)
  show "read_ptr dest rd (h[a := c]) p = Some v" if a: "a \<notin> reach_ptr dest rc h p"
  proof (cases rule: shape)
    case 1
    then show ?thesis by (simp add: read_ptr_def)
  next
    case 2
    with a have "a \<noteq> b" "a \<notin> rc h r" by (simp_all add: reach_ptr_def)
    with 2 show ?thesis by (simp add: read_ptr_def deref_update deep_copy.read_local [OF d])
  qed
qed

lemma deep_copy_list [deep_copy_intros]:
  assumes d: "deep_copy cp rd rc"
  shows "deep_copy (copy_list cp) (read_list rd) (reach_list rc)"
proof -
  have ext: "\<exists>new. snd (copy_list cp rs h) = h @ new" for rs h
  proof (induction rs arbitrary: h)
    case (Cons r rs)
    obtain r' h1 where r': "cp r h = (r', h1)" by fastforce
    obtain n where n: "h1 = h @ n" using deep_copy.copy_extends [OF d, of r h] r' by auto
    from Cons [of h1] r' n show ?case by (auto split: prod.split)
  qed simp
  have rext: "read_list rd (h @ new) rs = Some vs" "reach_list rc (h @ new) rs = reach_list rc h rs"
    "a \<in> reach_list rc h rs \<Longrightarrow> a < length h"
    "a \<notin> reach_list rc h rs \<Longrightarrow> read_list rd (h[a := c]) rs = Some vs"
    if "read_list rd h rs = Some vs" for rs vs h new a c
    using that
    by (induction rs arbitrary: vs)
      (force split: option.splits simp: deep_copy.read_extends [OF d] deep_copy.reach_extends [OF d]
        deep_copy.read_local [OF d] dest: deep_copy.reach_bound [OF d])+
  have copy: "read_list rd (snd (copy_list cp rs h)) (fst (copy_list cp rs h)) = Some vs
      \<and> (\<forall>a \<in> reach_list rc (snd (copy_list cp rs h)) (fst (copy_list cp rs h)). length h \<le> a)"
    if "read_list rd h rs = Some vs" for rs vs h
    using that
  proof (induction rs arbitrary: vs h)
    case (Cons r rs)
    from Cons.prems obtain x xs where x: "rd h r = Some x" and xs: "read_list rd h rs = Some xs" and vs: "vs = x # xs"
      by (auto split: option.splits)
    obtain r' h1 where r': "cp r h = (r', h1)" by fastforce
    obtain n where n: "h1 = h @ n" using deep_copy.copy_extends [OF d, of r h] r' by auto
    obtain rs' h2 where rs': "copy_list cp rs h1 = (rs', h2)" by fastforce
    obtain m where m: "h2 = h1 @ m" using ext [of rs h1] rs' by auto
    have x1: "rd h1 r' = Some x" using deep_copy.copy_reads [OF d x] r' by simp
    have xs1: "read_list rd h1 rs = Some xs" using rext(1) [OF xs] n by simp
    from Cons.IH [OF xs1] rs' m x1 vs r' n deep_copy.read_extends [OF d x1] deep_copy.reach_extends [OF d x1]
      deep_copy.copy_fresh [OF d x]
    show ?case by fastforce
  qed simp
  show ?thesis
    by unfold_locales (rule ext rext copy [THEN conjunct1] copy [THEN conjunct2, THEN bspec]; assumption)+
qed

section \<open>The copies of the types\<close>

text \<open>What a pointer may point to.\<close>

definition int32_cell :: "cell \<Rightarrow> int32 option" where
  "int32_cell c = (case c of Int32Cell x \<Rightarrow> Some x | _ \<Rightarrow> None)"

definition string_cell :: "cell \<Rightarrow> string option" where
  "string_cell c = (case c of StringCell x \<Rightarrow> Some x | _ \<Rightarrow> None)"

definition map_cell :: "cell \<Rightarrow> (string \<times> string) list option" where
  "map_cell c = (case c of MapCell x \<Rightarrow> Some x | _ \<Rightarrow> None)"

definition pointer_slice :: "cell \<Rightarrow> pointer list option" where
  "pointer_slice c = (case c of PointerSlice x \<Rightarrow> Some x | _ \<Rightarrow> None)"

definition group_slice :: "cell \<Rightarrow> Group_p list option" where
  "group_slice c = (case c of GroupSlice x \<Rightarrow> Some x | _ \<Rightarrow> None)"

definition operator_slice :: "cell \<Rightarrow> Operator_p list option" where
  "operator_slice c = (case c of OperatorSlice x \<Rightarrow> Some x | _ \<Rightarrow> None)"

definition service_status_cell :: "cell \<Rightarrow> ComputeGroupServiceStatus option" where
  "service_status_cell c = (case c of ServiceStatusCell x \<Rightarrow> Some x | _ \<Rightarrow> None)"

definition instance_spec_cell :: "cell \<Rightarrow> InstanceSpec_p option" where
  "instance_spec_cell c = (case c of InstanceSpecCell x \<Rightarrow> Some x | _ \<Rightarrow> None)"

definition instance_status_cell :: "cell \<Rightarrow> DatafuseComputeInstanceStatus option" where
  "instance_status_cell c = (case c of InstanceStatusCell x \<Rightarrow> Some x | _ \<Rightarrow> None)"

definition set_spec_cell :: "cell \<Rightarrow> SetSpec_p option" where
  "set_spec_cell c = (case c of SetSpecCell x \<Rightarrow> Some x | _ \<Rightarrow> None)"

definition set_status_cell :: "cell \<Rightarrow> SetStatus_p option" where
  "set_status_cell c = (case c of SetStatusCell x \<Rightarrow> Some x | _ \<Rightarrow> None)"

definition group_spec_cell :: "cell \<Rightarrow> GroupSpec_p option" where
  "group_spec_cell c = (case c of GroupSpecCell x \<Rightarrow> Some x | _ \<Rightarrow> None)"

definition group_status_cell :: "cell \<Rightarrow> GroupStatus_p option" where
  "group_status_cell c = (case c of GroupStatusCell x \<Rightarrow> Some x | _ \<Rightarrow> None)"

definition group_cell :: "cell \<Rightarrow> Group_p option" where
  "group_cell c = (case c of GroupCell x \<Rightarrow> Some x | _ \<Rightarrow> None)"

definition group_list_cell :: "cell \<Rightarrow> GroupList_p option" where
  "group_list_cell c = (case c of GroupListCell x \<Rightarrow> Some x | _ \<Rightarrow> None)"

definition operator_spec_cell :: "cell \<Rightarrow> OperatorSpec_p option" where
  "operator_spec_cell c = (case c of OperatorSpecCell x \<Rightarrow> Some x | _ \<Rightarrow> None)"

definition operator_status_cell :: "cell \<Rightarrow> OperatorStatus_p option" where
  "operator_status_cell c = (case c of OperatorStatusCell x \<Rightarrow> Some x | _ \<Rightarrow> None)"

definition operator_cell :: "cell \<Rightarrow> Operator_p option" where
  "operator_cell c = (case c of OperatorCell x \<Rightarrow> Some x | _ \<Rightarrow> None)"

definition operator_list_cell :: "cell \<Rightarrow> OperatorList_p option" where
  "operator_list_cell c = (case c of OperatorListCell x \<Rightarrow> Some x | _ \<Rightarrow> None)"

lemmas cell_defs = int32_cell_def string_cell_def map_cell_def pointer_slice_def group_slice_def
  operator_slice_def service_status_cell_def instance_spec_cell_def instance_status_cell_def set_spec_cell_def set_status_cell_def group_spec_cell_def group_status_cell_def group_cell_def group_list_cell_def operator_spec_cell_def operator_status_cell_def operator_cell_def operator_list_cell_def

text \<open>Pointers to scalars, and maps: \<^verbatim>\<open>make(map...)\<close> and the loop over the entries make a map with the
  same entries.\<close>

definition copy_int32 :: "pointer copier" where
  "copy_int32 = copy_ptr int32_cell Int32Cell copy_plain"

definition copy_string :: "pointer copier" where
  "copy_string = copy_ptr string_cell StringCell copy_plain"

definition copy_map :: "pointer copier" where
  "copy_map = copy_ptr map_cell MapCell copy_plain"

definition read_int32 :: "heap \<Rightarrow> pointer \<Rightarrow> int32 option option" where
  "read_int32 = read_ptr int32_cell read_plain"

definition read_string :: "heap \<Rightarrow> pointer \<Rightarrow> string option option" where
  "read_string = read_ptr string_cell read_plain"

definition read_map :: "heap \<Rightarrow> pointer \<Rightarrow> string gomap option" where
  "read_map = read_ptr map_cell read_plain"

definition reach_int32 :: "heap \<Rightarrow> pointer \<Rightarrow> nat set" where
  "reach_int32 = reach_ptr int32_cell reach_plain"

definition reach_string :: "heap \<Rightarrow> pointer \<Rightarrow> nat set" where
  "reach_string = reach_ptr string_cell reach_plain"

definition reach_map :: "heap \<Rightarrow> pointer \<Rightarrow> nat set" where
  "reach_map = reach_ptr map_cell reach_plain"

lemma deep_copy_scalars [deep_copy_intros]:
  "deep_copy copy_int32 read_int32 reach_int32" "deep_copy copy_string read_string reach_string"
  "deep_copy copy_map read_map reach_map"
  unfolding copy_int32_def read_int32_def reach_int32_def copy_string_def read_string_def reach_string_def
    copy_map_def read_map_def reach_map_def
  by (intro deep_copy_intros; simp add: cell_defs)+

subsection \<open>Types without pointers\<close>

definition ServiceStatus_DeepCopyInto :: "ComputeGroupServiceStatus copier" where
  "ServiceStatus_DeepCopyInto inp h = (inp, h)"

definition ServiceStatus_DeepCopy :: "pointer copier" where
  "ServiceStatus_DeepCopy = copy_ptr service_status_cell ServiceStatusCell ServiceStatus_DeepCopyInto"

definition InstanceStatus_DeepCopyInto :: "DatafuseComputeInstanceStatus copier" where
  "InstanceStatus_DeepCopyInto inp h = (inp, h)"

definition InstanceStatus_DeepCopy :: "pointer copier" where
  "InstanceStatus_DeepCopy = copy_ptr instance_status_cell InstanceStatusCell
    InstanceStatus_DeepCopyInto"

lemma plain_DeepCopyInto: "ServiceStatus_DeepCopyInto = copy_plain" "InstanceStatus_DeepCopyInto =
  copy_plain"
  by (rule ext, rule ext, simp add: ServiceStatus_DeepCopyInto_def InstanceStatus_DeepCopyInto_def
    copy_plain_def)+

subsection \<open>DatafuseComputeInstanceSpec\<close>

definition InstanceSpec_DeepCopyInto :: "InstanceSpec_p copier" where
  "InstanceSpec_DeepCopyInto inp h0 =
     (let
       (x1, h1) = copy_string (ip_Name inp) h0;
       (x2, h2) = copy_int32 (ip_Cores inp) h1;
       (x3, h3) = copy_string (ip_CoreLimit inp) h2;
       (x4, h4) = copy_string (ip_Memory inp) h3;
       (x5, h5) = copy_string (ip_MemoryLimit inp) h4;
       (x6, h6) = copy_map (ip_Labels inp) h5;
       (x7, h7) = copy_string (ip_Image inp) h6;
       (x8, h8) = copy_string (ip_ImagePullPolicy inp) h7;
       (x9, h9) = copy_int32 (ip_Priority inp) h8;
       (x10, h10) = copy_int32 (ip_MysqlPort inp) h9;
       (x11, h11) = copy_int32 (ip_ClickhousePort inp) h10;
       (x12, h12) = copy_int32 (ip_HTTPPort inp) h11;
       (x13, h13) = copy_int32 (ip_RPCPort inp) h12;
       (x14, h14) = copy_int32 (ip_MetricsPort inp) h13
      in (inp\<lparr>ip_Name := x1, ip_Cores := x2, ip_CoreLimit := x3, ip_Memory := x4,
        ip_MemoryLimit := x5, ip_Labels := x6, ip_Image := x7, ip_ImagePullPolicy := x8,
        ip_Priority := x9, ip_MysqlPort := x10, ip_ClickhousePort := x11, ip_HTTPPort := x12,
        ip_RPCPort := x13, ip_MetricsPort := x14\<rparr>, h14))"

definition InstanceSpec_DeepCopy :: "pointer copier" where
  "InstanceSpec_DeepCopy = copy_ptr instance_spec_cell InstanceSpecCell InstanceSpec_DeepCopyInto"

definition InstanceSpec_fields :: "InstanceSpec_p \<Rightarrow> _" where
  "InstanceSpec_fields r = (ip_Name r, ip_Cores r, ip_CoreLimit r, ip_Memory r, ip_MemoryLimit r,
    ip_Labels r, ip_Image r, ip_ImagePullPolicy r, ip_Priority r, ip_MysqlPort r,
    ip_ClickhousePort r, ip_HTTPPort r, ip_RPCPort r, ip_MetricsPort r)"

definition InstanceSpec_read :: "heap \<Rightarrow> InstanceSpec_p \<Rightarrow>
  DatafuseComputeInstanceSpec option" where
  "InstanceSpec_read = read_as InstanceSpec_fields
     (\<lambda>(v1, v2, v3, v4, v5, v6, v7, v8, v9, v10, v11, v12, v13, v14). \<lparr>ci_Name =
       v1, ci_Cores = v2, ci_CoreLimit = v3, ci_Memory = v4, ci_MemoryLimit = v5, ci_Labels =
       v6, ci_Image = v7, ci_ImagePullPolicy = v8, ci_Priority = v9, ci_MysqlPort = v10,
       ci_ClickhousePort = v11, ci_HTTPPort = v12, ci_RPCPort = v13, ci_MetricsPort =
       v14\<rparr>)
     (read_pair read_string (read_pair read_int32 (read_pair read_string (read_pair read_string
       (read_pair read_string (read_pair read_map (read_pair read_string (read_pair read_string
       (read_pair read_int32 (read_pair read_int32 (read_pair read_int32 (read_pair read_int32
       (read_pair read_int32 read_int32)))))))))))))"

definition InstanceSpec_reach :: "heap \<Rightarrow> InstanceSpec_p \<Rightarrow> nat set" where
  "InstanceSpec_reach = reach_as InstanceSpec_fields
     (reach_pair reach_string (reach_pair reach_int32 (reach_pair reach_string (reach_pair
       reach_string (reach_pair reach_string (reach_pair reach_map (reach_pair reach_string
       (reach_pair reach_string (reach_pair reach_int32 (reach_pair reach_int32 (reach_pair
       reach_int32 (reach_pair reach_int32 (reach_pair reach_int32 reach_int32)))))))))))))"

lemma InstanceSpec_DeepCopyInto_as: "InstanceSpec_DeepCopyInto = copy_as InstanceSpec_fields
    (\<lambda>(v1, v2, v3, v4, v5, v6, v7, v8, v9, v10, v11, v12, v13, v14). \<lparr>ip_Name =
      v1, ip_Cores = v2, ip_CoreLimit = v3, ip_Memory = v4, ip_MemoryLimit = v5, ip_Labels = v6,
      ip_Image = v7, ip_ImagePullPolicy = v8, ip_Priority = v9, ip_MysqlPort = v10,
      ip_ClickhousePort = v11, ip_HTTPPort = v12, ip_RPCPort = v13, ip_MetricsPort =
      v14\<rparr>)
    (copy_pair copy_string (copy_pair copy_int32 (copy_pair copy_string (copy_pair copy_string
      (copy_pair copy_string (copy_pair copy_map (copy_pair copy_string (copy_pair copy_string
      (copy_pair copy_int32 (copy_pair copy_int32 (copy_pair copy_int32 (copy_pair copy_int32
      (copy_pair copy_int32 copy_int32)))))))))))))"
  by (rule ext, rule ext) (simp add: InstanceSpec_DeepCopyInto_def copy_as_def copy_pair_def
    copy_plain_def InstanceSpec_fields_def
      Let_def split_beta)

lemma deep_copy_instanceSpec: "deep_copy InstanceSpec_DeepCopyInto InstanceSpec_read InstanceSpec_reach"
  unfolding InstanceSpec_DeepCopyInto_as InstanceSpec_read_def InstanceSpec_reach_def
  by (rule deep_copy_as; (intro deep_copy_intros)?)
    (auto simp: InstanceSpec_fields_def cell_defs)

declare deep_copy_instanceSpec [deep_copy_intros]

subsection \<open>DatafuseComputeSetSpec\<close>

definition SetSpec_DeepCopyInto :: "SetSpec_p copier" where
  "SetSpec_DeepCopyInto inp h0 =
     (let
       (x1, h1) = copy_int32 (csp_Replicas inp) h0;
       (x2, h2) = InstanceSpec_DeepCopyInto (csp_Instance inp) h1
      in (inp\<lparr>csp_Replicas := x1, csp_Instance := x2\<rparr>, h2))"

definition SetSpec_DeepCopy :: "pointer copier" where
  "SetSpec_DeepCopy = copy_ptr set_spec_cell SetSpecCell SetSpec_DeepCopyInto"

definition SetSpec_fields :: "SetSpec_p \<Rightarrow> _" where
  "SetSpec_fields r = (csp_Replicas r, csp_Instance r)"

definition SetSpec_read :: "heap \<Rightarrow> SetSpec_p \<Rightarrow> DatafuseComputeSetSpec
  option" where
  "SetSpec_read = read_as SetSpec_fields
     (\<lambda>(v1, v2). \<lparr>cs_Replicas = v1, cs_Instance = v2\<rparr>)
     (read_pair read_int32 InstanceSpec_read)"

definition SetSpec_reach :: "heap \<Rightarrow> SetSpec_p \<Rightarrow> nat set" where
  "SetSpec_reach = reach_as SetSpec_fields
     (reach_pair reach_int32 InstanceSpec_reach)"

lemma SetSpec_DeepCopyInto_as: "SetSpec_DeepCopyInto = copy_as SetSpec_fields
    (\<lambda>(v1, v2). \<lparr>csp_Replicas = v1, csp_Instance = v2\<rparr>)
    (copy_pair copy_int32 InstanceSpec_DeepCopyInto)"
  by (rule ext, rule ext) (simp add: SetSpec_DeepCopyInto_def copy_as_def copy_pair_def
    copy_plain_def SetSpec_fields_def
      Let_def split_beta)

lemma deep_copy_set: "deep_copy SetSpec_DeepCopyInto SetSpec_read SetSpec_reach"
  unfolding SetSpec_DeepCopyInto_as SetSpec_read_def SetSpec_reach_def
  by (rule deep_copy_as; (intro deep_copy_intros)?)
    (auto simp: SetSpec_fields_def cell_defs)

declare deep_copy_set [deep_copy_intros]

subsection \<open>DatafuseComputeSetStatus\<close>

definition SetStatus_DeepCopyInto :: "SetStatus_p copier" where
  "SetStatus_DeepCopyInto inp h0 =
     (let
       (x1, h1) = copy_map (cssp_InstancesStatus inp) h0
      in (inp\<lparr>cssp_InstancesStatus := x1\<rparr>, h1))"

definition SetStatus_DeepCopy :: "pointer copier" where
  "SetStatus_DeepCopy = copy_ptr set_status_cell SetStatusCell SetStatus_DeepCopyInto"

definition SetStatus_fields :: "SetStatus_p \<Rightarrow> _" where
  "SetStatus_fields r = (cssp_Replicas r, cssp_Selector r, cssp_InstancesStatus r)"

definition SetStatus_read :: "heap \<Rightarrow> SetStatus_p \<Rightarrow> DatafuseComputeSetStatus
  option" where
  "SetStatus_read = read_as SetStatus_fields
     (\<lambda>(v1, v2, v3). \<lparr>css_Replicas = v1, css_Selector = v2, css_InstancesStatus
       = v3\<rparr>)
     (read_pair read_plain (read_pair read_plain read_map))"

definition SetStatus_reach :: "heap \<Rightarrow> SetStatus_p \<Rightarrow> nat set" where
  "SetStatus_reach = reach_as SetStatus_fields
     (reach_pair reach_plain (reach_pair reach_plain reach_map))"

lemma SetStatus_DeepCopyInto_as: "SetStatus_DeepCopyInto = copy_as SetStatus_fields
    (\<lambda>(v1, v2, v3). \<lparr>cssp_Replicas = v1, cssp_Selector = v2, cssp_InstancesStatus
      = v3\<rparr>)
    (copy_pair copy_plain (copy_pair copy_plain copy_map))"
  by (rule ext, rule ext) (simp add: SetStatus_DeepCopyInto_def copy_as_def copy_pair_def
    copy_plain_def SetStatus_fields_def
      Let_def split_beta)

lemma deep_copy_setStatus: "deep_copy SetStatus_DeepCopyInto SetStatus_read SetStatus_reach"
  unfolding SetStatus_DeepCopyInto_as SetStatus_read_def SetStatus_reach_def
  by (rule deep_copy_as; (intro deep_copy_intros)?)
    (auto simp: SetStatus_fields_def cell_defs)

declare deep_copy_setStatus [deep_copy_intros]

subsection \<open>DatafuseComputeGroupSpec\<close>

definition GroupSpec_DeepCopyInto :: "GroupSpec_p copier" where
  "GroupSpec_DeepCopyInto inp h0 =
     (let
       (x1, h1) = copy_ptr set_spec_cell SetSpecCell SetSpec_DeepCopyInto (gsp_ComputeLeaders inp) h0;
       (x2, h2) = copy_ptr pointer_slice PointerSlice (copy_list (copy_ptr set_spec_cell
         SetSpecCell SetSpec_DeepCopyInto)) (gsp_ComputeWorkers inp) h1
      in (inp\<lparr>gsp_ComputeLeaders := x1, gsp_ComputeWorkers := x2\<rparr>, h2))"

definition GroupSpec_DeepCopy :: "pointer copier" where
  "GroupSpec_DeepCopy = copy_ptr group_spec_cell GroupSpecCell GroupSpec_DeepCopyInto"

definition GroupSpec_fields :: "GroupSpec_p \<Rightarrow> _" where
  "GroupSpec_fields r = (gsp_ComputeLeaders r, gsp_ComputeWorkers r, gsp_Name r, gsp_Namespace r)"

definition GroupSpec_read :: "heap \<Rightarrow> GroupSpec_p \<Rightarrow> DatafuseComputeGroupSpec
  option" where
  "GroupSpec_read = read_as GroupSpec_fields
     (\<lambda>(v1, v2, v3, v4). \<lparr>gs_ComputeLeaders = v1, gs_ComputeWorkers = v2,
       gs_Name = v3, gs_Namespace = v4\<rparr>)
     (read_pair (read_ptr set_spec_cell SetSpec_read) (read_pair (read_ptr pointer_slice
       (read_list (read_ptr set_spec_cell SetSpec_read))) (read_pair read_plain read_plain)))"

definition GroupSpec_reach :: "heap \<Rightarrow> GroupSpec_p \<Rightarrow> nat set" where
  "GroupSpec_reach = reach_as GroupSpec_fields
     (reach_pair (reach_ptr set_spec_cell SetSpec_reach) (reach_pair (reach_ptr pointer_slice
       (reach_list (reach_ptr set_spec_cell SetSpec_reach))) (reach_pair reach_plain
       reach_plain)))"

lemma GroupSpec_DeepCopyInto_as: "GroupSpec_DeepCopyInto = copy_as GroupSpec_fields
    (\<lambda>(v1, v2, v3, v4). \<lparr>gsp_ComputeLeaders = v1, gsp_ComputeWorkers = v2,
      gsp_Name = v3, gsp_Namespace = v4\<rparr>)
    (copy_pair (copy_ptr set_spec_cell SetSpecCell SetSpec_DeepCopyInto) (copy_pair (copy_ptr
      pointer_slice PointerSlice (copy_list (copy_ptr set_spec_cell SetSpecCell
      SetSpec_DeepCopyInto))) (copy_pair copy_plain copy_plain)))"
  by (rule ext, rule ext) (simp add: GroupSpec_DeepCopyInto_def copy_as_def copy_pair_def
    copy_plain_def GroupSpec_fields_def
      Let_def split_beta)

lemma deep_copy_groupSpec: "deep_copy GroupSpec_DeepCopyInto GroupSpec_read GroupSpec_reach"
  unfolding GroupSpec_DeepCopyInto_as GroupSpec_read_def GroupSpec_reach_def
  by (rule deep_copy_as; (intro deep_copy_intros)?)
    (auto simp: GroupSpec_fields_def cell_defs)

declare deep_copy_groupSpec [deep_copy_intros]

subsection \<open>DatafuseComputeGroupStatus\<close>

definition GroupStatus_DeepCopyInto :: "GroupStatus_p copier" where
  "GroupStatus_DeepCopyInto inp h0 =
     (let
       (x1, h1) = copy_map (gstp_ReadyComputeLeaders inp) h0;
       (x2, h2) = copy_map (gstp_ReadyComputeWorkers inp) h1
      in (inp\<lparr>gstp_ReadyComputeLeaders := x1, gstp_ReadyComputeWorkers := x2\<rparr>, h2))"

definition GroupStatus_DeepCopy :: "pointer copier" where
  "GroupStatus_DeepCopy = copy_ptr group_status_cell GroupStatusCell GroupStatus_DeepCopyInto"

definition GroupStatus_fields :: "GroupStatus_p \<Rightarrow> _" where
  "GroupStatus_fields r = (gstp_ReadyComputeLeaders r, gstp_ReadyComputeWorkers r, gstp_Status r,
    gstp_GroupServiceStatus r)"

definition GroupStatus_read :: "heap \<Rightarrow> GroupStatus_p \<Rightarrow>
  DatafuseComputeGroupStatus option" where
  "GroupStatus_read = read_as GroupStatus_fields
     (\<lambda>(v1, v2, v3, v4). \<lparr>gst_ReadyComputeLeaders = v1, gst_ReadyComputeWorkers
       = v2, gst_Status = v3, gst_GroupServiceStatus = v4\<rparr>)
     (read_pair read_map (read_pair read_map (read_pair read_plain read_plain)))"

definition GroupStatus_reach :: "heap \<Rightarrow> GroupStatus_p \<Rightarrow> nat set" where
  "GroupStatus_reach = reach_as GroupStatus_fields
     (reach_pair reach_map (reach_pair reach_map (reach_pair reach_plain reach_plain)))"

lemma GroupStatus_DeepCopyInto_as: "GroupStatus_DeepCopyInto = copy_as GroupStatus_fields
    (\<lambda>(v1, v2, v3, v4). \<lparr>gstp_ReadyComputeLeaders = v1, gstp_ReadyComputeWorkers
      = v2, gstp_Status = v3, gstp_GroupServiceStatus = v4\<rparr>)
    (copy_pair copy_map (copy_pair copy_map (copy_pair copy_plain copy_plain)))"
  by (rule ext, rule ext) (simp add: GroupStatus_DeepCopyInto_def copy_as_def copy_pair_def
    copy_plain_def GroupStatus_fields_def
      Let_def split_beta)

lemma deep_copy_groupStatus: "deep_copy GroupStatus_DeepCopyInto GroupStatus_read GroupStatus_reach"
  unfolding GroupStatus_DeepCopyInto_as GroupStatus_read_def GroupStatus_reach_def
  by (rule deep_copy_as; (intro deep_copy_intros)?)
    (auto simp: GroupStatus_fields_def cell_defs)

declare deep_copy_groupStatus [deep_copy_intros]

subsection \<open>DatafuseComputeGroup\<close>

definition Group_DeepCopyInto :: "Group_p copier" where
  "Group_DeepCopyInto inp h0 =
     (let
       (x1, h1) = GroupSpec_DeepCopyInto (cgp_Spec inp) h0;
       (x2, h2) = GroupStatus_DeepCopyInto (cgp_Status inp) h1
      in (inp\<lparr>cgp_Spec := x1, cgp_Status := x2\<rparr>, h2))"

definition Group_DeepCopy :: "pointer copier" where
  "Group_DeepCopy = copy_ptr group_cell GroupCell Group_DeepCopyInto"

definition Group_fields :: "Group_p \<Rightarrow> _" where
  "Group_fields r = (cgp_TypeMeta r, cgp_Meta r, cgp_Spec r, cgp_Status r)"

definition Group_read :: "heap \<Rightarrow> Group_p \<Rightarrow> DatafuseComputeGroup option" where
  "Group_read = read_as Group_fields
     (\<lambda>(v1, v2, v3, v4). \<lparr>cg_TypeMeta = v1, cg_Meta = v2, cg_Spec = v3,
       cg_Status = v4\<rparr>)
     (read_pair read_plain (read_pair read_plain (read_pair GroupSpec_read GroupStatus_read)))"

definition Group_reach :: "heap \<Rightarrow> Group_p \<Rightarrow> nat set" where
  "Group_reach = reach_as Group_fields
     (reach_pair reach_plain (reach_pair reach_plain (reach_pair GroupSpec_reach GroupStatus_reach)))"

lemma Group_DeepCopyInto_as: "Group_DeepCopyInto = copy_as Group_fields
    (\<lambda>(v1, v2, v3, v4). \<lparr>cgp_TypeMeta = v1, cgp_Meta = v2, cgp_Spec = v3,
      cgp_Status = v4\<rparr>)
    (copy_pair copy_plain (copy_pair copy_plain (copy_pair GroupSpec_DeepCopyInto
      GroupStatus_DeepCopyInto)))"
  by (rule ext, rule ext) (simp add: Group_DeepCopyInto_def copy_as_def copy_pair_def
    copy_plain_def Group_fields_def
      Let_def split_beta)

lemma deep_copy_group: "deep_copy Group_DeepCopyInto Group_read Group_reach"
  unfolding Group_DeepCopyInto_as Group_read_def Group_reach_def
  by (rule deep_copy_as; (intro deep_copy_intros)?)
    (auto simp: Group_fields_def cell_defs)

declare deep_copy_group [deep_copy_intros]

subsection \<open>DatafuseComputeGroupList\<close>

definition GroupList_DeepCopyInto :: "GroupList_p copier" where
  "GroupList_DeepCopyInto inp h0 =
     (let
       (x1, h1) = copy_ptr group_slice GroupSlice (copy_list Group_DeepCopyInto) (cglp_Items inp) h0
      in (inp\<lparr>cglp_Items := x1\<rparr>, h1))"

definition GroupList_DeepCopy :: "pointer copier" where
  "GroupList_DeepCopy = copy_ptr group_list_cell GroupListCell GroupList_DeepCopyInto"

definition GroupList_fields :: "GroupList_p \<Rightarrow> _" where
  "GroupList_fields r = (cglp_TypeMeta r, cglp_ListMeta r, cglp_Items r)"

definition GroupList_read :: "heap \<Rightarrow> GroupList_p \<Rightarrow> DatafuseComputeGroupList
  option" where
  "GroupList_read = read_as GroupList_fields
     (\<lambda>(v1, v2, v3). \<lparr>cgl_TypeMeta = v1, cgl_ListMeta = v2, cgl_Items = v3\<rparr>)
     (read_pair read_plain (read_pair read_plain (read_ptr group_slice (read_list Group_read))))"

definition GroupList_reach :: "heap \<Rightarrow> GroupList_p \<Rightarrow> nat set" where
  "GroupList_reach = reach_as GroupList_fields
     (reach_pair reach_plain (reach_pair reach_plain (reach_ptr group_slice (reach_list Group_reach))))"

lemma GroupList_DeepCopyInto_as: "GroupList_DeepCopyInto = copy_as GroupList_fields
    (\<lambda>(v1, v2, v3). \<lparr>cglp_TypeMeta = v1, cglp_ListMeta = v2, cglp_Items = v3\<rparr>)
    (copy_pair copy_plain (copy_pair copy_plain (copy_ptr group_slice GroupSlice (copy_list
      Group_DeepCopyInto))))"
  by (rule ext, rule ext) (simp add: GroupList_DeepCopyInto_def copy_as_def copy_pair_def
    copy_plain_def GroupList_fields_def
      Let_def split_beta)

lemma deep_copy_groupList: "deep_copy GroupList_DeepCopyInto GroupList_read GroupList_reach"
  unfolding GroupList_DeepCopyInto_as GroupList_read_def GroupList_reach_def
  by (rule deep_copy_as; (intro deep_copy_intros)?)
    (auto simp: GroupList_fields_def cell_defs)

declare deep_copy_groupList [deep_copy_intros]

subsection \<open>DatafuseOperatorSpec\<close>

definition OperatorSpec_DeepCopyInto :: "OperatorSpec_p copier" where
  "OperatorSpec_DeepCopyInto inp h0 =
     (let
       (x1, h1) = copy_ptr pointer_slice PointerSlice (copy_list (copy_ptr group_spec_cell
         GroupSpecCell GroupSpec_DeepCopyInto)) (osp_ComputeGroups inp) h0;
       (x2, h2) = copy_string (osp_Version inp) h1
      in (inp\<lparr>osp_ComputeGroups := x1, osp_Version := x2\<rparr>, h2))"

definition OperatorSpec_DeepCopy :: "pointer copier" where
  "OperatorSpec_DeepCopy = copy_ptr operator_spec_cell OperatorSpecCell OperatorSpec_DeepCopyInto"

definition OperatorSpec_fields :: "OperatorSpec_p \<Rightarrow> _" where
  "OperatorSpec_fields r = (osp_ComputeGroups r, osp_Version r)"

definition OperatorSpec_read :: "heap \<Rightarrow> OperatorSpec_p \<Rightarrow>
  DatafuseOperatorSpec option" where
  "OperatorSpec_read = read_as OperatorSpec_fields
     (\<lambda>(v1, v2). \<lparr>os_ComputeGroups = v1, os_Version = v2\<rparr>)
     (read_pair (read_ptr pointer_slice (read_list (read_ptr group_spec_cell GroupSpec_read)))
       read_string)"

definition OperatorSpec_reach :: "heap \<Rightarrow> OperatorSpec_p \<Rightarrow> nat set" where
  "OperatorSpec_reach = reach_as OperatorSpec_fields
     (reach_pair (reach_ptr pointer_slice (reach_list (reach_ptr group_spec_cell
       GroupSpec_reach))) reach_string)"

lemma OperatorSpec_DeepCopyInto_as: "OperatorSpec_DeepCopyInto = copy_as OperatorSpec_fields
    (\<lambda>(v1, v2). \<lparr>osp_ComputeGroups = v1, osp_Version = v2\<rparr>)
    (copy_pair (copy_ptr pointer_slice PointerSlice (copy_list (copy_ptr group_spec_cell
      GroupSpecCell GroupSpec_DeepCopyInto))) copy_string)"
  by (rule ext, rule ext) (simp add: OperatorSpec_DeepCopyInto_def copy_as_def copy_pair_def
    copy_plain_def OperatorSpec_fields_def
      Let_def split_beta)

lemma deep_copy_operatorSpec: "deep_copy OperatorSpec_DeepCopyInto OperatorSpec_read OperatorSpec_reach"
  unfolding OperatorSpec_DeepCopyInto_as OperatorSpec_read_def OperatorSpec_reach_def
  by (rule deep_copy_as; (intro deep_copy_intros)?)
    (auto simp: OperatorSpec_fields_def cell_defs)

declare deep_copy_operatorSpec [deep_copy_intros]

subsection \<open>DatafuseOperatorStatus\<close>

definition OperatorStatus_DeepCopyInto :: "OperatorStatus_p copier" where
  "OperatorStatus_DeepCopyInto inp h0 =
     (let
       (x1, h1) = copy_map (ostp_ComputeGroupStates inp) h0
      in (inp\<lparr>ostp_ComputeGroupStates := x1\<rparr>, h1))"

definition OperatorStatus_DeepCopy :: "pointer copier" where
  "OperatorStatus_DeepCopy = copy_ptr operator_status_cell OperatorStatusCell
    OperatorStatus_DeepCopyInto"

definition OperatorStatus_fields :: "OperatorStatus_p \<Rightarrow> _" where
  "OperatorStatus_fields r = (ostp_ComputeGroupStates r, ostp_Status r)"

definition OperatorStatus_read :: "heap \<Rightarrow> OperatorStatus_p \<Rightarrow>
  DatafuseOperatorStatus option" where
  "OperatorStatus_read = read_as OperatorStatus_fields
     (\<lambda>(v1, v2). \<lparr>ost_ComputeGroupStates = v1, ost_Status = v2\<rparr>)
     (read_pair read_map read_plain)"

definition OperatorStatus_reach :: "heap \<Rightarrow> OperatorStatus_p \<Rightarrow> nat set" where
  "OperatorStatus_reach = reach_as OperatorStatus_fields
     (reach_pair reach_map reach_plain)"

lemma OperatorStatus_DeepCopyInto_as: "OperatorStatus_DeepCopyInto = copy_as OperatorStatus_fields
    (\<lambda>(v1, v2). \<lparr>ostp_ComputeGroupStates = v1, ostp_Status = v2\<rparr>)
    (copy_pair copy_map copy_plain)"
  by (rule ext, rule ext) (simp add: OperatorStatus_DeepCopyInto_def copy_as_def copy_pair_def
    copy_plain_def OperatorStatus_fields_def
      Let_def split_beta)

lemma deep_copy_operatorStatus: "deep_copy OperatorStatus_DeepCopyInto OperatorStatus_read
  OperatorStatus_reach"
  unfolding OperatorStatus_DeepCopyInto_as OperatorStatus_read_def OperatorStatus_reach_def
  by (rule deep_copy_as; (intro deep_copy_intros)?)
    (auto simp: OperatorStatus_fields_def cell_defs)

declare deep_copy_operatorStatus [deep_copy_intros]

subsection \<open>DatafuseOperator\<close>

definition Operator_DeepCopyInto :: "Operator_p copier" where
  "Operator_DeepCopyInto inp h0 =
     (let
       (x1, h1) = OperatorSpec_DeepCopyInto (opp_Spec inp) h0;
       (x2, h2) = OperatorStatus_DeepCopyInto (opp_Status inp) h1
      in (inp\<lparr>opp_Spec := x1, opp_Status := x2\<rparr>, h2))"

definition Operator_DeepCopy :: "pointer copier" where
  "Operator_DeepCopy = copy_ptr operator_cell OperatorCell Operator_DeepCopyInto"

definition Operator_fields :: "Operator_p \<Rightarrow> _" where
  "Operator_fields r = (opp_TypeMeta r, opp_Meta r, opp_Spec r, opp_Status r)"

definition Operator_read :: "heap \<Rightarrow> Operator_p \<Rightarrow> DatafuseOperator option" where
  "Operator_read = read_as Operator_fields
     (\<lambda>(v1, v2, v3, v4). \<lparr>op_TypeMeta = v1, op_Meta = v2, op_Spec = v3,
       op_Status = v4\<rparr>)
     (read_pair read_plain (read_pair read_plain (read_pair OperatorSpec_read OperatorStatus_read)))"

definition Operator_reach :: "heap \<Rightarrow> Operator_p \<Rightarrow> nat set" where
  "Operator_reach = reach_as Operator_fields
     (reach_pair reach_plain (reach_pair reach_plain (reach_pair OperatorSpec_reach
       OperatorStatus_reach)))"

lemma Operator_DeepCopyInto_as: "Operator_DeepCopyInto = copy_as Operator_fields
    (\<lambda>(v1, v2, v3, v4). \<lparr>opp_TypeMeta = v1, opp_Meta = v2, opp_Spec = v3,
      opp_Status = v4\<rparr>)
    (copy_pair copy_plain (copy_pair copy_plain (copy_pair OperatorSpec_DeepCopyInto
      OperatorStatus_DeepCopyInto)))"
  by (rule ext, rule ext) (simp add: Operator_DeepCopyInto_def copy_as_def copy_pair_def
    copy_plain_def Operator_fields_def
      Let_def split_beta)

lemma deep_copy_operator: "deep_copy Operator_DeepCopyInto Operator_read Operator_reach"
  unfolding Operator_DeepCopyInto_as Operator_read_def Operator_reach_def
  by (rule deep_copy_as; (intro deep_copy_intros)?)
    (auto simp: Operator_fields_def cell_defs)

declare deep_copy_operator [deep_copy_intros]

subsection \<open>DatafuseOperatorList\<close>

definition OperatorList_DeepCopyInto :: "OperatorList_p copier" where
  "OperatorList_DeepCopyInto inp h0 =
     (let
       (x1, h1) = copy_ptr operator_slice OperatorSlice (copy_list Operator_DeepCopyInto)
         (oplp_Items inp) h0
      in (inp\<lparr>oplp_Items := x1\<rparr>, h1))"

definition OperatorList_DeepCopy :: "pointer copier" where
  "OperatorList_DeepCopy = copy_ptr operator_list_cell OperatorListCell OperatorList_DeepCopyInto"

definition OperatorList_fields :: "OperatorList_p \<Rightarrow> _" where
  "OperatorList_fields r = (oplp_TypeMeta r, oplp_ListMeta r, oplp_Items r)"

definition OperatorList_read :: "heap \<Rightarrow> OperatorList_p \<Rightarrow>
  DatafuseOperatorList option" where
  "OperatorList_read = read_as OperatorList_fields
     (\<lambda>(v1, v2, v3). \<lparr>opl_TypeMeta = v1, opl_ListMeta = v2, opl_Items = v3\<rparr>)
     (read_pair read_plain (read_pair read_plain (read_ptr operator_slice (read_list Operator_read))))"

definition OperatorList_reach :: "heap \<Rightarrow> OperatorList_p \<Rightarrow> nat set" where
  "OperatorList_reach = reach_as OperatorList_fields
     (reach_pair reach_plain (reach_pair reach_plain (reach_ptr operator_slice (reach_list
       Operator_reach))))"

lemma OperatorList_DeepCopyInto_as: "OperatorList_DeepCopyInto = copy_as OperatorList_fields
    (\<lambda>(v1, v2, v3). \<lparr>oplp_TypeMeta = v1, oplp_ListMeta = v2, oplp_Items = v3\<rparr>)
    (copy_pair copy_plain (copy_pair copy_plain (copy_ptr operator_slice OperatorSlice
      (copy_list Operator_DeepCopyInto))))"
  by (rule ext, rule ext) (simp add: OperatorList_DeepCopyInto_def copy_as_def copy_pair_def
    copy_plain_def OperatorList_fields_def
      Let_def split_beta)

lemma deep_copy_operatorList: "deep_copy OperatorList_DeepCopyInto OperatorList_read OperatorList_reach"
  unfolding OperatorList_DeepCopyInto_as OperatorList_read_def OperatorList_reach_def
  by (rule deep_copy_as; (intro deep_copy_intros)?)
    (auto simp: OperatorList_fields_def cell_defs)

declare deep_copy_operatorList [deep_copy_intros]

section \<open>Copies behind an interface\<close>

text \<open>\<^verbatim>\<open>DeepCopyObject\<close>: a nil copy becomes a nil \<^verbatim>\<open>runtime.Object\<close>, not an interface that holds a nil
  pointer.\<close>

datatype runtime_object =
    GroupObject nat
  | GroupListObject nat
  | OperatorObject nat
  | OperatorListObject nat

definition Group_DeepCopyObject :: "pointer \<Rightarrow> heap \<Rightarrow> runtime_object option \<times> heap" where
  "Group_DeepCopyObject inp h = (case Group_DeepCopy inp h of (c, h') \<Rightarrow>
     (case c of Some a \<Rightarrow> Some (GroupObject a) | None \<Rightarrow> None, h'))"

definition GroupList_DeepCopyObject :: "pointer \<Rightarrow> heap \<Rightarrow> runtime_object option \<times> heap" where
  "GroupList_DeepCopyObject inp h = (case GroupList_DeepCopy inp h of (c, h') \<Rightarrow>
     (case c of Some a \<Rightarrow> Some (GroupListObject a) | None \<Rightarrow> None, h'))"

definition Operator_DeepCopyObject :: "pointer \<Rightarrow> heap \<Rightarrow> runtime_object option \<times> heap" where
  "Operator_DeepCopyObject inp h = (case Operator_DeepCopy inp h of (c, h') \<Rightarrow>
     (case c of Some a \<Rightarrow> Some (OperatorObject a) | None \<Rightarrow> None, h'))"

definition OperatorList_DeepCopyObject :: "pointer \<Rightarrow> heap \<Rightarrow> runtime_object option \<times> heap" where
  "OperatorList_DeepCopyObject inp h = (case OperatorList_DeepCopy inp h of (c, h') \<Rightarrow>
     (case c of Some a \<Rightarrow> Some (OperatorListObject a) | None \<Rightarrow> None, h'))"

section \<open>The contract holds of every type\<close>

definition read_group :: "heap \<Rightarrow> pointer \<Rightarrow> DatafuseComputeGroup option option" where
  "read_group = read_ptr group_cell Group_read"

definition reach_group :: "heap \<Rightarrow> pointer \<Rightarrow> nat set" where
  "reach_group = reach_ptr group_cell Group_reach"

definition read_operator :: "heap \<Rightarrow> pointer \<Rightarrow> DatafuseOperator option option" where
  "read_operator = read_ptr operator_cell Operator_read"

definition reach_operator :: "heap \<Rightarrow> pointer \<Rightarrow> nat set" where
  "reach_operator = reach_ptr operator_cell Operator_reach"

interpretation group_copy: deep_copy Group_DeepCopy read_group reach_group
  unfolding Group_DeepCopy_def read_group_def reach_group_def
  by (intro deep_copy_intros) (simp add: cell_defs)

interpretation operator_copy: deep_copy Operator_DeepCopy read_operator reach_operator
  unfolding Operator_DeepCopy_def read_operator_def reach_operator_def
  by (intro deep_copy_intros) (simp add: cell_defs)

interpretation group_list_copy:
  deep_copy GroupList_DeepCopy "read_ptr group_list_cell GroupList_read" "reach_ptr group_list_cell GroupList_reach"
  unfolding GroupList_DeepCopy_def by (intro deep_copy_intros) (simp add: cell_defs)

interpretation operator_list_copy:
  deep_copy OperatorList_DeepCopy "read_ptr operator_list_cell OperatorList_read"
    "reach_ptr operator_list_cell OperatorList_reach"
  unfolding OperatorList_DeepCopy_def by (intro deep_copy_intros) (simp add: cell_defs)

section \<open>Properties\<close>

text \<open>C22 (safety).  A deep copy of a compute group, of whatever shape, reads as the same value as the
  original and shares no cell with it: no write through the copy, at any depth, changes the
  original that the informer's cache holds, and conversely.\<close>

theorem group_copies_are_separate:
  assumes "read_group h p = Some v" and "Group_DeepCopy p h = (p', h')"
  shows "read_group h' p' = Some v \<and> read_group h' p = Some v
    \<and> reach_group h' p \<inter> reach_group h' p' = {}
    \<and> (\<forall>a \<in> reach_group h' p'. \<forall>c. read_group (h'[a := c]) p = Some v)
    \<and> (\<forall>a \<in> reach_group h' p. \<forall>c. read_group (h'[a := c]) p' = Some v)"
  using group_copy.copy_reads [OF assms(1)] group_copy.original_in_copy [OF assms(1)]
    group_copy.separated [OF assms(1)] group_copy.original_unchanged [OF assms(1)]
    group_copy.copy_unchanged [OF assms(1)] assms(2)
  by simp

text \<open>The same for an operator, down to the instance specifications of its groups; and
  its copy as an object is nil exactly when the operator is.\<close>

theorem operator_copies_are_separate:
  assumes "read_operator h p = Some v" and "Operator_DeepCopy p h = (p', h')"
  shows "read_operator h' p' = Some v \<and> read_operator h' p = Some v
    \<and> reach_operator h' p \<inter> reach_operator h' p' = {}
    \<and> (\<forall>a \<in> reach_operator h' p'. \<forall>c. read_operator (h'[a := c]) p = Some v)
    \<and> (\<forall>a \<in> reach_operator h' p. \<forall>c. read_operator (h'[a := c]) p' = Some v)
    \<and> (fst (Operator_DeepCopyObject p h) = None \<longleftrightarrow> p = None)"
proof -
  have "p' = None \<longleftrightarrow> p = None"
    using assms by (auto simp: read_operator_def read_ptr_def Operator_DeepCopy_def copy_ptr_def
        split: option.splits prod.splits)
  then have "fst (Operator_DeepCopyObject p h) = None \<longleftrightarrow> p = None"
    using assms(2) by (cases p') (auto simp: Operator_DeepCopyObject_def)
  then show ?thesis
    using operator_copy.copy_reads [OF assms(1)] operator_copy.original_in_copy [OF assms(1)]
      operator_copy.separated [OF assms(1)] operator_copy.original_unchanged [OF assms(1)]
      operator_copy.copy_unchanged [OF assms(1)] assms(2)
    by simp
qed

section \<open>The properties at concrete inputs\<close>

text \<open>A group in memory whose status has one ready leader, and an operator with one, named, group.\<close>

definition sample_heap :: heap where
  "sample_heap =
     [MapCell [(''default/groupp1-leader'', ''READY'')],
      GroupCell \<lparr>cgp_TypeMeta = zero_TypeMeta, cgp_Meta = zero_ObjectMeta,
        cgp_Spec = \<lparr>gsp_ComputeLeaders = None, gsp_ComputeWorkers = None, gsp_Name = ''g'', gsp_Namespace = ''default''\<rparr>,
        cgp_Status = \<lparr>gstp_ReadyComputeLeaders = Some 0, gstp_ReadyComputeWorkers = None,
          gstp_Status = ''Ready'', gstp_GroupServiceStatus = \<lparr>gss_Name = ''''\<rparr>\<rparr>\<rparr>,
      GroupSpecCell \<lparr>gsp_ComputeLeaders = None, gsp_ComputeWorkers = None, gsp_Name = ''g'', gsp_Namespace = ''default''\<rparr>,
      PointerSlice [Some 2],
      OperatorCell \<lparr>opp_TypeMeta = zero_TypeMeta, opp_Meta = zero_ObjectMeta,
        opp_Spec = \<lparr>osp_ComputeGroups = Some 3, osp_Version = None\<rparr>,
        opp_Status = \<lparr>ostp_ComputeGroupStates = None, ostp_Status = ''Created''\<rparr>\<rparr>]"

lemmas heap_read_defs = read_group_def read_operator_def read_ptr_def deref_def cell_defs read_as_def read_pair_def
  read_plain_def Group_read_def Group_fields_def GroupSpec_read_def GroupSpec_fields_def GroupStatus_read_def
  GroupStatus_fields_def read_map_def Operator_read_def Operator_fields_def OperatorSpec_read_def
  OperatorSpec_fields_def OperatorStatus_read_def OperatorStatus_fields_def read_string_def

theorem group_copies_are_separate_witness:
  "\<exists>v p' h'. Group_DeepCopy (Some 1) sample_heap = (p', h') \<and> read_group h' p' = Some (Some v)
     \<and> map_get (gst_ReadyComputeLeaders (cg_Status v)) ''default/groupp1-leader'' = Some ''READY''
     \<and> (\<forall>c. read_group (h'[0 := c]) p' = Some (Some v))"
proof -
  obtain v where v: "read_group sample_heap (Some 1) = Some (Some v)"
    "map_get (gst_ReadyComputeLeaders (cg_Status v)) ''default/groupp1-leader'' = Some ''READY''"
    by (simp add: heap_read_defs sample_heap_def)
  obtain p' h' where c: "Group_DeepCopy (Some 1) sample_heap = (p', h')" by fastforce
  have "0 \<in> reach_group sample_heap (Some 1)"
    by (simp add: reach_group_def reach_ptr_def deref_def cell_defs sample_heap_def Group_reach_def reach_as_def
        reach_pair_def Group_fields_def GroupStatus_reach_def GroupStatus_fields_def reach_map_def reach_plain_def)
  then have "0 \<in> reach_group h' (Some 1)"
    using group_copy.reach_extends [OF v(1)] group_copy.copy_extends [of "Some 1" sample_heap] c by auto
  with group_copies_are_separate [OF v(1) c] v(2) c show ?thesis by auto
qed

theorem operator_copies_are_separate_witness:
  "\<exists>v p' h'. Operator_DeepCopy (Some 4) sample_heap = (p', h') \<and> read_operator h' p' = Some (Some v)
     \<and> map (map_option gs_Name) (elems (os_ComputeGroups (op_Spec v))) = [Some ''g'']"
proof -
  obtain v where v: "read_operator sample_heap (Some 4) = Some (Some v)"
    "map (map_option gs_Name) (elems (os_ComputeGroups (op_Spec v))) = [Some ''g'']"
    by (simp add: heap_read_defs sample_heap_def)
  obtain p' h' where c: "Operator_DeepCopy (Some 4) sample_heap = (p', h')" by fastforce
  from operator_copies_are_separate [OF v(1) c] v(2) c show ?thesis by auto
qed

end
