(* ===== verification/Informers.thy ===== *)
theory Informers
  imports Clientset
begin

text \<open>
  \<^verbatim>\<open>pkg/client/informers/externalversions\<close>: the shared informer factory and the informers of the two
  custom resources.  The factory is a pointer to the state \<open>factory\<close>, which its methods return
  updated; each of them holds the factory's lock, so their calls follow one another.  An informer
  of client-go is known by the arguments of \<^verbatim>\<open>cache.NewSharedIndexInformer\<close>, and \<open>f_Runs\<close> records
  the goroutines \<^verbatim>\<open>go informer.Run(stopCh)\<close>.
\<close>

section \<open>State\<close>

text \<open>\<^verbatim>\<open>reflect.TypeOf\<close> of a dynamic type, the key of the factory's maps.\<close>

datatype reflect_type =
    OperatorPtrT | OperatorValT | GroupPtrT | GroupValT | GroupListPtrT | OperatorListPtrT
  | DeploymentPtrT | ServicePtrT | PodPtrT | DeletedFinalStateUnknownT | OtherT string

fun TypeOf :: "go_obj \<Rightarrow> reflect_type" where
  "TypeOf (OperatorPtr _ _) = OperatorPtrT"
| "TypeOf (OperatorVal _) = OperatorValT"
| "TypeOf (GroupPtr _ _) = GroupPtrT"
| "TypeOf (GroupVal _) = GroupValT"
| "TypeOf (GroupListPtr _ _) = GroupListPtrT"
| "TypeOf (OperatorListPtr _ _) = OperatorListPtrT"
| "TypeOf (DeploymentPtr _ _) = DeploymentPtrT"
| "TypeOf (ServicePtr _ _) = ServicePtrT"
| "TypeOf (PodPtr _ _) = PodPtrT"
| "TypeOf (DeletedFinalStateUnknown _ _) = DeletedFinalStateUnknownT"
| "TypeOf (OtherObj t) = OtherT t"

text \<open>A list as a \<^verbatim>\<open>runtime.Object\<close>: the interface is not nil even when the pointer in it is.\<close>

datatype list_object =
    GroupListObject "DatafuseComputeGroupList option"
  | OperatorListObject "DatafuseOperatorList option"

type_synonym TweakListOptionsFunc = "ListOptions \<Rightarrow> ListOptions"

record SharedIndexInformer =
  si_ListFunc :: "ListOptions \<Rightarrow> (list_object \<times> go_error option) go"
  si_WatchFunc :: "ListOptions \<Rightarrow> (watch option \<times> go_error option) go"
  si_ObjectType :: reflect_type
  si_Resync :: int64
  si_Indexers :: "string list"

type_synonym NewInformerFunc = "DatafuseV1alpha1Interface \<Rightarrow> int64 \<Rightarrow> SharedIndexInformer"

record factory =
  f_Client :: DatafuseV1alpha1Interface
  f_Namespace :: string
  f_TweakListOptions :: "TweakListOptionsFunc option"
  f_DefaultResync :: int64
  f_CustomResync :: "reflect_type \<rightharpoonup> int64"
  f_Informers :: "reflect_type \<rightharpoonup> SharedIndexInformer"
  f_StartedInformers :: "reflect_type \<rightharpoonup> bool"
  f_Runs :: "(reflect_type \<times> SharedIndexInformer) list"

section \<open>\<^verbatim>\<open>factory.go\<close>\<close>

subsection \<open>Construction\<close>

type_synonym SharedInformerOption = "factory \<Rightarrow> factory"

text \<open>The entries of the configuration come in the order in which the runtime ranges over the map.\<close>

definition WithCustomResyncConfig :: "(go_obj \<times> int64) list \<Rightarrow> SharedInformerOption" where
  "WithCustomResyncConfig resyncConfig f =
     foldl (\<lambda>f (k, v). f\<lparr>f_CustomResync := (f_CustomResync f)(TypeOf k \<mapsto> v)\<rparr>) f resyncConfig"

definition WithTweakListOptions :: "TweakListOptionsFunc option \<Rightarrow> SharedInformerOption" where
  "WithTweakListOptions tweakListOptions f = f\<lparr>f_TweakListOptions := tweakListOptions\<rparr>"

definition WithNamespace :: "string \<Rightarrow> SharedInformerOption" where
  "WithNamespace namespace f = f\<lparr>f_Namespace := namespace\<rparr>"

definition NewSharedInformerFactoryWithOptions ::
    "DatafuseV1alpha1Interface \<Rightarrow> int64 \<Rightarrow> SharedInformerOption list \<Rightarrow> factory" where
  "NewSharedInformerFactoryWithOptions client defaultResync options =
     foldl (\<lambda>f opt. opt f)
       \<lparr>f_Client = client, f_Namespace = '''', f_TweakListOptions = None, f_DefaultResync = defaultResync,
        f_CustomResync = Map.empty, f_Informers = Map.empty, f_StartedInformers = Map.empty, f_Runs = []\<rparr>
       options"

definition NewSharedInformerFactory :: "DatafuseV1alpha1Interface \<Rightarrow> int64 \<Rightarrow> factory" where
  "NewSharedInformerFactory client defaultResync = NewSharedInformerFactoryWithOptions client defaultResync []"

definition NewFilteredSharedInformerFactory ::
    "DatafuseV1alpha1Interface \<Rightarrow> int64 \<Rightarrow> string \<Rightarrow> TweakListOptionsFunc option \<Rightarrow> factory" where
  "NewFilteredSharedInformerFactory client defaultResync namespace tweakListOptions =
     NewSharedInformerFactoryWithOptions client defaultResync
       [WithNamespace namespace, WithTweakListOptions tweakListOptions]"

subsection \<open>Starting and waiting\<close>

text \<open>\<open>ts\<close> is the order in which the runtime ranges over \<^verbatim>\<open>f.informers\<close>.\<close>

definition started :: "factory \<Rightarrow> reflect_type \<Rightarrow> bool" where
  "started f t \<longleftrightarrow> f_StartedInformers f t = Some True"

fun factory_Start :: "reflect_type list \<Rightarrow> factory \<Rightarrow> factory" where
  "factory_Start [] f = f"
| "factory_Start (t # ts) f = factory_Start ts
     (case f_Informers f t of None \<Rightarrow> f
      | Some i \<Rightarrow> if started f t then f
          else f\<lparr>f_StartedInformers := (f_StartedInformers f)(t \<mapsto> True), f_Runs := f_Runs f @ [(t, i)]\<rparr>)"

fun startedInformers :: "reflect_type list \<Rightarrow> factory \<Rightarrow> (reflect_type \<rightharpoonup> SharedIndexInformer)
    \<Rightarrow> (reflect_type \<rightharpoonup> SharedIndexInformer)" where
  "startedInformers [] f informers = informers"
| "startedInformers (t # ts) f informers = startedInformers ts f
     (case f_Informers f t of None \<Rightarrow> informers
      | Some i \<Rightarrow> if started f t then informers(t \<mapsto> i) else informers)"

fun waitLoop :: "(reflect_type \<Rightarrow> SharedIndexInformer \<Rightarrow> bool) \<Rightarrow> reflect_type list
    \<Rightarrow> (reflect_type \<rightharpoonup> SharedIndexInformer) \<Rightarrow> (reflect_type \<rightharpoonup> bool) \<Rightarrow> (reflect_type \<rightharpoonup> bool)" where
  "waitLoop synced [] informers res = res"
| "waitLoop synced (t # ts) informers res = waitLoop synced ts informers
     (case informers t of None \<Rightarrow> res | Some i \<Rightarrow> res(t \<mapsto> synced t i))"

text \<open>\<open>synced\<close> answers \<^verbatim>\<open>cache.WaitForCacheSync(stopCh, informer.HasSynced)\<close>.\<close>

definition WaitForCacheSync ::
    "(reflect_type \<Rightarrow> SharedIndexInformer \<Rightarrow> bool) \<Rightarrow> reflect_type list \<Rightarrow> factory \<Rightarrow> (reflect_type \<rightharpoonup> bool)" where
  "WaitForCacheSync synced ts f = waitLoop synced ts (startedInformers ts f Map.empty) Map.empty"

definition InformerFor :: "go_obj \<Rightarrow> NewInformerFunc \<Rightarrow> factory \<Rightarrow> SharedIndexInformer \<times> factory" where
  "InformerFor obj newFunc f =
     (let informerType = TypeOf obj
      in case f_Informers f informerType of
           Some informer \<Rightarrow> (informer, f)
         | None \<Rightarrow>
             let resyncPeriod = (case f_CustomResync f informerType of Some r \<Rightarrow> r | None \<Rightarrow> f_DefaultResync f);
                 informer = newFunc (f_Client f) resyncPeriod
             in (informer, f\<lparr>f_Informers := (f_Informers f)(informerType \<mapsto> informer)\<rparr>))"

section \<open>The informers of the resources\<close>

text \<open>
  The structs \<^verbatim>\<open>group\<close>, \<^verbatim>\<open>version\<close> and the two informers hold the same three fields; the factory, a
  pointer, is the state that \<open>Informer\<close> takes.
\<close>

record informer_scope =
  sc_Namespace :: string
  sc_TweakListOptions :: "TweakListOptionsFunc option"

definition informers_New :: "string \<Rightarrow> TweakListOptionsFunc option \<Rightarrow> informer_scope" where
  "informers_New namespace tweakListOptions =
     \<lparr>sc_Namespace = namespace, sc_TweakListOptions = tweakListOptions\<rparr>"

definition group_V1alpha1 :: "informer_scope \<Rightarrow> informer_scope" where
  "group_V1alpha1 g = informers_New (sc_Namespace g) (sc_TweakListOptions g)"

definition version_DatafuseComputeGroups :: "informer_scope \<Rightarrow> informer_scope" where
  "version_DatafuseComputeGroups v =
     \<lparr>sc_Namespace = sc_Namespace v, sc_TweakListOptions = sc_TweakListOptions v\<rparr>"

definition version_DatafuseOperators :: "informer_scope \<Rightarrow> informer_scope" where
  "version_DatafuseOperators v =
     \<lparr>sc_Namespace = sc_Namespace v, sc_TweakListOptions = sc_TweakListOptions v\<rparr>"

definition Datafuse :: "factory \<Rightarrow> informer_scope" where
  "Datafuse f = informers_New (f_Namespace f) (f_TweakListOptions f)"

definition tweak :: "TweakListOptionsFunc option \<Rightarrow> ListOptions \<Rightarrow> ListOptions" where
  "tweak tweakListOptions options = (case tweakListOptions of None \<Rightarrow> options | Some t \<Rightarrow> t options)"

subsection \<open>\<^verbatim>\<open>datafusecomputegroup.go\<close>\<close>

definition NewFilteredDatafuseComputeGroupInformer ::
    "DatafuseV1alpha1Interface \<Rightarrow> string \<Rightarrow> int64 \<Rightarrow> string list \<Rightarrow> TweakListOptionsFunc option \<Rightarrow> SharedIndexInformer" where
  "NewFilteredDatafuseComputeGroupInformer client namespace resyncPeriod indexers tweakListOptions =
     \<lparr>si_ListFunc = (\<lambda>options. bind_io (if_List (DatafuseComputeGroups client namespace) (tweak tweakListOptions options))
        (\<lambda>(l, err). ret (GroupListObject l, err))),
      si_WatchFunc = (\<lambda>options. if_Watch (DatafuseComputeGroups client namespace) (tweak tweakListOptions options)),
      si_ObjectType = TypeOf (GroupPtr 0 zero_Group), si_Resync = resyncPeriod, si_Indexers = indexers\<rparr>"

definition NewDatafuseComputeGroupInformer ::
    "DatafuseV1alpha1Interface \<Rightarrow> string \<Rightarrow> int64 \<Rightarrow> string list \<Rightarrow> SharedIndexInformer" where
  "NewDatafuseComputeGroupInformer client namespace resyncPeriod indexers =
     NewFilteredDatafuseComputeGroupInformer client namespace resyncPeriod indexers None"

definition group_defaultInformer :: "informer_scope \<Rightarrow> NewInformerFunc" where
  "group_defaultInformer f client resyncPeriod =
     NewFilteredDatafuseComputeGroupInformer client (sc_Namespace f) resyncPeriod [''namespace''] (sc_TweakListOptions f)"

definition group_Informer :: "informer_scope \<Rightarrow> factory \<Rightarrow> SharedIndexInformer \<times> factory" where
  "group_Informer f = InformerFor (GroupPtr 0 zero_Group) (group_defaultInformer f)"

subsection \<open>\<^verbatim>\<open>datafuseoperator.go\<close>\<close>

definition NewFilteredDatafuseOperatorInformer ::
    "DatafuseV1alpha1Interface \<Rightarrow> string \<Rightarrow> int64 \<Rightarrow> string list \<Rightarrow> TweakListOptionsFunc option \<Rightarrow> SharedIndexInformer" where
  "NewFilteredDatafuseOperatorInformer client namespace resyncPeriod indexers tweakListOptions =
     \<lparr>si_ListFunc = (\<lambda>options. bind_io (if_List (DatafuseOperators client namespace) (tweak tweakListOptions options))
        (\<lambda>(l, err). ret (OperatorListObject l, err))),
      si_WatchFunc = (\<lambda>options. if_Watch (DatafuseOperators client namespace) (tweak tweakListOptions options)),
      si_ObjectType = TypeOf (OperatorPtr 0 zero_Operator), si_Resync = resyncPeriod, si_Indexers = indexers\<rparr>"

definition NewDatafuseOperatorInformer ::
    "DatafuseV1alpha1Interface \<Rightarrow> string \<Rightarrow> int64 \<Rightarrow> string list \<Rightarrow> SharedIndexInformer" where
  "NewDatafuseOperatorInformer client namespace resyncPeriod indexers =
     NewFilteredDatafuseOperatorInformer client namespace resyncPeriod indexers None"

definition operator_defaultInformer :: "informer_scope \<Rightarrow> NewInformerFunc" where
  "operator_defaultInformer f client resyncPeriod =
     NewFilteredDatafuseOperatorInformer client (sc_Namespace f) resyncPeriod [''namespace''] (sc_TweakListOptions f)"

definition operator_Informer :: "informer_scope \<Rightarrow> factory \<Rightarrow> SharedIndexInformer \<times> factory" where
  "operator_Informer f = InformerFor (OperatorPtr 0 zero_Operator) (operator_defaultInformer f)"

subsection \<open>\<^verbatim>\<open>generic.go\<close>\<close>

record genericInformer =
  gi_Informer :: SharedIndexInformer
  gi_Resource :: "string \<times> string"

text \<open>The text that \<^verbatim>\<open>%v\<close> gives for a \<^verbatim>\<open>schema.GroupVersionResource\<close>.\<close>

definition gvr_String :: "gvr \<Rightarrow> string" where
  "gvr_String r = gvr_Group r @ ''/'' @ gvr_Version r @ '', Resource='' @ gvr_Resource r"

definition WithResource :: "string \<Rightarrow> gvr" where
  "WithResource resource = \<lparr>gvr_Group = fst SchemeGroupVersion, gvr_Version = snd SchemeGroupVersion,
     gvr_Resource = resource\<rparr>"

definition ForResource :: "gvr \<Rightarrow> factory \<Rightarrow> (go_error + genericInformer) \<times> factory" where
  "ForResource resource f =
     (if resource = WithResource ''datafusecomputegroups''
      then case group_Informer (version_DatafuseComputeGroups (group_V1alpha1 (Datafuse f))) f of (i, f') \<Rightarrow>
        (Inr \<lparr>gi_Informer = i, gi_Resource = (gvr_Group resource, gvr_Resource resource)\<rparr>, f')
      else if resource = WithResource ''datafuseoperators''
      then case operator_Informer (version_DatafuseOperators (group_V1alpha1 (Datafuse f))) f of (i, f') \<Rightarrow>
        (Inr \<lparr>gi_Informer = i, gi_Resource = (gvr_Group resource, gvr_Resource resource)\<rparr>, f')
      else (Inl (Errorf (''no informer found for '' @ gvr_String resource)), f))"

section \<open>The factory as a state machine\<close>

text \<open>
  A program builds a factory with the options of the package and then calls its methods in some
  order.  \<open>WaitForCacheSync\<close> changes nothing.
\<close>

inductive standard_option :: "SharedInformerOption \<Rightarrow> bool" where
  "standard_option (WithCustomResyncConfig c)"
| "standard_option (WithTweakListOptions t)"
| "standard_option (WithNamespace n)"

inductive factory_step :: "factory \<Rightarrow> factory \<Rightarrow> bool" where
  InformerFor: "factory_step f (snd (InformerFor obj newFunc f))"
| Start: "set ts = dom (f_Informers f) \<Longrightarrow> factory_step f (factory_Start ts f)"
| ForResource: "factory_step f (snd (ForResource resource f))"

inductive factory_reachable :: "factory \<Rightarrow> bool" where
  New: "(\<And>opt. opt \<in> set options \<Longrightarrow> standard_option opt)
    \<Longrightarrow> factory_reachable (NewSharedInformerFactoryWithOptions client defaultResync options)"
| Step: "factory_reachable f \<Longrightarrow> factory_step f f' \<Longrightarrow> factory_reachable f'"

inductive_cases factory_stepE: "factory_step f f'"
inductive_cases standard_optionE: "standard_option opt"

definition factory_ok :: "factory \<Rightarrow> bool" where
  "factory_ok f \<longleftrightarrow> distinct (map fst (f_Runs f)) \<and> (\<forall>t. started f t \<longleftrightarrow> t \<in> fst ` set (f_Runs f))
     \<and> (\<forall>t i. (t, i) \<in> set (f_Runs f) \<longrightarrow> f_Informers f t = Some i)"

lemma resync_config_frame:
  "f_Informers (foldl (\<lambda>f (k, v). f\<lparr>f_CustomResync := (f_CustomResync f)(TypeOf k \<mapsto> v)\<rparr>) f c) = f_Informers f
   \<and> f_StartedInformers (foldl (\<lambda>f (k, v). f\<lparr>f_CustomResync := (f_CustomResync f)(TypeOf k \<mapsto> v)\<rparr>) f c) = f_StartedInformers f
   \<and> f_Runs (foldl (\<lambda>f (k, v). f\<lparr>f_CustomResync := (f_CustomResync f)(TypeOf k \<mapsto> v)\<rparr>) f c) = f_Runs f"
  by (induction c arbitrary: f) (auto split: prod.split)

lemma standard_option_frame:
  "standard_option opt \<Longrightarrow> f_Informers (opt f) = f_Informers f
    \<and> f_StartedInformers (opt f) = f_StartedInformers f \<and> f_Runs (opt f) = f_Runs f"
  by (erule standard_optionE)
    (simp_all add: WithTweakListOptions_def WithNamespace_def WithCustomResyncConfig_def resync_config_frame)

lemma options_frame:
  "(\<And>opt. opt \<in> set opts \<Longrightarrow> standard_option opt) \<Longrightarrow>
    f_Informers (foldl (\<lambda>f opt. opt f) f opts) = f_Informers f
    \<and> f_StartedInformers (foldl (\<lambda>f opt. opt f) f opts) = f_StartedInformers f
    \<and> f_Runs (foldl (\<lambda>f opt. opt f) f opts) = f_Runs f"
proof (induction opts arbitrary: f)
  case (Cons opt opts)
  then show ?case using standard_option_frame [of opt f] by simp
qed simp

lemma InformerFor_frame:
  "f_Runs (snd (InformerFor obj newFunc f)) = f_Runs f"
  "f_StartedInformers (snd (InformerFor obj newFunc f)) = f_StartedInformers f"
  "f_Informers f t = Some i \<Longrightarrow> f_Informers (snd (InformerFor obj newFunc f)) t = Some i"
  by (auto simp: InformerFor_def Let_def split: option.split)

lemma InformerFor_ok: "factory_ok f \<Longrightarrow> factory_ok (snd (InformerFor obj newFunc f))"
  by (simp add: factory_ok_def started_def InformerFor_frame)

lemma ForResource_state:
  "(\<exists>obj newFunc. snd (ForResource r f) = snd (InformerFor obj newFunc f)) \<or> snd (ForResource r f) = f"
  unfolding ForResource_def group_Informer_def operator_Informer_def
  by (auto split: prod.split) (metis snd_conv)+

lemma factory_Start_ok: "factory_ok f \<Longrightarrow> factory_ok (factory_Start ts f)"
proof (induction ts arbitrary: f)
  case (Cons t ts)
  then show ?case by (auto simp: factory_ok_def started_def split: option.split)
qed simp

lemma factory_Start_informers: "f_Informers (factory_Start ts f) = f_Informers f"
  by (induction ts arbitrary: f) (auto split: option.split)

lemma started_mono: "started f t \<Longrightarrow> started (factory_Start ts f) t"
proof (induction ts arbitrary: f)
  case (Cons u ts)
  then show ?case by (auto simp: started_def split: option.split)
qed simp

lemma factory_Start_started:
  "t \<in> set ts \<Longrightarrow> f_Informers f t = Some i \<Longrightarrow> started (factory_Start ts f) t"
proof (induction ts arbitrary: f)
  case (Cons u ts)
  show ?case
  proof (cases "t = u")
    case True
    have "started (f\<lparr>f_StartedInformers := (f_StartedInformers f)(u \<mapsto> True), f_Runs := rs\<rparr>) u" for rs
      by (simp add: started_def)
    with True Cons.prems show ?thesis by (auto intro: started_mono)
  next
    case False
    with Cons show ?thesis by (auto split: option.split)
  qed
qed simp

lemma factory_reachable_ok: "factory_reachable f \<Longrightarrow> factory_ok f"
proof (induction rule: factory_reachable.induct)
  case (New options client defaultResync)
  then show ?case
    using options_frame [OF New] by (simp add: factory_ok_def started_def NewSharedInformerFactoryWithOptions_def)
next
  case (Step f f')
  then show ?case
    by (auto elim!: factory_stepE intro: InformerFor_ok factory_Start_ok)
      (metis ForResource_state InformerFor_ok)
qed

lemma startedInformers_run:
  "startedInformers ts f m t = (if t \<in> set ts \<and> started f t \<and> f_Informers f t \<noteq> None then f_Informers f t else m t)"
  by (induction ts arbitrary: m) (auto split: option.split)

lemma waitLoop_run:
  "waitLoop synced ts informers res t =
    (if t \<in> set ts \<and> informers t \<noteq> None then map_option (synced t) (informers t) else res t)"
  by (induction ts arbitrary: res) (auto split: option.split)

text \<open>C37 (invariant).  Whatever the order in which a program requests informers and starts the
  factory, no informer is run twice, and one that runs is the one that the factory hands out; a
  start runs every informer requested so far; and waiting for the caches asks exactly the
  informers that were started, so that one requested after the last start is not waited for.\<close>

theorem informers_run_once:
  assumes "factory_reachable f" and "set ts = dom (f_Informers f)"
  shows "distinct (map fst (f_Runs f)) \<and> (\<forall>(t, i) \<in> set (f_Runs f). f_Informers f t = Some i)
    \<and> (\<forall>t i. f_Informers f t = Some i \<longleftrightarrow> (t, i) \<in> set (f_Runs (factory_Start ts f)))
    \<and> (\<forall>t. WaitForCacheSync synced ts f t =
          (if t \<in> fst ` set (f_Runs f) then map_option (synced t) (f_Informers f t) else None))"
proof -
  note ok = factory_reachable_ok [OF assms(1)]
  note ok' = factory_Start_ok [OF ok, of ts]
  have run: "f_Informers f t = Some i \<longleftrightarrow> (t, i) \<in> set (f_Runs (factory_Start ts f))" for t i
  proof
    assume i: "f_Informers f t = Some i"
    then have "started (factory_Start ts f) t" using assms(2) by (intro factory_Start_started) auto
    then obtain j where "(t, j) \<in> set (f_Runs (factory_Start ts f))"
      using ok' by (auto simp: factory_ok_def)
    with i ok' show "(t, i) \<in> set (f_Runs (factory_Start ts f))"
      by (auto simp: factory_ok_def factory_Start_informers)
  next
    assume "(t, i) \<in> set (f_Runs (factory_Start ts f))"
    with ok' show "f_Informers f t = Some i" by (auto simp: factory_ok_def factory_Start_informers)
  qed
  have "WaitForCacheSync synced ts f t =
      (if t \<in> fst ` set (f_Runs f) then map_option (synced t) (f_Informers f t) else None)" for t
    using ok assms(2) by (auto simp: WaitForCacheSync_def waitLoop_run startedInformers_run factory_ok_def)
  with run ok show ?thesis by (auto simp: factory_ok_def)
qed


text \<open>The informer that a factory gives for the compute groups lists and watches
  them with one request each, in the factory's namespace and with the options as its filter
  changes them, resynchronises with the period set for the type or else the default one, and is the
  one that every later request for the type gets, whatever constructor the request brings.\<close>

theorem group_informer_requests:
  assumes "f_Client f = DatafuseV1alpha1 K" and "f_Informers f GroupPtrT = None"
    and "ForResource (WithResource ''datafusecomputegroups'') f = (r, f')"
  shows "\<exists>i. r = Inr \<lparr>gi_Informer = i, gi_Resource = (fst SchemeGroupVersion, ''datafusecomputegroups'')\<rparr>
    \<and> (\<forall>opts h. let opts' = tweak (f_TweakListOptions f) opts in
        snd (si_ListFunc i opts h) = h @ [Rest ((request ''GET'' (f_Namespace f) ''datafusecomputegroups'')
          \<lparr>rq_Params := Some (ListOpts opts'), rq_Timeout := Some (list_timeout opts')\<rparr>)]
        \<and> snd (si_WatchFunc i opts h) = h @ [Rest ((request ''GET'' (f_Namespace f) ''datafusecomputegroups'')
          \<lparr>rq_Params := Some (ListOpts (opts'\<lparr>lo_Watch := True\<rparr>)), rq_Timeout := Some (list_timeout opts')\<rparr>)])
    \<and> si_Resync i = (case f_CustomResync f GroupPtrT of Some d \<Rightarrow> d | None \<Rightarrow> f_DefaultResync f)
    \<and> (\<forall>a g newFunc. InformerFor (GroupPtr a g) newFunc f' = (i, f'))"
proof -
  let ?resync = "case f_CustomResync f GroupPtrT of Some d \<Rightarrow> d | None \<Rightarrow> f_DefaultResync f"
  let ?i = "NewFilteredDatafuseComputeGroupInformer (DatafuseV1alpha1 K) (f_Namespace f) ?resync [''namespace'']
    (f_TweakListOptions f)"
  have "r = Inr \<lparr>gi_Informer = ?i, gi_Resource = (fst SchemeGroupVersion, ''datafusecomputegroups'')\<rparr>"
    and "f' = f\<lparr>f_Informers := (f_Informers f)(GroupPtrT \<mapsto> ?i)\<rparr>"
    using assms by (simp_all add: ForResource_def WithResource_def group_Informer_def InformerFor_def Let_def
        group_defaultInformer_def version_DatafuseComputeGroups_def group_V1alpha1_def Datafuse_def informers_New_def)
  then show ?thesis
    by (intro exI [of _ ?i])
      (simp add: InformerFor_def Let_def NewFilteredDatafuseComputeGroupInformer_def DatafuseV1alpha1_def groups_def
        typed_group_defs io_simps split: prod.split)
qed

definition sample_factory :: factory where
  "sample_factory = NewFilteredSharedInformerFactory (DatafuseV1alpha1 ref_k8s) 30000000000 ''default''
     (Some (\<lambda>opts. opts\<lparr>lo_LabelSelector := ''app=datafuse''\<rparr>))"

lemma sample_factory_fields:
  "f_Informers sample_factory = Map.empty" "f_Client sample_factory = DatafuseV1alpha1 ref_k8s"
  "f_CustomResync sample_factory = Map.empty" "f_DefaultResync sample_factory = 30000000000"
  "f_Namespace sample_factory = ''default''" "f_Runs sample_factory = []"
  by (simp_all add: sample_factory_def NewFilteredSharedInformerFactory_def NewSharedInformerFactoryWithOptions_def
      WithNamespace_def WithTweakListOptions_def)

lemma sample_factory_reachable: "factory_reachable sample_factory"
  unfolding sample_factory_def NewFilteredSharedInformerFactory_def
  by (rule factory_reachable.New) (auto intro: standard_option.intros)

text \<open>A factory asked for the groups' informer and started once.\<close>

theorem informers_run_once_witness:
  "\<exists>f i. factory_reachable f \<and> f_Informers f GroupPtrT = Some i \<and> (GroupPtrT, i) \<in> set (f_Runs (factory_Start [GroupPtrT] f))
     \<and> WaitForCacheSync (\<lambda>_ _. True) [GroupPtrT] f GroupPtrT = None"
proof -
  let ?f = "snd (InformerFor (GroupPtr 0 zero_Group) (group_defaultInformer (Datafuse sample_factory)) sample_factory)"
  have r: "factory_reachable ?f"
    by (rule factory_reachable.Step [OF sample_factory_reachable factory_step.InformerFor])
  obtain i where i: "f_Informers ?f = [GroupPtrT \<mapsto> i]" and n: "f_Runs ?f = []"
    by (simp add: InformerFor_def Let_def sample_factory_fields)
  have "set [GroupPtrT] = dom (f_Informers ?f)" by (simp add: i)
  note once = informers_run_once [OF r this, of "\<lambda>_ _. True"]
  from once i have "(GroupPtrT, i) \<in> set (f_Runs (factory_Start [GroupPtrT] ?f))" by (metis fun_upd_same)
  moreover from once n have "WaitForCacheSync (\<lambda>_ _. True) [GroupPtrT] ?f GroupPtrT = None" by simp
  ultimately show ?thesis using r i by (metis fun_upd_same)
qed

theorem group_informer_requests_witness:
  "\<exists>g f'. ForResource (WithResource ''datafusecomputegroups'') sample_factory = (Inr g, f')
     \<and> si_Resync (gi_Informer g) = 30000000000
     \<and> snd (si_ListFunc (gi_Informer g) \<lparr>lo_LabelSelector = '''', lo_FieldSelector = '''', lo_Watch = False,
              lo_TimeoutSeconds = None\<rparr> []) \<noteq> []"
proof -
  obtain r f' where r: "ForResource (WithResource ''datafusecomputegroups'') sample_factory = (r, f')" by fastforce
  have "f_Informers sample_factory GroupPtrT = None" by (simp add: sample_factory_fields)
  from group_informer_requests [OF sample_factory_fields(2) this r] r show ?thesis
    by (auto simp: sample_factory_fields Let_def)
qed

end
