(* ===== verification/Fake_Clientset.thy ===== *)
theory Fake_Clientset
  imports Informers "HOL-Library.Monad_Syntax"
begin

text \<open>
  The registration of the custom resources with a scheme (\<^verbatim>\<open>groupversion_info.go\<close>, the \<^verbatim>\<open>init\<close> functions of
  the types, \<^verbatim>\<open>scheme/register.go\<close>, \<^verbatim>\<open>fake/register.go\<close>, \<^verbatim>\<open>main.go\<close>) and the fake clientset that the tests of
  the controllers use (\<^verbatim>\<open>clientset_generated.go\<close>).  Schemes, their builders and the object tracker are
  apimachinery and client-go: the record \<open>apimachinery\<close> holds their functions, and \<open>scheme_laws\<close> and
  \<open>tracker_laws\<close> state what they do.
\<close>

section \<open>The packages\<close>

record ('s, 'b, 't) apimachinery =
  ap_NewScheme :: 's
  ap_ObjectKinds :: "'s \<Rightarrow> reflect_type \<Rightarrow> GroupVersionKind list"
  ap_AddToGroupVersion :: "string \<times> string \<Rightarrow> 's \<Rightarrow> 's"
  ap_NewBuilder :: "string \<times> string \<Rightarrow> 'b"
  ap_Register :: "reflect_type list \<Rightarrow> 'b \<Rightarrow> 'b"
  ap_BuilderAddToScheme :: "'b \<Rightarrow> 's \<Rightarrow> go_error + 's"
  ap_BuilderKinds :: "'b \<Rightarrow> reflect_type \<Rightarrow> GroupVersionKind list"
  ap_BuilderVersion :: "'b \<Rightarrow> string \<times> string"
  ap_AddAllToScheme :: "('s \<Rightarrow> go_error + 's) list \<Rightarrow> 's \<Rightarrow> go_error + 's"
  ap_KindToResource :: "GroupVersionKind \<Rightarrow> gvr"
  ap_NewObjectTracker :: "'s \<Rightarrow> 't"
  ap_TrackerScheme :: "'t \<Rightarrow> 's"
  ap_Tracked :: "'t \<Rightarrow> gvr \<Rightarrow> string \<Rightarrow> string \<Rightarrow> go_obj option"
  ap_TrackerAdd :: "go_obj \<Rightarrow> 't \<Rightarrow> go_error + 't"
  ap_ObjectReaction :: "fake_action \<Rightarrow> 't \<Rightarrow> 't \<times> bool \<times> go_obj option \<times> go_error option"
  ap_TrackerWatch :: "'t \<Rightarrow> gvr \<Rightarrow> string \<Rightarrow> go_error + watch"

text \<open>The name of a type is its kind.\<close>

fun kind_name :: "reflect_type \<Rightarrow> string" where
  "kind_name GroupPtrT = ''DatafuseComputeGroup''"
| "kind_name OperatorPtrT = ''DatafuseOperator''"
| "kind_name GroupListPtrT = ''DatafuseComputeGroupList''"
| "kind_name OperatorListPtrT = ''DatafuseOperatorList''"
| "kind_name DeploymentPtrT = ''Deployment''"
| "kind_name ServicePtrT = ''Service''"
| "kind_name PodPtrT = ''Pod''"
| "kind_name _ = ''''"

text \<open>
  \<^verbatim>\<open>scheme.Builder.Register\<close> collects types for the builder's version; \<^verbatim>\<open>AddToScheme\<close> adds them to a scheme
  under their names; \<^verbatim>\<open>runtime.SchemeBuilder.AddToScheme\<close> applies its functions in order up to the first
  error; \<^verbatim>\<open>metav1.AddToGroupVersion\<close> adds none of the types here.
\<close>

definition scheme_laws :: "('s, 'b, 't) apimachinery \<Rightarrow> bool" where
  "scheme_laws P \<longleftrightarrow>
     (\<forall>t. ap_ObjectKinds P (ap_NewScheme P) t = [])
   \<and> (\<forall>gv s t. ap_ObjectKinds P (ap_AddToGroupVersion P gv s) t = ap_ObjectKinds P s t)
   \<and> (\<forall>gv t. ap_BuilderKinds P (ap_NewBuilder P gv) t = [] \<and> ap_BuilderVersion P (ap_NewBuilder P gv) = gv)
   \<and> (\<forall>ts b t. ap_BuilderVersion P (ap_Register P ts b) = ap_BuilderVersion P b
        \<and> ap_BuilderKinds P (ap_Register P ts b) t = ap_BuilderKinds P b t @ (if t \<in> set ts
            then [\<lparr>gvk_Group = fst (ap_BuilderVersion P b), gvk_Version = snd (ap_BuilderVersion P b), gvk_Kind = kind_name t\<rparr>] else []))
   \<and> (\<forall>b s. \<exists>s'. ap_BuilderAddToScheme P b s = Inr s' \<and> (\<forall>t. ap_ObjectKinds P s' t = ap_ObjectKinds P s t @ ap_BuilderKinds P b t))
   \<and> (\<forall>s. ap_AddAllToScheme P [] s = Inr s)
   \<and> (\<forall>f fs s. ap_AddAllToScheme P (f # fs) s = (case f s of Inl e \<Rightarrow> Inl e | Inr s' \<Rightarrow> ap_AddAllToScheme P fs s'))"

text \<open>The metadata of an object, by which a tracker files it.\<close>

fun meta_of :: "go_obj \<Rightarrow> ObjectMeta option" where
  "meta_of (OperatorPtr _ x) = Some (op_Meta x)"
| "meta_of (GroupPtr _ x) = Some (cg_Meta x)"
| "meta_of (DeploymentPtr _ x) = Some (dep_Meta x)"
| "meta_of (ServicePtr _ x) = Some (svc_Meta x)"
| "meta_of (PodPtr _ x) = Some (pod_Meta x)"
| "meta_of _ = None"

text \<open>
  An object tracker files an object that is added under the resource that it guesses from the kind of
  the object's type in its scheme, and reports an error when the type has no kind or the place is
  taken; the guess keeps the group and the version, lowers the kind and adds an \<^verbatim>\<open>s\<close>.  A read action gets
  what is filed under exactly its resource; a create action files its object there unless there is
  one.
\<close>

definition tracker_laws :: "('s, 'b, 't) apimachinery \<Rightarrow> bool" where
  "tracker_laws P \<longleftrightarrow>
     (\<forall>gvk. gvr_Group (ap_KindToResource P gvk) = gvk_Group gvk \<and> gvr_Version (ap_KindToResource P gvk) = gvk_Version gvk
        \<and> (gvk_Kind gvk = ''DatafuseComputeGroup'' \<longrightarrow> gvr_Resource (ap_KindToResource P gvk) = ''datafusecomputegroups'')
        \<and> (gvk_Kind gvk = ''DatafuseOperator'' \<longrightarrow> gvr_Resource (ap_KindToResource P gvk) = ''datafuseoperators''))
   \<and> (\<forall>s. ap_TrackerScheme P (ap_NewObjectTracker P s) = s \<and> (\<forall>r ns name. ap_Tracked P (ap_NewObjectTracker P s) r ns name = None))
   \<and> (\<forall>obj m t. meta_of obj = Some m \<longrightarrow>
        (case ap_ObjectKinds P (ap_TrackerScheme P t) (TypeOf obj) of
           [] \<Rightarrow> \<exists>e. ap_TrackerAdd P obj t = Inl e
         | [gvk] \<Rightarrow> (if ap_Tracked P t (ap_KindToResource P gvk) (om_Namespace m) (om_Name m) \<noteq> None
             then \<exists>e. ap_TrackerAdd P obj t = Inl e
             else \<exists>t'. ap_TrackerAdd P obj t = Inr t' \<and> ap_TrackerScheme P t' = ap_TrackerScheme P t
               \<and> (\<forall>r ns name. ap_Tracked P t' r ns name =
                   (if r = ap_KindToResource P gvk \<and> ns = om_Namespace m \<and> name = om_Name m then Some obj
                    else ap_Tracked P t r ns name)))
         | _ \<Rightarrow> True))
   \<and> (\<forall>r ns name t. \<exists>e. ap_ObjectReaction P (FakeGet r ns name) t = (t, True, ap_Tracked P t r ns name,
        case ap_Tracked P t r ns name of None \<Rightarrow> Some (NewNotFound e name) | Some _ \<Rightarrow> None))
   \<and> (\<forall>r ns obj m t. meta_of obj = Some m \<longrightarrow> om_Namespace m = ns \<longrightarrow> ap_Tracked P t r ns (om_Name m) = None \<longrightarrow>
        (\<exists>t'. ap_ObjectReaction P (FakeCreate r ns obj) t = (t', True, Some obj, None)
          \<and> (\<forall>r' ns' name. ap_Tracked P t' r' ns' name = (if r' = r \<and> ns' = ns \<and> name = om_Name m then Some obj
              else ap_Tracked P t r' ns' name))))"

section \<open>Schemes\<close>

text \<open>The \<^verbatim>\<open>init\<close> functions of the types, which Go runs in the order of their files.\<close>

definition group_init :: "('s, 'b, 't) apimachinery \<Rightarrow> 'b \<Rightarrow> 'b" where
  "group_init P = ap_Register P [GroupPtrT, GroupListPtrT]"

definition operator_init :: "('s, 'b, 't) apimachinery \<Rightarrow> 'b \<Rightarrow> 'b" where
  "operator_init P = ap_Register P [OperatorPtrT, OperatorListPtrT]"

definition GroupVersion :: "string \<times> string" where
  "GroupVersion = (''datafuse.datafuselabs.io'', ''v1alpha1'')"

definition SchemeBuilder :: "('s, 'b, 't) apimachinery \<Rightarrow> 'b" where
  "SchemeBuilder P = operator_init P (group_init P (ap_NewBuilder P GroupVersion))"

definition v1alpha1_AddToScheme :: "('s, 'b, 't) apimachinery \<Rightarrow> 's \<Rightarrow> go_error + 's" where
  "v1alpha1_AddToScheme P = ap_BuilderAddToScheme P (SchemeBuilder P)"

text \<open>\<^verbatim>\<open>utilruntime.Must\<close> panics (\<open>None\<close>) on an error.\<close>

definition Must :: "go_error + 's \<Rightarrow> 's option" where
  "Must r = (case r of Inl e \<Rightarrow> None | Inr s \<Rightarrow> Some s)"

definition AddToScheme :: "('s, 'b, 't) apimachinery \<Rightarrow> 's \<Rightarrow> go_error + 's" where
  "AddToScheme P = ap_AddAllToScheme P [v1alpha1_AddToScheme P]"

definition clientset_Scheme :: "('s, 'b, 't) apimachinery \<Rightarrow> 's option" where
  "clientset_Scheme P = Must (AddToScheme P (ap_AddToGroupVersion P ('''', ''v1'') (ap_NewScheme P)))"

definition fake_AddToScheme :: "('s, 'b, 't) apimachinery \<Rightarrow> 's \<Rightarrow> go_error + 's" where
  "fake_AddToScheme P = ap_AddAllToScheme P [v1alpha1_AddToScheme P]"

definition fake_scheme :: "('s, 'b, 't) apimachinery \<Rightarrow> 's option" where
  "fake_scheme P = Must (fake_AddToScheme P (ap_AddToGroupVersion P ('''', ''v1'') (ap_NewScheme P)))"

text \<open>\<open>clientgo\<close> is \<^verbatim>\<open>clientgoscheme.AddToScheme\<close>.\<close>

definition main_scheme :: "('s, 'b, 't) apimachinery \<Rightarrow> ('s \<Rightarrow> go_error + 's) \<Rightarrow> 's option" where
  "main_scheme P clientgo = do { s \<leftarrow> Must (clientgo (ap_NewScheme P)); Must (v1alpha1_AddToScheme P s) }"

text \<open>The kinds that the registration gives to a type.\<close>

definition resource_kinds :: "reflect_type \<Rightarrow> GroupVersionKind list" where
  "resource_kinds t = (if t \<in> {GroupPtrT, GroupListPtrT, OperatorPtrT, OperatorListPtrT} then [WithKind (kind_name t)] else [])"

lemma scheme_lawsD:
  assumes "scheme_laws P"
  shows "ap_BuilderKinds P (ap_NewBuilder P gv) t = []" and "ap_BuilderVersion P (ap_NewBuilder P gv) = gv"
    and "ap_BuilderVersion P (ap_Register P ts b) = ap_BuilderVersion P b"
    and "ap_BuilderKinds P (ap_Register P ts b) t = ap_BuilderKinds P b t @ (if t \<in> set ts
      then [\<lparr>gvk_Group = fst (ap_BuilderVersion P b), gvk_Version = snd (ap_BuilderVersion P b), gvk_Kind = kind_name t\<rparr>] else [])"
  using assms unfolding scheme_laws_def by blast+

lemma builder_kinds:
  assumes "scheme_laws P"
  shows "ap_BuilderKinds P (SchemeBuilder P) t = resource_kinds t"
  by (auto simp: SchemeBuilder_def GroupVersion_def SchemeGroupVersion_def group_init_def operator_init_def scheme_lawsD [OF assms]
      resource_kinds_def WithKind_def)

lemma add_to_scheme:
  assumes "scheme_laws P"
  shows "\<exists>s'. v1alpha1_AddToScheme P s = Inr s' \<and> (\<forall>t. ap_ObjectKinds P s' t = ap_ObjectKinds P s t @ resource_kinds t)"
proof -
  from assms have "\<exists>s'. ap_BuilderAddToScheme P (SchemeBuilder P) s = Inr s'
      \<and> (\<forall>t. ap_ObjectKinds P s' t = ap_ObjectKinds P s t @ ap_BuilderKinds P (SchemeBuilder P) t)"
    unfolding scheme_laws_def by blast
  then show ?thesis by (simp add: v1alpha1_AddToScheme_def builder_kinds [OF assms])
qed

lemma schemes_register:
  assumes "scheme_laws P"
  shows "\<exists>s. clientset_Scheme P = Some s \<and> (\<forall>t. ap_ObjectKinds P s t = resource_kinds t)"
    and "\<exists>s. fake_scheme P = Some s \<and> (\<forall>t. ap_ObjectKinds P s t = resource_kinds t)"
proof -
  let ?s = "ap_AddToGroupVersion P ('''', ''v1'') (ap_NewScheme P)"
  obtain s where s: "v1alpha1_AddToScheme P ?s = Inr s" "\<forall>t. ap_ObjectKinds P s t = ap_ObjectKinds P ?s t @ resource_kinds t"
    using add_to_scheme [OF assms] by blast
  have "ap_ObjectKinds P ?s t = []" for t using assms by (simp add: scheme_laws_def)
  moreover have "ap_AddAllToScheme P [v1alpha1_AddToScheme P] ?s = Inr s" using assms s(1) by (simp add: scheme_laws_def)
  ultimately show "\<exists>s. clientset_Scheme P = Some s \<and> (\<forall>t. ap_ObjectKinds P s t = resource_kinds t)"
    and "\<exists>s. fake_scheme P = Some s \<and> (\<forall>t. ap_ObjectKinds P s t = resource_kinds t)"
    using s(2) by (simp_all add: clientset_Scheme_def AddToScheme_def fake_scheme_def fake_AddToScheme_def Must_def)
qed

section \<open>The fake clientset\<close>

text \<open>
  A reactor has a verb and a resource that it is for, a watch reactor a resource, \<^verbatim>\<open>*\<close> being any; the tracker, to which the clientset
  holds a pointer, is a state that a reaction returns.
\<close>

type_synonym 't reactor = "fake_action \<Rightarrow> 't \<Rightarrow> 't \<times> bool \<times> go_obj option \<times> go_error option"
type_synonym 't watch_reactor = "fake_action \<Rightarrow> 't \<Rightarrow> bool \<times> watch option \<times> go_error option"

record 't fake_clientset =
  fc_ReactionChain :: "(string \<times> string \<times> 't reactor) list"
  fc_WatchReactionChain :: "(string \<times> 't watch_reactor) list"
  fc_tracker :: 't

fun action_resource :: "fake_action \<Rightarrow> gvr \<times> string" where
  "action_resource (FakeGet r ns _) = (r, ns)"
| "action_resource (FakeList r ns _) = (r, ns)"
| "action_resource (FakeWatch r ns _) = (r, ns)"
| "action_resource (FakeCreate r ns _) = (r, ns)"
| "action_resource (FakeUpdate r ns _) = (r, ns)"
| "action_resource (FakeUpdateSubresource r _ ns _) = (r, ns)"
| "action_resource (FakeDelete r ns _) = (r, ns)"
| "action_resource (FakeDeleteCollection r ns _) = (r, ns)"
| "action_resource (FakePatch r ns _ _ _ _) = (r, ns)"

definition watch_reaction :: "('s, 'b, 't) apimachinery \<Rightarrow> 't watch_reactor" where
  "watch_reaction P action o' = (case action_resource action of (gvr, ns) \<Rightarrow>
     (case ap_TrackerWatch P o' gvr ns of Inl err \<Rightarrow> (False, None, Some err) | Inr w \<Rightarrow> (True, Some w, None)))"

fun add_objects :: "('s, 'b, 't) apimachinery \<Rightarrow> go_obj list \<Rightarrow> 't \<Rightarrow> 't option" where
  "add_objects P [] o' = Some o'"
| "add_objects P (obj # objects) o' = (case ap_TrackerAdd P obj o' of Inl err \<Rightarrow> None
     | Inr o'' \<Rightarrow> add_objects P objects o'')"

definition NewSimpleClientset :: "('s, 'b, 't) apimachinery \<Rightarrow> go_obj list \<Rightarrow> 't fake_clientset option" where
  "NewSimpleClientset P objects = do {
     scheme \<leftarrow> fake_scheme P;
     o' \<leftarrow> add_objects P objects (ap_NewObjectTracker P scheme);
     Some \<lparr>fc_ReactionChain = [(''*'', ''*'', ap_ObjectReaction P)],
       fc_WatchReactionChain = [(''*'', watch_reaction P)], fc_tracker = o'\<rparr> }"

definition fake_Tracker :: "'t fake_clientset \<Rightarrow> 't" where
  "fake_Tracker c = fc_tracker c"

text \<open>\<open>cs.DatafuseV1alpha1()\<close>: the fake typed client over the clientset's \<^verbatim>\<open>testing.Fake\<close>.\<close>

definition fake_DatafuseV1alpha1 :: "k8s \<Rightarrow> DatafuseV1alpha1Interface" where
  "fake_DatafuseV1alpha1 K = FakeDatafuseV1alpha1 K"

text \<open>
  \<^verbatim>\<open>testing.Fake.Invokes\<close> asks the reactors in order, and the first that is for the action and handles it
  answers; \<open>backed\<close> says that a \<open>k8s\<close> answers actions in this way.
\<close>

definition action_verb :: "fake_action \<Rightarrow> string" where
  "action_verb a = (case a of FakeGet _ _ _ \<Rightarrow> ''get'' | FakeList _ _ _ \<Rightarrow> ''list'' | FakeWatch _ _ _ \<Rightarrow> ''watch''
     | FakeCreate _ _ _ \<Rightarrow> ''create'' | FakeUpdate _ _ _ \<Rightarrow> ''update'' | FakeUpdateSubresource _ _ _ _ \<Rightarrow> ''update''
     | FakeDelete _ _ _ \<Rightarrow> ''delete'' | FakeDeleteCollection _ _ _ \<Rightarrow> ''delete-collection'' | FakePatch _ _ _ _ _ _ \<Rightarrow> ''patch'')"

definition is_for :: "string \<Rightarrow> string \<Rightarrow> fake_action \<Rightarrow> bool" where
  "is_for verb resource a \<longleftrightarrow> (verb = ''*'' \<or> verb = action_verb a) \<and> (resource = ''*'' \<or> resource = gvr_Resource (fst (action_resource a)))"

lemma is_for_any [simp]: "is_for ''*'' ''*'' a"
  by (simp add: is_for_def)

fun chain :: "(string \<times> string \<times> 't reactor) list \<Rightarrow> fake_action \<Rightarrow> go_obj \<Rightarrow> 't \<Rightarrow> 't \<times> go_obj option \<times> go_error option" where
  "chain [] a dflt t = (t, Some dflt, None)"
| "chain ((verb, resource, r) # rs) a dflt t =
     (if \<not> is_for verb resource a then chain rs a dflt t
      else case r a t of (t', handled, obj, err) \<Rightarrow> if handled then (t', obj, err) else chain rs a dflt t')"

fun tracker_step :: "'t fake_clientset \<Rightarrow> call \<Rightarrow> 't \<Rightarrow> 't" where
  "tracker_step cs (Invokes a) t = fst (chain (fc_ReactionChain cs) a (OtherObj '''') t)"
| "tracker_step cs _ t = t"

definition tracker_at :: "'t fake_clientset \<Rightarrow> call list \<Rightarrow> 't" where
  "tracker_at cs h = fold (tracker_step cs) h (fc_tracker cs)"

definition backed :: "k8s \<Rightarrow> 't fake_clientset \<Rightarrow> bool" where
  "backed K cs \<longleftrightarrow> (\<forall>h a dflt. k_invokes K h a dflt = snd (chain (fc_ReactionChain cs) a dflt (tracker_at cs h)))"

subsection \<open>Where the tracker files objects\<close>

lemma tracker_lawsD:
  assumes "tracker_laws P"
  shows "gvr_Group (ap_KindToResource P gvk) = gvk_Group gvk"
    and "ap_TrackerScheme P (ap_NewObjectTracker P s) = s" and "ap_Tracked P (ap_NewObjectTracker P s) r ns name = None"
    and "\<exists>e. ap_ObjectReaction P (FakeGet r ns name) t = (t, True, ap_Tracked P t r ns name,
        case ap_Tracked P t r ns name of None \<Rightarrow> Some (NewNotFound e name) | Some _ \<Rightarrow> None)"
  using assms by (simp_all add: tracker_laws_def)

lemma tracker_add:
  assumes "tracker_laws P" and "meta_of obj = Some m" and "ap_ObjectKinds P (ap_TrackerScheme P t) (TypeOf obj) = [gvk]"
    and "ap_Tracked P t (ap_KindToResource P gvk) (om_Namespace m) (om_Name m) = None"
  shows "\<exists>t'. ap_TrackerAdd P obj t = Inr t' \<and> ap_TrackerScheme P t' = ap_TrackerScheme P t
    \<and> (\<forall>r ns name. ap_Tracked P t' r ns name = (if r = ap_KindToResource P gvk \<and> ns = om_Namespace m \<and> name = om_Name m
        then Some obj else ap_Tracked P t r ns name))"
proof -
  from assms(1,2) have "case ap_ObjectKinds P (ap_TrackerScheme P t) (TypeOf obj) of
           [] \<Rightarrow> \<exists>e. ap_TrackerAdd P obj t = Inl e
         | [gvk] \<Rightarrow> (if ap_Tracked P t (ap_KindToResource P gvk) (om_Namespace m) (om_Name m) \<noteq> None
             then \<exists>e. ap_TrackerAdd P obj t = Inl e
             else \<exists>t'. ap_TrackerAdd P obj t = Inr t' \<and> ap_TrackerScheme P t' = ap_TrackerScheme P t
               \<and> (\<forall>r ns name. ap_Tracked P t' r ns name =
                   (if r = ap_KindToResource P gvk \<and> ns = om_Namespace m \<and> name = om_Name m then Some obj
                    else ap_Tracked P t r ns name)))
         | _ \<Rightarrow> True"
    unfolding tracker_laws_def by blast
  then show ?thesis by (simp add: assms(3,4))
qed

lemma tracker_create:
  assumes "tracker_laws P" and "meta_of obj = Some m" and "ap_Tracked P t r (om_Namespace m) (om_Name m) = None"
  shows "\<exists>t'. ap_ObjectReaction P (FakeCreate r (om_Namespace m) obj) t = (t', True, Some obj, None)
    \<and> ap_Tracked P t' r (om_Namespace m) (om_Name m) = Some obj"
proof -
  from assms have "\<exists>t'. ap_ObjectReaction P (FakeCreate r (om_Namespace m) obj) t = (t', True, Some obj, None)
      \<and> (\<forall>r' ns' name. ap_Tracked P t' r' ns' name = (if r' = r \<and> ns' = om_Namespace m \<and> name = om_Name m then Some obj
          else ap_Tracked P t r' ns' name))"
    unfolding tracker_laws_def by blast
  then show ?thesis by auto
qed

text \<open>A custom resource has a place of its own in the tracker: the resource of its kind, its namespace and its name.\<close>

fun custom_resource :: "go_obj \<Rightarrow> bool" where
  "custom_resource (GroupPtr _ _) = True"
| "custom_resource (OperatorPtr _ _) = True"
| "custom_resource _ = False"

definition place_of :: "go_obj \<Rightarrow> reflect_type \<times> (string \<times> string) option" where
  "place_of obj = (TypeOf obj, map_option (\<lambda>m. (om_Namespace m, om_Name m)) (meta_of obj))"

definition place_tracked :: "('s, 'b, 't) apimachinery \<Rightarrow> 't \<Rightarrow> go_obj \<Rightarrow> go_obj option" where
  "place_tracked P t obj = (case meta_of obj of None \<Rightarrow> None
     | Some m \<Rightarrow> ap_Tracked P t (ap_KindToResource P (WithKind (kind_name (TypeOf obj)))) (om_Namespace m) (om_Name m))"

lemma custom_resource_kinds:
  assumes "custom_resource obj"
  shows "resource_kinds (TypeOf obj) = [WithKind (kind_name (TypeOf obj))]" and "meta_of obj \<noteq> None"
  using assms by (cases obj; simp add: resource_kinds_def)+

lemma same_resource:
  assumes "tracker_laws P" and "custom_resource x" and "custom_resource y"
    and "ap_KindToResource P (WithKind (kind_name (TypeOf x))) = ap_KindToResource P (WithKind (kind_name (TypeOf y)))"
  shows "TypeOf x = TypeOf y"
proof -
  have "gvr_Resource (ap_KindToResource P (WithKind ''DatafuseComputeGroup'')) = ''datafusecomputegroups''"
    and "gvr_Resource (ap_KindToResource P (WithKind ''DatafuseOperator'')) = ''datafuseoperators''"
    using assms(1) by (simp_all add: tracker_laws_def WithKind_def)
  with assms(2-) show ?thesis
    by (cases x; cases y) (auto dest!: arg_cong [where f = gvr_Resource])
qed

lemma add_objects_files:
  assumes "tracker_laws P" and "list_all custom_resource objects" and "ap_ObjectKinds P (ap_TrackerScheme P t) = resource_kinds"
    and "distinct (map place_of objects)" and "\<forall>obj \<in> set objects. place_tracked P t obj = None"
  shows "\<exists>t'. add_objects P objects t = Some t'
    \<and> (\<forall>r ns name. gvr_Group r \<noteq> fst SchemeGroupVersion \<longrightarrow> ap_Tracked P t' r ns name = ap_Tracked P t r ns name)
    \<and> (\<forall>obj \<in> set objects. place_tracked P t' obj = Some obj)
    \<and> (\<forall>x. custom_resource x \<longrightarrow> place_of x \<notin> set (map place_of objects) \<longrightarrow> place_tracked P t' x = place_tracked P t x)"
  using assms(2-)
proof (induction objects arbitrary: t)
  case (Cons obj objects)
  then obtain m where obj: "custom_resource obj" "meta_of obj = Some m"
    using custom_resource_kinds(2) [of obj] by auto
  let ?r = "ap_KindToResource P (WithKind (kind_name (TypeOf obj)))"
  have "ap_ObjectKinds P (ap_TrackerScheme P t) (TypeOf obj) = [WithKind (kind_name (TypeOf obj))]"
    using Cons.prems(2) custom_resource_kinds(1) [OF obj(1)] by simp
  moreover have "ap_Tracked P t ?r (om_Namespace m) (om_Name m) = None"
    using Cons.prems(4) obj(2) by (simp add: place_tracked_def)
  ultimately obtain t1 where t1: "ap_TrackerAdd P obj t = Inr t1" "ap_TrackerScheme P t1 = ap_TrackerScheme P t"
    "\<forall>r ns name. ap_Tracked P t1 r ns name = (if r = ?r \<and> ns = om_Namespace m \<and> name = om_Name m
        then Some obj else ap_Tracked P t r ns name)"
    using tracker_add [OF assms(1) obj(2)] by blast
  have other: "place_tracked P t1 x = place_tracked P t x" if "custom_resource x" "place_of x \<noteq> place_of obj" for x
    using that t1(3) obj(2) same_resource [OF assms(1) that(1) obj(1)]
    by (auto simp: place_tracked_def place_of_def split: option.splits)
  have here: "place_tracked P t1 obj = Some obj" using t1(3) obj(2) by (simp add: place_tracked_def)
  have "\<forall>x \<in> set objects. place_tracked P t1 x = None"
    using Cons.prems(1,3,4) other by (auto simp: list_all_iff image_iff)
  then obtain t' where t': "add_objects P objects t1 = Some t'"
    "\<forall>r ns name. gvr_Group r \<noteq> fst SchemeGroupVersion \<longrightarrow> ap_Tracked P t' r ns name = ap_Tracked P t1 r ns name"
    "\<forall>obj \<in> set objects. place_tracked P t' obj = Some obj"
    "\<forall>x. custom_resource x \<longrightarrow> place_of x \<notin> set (map place_of objects) \<longrightarrow> place_tracked P t' x = place_tracked P t1 x"
    using Cons.IH [of t1] Cons.prems t1(2) by auto
  have "gvr_Group ?r = fst SchemeGroupVersion"
    by (simp add: tracker_lawsD [OF assms(1)] WithKind_def)
  moreover have "place_tracked P t' obj = Some obj"
    using t'(4) obj(1) Cons.prems(3) here by simp
  ultimately show ?case using t' t1(1,3) other by (intro exI [of _ t']) auto
qed simp

subsection \<open>The typed client over the tracker\<close>

definition clientset_over :: "('s, 'b, 't) apimachinery \<Rightarrow> 't \<Rightarrow> 't fake_clientset" where
  "clientset_over P t = \<lparr>fc_ReactionChain = [(''*'', ''*'', ap_ObjectReaction P)],
     fc_WatchReactionChain = [(''*'', watch_reaction P)], fc_tracker = t\<rparr>"

lemma chain_over:
  assumes "fst (snd (ap_ObjectReaction P a t'))"
  shows "chain (fc_ReactionChain (clientset_over P t)) a dflt t' = (case ap_ObjectReaction P a t' of (t'', _, obj, err) \<Rightarrow> (t'', obj, err))"
  using assms by (auto simp: clientset_over_def split: prod.split)

lemmas fake_client_defs = fake_DatafuseV1alpha1_def FakeDatafuseV1alpha1_def fake_group_defs invokes_def io_simps

lemma fake_lookup_misses:
  assumes "tracker_laws P" and "backed K (clientset_over P t)" and "ap_Tracked P t datafusecomputegroupsResource ns name = None"
  shows "\<exists>e. if_Get (DatafuseComputeGroups (fake_DatafuseV1alpha1 K) ns) name opts [] =
    (Some (None, Some (NewNotFound e name)), [Invokes (FakeGet datafusecomputegroupsResource ns name)])"
proof -
  let ?get = "FakeGet datafusecomputegroupsResource ns name"
  obtain e where "ap_ObjectReaction P ?get t = (t, True, None, Some (NewNotFound e name))"
    using tracker_lawsD(4) [OF assms(1), of datafusecomputegroupsResource ns name t] assms(3) by auto
  with assms(2) chain_over [of P ?get t] show ?thesis
    by (intro exI [of _ e]) (simp add: backed_def tracker_at_def fake_client_defs clientset_over_def)
qed

lemma fake_created_found:
  assumes "tracker_laws P" and "backed K (clientset_over P t)"
    and "ap_Tracked P t datafusecomputegroupsResource (om_Namespace (cg_Meta g)) (om_Name (cg_Meta g)) = None"
  shows "\<exists>h. if_Create (DatafuseComputeGroups (fake_DatafuseV1alpha1 K) (om_Namespace (cg_Meta g))) g opts [] = (Some (Some g, None), h)
    \<and> fst (if_Get (DatafuseComputeGroups (fake_DatafuseV1alpha1 K) (om_Namespace (cg_Meta g))) (om_Name (cg_Meta g)) opts' h) = Some (Some g, None)"
proof -
  let ?R = datafusecomputegroupsResource and ?ns = "om_Namespace (cg_Meta g)" and ?name = "om_Name (cg_Meta g)"
  let ?create = "FakeCreate ?R ?ns (GroupPtr 0 g)" and ?cs = "clientset_over P t"
  obtain t' where t': "ap_ObjectReaction P ?create t = (t', True, Some (GroupPtr 0 g), None)" "ap_Tracked P t' ?R ?ns ?name = Some (GroupPtr 0 g)"
    using tracker_create [OF assms(1), of "GroupPtr 0 g" "cg_Meta g" t ?R] assms(3) by auto
  have get: "ap_ObjectReaction P (FakeGet ?R ?ns ?name) t' = (t', True, Some (GroupPtr 0 g), None)"
    using tracker_lawsD(4) [OF assms(1), of ?R ?ns ?name t'] t'(2) by auto
  have "tracker_at ?cs [] = t" by (simp add: tracker_at_def clientset_over_def)
  then have "k_invokes K [] ?create x = (Some (GroupPtr 0 g), None)" for x
    using assms(2) chain_over [of P ?create t] t'(1) by (simp add: backed_def)
  moreover have "tracker_at ?cs [Invokes ?create] = t'"
    using chain_over [of P ?create t t] t'(1) by (simp add: tracker_at_def) (simp add: clientset_over_def)
  then have "k_invokes K [Invokes ?create] (FakeGet ?R ?ns ?name) x = (Some (GroupPtr 0 g), None)" for x
    using assms(2) chain_over [of P "FakeGet ?R ?ns ?name" t'] get by (simp add: backed_def)
  ultimately show ?thesis by (simp add: fake_client_defs)
qed

section \<open>Properties\<close>

text \<open>C38 (functional).  The fake clientset does not see the objects that it is made with: it files a custom
  resource under the API group of its kind, \<^verbatim>\<open>datafuse.datafuselabs.io\<close>, while the fake client reads
  and writes under the group \<^verbatim>\<open>datafuse\<close>.  Every lookup of a group misses, whatever the objects are,
  although the tracker holds them; a group that is created through the fake client is found.\<close>

theorem preloaded_objects_invisible:
  assumes "scheme_laws P" and "tracker_laws P" and "list_all custom_resource objects"
    and "distinct (map place_of objects)"
  shows "\<exists>cs. NewSimpleClientset P objects = Some cs
    \<and> (\<forall>a g. GroupPtr a g \<in> set objects \<longrightarrow> ap_Tracked P (fake_Tracker cs)
          (ap_KindToResource P (WithKind ''DatafuseComputeGroup'')) (om_Namespace (cg_Meta g)) (om_Name (cg_Meta g)) = Some (GroupPtr a g))
    \<and> (\<forall>K. backed K cs \<longrightarrow>
        (\<forall>ns name opts. \<exists>e. if_Get (DatafuseComputeGroups (fake_DatafuseV1alpha1 K) ns) name opts [] =
           (Some (None, Some (NewNotFound e name)), [Invokes (FakeGet datafusecomputegroupsResource ns name)]))
      \<and> (\<forall>g opts opts'. \<exists>h. if_Create (DatafuseComputeGroups (fake_DatafuseV1alpha1 K) (om_Namespace (cg_Meta g))) g opts [] = (Some (Some g, None), h)
           \<and> fst (if_Get (DatafuseComputeGroups (fake_DatafuseV1alpha1 K) (om_Namespace (cg_Meta g))) (om_Name (cg_Meta g)) opts' h) = Some (Some g, None)))"
proof -
  let ?R = datafusecomputegroupsResource
  obtain s where s: "fake_scheme P = Some s" "ap_ObjectKinds P s = resource_kinds"
    using schemes_register(2) [OF assms(1)] by (auto simp: fun_eq_iff)
  have fresh: "place_tracked P (ap_NewObjectTracker P s) obj = None" for obj
    by (simp add: place_tracked_def tracker_lawsD [OF assms(2)] split: option.split)
  obtain t where t: "add_objects P objects (ap_NewObjectTracker P s) = Some t"
    "\<forall>r ns name. gvr_Group r \<noteq> fst SchemeGroupVersion \<longrightarrow> ap_Tracked P t r ns name = None"
    "\<forall>obj \<in> set objects. place_tracked P t obj = Some obj"
    using add_objects_files [OF assms(2,3) _ assms(4), of "ap_NewObjectTracker P s"] s(2) fresh
    by (auto simp: tracker_lawsD [OF assms(2)])
  let ?cs = "clientset_over P t"
  have made: "NewSimpleClientset P objects = Some ?cs" by (simp add: NewSimpleClientset_def s(1) t(1) clientset_over_def)
  have empty: "ap_Tracked P t ?R ns name = None" for ns name
    using t(2) by (simp add: datafusecomputegroupsResource_def SchemeGroupVersion_def)
  have held: "ap_Tracked P (fake_Tracker ?cs) (ap_KindToResource P (WithKind ''DatafuseComputeGroup'')) (om_Namespace (cg_Meta g)) (om_Name (cg_Meta g)) = Some (GroupPtr a g)"
    if "GroupPtr a g \<in> set objects" for a g
    using bspec [OF t(3) that] by (simp add: fake_Tracker_def clientset_over_def place_tracked_def)
  from made held fake_lookup_misses [OF assms(2) _ empty] fake_created_found [OF assms(2) _ empty] show ?thesis by blast
qed

subsection \<open>A concrete apimachinery\<close>

text \<open>A scheme is the kinds of each type, a builder a version and kinds, a tracker a scheme and what it holds.\<close>

type_synonym kinds = "reflect_type \<Rightarrow> GroupVersionKind list"
type_synonym held = "gvr \<Rightarrow> string \<Rightarrow> string \<Rightarrow> go_obj option"

fun add_all :: "('s \<Rightarrow> go_error + 's) list \<Rightarrow> 's \<Rightarrow> go_error + 's" where
  "add_all [] s = Inr s"
| "add_all (f # fs) s = (case f s of Inl e \<Rightarrow> Inl e | Inr s' \<Rightarrow> add_all fs s')"

definition put :: "held \<Rightarrow> gvr \<Rightarrow> string \<Rightarrow> string \<Rightarrow> go_obj \<Rightarrow> held" where
  "put h r ns name obj = h(r := (h r)(ns := (h r ns)(name \<mapsto> obj)))"

definition guess_resource :: "GroupVersionKind \<Rightarrow> gvr" where
  "guess_resource gvk = \<lparr>gvr_Group = gvk_Group gvk, gvr_Version = gvk_Version gvk,
     gvr_Resource = (if gvk_Kind gvk = ''DatafuseComputeGroup'' then ''datafusecomputegroups'' else ''datafuseoperators'')\<rparr>"

fun concrete_add :: "go_obj \<Rightarrow> kinds \<times> held \<Rightarrow> go_error + kinds \<times> held" where
  "concrete_add obj (s, h) = (case (s (TypeOf obj), meta_of obj) of
     ([gvk], Some m) \<Rightarrow> if h (guess_resource gvk) (om_Namespace m) (om_Name m) \<noteq> None then Inl (ForeignError ''already exists'')
        else Inr (s, put h (guess_resource gvk) (om_Namespace m) (om_Name m) obj)
   | _ \<Rightarrow> Inl (ForeignError ''no registered kinds''))"

fun concrete_reaction :: "fake_action \<Rightarrow> kinds \<times> held \<Rightarrow> (kinds \<times> held) \<times> bool \<times> go_obj option \<times> go_error option" where
  "concrete_reaction (FakeGet r ns name) (s, h) = ((s, h), True, h r ns name,
     case h r ns name of None \<Rightarrow> Some (NewNotFound (gvr_Resource r) name) | Some _ \<Rightarrow> None)"
| "concrete_reaction (FakeCreate r ns obj) (s, h) = (case meta_of obj of
     None \<Rightarrow> ((s, h), True, None, Some (ForeignError ''no metadata''))
   | Some m \<Rightarrow> if om_Namespace m \<noteq> ns \<or> h r ns (om_Name m) \<noteq> None then ((s, h), True, None, Some (ForeignError ''already exists''))
       else ((s, put h r ns (om_Name m) obj), True, Some obj, None))"
| "concrete_reaction _ t = (t, False, None, None)"

definition concrete_apimachinery :: "(kinds, (string \<times> string) \<times> kinds, kinds \<times> held) apimachinery" where
  "concrete_apimachinery = \<lparr>ap_NewScheme = (\<lambda>t. []), ap_ObjectKinds = (\<lambda>s. s), ap_AddToGroupVersion = (\<lambda>gv s. s),
     ap_NewBuilder = (\<lambda>gv. (gv, \<lambda>t. [])),
     ap_Register = (\<lambda>ts (gv, ks). (gv, \<lambda>t. ks t @ (if t \<in> set ts
        then [\<lparr>gvk_Group = fst gv, gvk_Version = snd gv, gvk_Kind = kind_name t\<rparr>] else []))),
     ap_BuilderAddToScheme = (\<lambda>(gv, ks) s. Inr (\<lambda>t. s t @ ks t)), ap_BuilderKinds = snd, ap_BuilderVersion = fst,
     ap_AddAllToScheme = add_all, ap_KindToResource = guess_resource, ap_NewObjectTracker = (\<lambda>s. (s, \<lambda>r ns name. None)),
     ap_TrackerScheme = fst, ap_Tracked = snd, ap_TrackerAdd = concrete_add, ap_ObjectReaction = concrete_reaction,
     ap_TrackerWatch = (\<lambda>t r ns. Inr 0)\<rparr>"

lemma put_apply [simp]:
  "put h r ns name obj r' ns' name' = (if r' = r \<and> ns' = ns \<and> name' = name then Some obj else h r' ns' name')"
  by (simp add: put_def)

lemma concrete_simps:
  "ap_NewScheme concrete_apimachinery = (\<lambda>t. [])" "ap_ObjectKinds concrete_apimachinery = (\<lambda>s. s)"
  "ap_AddToGroupVersion concrete_apimachinery = (\<lambda>gv s. s)" "ap_NewBuilder concrete_apimachinery = (\<lambda>gv. (gv, \<lambda>t. []))"
  "ap_Register concrete_apimachinery = (\<lambda>ts (gv, ks). (gv, \<lambda>t. ks t @ (if t \<in> set ts
     then [\<lparr>gvk_Group = fst gv, gvk_Version = snd gv, gvk_Kind = kind_name t\<rparr>] else [])))"
  "ap_BuilderAddToScheme concrete_apimachinery = (\<lambda>(gv, ks) s. Inr (\<lambda>t. s t @ ks t))"
  "ap_BuilderKinds concrete_apimachinery = snd" "ap_BuilderVersion concrete_apimachinery = fst"
  "ap_AddAllToScheme concrete_apimachinery = add_all" "ap_KindToResource concrete_apimachinery = guess_resource"
  "ap_NewObjectTracker concrete_apimachinery = (\<lambda>s. (s, \<lambda>r ns name. None))" "ap_TrackerScheme concrete_apimachinery = fst"
  "ap_Tracked concrete_apimachinery = snd" "ap_TrackerAdd concrete_apimachinery = concrete_add"
  "ap_ObjectReaction concrete_apimachinery = concrete_reaction"
  by (simp_all add: concrete_apimachinery_def)

lemma concrete_scheme_laws: "scheme_laws concrete_apimachinery"
  unfolding scheme_laws_def concrete_simps by auto

lemma concrete_add_law:
  assumes "meta_of obj = Some m"
  shows "case fst t (TypeOf obj) of [] \<Rightarrow> \<exists>e. concrete_add obj t = Inl e
      | [gvk] \<Rightarrow> (if snd t (guess_resource gvk) (om_Namespace m) (om_Name m) \<noteq> None then \<exists>e. concrete_add obj t = Inl e
          else \<exists>t'. concrete_add obj t = Inr t' \<and> fst t' = fst t \<and> (\<forall>r ns name. snd t' r ns name =
            (if r = guess_resource gvk \<and> ns = om_Namespace m \<and> name = om_Name m then Some obj else snd t r ns name)))
      | _ \<Rightarrow> True"
  using assms by (cases t) (simp split: list.split)

lemma concrete_tracker_laws: "tracker_laws concrete_apimachinery"
proof -
  have get: "\<exists>e. concrete_reaction (FakeGet r ns name) t = (t, True, snd t r ns name,
      case snd t r ns name of None \<Rightarrow> Some (NewNotFound e name) | Some _ \<Rightarrow> None)" for r ns name t
    by (cases t) auto
  have create: "\<exists>t'. concrete_reaction (FakeCreate r ns obj) t = (t', True, Some obj, None)
      \<and> (\<forall>r' ns' name. snd t' r' ns' name = (if r' = r \<and> ns' = ns \<and> name = om_Name m then Some obj else snd t r' ns' name))"
    if "meta_of obj = Some m" "om_Namespace m = ns" "snd t r ns (om_Name m) = None" for obj m r ns t
    using that by (cases t) simp
  show ?thesis
    unfolding tracker_laws_def concrete_simps
    by (intro conjI allI impI concrete_add_law get create) (simp_all add: guess_resource_def)
qed

text \<open>A cluster client that a given fake clientset backs.\<close>

definition fake_k8s :: "'t fake_clientset \<Rightarrow> k8s" where
  "fake_k8s cs = ref_k8s\<lparr>k_invokes := \<lambda>h a dflt. snd (chain (fc_ReactionChain cs) a dflt (tracker_at cs h))\<rparr>"

lemma preloaded_objects_invisible_witness:
  "\<exists>cs e. NewSimpleClientset concrete_apimachinery [GroupPtr 0 sample_group, OperatorPtr 1 sample_operator] = Some cs
     \<and> ap_Tracked concrete_apimachinery (fake_Tracker cs) (guess_resource (WithKind ''DatafuseComputeGroup''))
         (om_Namespace (cg_Meta sample_group)) (om_Name (cg_Meta sample_group)) = Some (GroupPtr 0 sample_group)
     \<and> fst (if_Get (DatafuseComputeGroups (fake_DatafuseV1alpha1 (fake_k8s cs)) (om_Namespace (cg_Meta sample_group)))
         (om_Name (cg_Meta sample_group)) '''' []) = Some (None, Some (NewNotFound e (om_Name (cg_Meta sample_group))))"
proof -
  let ?objects = "[GroupPtr 0 sample_group, OperatorPtr 1 sample_operator]"
  have objects: "list_all custom_resource ?objects" "distinct (map place_of ?objects)" by (simp_all add: place_of_def)
  obtain cs where cs: "NewSimpleClientset concrete_apimachinery ?objects = Some cs"
    "\<forall>a g. GroupPtr a g \<in> set ?objects \<longrightarrow> ap_Tracked concrete_apimachinery (fake_Tracker cs)
       (ap_KindToResource concrete_apimachinery (WithKind ''DatafuseComputeGroup'')) (om_Namespace (cg_Meta g)) (om_Name (cg_Meta g)) = Some (GroupPtr a g)"
    "\<forall>K. backed K cs \<longrightarrow> (\<forall>ns name opts. \<exists>e. if_Get (DatafuseComputeGroups (fake_DatafuseV1alpha1 K) ns) name opts [] =
       (Some (None, Some (NewNotFound e name)), [Invokes (FakeGet datafusecomputegroupsResource ns name)]))"
    using preloaded_objects_invisible [OF concrete_scheme_laws concrete_tracker_laws objects] by blast
  have "backed (fake_k8s cs) cs" by (simp add: backed_def fake_k8s_def)
  with cs(3) obtain e where "if_Get (DatafuseComputeGroups (fake_DatafuseV1alpha1 (fake_k8s cs)) (om_Namespace (cg_Meta sample_group)))
      (om_Name (cg_Meta sample_group)) '''' [] = (Some (None, Some (NewNotFound e (om_Name (cg_Meta sample_group)))),
        [Invokes (FakeGet datafusecomputegroupsResource (om_Namespace (cg_Meta sample_group)) (om_Name (cg_Meta sample_group)))])"
    by blast
  with cs(1,2) show ?thesis
    by (intro exI [of _ cs] exI [of _ e]) (simp add: concrete_apimachinery_def)
qed

end
