(* ===== verification/Main_Program.thy ===== *)
theory Main_Program
  imports Operator_Controller Register_Controller Informers
begin

text \<open>
  How the program is put together: \<^verbatim>\<open>main.go\<close>, the construction of the operator controller
  (\<^verbatim>\<open>NewController\<close>) and the helpers of \<^verbatim>\<open>utils/\<close>.  The result of \<open>main_program\<close> is what \<^verbatim>\<open>main\<close> has built
  when it reaches its \<^verbatim>\<open>go\<close> statements, or the reason for which it has ended the process.  The clients
  and configurations of client-go come from the parameters in \<open>boot_env\<close>; its informer factory for the
  built-in resources is known by its arguments and by the informers that were asked of it.
\<close>

section \<open>\<^verbatim>\<open>utils/kube.go\<close> and \<^verbatim>\<open>utils/signals.go\<close>\<close>

definition GetKubeConfigLocation :: "string \<Rightarrow> (string \<Rightarrow> string) \<Rightarrow> string \<Rightarrow> string" where
  "GetKubeConfigLocation KubeConfig Getenv RecommendedHomeFile =
     (if KubeConfig \<noteq> '''' then KubeConfig
      else let kubeconfig = Getenv ''KUBECONFIG''
           in if kubeconfig = '''' then RecommendedHomeFile else kubeconfig)"

definition GetK8sConfig :: "(string \<Rightarrow> string \<Rightarrow> go_error + rest_config) \<Rightarrow> string \<Rightarrow> go_error + rest_config" where
  "GetK8sConfig BuildConfigFromFlags kubeconfig = (case BuildConfigFromFlags '''' kubeconfig of
     Inl err \<Rightarrow> Inl (ErrorfErr (''error building config from kubeconfig located in '' @ kubeconfig @ '': '') err)
   | Inr config \<Rightarrow> Inr config)"

definition GetK8sClient :: "(string \<Rightarrow> string \<Rightarrow> go_error + rest_config) \<Rightarrow> (rest_config \<Rightarrow> go_error + 'k) \<Rightarrow> string \<Rightarrow> go_error + 'k" where
  "GetK8sClient BuildConfigFromFlags KubeNewForConfig kubeconfig = (case GetK8sConfig BuildConfigFromFlags kubeconfig of
     Inl err \<Rightarrow> Inl (ErrorfErr ''failed to get kubeconfig: '' err)
   | Inr config \<Rightarrow> (case KubeNewForConfig config of
       Inl err \<Rightarrow> Inl (ErrorfErr ''failed to generate k8s client: '' err)
     | Inr kubeCli \<Rightarrow> Inr kubeCli))"

text \<open>The goroutine of the signal handler: it waits for one signal, closes the stop channel, and waits again.\<close>

datatype process_state = Running | Stopping | Exited

definition signal_received :: "process_state \<Rightarrow> process_state" where
  "signal_received p = (case p of Running \<Rightarrow> Stopping | Stopping \<Rightarrow> Exited | Exited \<Rightarrow> Exited)"

text \<open>A second handler is a panic (\<open>None\<close>); the flag says that the first one is there.\<close>

definition SetupSignalHandler :: "bool \<Rightarrow> (process_state \<times> bool) option" where
  "SetupSignalHandler onlyOneSignalHandler = (if onlyOneSignalHandler then None else Some (Running, True))"

section \<open>\<^verbatim>\<open>NewController\<close>\<close>

text \<open>\<^verbatim>\<open>Lister\<close> of an informer asks the factory for the informer and reads its indexer.\<close>

definition group_Lister :: "informer_scope \<Rightarrow> factory \<Rightarrow> SharedIndexInformer \<times> factory" where
  "group_Lister f = group_Informer f"

definition operator_Lister :: "informer_scope \<Rightarrow> factory \<Rightarrow> SharedIndexInformer \<times> factory" where
  "operator_Lister f = operator_Informer f"

record kube_factory =
  kf_Namespace :: string
  kf_Resync :: int64
  kf_Requested :: "reflect_type list"

definition kube_Informer :: "reflect_type \<Rightarrow> kube_factory \<Rightarrow> kube_factory" where
  "kube_Informer t f = f\<lparr>kf_Requested := kf_Requested f @ [t]\<rparr>"

text \<open>The controller with the handlers it registers, in their order, and the two factories afterwards.\<close>

definition NewController :: "k8s \<Rightarrow> DatafuseV1alpha1Interface \<Rightarrow> kube_factory \<Rightarrow> factory
    \<Rightarrow> OperatorController \<times> (reflect_type \<times> (informer_event \<Rightarrow> unit go)) list \<times> kube_factory \<times> factory" where
  "NewController K client kube crd =
     (let groups = version_DatafuseComputeGroups (group_V1alpha1 (Datafuse crd));
          operators = version_DatafuseOperators (group_V1alpha1 (Datafuse crd));
          kube1 = kube_Informer ServicePtrT (kube_Informer DeploymentPtrT kube);
          crd1 = snd (operator_Lister operators (snd (group_Lister groups crd)));
          crd2 = snd (operator_Informer operators (snd (group_Informer groups crd1)));
          kube2 = kube_Informer ServicePtrT (kube_Informer DeploymentPtrT kube1);
          crd3 = snd (group_Informer groups crd2);
          kube3 = kube_Informer ServicePtrT (kube_Informer DeploymentPtrT kube2);
          crd4 = snd (operator_Informer operators crd3)
      in (\<lparr>oc_client = client\<rparr>,
          [(GroupPtrT, groupEvent K), (DeploymentPtrT, deploymentEvent K), (ServicePtrT, serviceEvent K),
           (OperatorPtrT, operatorEvent K)],
          kube3, crd4))"

section \<open>\<^verbatim>\<open>main.go\<close>\<close>

record main_flags =
  fl_master :: string
  fl_controllerThreads :: int
  fl_resyncInterval :: int
  fl_namespace :: string
  fl_metricsAddr :: string
  fl_enableLeaderElection :: bool
  fl_kubeconfig :: string

definition default_flags :: main_flags where
  "default_flags = \<lparr>fl_master = '''', fl_controllerThreads = 10, fl_resyncInterval = 30, fl_namespace = NamespaceAll,
     fl_metricsAddr = '':8080'', fl_enableLeaderElection = False, fl_kubeconfig = ''''\<rparr>"

record boot_env =
  be_BuildConfigFromFlags :: "string \<Rightarrow> string \<Rightarrow> go_error + rest_config"
  be_InClusterConfig :: "go_error + rest_config"
  be_KubeNewForConfig :: "rest_config \<Rightarrow> go_error + unit"
  be_RESTClientFor :: "rest_config \<Rightarrow> go_error + k8s"
  be_NewDiscoveryClientForConfig :: "rest_config \<Rightarrow> go_error + unit"
  be_UserAgent :: string

text \<open>The calls of \<^verbatim>\<open>log.Fatal\<close>, each of which ends the process.\<close>

datatype fatal = FatalConfig go_error | FatalKubeClient go_error | FatalCrdClient go_error

record system =
  sys_client :: k8s
  sys_controller :: OperatorController
  sys_handlers :: "(reflect_type \<times> (informer_event \<Rightarrow> unit go)) list"
  sys_kube :: kube_factory
  sys_crd :: factory
  sys_threads :: int
  sys_register :: RegisterController
  sys_selectors :: "(string \<times> string) option"

definition buildConfig :: "boot_env \<Rightarrow> string \<Rightarrow> string \<Rightarrow> go_error + rest_config" where
  "buildConfig B masterURL kubeConfig =
     (if kubeConfig \<noteq> '''' then be_BuildConfigFromFlags B masterURL kubeConfig else be_InClusterConfig B)"

definition resync :: int64 where
  "resync = 1000000000 * 30"

text \<open>
  The part of \<^verbatim>\<open>main\<close> after the clients are made.  The controller is started with 12 threads.  The
  error of \<^verbatim>\<open>NewRegisterController\<close>, which is always nil, is not looked at.
\<close>

definition assemble :: "k8s \<Rightarrow> main_flags \<Rightarrow> system" where
  "assemble K fl =
     (let crdClient = DatafuseV1alpha1 K;
          kube = (if fl_namespace fl \<noteq> NamespaceAll
                  then \<lparr>kf_Namespace = fl_namespace fl, kf_Resync = resync, kf_Requested = []\<rparr>
                  else \<lparr>kf_Namespace = NamespaceAll, kf_Resync = resync, kf_Requested = []\<rparr>);
          crd = (if fl_namespace fl \<noteq> NamespaceAll
                 then NewSharedInformerFactoryWithOptions crdClient resync [WithNamespace (fl_namespace fl)]
                 else NewSharedInformerFactory crdClient resync);
          (controller, handlers, kube', crd') = NewController K crdClient kube crd;
          (rc, selectors) = NewRegisterController \<lparr>rs_AllNS = True, rs_Namspaces = []\<rparr>
      in \<lparr>sys_client = K, sys_controller = controller, sys_handlers = handlers, sys_kube = kube',
          sys_crd = crd', sys_threads = 12, sys_register = rc, sys_selectors = selectors\<rparr>)"

definition main_program :: "boot_env \<Rightarrow> main_flags \<Rightarrow> fatal + system" where
  "main_program B fl = (case buildConfig B (fl_master fl) (fl_kubeconfig fl) of
     Inl err \<Rightarrow> Inl (FatalConfig err)
   | Inr kubeConfig \<Rightarrow> (case be_KubeNewForConfig B kubeConfig of
       Inl err \<Rightarrow> Inl (FatalKubeClient err)
     | Inr kubeClient \<Rightarrow>
        (case NewForConfig (be_UserAgent B) (be_RESTClientFor B) (be_NewDiscoveryClientForConfig B) kubeConfig of
         Inl err \<Rightarrow> Inl (FatalCrdClient err)
       | Inr (discovery, K) \<Rightarrow> Inr (assemble K fl))))"

section \<open>What is started\<close>

text \<open>The factory's informers after it was asked for both of them, in any state without them.\<close>

lemma InformerFor_twice: "InformerFor obj newFunc (snd (InformerFor obj newFunc' f)) =
    (fst (InformerFor obj newFunc' f), snd (InformerFor obj newFunc' f))"
  by (auto simp: InformerFor_def Let_def split: option.split)

definition main_group_informer :: "k8s \<Rightarrow> string \<Rightarrow> SharedIndexInformer" where
  "main_group_informer K ns = NewFilteredDatafuseComputeGroupInformer (DatafuseV1alpha1 K) ns resync [''namespace''] None"

definition main_operator_informer :: "k8s \<Rightarrow> string \<Rightarrow> SharedIndexInformer" where
  "main_operator_informer K ns = NewFilteredDatafuseOperatorInformer (DatafuseV1alpha1 K) ns resync [''namespace''] None"

definition base_factory :: "k8s \<Rightarrow> string \<Rightarrow> factory" where
  "base_factory K ns = \<lparr>f_Client = DatafuseV1alpha1 K, f_Namespace = ns, f_TweakListOptions = None, f_DefaultResync = resync,
     f_CustomResync = Map.empty, f_Informers = Map.empty, f_StartedInformers = Map.empty, f_Runs = []\<rparr>"

lemma base_factory_made:
  "NewSharedInformerFactoryWithOptions (DatafuseV1alpha1 K) resync [WithNamespace ns] = base_factory K ns"
  "NewSharedInformerFactory (DatafuseV1alpha1 K) resync = base_factory K ''''"
  by (simp_all add: base_factory_def NewSharedInformerFactory_def NewSharedInformerFactoryWithOptions_def WithNamespace_def)

definition both_informers :: "k8s \<Rightarrow> string \<Rightarrow> factory" where
  "both_informers K ns = (base_factory K ns)\<lparr>f_Informers :=
     [GroupPtrT \<mapsto> main_group_informer K ns, OperatorPtrT \<mapsto> main_operator_informer K ns]\<rparr>"

lemma NewController_run:
  "NewController K client kube (base_factory K ns) = (\<lparr>oc_client = client\<rparr>,
     [(GroupPtrT, groupEvent K), (DeploymentPtrT, deploymentEvent K), (ServicePtrT, serviceEvent K),
      (OperatorPtrT, operatorEvent K)],
     kube\<lparr>kf_Requested := kf_Requested kube @ [DeploymentPtrT, ServicePtrT, DeploymentPtrT, ServicePtrT, DeploymentPtrT, ServicePtrT]\<rparr>,
     both_informers K ns)"
  by (simp add: NewController_def Let_def group_Lister_def operator_Lister_def group_Informer_def operator_Informer_def
      InformerFor_def group_defaultInformer_def operator_defaultInformer_def Datafuse_def informers_New_def
      group_V1alpha1_def version_DatafuseComputeGroups_def version_DatafuseOperators_def kube_Informer_def
      main_group_informer_def main_operator_informer_def both_informers_def base_factory_def)

lemma assemble_run:
  "assemble K fl = \<lparr>sys_client = K, sys_controller = typed_controller K,
     sys_handlers = [(GroupPtrT, groupEvent K), (DeploymentPtrT, deploymentEvent K), (ServicePtrT, serviceEvent K),
       (OperatorPtrT, operatorEvent K)],
     sys_kube = \<lparr>kf_Namespace = fl_namespace fl, kf_Resync = resync,
       kf_Requested = [DeploymentPtrT, ServicePtrT, DeploymentPtrT, ServicePtrT, DeploymentPtrT, ServicePtrT]\<rparr>,
     sys_crd = both_informers K (fl_namespace fl), sys_threads = 12,
     sys_register = fst (NewRegisterController \<lparr>rs_AllNS = True, rs_Namspaces = []\<rparr>),
     sys_selectors = snd (NewRegisterController \<lparr>rs_AllNS = True, rs_Namspaces = []\<rparr>)\<rparr>"
  by (cases "fl_namespace fl = ''''")
    (simp_all add: assemble_def Let_def base_factory_made NewController_run typed_controller_def split: prod.split)

lemma start_all:
  assumes "f_Runs f = []" and "f_StartedInformers f = Map.empty" and "set ts = dom (f_Informers f)"
  shows "distinct (map fst (f_Runs (factory_Start ts f)))"
    and "set (f_Runs (factory_Start ts f)) = {(t, i). f_Informers f t = Some i}"
proof -
  have ok: "factory_ok (factory_Start ts f)"
    using assms by (intro factory_Start_ok) (simp add: factory_ok_def started_def)
  then show "distinct (map fst (f_Runs (factory_Start ts f)))" by (simp add: factory_ok_def)
  have "(t, i) \<in> set (f_Runs (factory_Start ts f))" if "f_Informers f t = Some i" for t i
  proof -
    have "started (factory_Start ts f) t"
      by (rule factory_Start_started [OF _ that]) (use that assms(3) in auto)
    then obtain j where "(t, j) \<in> set (f_Runs (factory_Start ts f))" using ok by (auto simp: factory_ok_def)
    with ok that show ?thesis by (auto simp: factory_ok_def factory_Start_informers)
  qed
  moreover have "f_Informers f t = Some i" if "(t, i) \<in> set (f_Runs (factory_Start ts f))" for t i
    using ok that by (simp add: factory_ok_def factory_Start_informers)
  ultimately show "set (f_Runs (factory_Start ts f)) = {(t, i). f_Informers f t = Some i}" by blast
qed

lemma main_program_assembles:
  assumes "main_program B fl = Inr sys"
  shows "\<exists>K. sys = assemble K fl"
proof -
  obtain cfg where cfg: "buildConfig B (fl_master fl) (fl_kubeconfig fl) = Inr cfg"
    using assms by (cases "buildConfig B (fl_master fl) (fl_kubeconfig fl)") (simp_all add: main_program_def)
  obtain u where u: "be_KubeNewForConfig B cfg = Inr u"
    using assms cfg by (cases "be_KubeNewForConfig B cfg") (simp_all add: main_program_def)
  obtain x where "NewForConfig (be_UserAgent B) (be_RESTClientFor B) (be_NewDiscoveryClientForConfig B) cfg = Inr x"
    using assms cfg u
    by (cases "NewForConfig (be_UserAgent B) (be_RESTClientFor B) (be_NewDiscoveryClientForConfig B) cfg")
      (simp_all add: main_program_def)
  with assms cfg u show ?thesis by (cases x) (auto simp: main_program_def)
qed

text \<open>Only the namespace reaches what is assembled.\<close>

lemma assemble_namespace: "fl_namespace fl' = fl_namespace fl \<Longrightarrow> assemble K fl' = assemble K fl"
  by (simp add: assemble_run)

lemma main_program_flags:
  assumes "fl_namespace fl' = fl_namespace fl" and "fl_kubeconfig fl' = fl_kubeconfig fl"
    and "fl_master fl' = fl_master fl \<or> fl_kubeconfig fl = ''''"
  shows "main_program B fl' = main_program B fl"
proof -
  have "buildConfig B (fl_master fl') (fl_kubeconfig fl') = buildConfig B (fl_master fl) (fl_kubeconfig fl)"
    using assms(2,3) by (auto simp: buildConfig_def)
  then show ?thesis unfolding main_program_def assemble_namespace [OF assms(1)] by (rule arg_cong)
qed

section \<open>Properties\<close>

text \<open>C31 (functional).  What the flags do.  When \<^verbatim>\<open>main\<close> gets as far as its goroutines, both factories are
  limited to the namespace of the flag and resynchronise every 30 seconds; exactly the informers
  of the two custom resources are started, each once, and deployments and services are asked of
  the other factory; the handlers follow these four types; the operator controller has the typed
  client and 12 threads.  The pods, however, are watched in all namespaces, whatever the flag
  says; the flags for threads, resynchronisation, metrics and leader election change nothing; and
  without a kubeconfig the address of the API server is not used either.\<close>

theorem main_wiring:
  assumes "main_program B fl = Inr sys"
  shows "sys_controller sys = typed_controller (sys_client sys) \<and> sys_threads sys = 12
    \<and> map fst (sys_handlers sys) = [GroupPtrT, DeploymentPtrT, ServicePtrT, OperatorPtrT]
    \<and> kf_Namespace (sys_kube sys) = fl_namespace fl \<and> kf_Resync (sys_kube sys) = resync
    \<and> set (kf_Requested (sys_kube sys)) = {DeploymentPtrT, ServicePtrT}
    \<and> (\<forall>ts. set ts = dom (f_Informers (sys_crd sys)) \<longrightarrow>
        distinct (map fst (f_Runs (factory_Start ts (sys_crd sys))))
        \<and> set (f_Runs (factory_Start ts (sys_crd sys))) =
            {(GroupPtrT, main_group_informer (sys_client sys) (fl_namespace fl)),
             (OperatorPtrT, main_operator_informer (sys_client sys) (fl_namespace fl))})
    \<and> watches_all (sys_register sys)
    \<and> main_program B (fl\<lparr>fl_controllerThreads := n, fl_resyncInterval := r, fl_metricsAddr := m,
         fl_enableLeaderElection := e\<rparr>) = Inr sys
    \<and> (fl_kubeconfig fl = '''' \<longrightarrow> main_program B (fl\<lparr>fl_master := url\<rparr>) = Inr sys)"
proof -
  from main_program_assembles [OF assms] obtain K where sys: "sys = assemble K fl" by blast
  have fac: "f_Informers (sys_crd sys) =
      [GroupPtrT \<mapsto> main_group_informer K (fl_namespace fl), OperatorPtrT \<mapsto> main_operator_informer K (fl_namespace fl)]"
    "f_Runs (sys_crd sys) = []" "f_StartedInformers (sys_crd sys) = Map.empty"
    by (simp_all add: sys assemble_run both_informers_def base_factory_def)
  have "set (f_Runs (factory_Start ts (sys_crd sys))) =
      {(GroupPtrT, main_group_informer K (fl_namespace fl)), (OperatorPtrT, main_operator_informer K (fl_namespace fl))}
      \<and> distinct (map fst (f_Runs (factory_Start ts (sys_crd sys))))"
    if "set ts = dom (f_Informers (sys_crd sys))" for ts
    unfolding start_all(2) [OF fac(2,3) that] using start_all(1) [OF fac(2,3) that]
    by (auto simp: fac(1) split: if_splits)
  moreover have "watches_all (sys_register sys)"
    using NewRegisterController_watches [of "\<lparr>rs_AllNS = True, rs_Namspaces = []\<rparr>"] by (simp add: sys assemble_run)
  moreover have "main_program B (fl\<lparr>fl_controllerThreads := n, fl_resyncInterval := r, fl_metricsAddr := m,
         fl_enableLeaderElection := e\<rparr>) = Inr sys"
    unfolding assms [symmetric] by (rule main_program_flags) simp_all
  moreover have "main_program B (fl\<lparr>fl_master := url\<rparr>) = Inr sys" if "fl_kubeconfig fl = ''''"
    unfolding assms [symmetric] by (rule main_program_flags) (simp_all add: that)
  ultimately show ?thesis by (simp add: sys assemble_run insert_commute)
qed

section \<open>The properties at concrete inputs\<close>

definition sample_boot :: boot_env where
  "sample_boot = \<lparr>be_BuildConfigFromFlags = \<lambda>url path. Inl (ForeignError ''no such file''),
     be_InClusterConfig = Inr \<lparr>cf_RateLimiter = None, cf_QPS = 0, cf_Burst = 0, cf_GroupVersion = None,
       cf_APIPath = '''', cf_UserAgent = ''''\<rparr>,
     be_KubeNewForConfig = \<lambda>cfg. Inr (), be_RESTClientFor = \<lambda>cfg. Inr ref_k8s,
     be_NewDiscoveryClientForConfig = \<lambda>cfg. Inr (), be_UserAgent = ''operator''\<rparr>"

theorem main_wiring_witness:
  "\<exists>sys. main_program sample_boot (default_flags\<lparr>fl_namespace := ''team''\<rparr>) = Inr sys
     \<and> kf_Namespace (sys_kube sys) = ''team'' \<and> watches_all (sys_register sys) \<and> sys_threads sys = 12"
proof -
  let ?fl = "default_flags\<lparr>fl_namespace := ''team''\<rparr>"
  obtain sys where sys: "main_program sample_boot ?fl = Inr sys"
    by (simp add: main_program_def sample_boot_def default_flags_def buildConfig_def NewForConfig_def
        v1alpha1_NewForConfig_def Let_def split: prod.split)
  from main_wiring [OF sys] sys show ?thesis by (auto simp: default_flags_def)
qed

end
