(* ===== verification/Retry.thy ===== *)
theory Retry
  imports Main "HOL-Library.Word"
begin

text \<open>
  The retry helper of the end-to-end tests, \<^verbatim>\<open>tests/utils/retry/retry.go\<close>.  \<open>Do\<close> calls a function until
  it has completed without an error as many times in a row as the configuration asks for, or until
  a timer fires.  The function and the timers are outside: \<open>attempt n\<close> is what the call number \<open>n\<close>
  (from 0) returns, \<open>at_top n\<close> says that the timer has fired when the loop is entered for that call, and
  \<open>waiting n\<close> that it fires first in the pause after it.  The loop may run forever, and then has no
  value (\<open>None\<close>).
\<close>

section \<open>The code\<close>

type_synonym Duration = "64 word"

definition Second :: Duration where
  "Second = 1000000000"

record 'e Config =
  cfg_err :: "'e option"
  cfg_timeout :: Duration
  cfg_interval :: Duration
  cfg_coverage :: "32 word"

definition NewConfig :: "'e Config" where
  "NewConfig = \<lparr>cfg_err = None, cfg_timeout = 0, cfg_interval = 0, cfg_coverage = 0\<rparr>"

definition SetTimeOut :: "'e Config \<Rightarrow> Duration \<Rightarrow> 'e Config" where
  "SetTimeOut c timeout = c\<lparr>cfg_timeout := timeout\<rparr>"

definition SetInterval :: "'e Config \<Rightarrow> Duration \<Rightarrow> 'e Config" where
  "SetInterval c interval = c\<lparr>cfg_interval := interval\<rparr>"

definition SetCoverage :: "'e Config \<Rightarrow> 32 word \<Rightarrow> 'e Config" where
  "SetCoverage c cov = c\<lparr>cfg_coverage := cov\<rparr>"

definition defaultConfig :: "'e Config" where
  "defaultConfig = \<lparr>cfg_err = None, cfg_timeout = 30 * Second, cfg_interval = 3 * Second, cfg_coverage = 0\<rparr>"

text \<open>What \<^verbatim>\<open>Do\<close> returns as an error: the function's, or the message of the timeout with its arguments.\<close>

datatype 'e retry_error =
    FnError 'e
  | Timeout (attempts: nat) (progress: "(nat \<times> int) option") (latest: "'e option")

record ('r, 'e) retriable =
  attempt :: "nat \<Rightarrow> 'r option \<times> bool \<times> 'e option"
  at_top :: "Duration \<Rightarrow> nat \<Rightarrow> bool"
  waiting :: "Duration \<Rightarrow> Duration \<Rightarrow> nat \<Rightarrow> bool"

partial_function (option) retry_loop ::
    "('r, 'e) retriable \<Rightarrow> 'e Config \<Rightarrow> nat \<Rightarrow> nat \<Rightarrow> 'e option \<Rightarrow> ('r option \<times> 'e retry_error option) option" where
  "retry_loop fn cfg successes tot latesterr =
     (if at_top fn (cfg_timeout cfg) tot then Some (None, Some (Timeout tot None latesterr))
      else (case attempt fn tot of (result, completed, err) \<Rightarrow>
        if completed then
          let successes' = (if err \<noteq> None then 0 else successes + 1)
          in if int successes' \<ge> sint (cfg_coverage cfg) then Some (result, map_option FnError err)
             else retry_loop fn cfg successes' (tot + 1) latesterr
        else
          let latesterr' = (if err \<noteq> None then err else latesterr)
          in if waiting fn (cfg_timeout cfg) (cfg_interval cfg) tot
             then Some (None, Some (Timeout (tot + 1)
                    (if sint (cfg_coverage cfg) > 1 then Some (0, sint (cfg_coverage cfg)) else None) latesterr'))
             else retry_loop fn cfg 0 (tot + 1) latesterr'))"

definition Do :: "('r, 'e) retriable \<Rightarrow> 'e Config \<Rightarrow> ('r option \<times> 'e retry_error option) option" where
  "Do fn arg = retry_loop fn arg 0 0 None"

text \<open>A function that only returns an error, and timers, as a retriable function.\<close>

definition success_of :: "(nat \<Rightarrow> 'e option) \<Rightarrow> ('r, 'e) retriable \<Rightarrow> ('r, 'e) retriable" where
  "success_of f timers = timers\<lparr>attempt := \<lambda>n. (case f n of Some err \<Rightarrow> (None, False, Some err) | None \<Rightarrow> (None, True, None))\<rparr>"

definition UntilSuccess :: "(nat \<Rightarrow> 'e option) \<Rightarrow> ('r, 'e) retriable \<Rightarrow> 'e Config \<Rightarrow> 'e retry_error option option" where
  "UntilSuccess f timers arg = map_option snd (Do (success_of f timers) arg)"

text \<open>The test fails (\<open>False\<close>) when the helper returns an error.\<close>

definition UntilSuccessOrFail :: "(nat \<Rightarrow> 'e option) \<Rightarrow> ('r, 'e) retriable \<Rightarrow> 'e Config \<Rightarrow> bool option" where
  "UntilSuccessOrFail f timers arg = map_option (\<lambda>err. err = None) (UntilSuccess f timers arg)"

section \<open>A reference without counters\<close>

text \<open>
  The round with number \<open>n\<close> judged from the attempts alone: how many of the last ones completed
  without an error, and the last error of an attempt that did not complete.
\<close>

definition good :: "('r, 'e) retriable \<Rightarrow> nat \<Rightarrow> bool" where
  "good fn n \<longleftrightarrow> (case attempt fn n of (_, completed, err) \<Rightarrow> completed \<and> err = None)"

definition streak :: "('r, 'e) retriable \<Rightarrow> nat \<Rightarrow> nat" where
  "streak fn n = length (takeWhile (good fn) (rev [0..<n]))"

definition incomplete_error :: "('r, 'e) retriable \<Rightarrow> nat \<Rightarrow> 'e option" where
  "incomplete_error fn n = (case attempt fn n of (_, completed, err) \<Rightarrow> if completed then None else err)"

definition last_error :: "('r, 'e) retriable \<Rightarrow> nat \<Rightarrow> 'e option" where
  "last_error fn n = (case find (\<lambda>m. incomplete_error fn m \<noteq> None) (rev [0..<n]) of
     None \<Rightarrow> None | Some m \<Rightarrow> incomplete_error fn m)"

definition round_result :: "('r, 'e) retriable \<Rightarrow> 'e Config \<Rightarrow> nat \<Rightarrow> ('r option \<times> 'e retry_error option) option" where
  "round_result fn cfg n =
     (if at_top fn (cfg_timeout cfg) n then Some (None, Some (Timeout n None (last_error fn n)))
      else (case attempt fn n of (result, completed, err) \<Rightarrow>
        if completed then
          (if sint (cfg_coverage cfg) \<le> int (streak fn (Suc n)) then Some (result, map_option FnError err) else None)
        else if waiting fn (cfg_timeout cfg) (cfg_interval cfg) n
        then Some (None, Some (Timeout (Suc n)
               (if sint (cfg_coverage cfg) > 1 then Some (0, sint (cfg_coverage cfg)) else None) (last_error fn (Suc n))))
        else None))"

lemma streak_Suc: "streak fn (Suc n) = (if good fn n then Suc (streak fn n) else 0)"
  by (simp add: streak_def)

lemma last_error_Suc:
  "last_error fn (Suc n) = (if incomplete_error fn n \<noteq> None then incomplete_error fn n else last_error fn n)"
  by (simp add: last_error_def)

lemma retry_loop_step:
  "retry_loop fn cfg (streak fn n) n (last_error fn n) = (case round_result fn cfg n of
     Some y \<Rightarrow> Some y
   | None \<Rightarrow> retry_loop fn cfg (streak fn (Suc n)) (Suc n) (last_error fn (Suc n)))"
proof (cases "attempt fn n")
  case (fields result completed err)
  then show ?thesis
    by (subst retry_loop.simps)
      (auto simp: round_result_def streak_Suc last_error_Suc incomplete_error_def good_def Let_def split: option.split)
qed

lemma retry_loop_found:
  "round_result fn cfg (n + k) = Some y \<Longrightarrow> \<forall>m < k. round_result fn cfg (n + m) = None \<Longrightarrow>
   retry_loop fn cfg (streak fn n) n (last_error fn n) = Some y"
proof (induction k arbitrary: n)
  case 0
  then show ?case by (simp add: retry_loop_step)
next
  case (Suc k)
  have "round_result fn cfg n = None" using Suc.prems(2) by auto
  moreover have "retry_loop fn cfg (streak fn (Suc n)) (Suc n) (last_error fn (Suc n)) = Some y"
    using Suc.prems by (intro Suc.IH) auto
  ultimately show ?case by (simp add: retry_loop_step)
qed

lemma retry_loop_sound:
  assumes "retry_loop fn cfg (streak fn k) k (last_error fn k) = Some y"
  shows "\<exists>n \<ge> k. round_result fn cfg n = Some y \<and> (\<forall>m. k \<le> m \<and> m < n \<longrightarrow> round_result fn cfg m = None)"
proof -
  let ?P = "\<lambda>fn cfg s k e y. s = streak fn k \<longrightarrow> e = last_error fn k \<longrightarrow>
     (\<exists>n \<ge> k. round_result fn cfg n = Some y \<and> (\<forall>m. k \<le> m \<and> m < n \<longrightarrow> round_result fn cfg m = None))"
  have "?P fn cfg (streak fn k) k (last_error fn k) y"
  proof (rule retry_loop.raw_induct [where P = ?P, OF _ assms], intro impI)
    fix loop fn cfg s k e y
    assume IH: "\<And>fn cfg s k e y. loop fn cfg s k e = Some y \<Longrightarrow> ?P fn cfg s k e y"
      and eq: "(if at_top fn (cfg_timeout cfg) k then Some (None, Some (Timeout k None e))
        else (case attempt fn k of (result, completed, err) \<Rightarrow>
          if completed then
            let successes' = (if err \<noteq> None then 0 else s + 1)
            in if sint (cfg_coverage cfg) \<le> int successes' then Some (result, map_option FnError err)
               else loop fn cfg successes' (k + 1) e
          else
            let latesterr' = (if err \<noteq> None then err else e)
            in if waiting fn (cfg_timeout cfg) (cfg_interval cfg) k
               then Some (None, Some (Timeout (k + 1)
                      (if 1 < sint (cfg_coverage cfg) then Some (0, sint (cfg_coverage cfg)) else None) latesterr'))
               else loop fn cfg 0 (k + 1) latesterr')) = Some y"
      and se: "s = streak fn k" "e = last_error fn k"
    obtain result completed err where a: "attempt fn k = (result, completed, err)" by (cases "attempt fn k")
    show "\<exists>n \<ge> k. round_result fn cfg n = Some y \<and> (\<forall>m. k \<le> m \<and> m < n \<longrightarrow> round_result fn cfg m = None)"
    proof (cases "round_result fn cfg k")
      case (Some z)
      then have "z = y"
        using eq a by (auto simp: se round_result_def streak_Suc last_error_Suc incomplete_error_def good_def
            Let_def split: if_splits)
      with Some show ?thesis by (intro exI [of _ k]) auto
    next
      case None
      then have "loop fn cfg (streak fn (Suc k)) (Suc k) (last_error fn (Suc k)) = Some y"
        using eq a by (auto simp: se round_result_def streak_Suc last_error_Suc incomplete_error_def good_def
            Let_def split: if_splits)
      from IH [OF this] obtain n where n: "n \<ge> Suc k" "round_result fn cfg n = Some y"
        "\<forall>m. Suc k \<le> m \<and> m < n \<longrightarrow> round_result fn cfg m = None" by auto
      have "round_result fn cfg m = None" if "k \<le> m \<and> m < n" for m
        using that n(3) None by (cases "m = k") auto
      with n show ?thesis by (intro exI [of _ n]) auto
    qed
  qed
  then show ?thesis by simp
qed

lemma streak_good: "m < streak fn n \<Longrightarrow> good fn (n - 1 - m)"
proof (induction n arbitrary: m)
  case (Suc n)
  then show ?case by (cases m) (auto simp: streak_Suc split: if_splits)
qed (simp add: streak_def)

lemma streak_le: "streak fn n \<le> n"
  by (induction n) (simp_all add: streak_def)

lemma Do_reference:
  "Do fn cfg = (if \<exists>n. round_result fn cfg n \<noteq> None
     then round_result fn cfg (LEAST n. round_result fn cfg n \<noteq> None) else None)"
proof (cases "\<exists>n. round_result fn cfg n \<noteq> None")
  case True
  define n where "n = (LEAST n. round_result fn cfg n \<noteq> None)"
  obtain y where y: "round_result fn cfg n = Some y"
    using LeastI_ex [OF True] unfolding n_def [symmetric] by blast
  have "\<forall>m < n. round_result fn cfg m = None"
    using not_less_Least unfolding n_def by blast
  then have "Do fn cfg = Some y"
    using retry_loop_found [of fn cfg 0 n y] y by (simp add: Do_def streak_def last_error_def)
  with True y show ?thesis by (simp add: n_def)
next
  case False
  have "Do fn cfg \<noteq> Some y" for y
    using retry_loop_sound [of fn cfg 0 y] False by (cases y) (auto simp: Do_def streak_def last_error_def)
  then have "Do fn cfg = None" by (cases "Do fn cfg") blast+
  with False show ?thesis by auto
qed

lemma Do_by:
  assumes "round_result fn cfg N \<noteq> None"
  shows "\<exists>n \<le> N. round_result fn cfg n \<noteq> None \<and> Do fn cfg = round_result fn cfg n"
proof (intro exI conjI)
  show "round_result fn cfg (LEAST n. round_result fn cfg n \<noteq> None) \<noteq> None" using assms by (rule LeastI)
  show "(LEAST n. round_result fn cfg n \<noteq> None) \<le> N" using assms by (rule Least_le)
  show "Do fn cfg = round_result fn cfg (LEAST n. round_result fn cfg n \<noteq> None)"
    unfolding Do_reference using assms by auto
qed

section \<open>Properties\<close>

text \<open>C32 (equivalence).  The loop with its counters is the reference without them: \<open>Do\<close> returns what the
  first deciding round returns, where a round is judged by the attempts alone, and runs forever
  when no round decides.\<close>

theorem Do_matches_reference:
  "Do fn cfg = (if \<exists>n. round_result fn cfg n \<noteq> None
     then round_result fn cfg (LEAST n. round_result fn cfg n \<noteq> None) else None)"
  by (rule Do_reference)

text \<open>C36 (termination).  The helper returns: when the timer has fired at the top of round \<open>N\<close>, at the
  latest there, and a nil error means that the function succeeded at least once and as many times
  in a row as the coverage asks for, without a failure in between; \<open>UntilSuccessOrFail\<close> then lets the
  test go on.\<close>

theorem UntilSuccess_returns:
  assumes "at_top timers (cfg_timeout cfg) N"
  shows "\<exists>err. UntilSuccess f timers cfg = Some err
    \<and> UntilSuccessOrFail f timers cfg = Some (err = None)
    \<and> (err = None \<longrightarrow> (\<exists>n < N. \<forall>m. m = 0 \<or> int m < sint (cfg_coverage cfg) \<longrightarrow> m \<le> n \<and> f (n - m) = None))"
proof -
  define fn where "fn = success_of f timers"
  have top: "at_top fn (cfg_timeout cfg) N" using assms by (simp add: fn_def success_of_def)
  then have "round_result fn cfg N \<noteq> None" by (simp add: round_result_def)
  then obtain n where n: "n \<le> N" "round_result fn cfg n \<noteq> None" "Do fn cfg = round_result fn cfg n"
    using Do_by by blast
  then obtain r err where y: "round_result fn cfg n = Some (r, err)" by auto
  have run: "UntilSuccess f timers cfg = Some err"
    using n(3) y by (simp add: UntilSuccess_def fn_def)
  have "n < N \<and> (\<forall>m. m = 0 \<or> int m < sint (cfg_coverage cfg) \<longrightarrow> m \<le> n \<and> f (n - m) = None)" if "err = None"
  proof -
    have not_top: "\<not> at_top fn (cfg_timeout cfg) n" using y that by (auto simp: round_result_def)
    then have "n \<noteq> N" using top by auto
    moreover have ok: "good fn n" "sint (cfg_coverage cfg) \<le> int (streak fn (Suc n))"
      using y that not_top by (auto simp: round_result_def good_def split: prod.splits if_splits)
    moreover have "m \<le> n \<and> f (n - m) = None" if m: "m = 0 \<or> int m < sint (cfg_coverage cfg)" for m
    proof -
      have "m < streak fn (Suc n)" using m ok by (auto simp: streak_Suc)
      then have "good fn (n - m)" "m < Suc n"
        using streak_good [of m fn "Suc n"] streak_le [of fn "Suc n"] by auto
      then show ?thesis by (auto simp: good_def fn_def success_of_def split: option.splits)
    qed
    ultimately show ?thesis using n(1) by auto
  qed
  then show ?thesis using run by (auto simp: UntilSuccessOrFail_def)
qed

section \<open>The properties at concrete inputs\<close>

text \<open>A function that fails twice, and a timer that fires in the tenth round.\<close>

definition sample_timers :: "(unit, string) retriable" where
  "sample_timers = \<lparr>attempt = \<lambda>n. (None, False, None), at_top = \<lambda>t n. n \<ge> 10, waiting = \<lambda>t i n. False\<rparr>"

theorem UntilSuccess_returns_witness:
  "\<exists>err. UntilSuccess (\<lambda>n. if n < 2 then Some ''not ready'' else None) sample_timers (SetCoverage defaultConfig 3) = Some err"
proof -
  have "at_top sample_timers (cfg_timeout (SetCoverage defaultConfig 3 :: string Config)) 10"
    by (simp add: sample_timers_def)
  from UntilSuccess_returns [OF this, of "\<lambda>n. if n < 2 then Some ''not ready'' else None"] show ?thesis by blast
qed

end
