(* ===== verification/End_To_End.thy ===== *)
theory End_To_End
  imports Rollout Retry
begin

text \<open>
  The end-to-end tests of a deployment, \<^verbatim>\<open>tests/e2e/main_test.go\<close>: the operators of the manifests that they
  apply, and the checks that they repeat until the cluster is up.  A check asks the API server, so it
  is a function of the server's store, and the lookups of one check are taken as reads of one store; the
  pauses and the timer of the repetition are those of \<open>Retry\<close>.  \<^verbatim>\<open>testMultiDeploy\<close> is run by \<^verbatim>\<open>TestAllNS\<close>,
  \<^verbatim>\<open>testSimpleDeploy\<close> is there but its call is commented out.  What is said here is about the check and the
  handlers of an operator that runs; that the tests pass is not said, since the set-up that should start the
  operator fails (\<open>setup_needs_account\<close>).
\<close>

section \<open>The tests\<close>

text \<open>
  The compute groups of the manifests as decoded, with the namespace that the test puts in place of the
  one in the file.
\<close>

definition manifest_set :: "int32 \<Rightarrow> string option \<Rightarrow> int32 \<Rightarrow> DatafuseComputeSetSpec" where
  "manifest_set replicas name priority = \<lparr>cs_Replicas = Some replicas, cs_Instance = \<lparr>
     ci_Name = name, ci_Cores = Some 1, ci_CoreLimit = Some ''1300m'', ci_Memory = Some ''512Mi'',
     ci_MemoryLimit = Some ''512Mi'', ci_Labels = None, ci_Image = Some ''zhihanz/fuse-query:latest'',
     ci_ImagePullPolicy = Some ''Always'', ci_Priority = Some priority, ci_MysqlPort = Some 3306,
     ci_ClickhousePort = Some 9000, ci_HTTPPort = Some 8080, ci_RPCPort = Some 9091, ci_MetricsPort = Some 9098\<rparr>\<rparr>"

definition multi_worker_spec :: "string \<Rightarrow> DatafuseComputeGroupSpec" where
  "multi_worker_spec ns = \<lparr>gs_ComputeLeaders = Some (manifest_set 1 None 1),
     gs_ComputeWorkers = Some [Some (manifest_set 1 (Some ''t1'') 1), Some (manifest_set 2 (Some ''t2'') 2)],
     gs_Name = ''multi-worker'', gs_Namespace = ns\<rparr>"

definition default_operator_spec :: "string \<Rightarrow> DatafuseComputeGroupSpec" where
  "default_operator_spec ns = \<lparr>gs_ComputeLeaders = Some (manifest_set 1 None 1), gs_ComputeWorkers = None,
     gs_Name = ''group1'', gs_Namespace = ns\<rparr>"

text \<open>The API server's answers to a \<^verbatim>\<open>Get\<close> of a service or a deployment.\<close>

definition get_service :: "cluster_store \<Rightarrow> string \<Rightarrow> string \<Rightarrow> go_error option" where
  "get_service st ns name = (case cl_Services st (ns, name) of
     None \<Rightarrow> Some (NewNotFound ''services'' name) | Some _ \<Rightarrow> None)"

definition get_deployment :: "cluster_store \<Rightarrow> string \<Rightarrow> string \<Rightarrow> go_error option" where
  "get_deployment st ns name = (case cl_Deployments st (ns, name) of
     None \<Rightarrow> Some (NewNotFound ''deployments.apps'' name) | Some _ \<Rightarrow> None)"

definition multi_deploy_check :: "string \<Rightarrow> cluster_store \<Rightarrow> go_error option" where
  "multi_deploy_check ns st = (case get_service st ns ''multi-worker'' of Some err \<Rightarrow> Some err | None \<Rightarrow>
     (case get_deployment st ns ''multi-worker-leader'' of Some err \<Rightarrow> Some err | None \<Rightarrow>
     (case get_deployment st ns ''t1'' of Some err \<Rightarrow> Some err | None \<Rightarrow>
     (case get_deployment st ns ''t2'' of Some err \<Rightarrow> Some err | None \<Rightarrow> None))))"

definition simple_deploy_check :: "string \<Rightarrow> cluster_store \<Rightarrow> go_error option" where
  "simple_deploy_check ns st = (case get_service st ns ''group1'' of Some err \<Rightarrow> Some err | None \<Rightarrow>
     (case get_deployment st ns ''group1-leader'' of Some err \<Rightarrow> Some err | None \<Rightarrow> None))"

definition e2e_config :: "go_error Config" where
  "e2e_config = SetTimeOut (SetInterval (SetCoverage NewConfig 1) (1 * Second)) (5 * (60 * Second))"

definition wait_for_deploy :: "(string \<Rightarrow> cluster_store \<Rightarrow> go_error option) \<Rightarrow> string \<Rightarrow> (nat \<Rightarrow> cluster_store)
    \<Rightarrow> (unit, go_error) retriable \<Rightarrow> bool option" where
  "wait_for_deploy check ns st timers = UntilSuccessOrFail (\<lambda>n. check ns (st n)) timers e2e_config"

section \<open>The repetition ends well with a good check only\<close>

lemma until_success_sound:
  assumes "UntilSuccessOrFail f timers cfg = Some True"
  shows "\<exists>n. f n = None"
proof -
  let ?fn = "success_of f timers"
  obtain r where "Do ?fn cfg = Some (r, None)" using assms by (auto simp: UntilSuccessOrFail_def UntilSuccess_def)
  then obtain n where n: "round_result ?fn cfg n = Some (r, None)" by (auto simp: Do_reference split: if_splits)
  have "attempt ?fn n = (case f n of Some err \<Rightarrow> (None, False, Some err) | None \<Rightarrow> (None, True, None))"
    by (simp add: success_of_def)
  with n have "f n = None" by (auto simp: round_result_def split: if_splits option.splits)
  then show ?thesis ..
qed

section \<open>The deployments of a manifest\<close>

text \<open>A stored group is synchronised into a service and deployments under these names.\<close>

definition set_names :: "DatafuseComputeGroup \<Rightarrow> DatafuseComputeSetSpec \<Rightarrow> DatafuseComputeSetSpec list \<Rightarrow> string list" where
  "set_names cg ls ws = set_name ls (leader_name cg) # map snd (worker_sets cg 0 ws)"

lemma manifest_up:
  assumes "live K A st0" and "controller_ref_laws K" and "not_found_law K" and "admission_law A"
    and "store_ok (live_at A st0 h)" and "operator_specs op = Some [spec]" and "good_namespace spec"
    and "cl_Groups (live_at A st0 h) (spec_key spec) = None" and "complete_spec K spec"
    and sets: "gs_ComputeLeaders spec = Some ls" "elems (gs_ComputeWorkers spec) = map Some ws"
  shows "\<exists>h1 h2 cg. processNewOperator K (typed_controller K) op h = (Some None, h1)
    \<and> cl_Services (live_at A st0 h1) = cl_Services (live_at A st0 h)
    \<and> cg = snd (IsComputeGroupCreated (stored_group (live_at A st0 h1) spec)) \<and> group_key cg = spec_key spec
    \<and> processNewComputeGroup K (typed_controller K) cg h1 = (Some None, h2)
    \<and> cl_Services (live_at A st0 h2) (spec_key spec) \<noteq> None
    \<and> (\<forall>name \<in> set (set_names cg ls ws). cl_Deployments (live_at A st0 h2) (gs_Namespace spec, name) \<noteq> None)"
proof -
  have good: "\<forall>spec' \<in> set [spec]. good_namespace spec'" using assms(7) by simp
  obtain h1 where h1: "processNewOperator K (typed_controller K) op h = (Some None, h1)"
    "live_at A st0 h1 = fold (sync_spec K A (defaulted op)) [spec] (live_at A st0 h)"
    using answered_processNewOperator [OF assms(1) [unfolded live_def] _ assms(2-4,6) good, of h] by (fastforce simp: everything_def)
  define cg where "cg = snd (IsComputeGroupCreated (stored_group (live_at A st0 h1) spec))"
  have cg: "group_key cg = spec_key spec" "cg_Spec cg = spec"
    using stored_group_made [OF assms(2,4,7) _ _ assms(8) h1(2)] IsComputeGroupCreated_fields by (simp_all add: cg_def group_key_def)
  have ok: "store_ok (live_at A st0 h1)" using assms(5) by (simp add: h1(2) store_ok_def sync_spec_others)
  obtain plan where plan: "group_plan K cg = Some plan"
    using complete_spec_plan [of K cg] cg assms(7,9) by (auto simp: group_key_def spec_key_def good_namespace_def complete_spec_def)
  obtain new where new: "processNewComputeGroup K (typed_controller K) cg h1 = (Some None, h1 @ new)"
    "live_at A st0 (h1 @ new) = fold (sync_set K A cg) plan (live_at A st0 h1)"
    using live_processNewComputeGroup [OF assms(1-4) plan ok] by blast
  have keys: "map plan_key plan = map (\<lambda>name. (gs_Namespace spec, name)) (set_names cg ls ws)"
    using group_plan_keys [OF plan, of ls ws] sets cg by (auto simp: set_names_def group_key_def spec_key_def)
  have "cl_Deployments (live_at A st0 (h1 @ new)) (gs_Namespace spec, name) \<noteq> None" if "name \<in> set (set_names cg ls ws)" for name
  proof -
    have "(gs_Namespace spec, name) \<in> set (map plan_key plan)" unfolding keys using that by simp
    then obtain p where "p \<in> set plan" "plan_key p = (gs_Namespace spec, name)" by auto
    then show ?thesis using plan_exists [of p plan "live_at A st0 h1" K A cg] by (simp add: new(2))
  qed
  moreover have "cl_Services (live_at A st0 (h1 @ new)) (spec_key spec) \<noteq> None"
    using plan_service_exists [OF plan, of A "live_at A st0 h1"] cg(1) by (simp add: new(2) group_key_def)
  moreover have "cl_Services (live_at A st0 h1) = cl_Services (live_at A st0 h)" by (simp add: h1(2) sync_spec_others)
  ultimately show ?thesis using h1(1) new(1) cg(1) cg_def by blast
qed

section \<open>Properties\<close>

text \<open>The quantities of the manifests.\<close>

definition manifest_quantities :: "k8s \<Rightarrow> bool" where
  "manifest_quantities K \<longleftrightarrow> k_quantityParses K ''512Mi'' \<and> k_quantityParses K ''1300m''"

lemma manifest_checked:
  assumes "live K A st0" and "controller_ref_laws K" and "not_found_law K" and "admission_law A" and "manifest_quantities K"
    and "store_ok (live_at A st0 h)" and "ns \<noteq> ''''" and "CHR ''/'' \<notin> set ns"
    and "(spec, check) = (multi_worker_spec ns, multi_deploy_check) \<or> (spec, check) = (default_operator_spec ns, simple_deploy_check)"
    and "operator_specs op = Some [spec]" and "cl_Groups (live_at A st0 h) (spec_key spec) = None"
  shows "\<exists>h1 h2. processNewOperator K (typed_controller K) op h = (Some None, h1)
    \<and> cl_Services (live_at A st0 h1) = cl_Services (live_at A st0 h)
    \<and> processNewComputeGroup K (typed_controller K) (snd (IsComputeGroupCreated (stored_group (live_at A st0 h1) spec))) h1 = (Some None, h2)
    \<and> check ns (live_at A st0 h2) = None"
proof -
  let ?ls = "manifest_set 1 None 1"
  define ws where "ws = (if gs_Name spec = ''group1'' then [] else [manifest_set 1 (Some ''t1'') 1, manifest_set 2 (Some ''t2'') 2])"
  have spec: "good_namespace spec" "gs_ComputeLeaders spec = Some ?ls" "elems (gs_ComputeWorkers spec) = map Some ws" "gs_Namespace spec = ns"
    using assms(7-9) by (auto simp: good_namespace_def multi_worker_spec_def default_operator_spec_def ws_def)
  have complete: "complete_spec K spec"
    using assms(5,9) by (auto simp: complete_spec_def multi_worker_spec_def default_operator_spec_def List.map_filter_simps
        complete_instance_def manifest_set_def manifest_quantities_def)
  obtain h1 h2 cg where up: "processNewOperator K (typed_controller K) op h = (Some None, h1)"
    "cl_Services (live_at A st0 h1) = cl_Services (live_at A st0 h)"
    "cg = snd (IsComputeGroupCreated (stored_group (live_at A st0 h1) spec))" "group_key cg = spec_key spec"
    "processNewComputeGroup K (typed_controller K) cg h1 = (Some None, h2)"
    "cl_Services (live_at A st0 h2) (spec_key spec) \<noteq> None"
    "\<forall>name \<in> set (set_names cg ?ls ws). cl_Deployments (live_at A st0 h2) (gs_Namespace spec, name) \<noteq> None"
    using manifest_up [OF assms(1-4,6,10) spec(1) assms(11) complete spec(2,3)] by blast
  have "check ns (live_at A st0 h2) = None"
    using assms(9) up(4,6,7)
    by (auto simp: multi_deploy_check_def simple_deploy_check_def get_service_def get_deployment_def set_names_def set_name_def
        leader_name_def spec_key_def group_key_def multi_worker_spec_def default_operator_spec_def manifest_set_def ws_def)
  then show ?thesis using up(1-3,5) by blast
qed

text \<open>C12 (functional).  The check of the end-to-end test \<^verbatim>\<open>testMultiDeploy\<close> fits what the handlers of an operator make
  of its manifest, in a namespace that has neither the group nor its service.  After the operator's
  synchronisation alone, which only stores the group, the check fails with the service that is missing; after
  the synchronisation of that group it finds the service, the deployment of the leaders and those of the two
  named worker sets under the names that it looks up.  And the repeated check lets the test go on only
  when the four objects were there at some try.  That the test gets as far as this check with an operator
  running is not said.\<close>

theorem deploy_check_fits:
  assumes "live K A st0" and "controller_ref_laws K" and "not_found_law K" and "admission_law A" and "manifest_quantities K"
    and "store_ok (live_at A st0 h)" and "ns \<noteq> ''''" and "CHR ''/'' \<notin> set ns"
    and "operator_specs op = Some [multi_worker_spec ns]" and "cl_Groups (live_at A st0 h) (ns, ''multi-worker'') = None"
    and "cl_Services (live_at A st0 h) (ns, ''multi-worker'') = None"
  shows "(\<exists>h1 h2. processNewOperator K (typed_controller K) op h = (Some None, h1)
      \<and> multi_deploy_check ns (live_at A st0 h1) = Some (NewNotFound ''services'' ''multi-worker'')
      \<and> processNewComputeGroup K (typed_controller K)
          (snd (IsComputeGroupCreated (stored_group (live_at A st0 h1) (multi_worker_spec ns)))) h1 = (Some None, h2)
      \<and> multi_deploy_check ns (live_at A st0 h2) = None)
    \<and> (wait_for_deploy multi_deploy_check ns tries timers = Some True \<longrightarrow>
        (\<exists>n. cl_Services (tries n) (ns, ''multi-worker'') \<noteq> None \<and> cl_Deployments (tries n) (ns, ''multi-worker-leader'') \<noteq> None
          \<and> cl_Deployments (tries n) (ns, ''t1'') \<noteq> None \<and> cl_Deployments (tries n) (ns, ''t2'') \<noteq> None))"
proof -
  have key: "spec_key (multi_worker_spec ns) = (ns, ''multi-worker'')" by (simp add: spec_key_def multi_worker_spec_def)
  obtain h1 h2 where run: "processNewOperator K (typed_controller K) op h = (Some None, h1)"
    "cl_Services (live_at A st0 h1) = cl_Services (live_at A st0 h)"
    "processNewComputeGroup K (typed_controller K)
      (snd (IsComputeGroupCreated (stored_group (live_at A st0 h1) (multi_worker_spec ns)))) h1 = (Some None, h2)"
    "multi_deploy_check ns (live_at A st0 h2) = None"
    using manifest_checked [OF assms(1-8) disjI1 [OF refl] assms(9) assms(10) [folded key]] by blast
  moreover have "multi_deploy_check ns (live_at A st0 h1) = Some (NewNotFound ''services'' ''multi-worker'')"
    using assms(11) by (simp add: multi_deploy_check_def get_service_def run(2))
  moreover have "\<exists>n. cl_Services (tries n) (ns, ''multi-worker'') \<noteq> None \<and> cl_Deployments (tries n) (ns, ''multi-worker-leader'') \<noteq> None
      \<and> cl_Deployments (tries n) (ns, ''t1'') \<noteq> None \<and> cl_Deployments (tries n) (ns, ''t2'') \<noteq> None"
    if wait: "wait_for_deploy multi_deploy_check ns tries timers = Some True"
  proof -
    obtain n where "multi_deploy_check ns (tries n) = None"
      using until_success_sound [OF wait [unfolded wait_for_deploy_def]] by blast
    then show ?thesis
      by (intro exI [of _ n]) (auto simp: multi_deploy_check_def get_service_def get_deployment_def split: option.splits)
  qed
  ultimately show ?thesis by blast
qed

section \<open>The property at a concrete input\<close>

definition manifest_operator :: DatafuseOperator where
  "manifest_operator = sample_operator\<lparr>op_Spec := (op_Spec sample_operator)\<lparr>os_ComputeGroups := Some [Some (multi_worker_spec ''test-1'')]\<rparr>\<rparr>"

theorem deploy_check_fits_witness:
  "\<exists>h1 h2 cg. processNewOperator (live_k8s empty_store) (typed_controller (live_k8s empty_store)) manifest_operator [] = (Some None, h1)
     \<and> multi_deploy_check ''test-1'' (live_at plain_server empty_store h1) = Some (NewNotFound ''services'' ''multi-worker'')
     \<and> processNewComputeGroup (live_k8s empty_store) (typed_controller (live_k8s empty_store)) cg h1 = (Some None, h2)
     \<and> multi_deploy_check ''test-1'' (live_at plain_server empty_store h2) = None"
proof -
  let ?K = "live_k8s empty_store"
  have st: "live_at plain_server empty_store [] = empty_store" by (simp add: live_at_def)
  have ok: "store_ok (live_at plain_server empty_store [])" unfolding st by (simp add: store_ok_def empty_store_def)
  have quantities: "manifest_quantities ?K" by (simp add: manifest_quantities_def live_k8s_def server_k8s_def ref_k8s_def)
  have specs: "operator_specs manifest_operator = Some [multi_worker_spec ''test-1'']" by (simp add: operator_specs_def manifest_operator_def)
  have free: "cl_Groups (live_at plain_server empty_store []) (''test-1'', ''multi-worker'') = None"
    "cl_Services (live_at plain_server empty_store []) (''test-1'', ''multi-worker'') = None"
    unfolding st by (simp_all add: empty_store_def)
  have ns: "''test-1'' \<noteq> ''''" "CHR ''/'' \<notin> set ''test-1''" by simp_all
  from deploy_check_fits [OF live_k8s_laws plain_admission quantities ok ns specs free, THEN conjunct1] show ?thesis by blast
qed

end
