(* ===== verification/Test_Framework.thy ===== *)
theory Test_Framework
  imports Cluster
begin

text \<open>
  Parts of the end-to-end framework that compute something: the names and the cleanup of a test context
  (\<^verbatim>\<open>framework.go\<close>, \<^verbatim>\<open>namespace.go\<close>), the conditions of the waits (\<^verbatim>\<open>helpers.go\<close>) and the pairing of queries with
  their results (\<^verbatim>\<open>sql_utils.go\<close>).  The API server, the file system and the polling of apimachinery are
  parameters.
\<close>

section \<open>Test contexts\<close>

text \<open>A finalizer of this framework deletes a namespace.  \<^verbatim>\<open>strings.ToLower\<close> is for ASCII.\<close>

datatype FinalizerFn = DeleteNamespaceFn string

datatype ns_call = NsCreate string | NsDelete string

record TestCtx =
  tc_ID :: string
  tc_cleanUpFns :: "FinalizerFn list"

definition ToLower :: "string \<Rightarrow> string" where
  "ToLower s = map (\<lambda>c. if 65 \<le> (of_char c :: nat) \<and> (of_char c :: nat) \<le> 90 then char_of ((of_char c :: nat) + 32) else c) s"

definition digit36 :: "nat \<Rightarrow> char" where
  "digit36 d = (if d < 10 then char_of (48 + d) else char_of (87 + d))"

fun fmt_nat36 :: "nat \<Rightarrow> string" where
  "fmt_nat36 n = (if n < 36 then [digit36 n] else fmt_nat36 (n div 36) @ [digit36 (n mod 36)])"

definition FormatInt36 :: "int \<Rightarrow> string" where
  "FormatInt36 i = (if i < 0 then CHR ''-'' # fmt_nat36 (nat (- i)) else fmt_nat36 (nat i))"

definition GenerateTestID :: "int \<Rightarrow> string \<Rightarrow> string" where
  "GenerateTestID timestamp name =
     TrimPrefix (map (\<lambda>c. if c = CHR ''/'' then CHR ''-'' else c) (ToLower name)) ''test'' @ ''-'' @ FormatInt36 timestamp"

definition NewTestCtx :: "int \<Rightarrow> string \<Rightarrow> TestCtx" where
  "NewTestCtx now name = \<lparr>tc_ID = GenerateTestID now name, tc_cleanUpFns = []\<rparr>"

definition GetObjID :: "TestCtx \<Rightarrow> string" where
  "GetObjID ctx = tc_ID ctx @ ''-'' @ fmt_nat (length (tc_cleanUpFns ctx))"

definition AddFinalizerFn :: "TestCtx \<Rightarrow> FinalizerFn \<Rightarrow> TestCtx" where
  "AddFinalizerFn ctx fn = ctx\<lparr>tc_cleanUpFns := tc_cleanUpFns ctx @ [fn]\<rparr>"

text \<open>\<open>create h name\<close> and \<open>delete h name\<close> are the server's answers; \<^verbatim>\<open>t.Fatal\<close> ends the test (a panic here).\<close>

definition ctx_CreateNamespace :: "(ns_call list \<Rightarrow> string \<Rightarrow> go_error option) \<Rightarrow> TestCtx \<Rightarrow> (ns_call, string \<times> TestCtx) io" where
  "ctx_CreateNamespace create ctx =
     (let name = GetObjID ctx
      in bind_io (perform (NsCreate name) (\<lambda>h. create h name)) (\<lambda>err.
         case err of Some _ \<Rightarrow> panic | None \<Rightarrow> ret (name, AddFinalizerFn ctx (DeleteNamespaceFn name))))"

text \<open>
  \<^verbatim>\<open>errgroup\<close> runs the functions at the same time: they run in some order \<open>sched\<close>, all of them, and \<^verbatim>\<open>Wait\<close>
  returns the error of the first that failed.
\<close>

fun run_group :: "(ns_call list \<Rightarrow> string \<Rightarrow> go_error option) \<Rightarrow> FinalizerFn list \<Rightarrow> go_error option \<Rightarrow> (ns_call, go_error option) io" where
  "run_group delete [] first = ret first"
| "run_group delete (DeleteNamespaceFn name # fns) first =
     bind_io (perform (NsDelete name) (\<lambda>h. delete h name)) (\<lambda>err.
       run_group delete fns (case first of None \<Rightarrow> err | Some _ \<Rightarrow> first))"

definition Cleanup :: "(FinalizerFn list \<Rightarrow> FinalizerFn list) \<Rightarrow> (ns_call list \<Rightarrow> string \<Rightarrow> go_error option) \<Rightarrow> TestCtx \<Rightarrow> (ns_call, unit) io" where
  "Cleanup sched delete ctx = bind_io (run_group delete (sched (rev (tc_cleanUpFns ctx))) None)
     (\<lambda>err. case err of Some _ \<Rightarrow> panic | None \<Rightarrow> ret ())"

text \<open>A test that creates namespaces one after the other.\<close>

fun create_namespaces :: "(ns_call list \<Rightarrow> string \<Rightarrow> go_error option) \<Rightarrow> nat \<Rightarrow> TestCtx \<Rightarrow> (ns_call, string list \<times> TestCtx) io" where
  "create_namespaces create 0 ctx = ret ([], ctx)"
| "create_namespaces create (Suc n) ctx =
     bind_io (ctx_CreateNamespace create ctx) (\<lambda>(name, ctx').
     bind_io (create_namespaces create n ctx') (\<lambda>(names, ctx''). ret (name # names, ctx'')))"

lemma create_namespaces_run:
  assumes "create_namespaces create n ctx h = (Some (names, ctx'), h')"
  shows "h' = h @ map NsCreate names \<and> tc_ID ctx' = tc_ID ctx
    \<and> tc_cleanUpFns ctx' = tc_cleanUpFns ctx @ map DeleteNamespaceFn names
    \<and> names = map (\<lambda>i. tc_ID ctx @ ''-'' @ fmt_nat i) [length (tc_cleanUpFns ctx)..<length (tc_cleanUpFns ctx) + n]"
  using assms
proof (induction n arbitrary: ctx h names)
  case (Suc n)
  from Suc.prems obtain names' where rest: "create_namespaces create n (AddFinalizerFn ctx (DeleteNamespaceFn (GetObjID ctx)))
      (h @ [NsCreate (GetObjID ctx)]) = (Some (names', ctx'), h')" "names = GetObjID ctx # names'"
    by (auto simp: ctx_CreateNamespace_def Let_def io_simps split: option.splits prod.splits)
  have "[length (tc_cleanUpFns ctx)..<length (tc_cleanUpFns ctx) + Suc n] =
      length (tc_cleanUpFns ctx) # [Suc (length (tc_cleanUpFns ctx))..<Suc (length (tc_cleanUpFns ctx)) + n]"
    by (simp add: upt_rec)
  with Suc.IH [OF rest(1)] rest(2) show ?case by (simp add: AddFinalizerFn_def GetObjID_def)
qed (simp add: io_simps)

lemma run_group_run:
  "\<exists>err. run_group delete fns first h = (Some err, h @ map (\<lambda>fn. case fn of DeleteNamespaceFn name \<Rightarrow> NsDelete name) fns)"
proof (induction fns arbitrary: first h)
  case (Cons fn fns)
  obtain name where "fn = DeleteNamespaceFn name" by (cases fn)
  then show ?case
    using Cons.IH [of "case first of None \<Rightarrow> delete h name | Some _ \<Rightarrow> first" "h @ [NsDelete name]"] by (simp add: io_simps)
qed (simp add: io_simps)

lemma namespaces_cleaned_up:
  assumes "create_namespaces create n (NewTestCtx now name) h = (Some (names, ctx), h')" and "\<And>fns. mset (sched fns) = mset fns"
  shows "distinct names \<and> length names = n \<and> (\<exists>deletes. snd (Cleanup sched delete ctx h') = h' @ map NsDelete deletes
    \<and> mset deletes = mset names)"
proof -
  note run = create_namespaces_run [OF assms(1)]
  have names: "names = map (\<lambda>i. tc_ID (NewTestCtx now name) @ ''-'' @ fmt_nat i) [0..<n]"
    using run by (simp add: NewTestCtx_def)
  have "distinct names" unfolding names by (auto simp: distinct_map intro!: inj_onI dest: fmt_nat_inj)
  moreover have fns: "tc_cleanUpFns ctx = map DeleteNamespaceFn names" using run by (simp add: NewTestCtx_def)
  define ds where "ds = map (\<lambda>fn. case fn of DeleteNamespaceFn name \<Rightarrow> name) (sched (rev (tc_cleanUpFns ctx)))"
  have "mset ds = mset names"
    by (simp add: ds_def fns assms(2) multiset.map_comp comp_def)
  moreover have "snd (Cleanup sched delete ctx h') = h' @ map NsDelete ds"
  proof -
    obtain err where "run_group delete (sched (rev (tc_cleanUpFns ctx))) None h' =
        (Some err, h' @ map (\<lambda>fn. case fn of DeleteNamespaceFn name \<Rightarrow> NsDelete name) (sched (rev (tc_cleanUpFns ctx))))"
      using run_group_run by blast
    moreover have "(\<lambda>fn. case fn of DeleteNamespaceFn name \<Rightarrow> NsDelete name) = NsDelete \<circ> (\<lambda>fn. case fn of DeleteNamespaceFn name \<Rightarrow> name)"
      by (rule ext) (simp split: FinalizerFn.split)
    ultimately show ?thesis by (cases err) (simp_all add: Cleanup_def io_simps ds_def)
  qed
  ultimately show ?thesis using names by auto
qed

section \<open>The conditions of the waits\<close>

fun ready_condition :: "PodCondition list \<Rightarrow> bool \<times> go_error option" where
  "ready_condition [] = (False, Some (Errorf ''pod ready condition not found''))"
| "ready_condition (c # cs) = (if pc_Type c \<noteq> ''Ready'' then ready_condition cs else (pc_Status c = ''True'', None))"

definition PodRunningAndReady :: "Pod \<Rightarrow> bool \<times> go_error option" where
  "PodRunningAndReady pod = (let phase = pst_Phase (pod_Status pod) in
     if phase = ''Failed'' \<or> phase = ''Succeeded'' then (False, Some (Errorf ''pod completed''))
     else if phase = ''Running'' then ready_condition (pst_Conditions (pod_Status pod))
     else (False, None))"

fun count_ready :: "Pod list \<Rightarrow> nat \<Rightarrow> go_error + nat" where
  "count_ready [] n = Inr n"
| "count_ready (p # ps) n = (case PodRunningAndReady p of
     (_, Some err) \<Rightarrow> Inl err
   | (isRunningAndReady, None) \<Rightarrow> count_ready ps (if isRunningAndReady then n + 1 else n))"

definition podRunsImage :: "Pod \<Rightarrow> string \<Rightarrow> bool" where
  "podRunsImage p img \<longleftrightarrow> list_ex (\<lambda>c. img = ct_Image c) (ps_Containers (pod_Spec p))"

text \<open>
  The conditions that are polled, on what the server answers to the listing, and the waits.  \<open>poll\<close> is
  \<^verbatim>\<open>wait.Poll\<close> with its interval and timeout, applied to the results of the condition at each try.
\<close>

definition pods_ready :: "int \<Rightarrow> go_error + Pod list \<Rightarrow> bool \<times> go_error option" where
  "pods_ready expectedReplicas pl = (case pl of Inl err \<Rightarrow> (False, Some err) | Inr items \<Rightarrow>
     (case count_ready items 0 of Inl err \<Rightarrow> (False, Some err)
      | Inr runningAndReady \<Rightarrow> if int runningAndReady = expectedReplicas then (True, None) else (False, None)))"

definition pods_run_image :: "int \<Rightarrow> string \<Rightarrow> go_error + Pod list \<Rightarrow> bool \<times> go_error option" where
  "pods_run_image expectedReplicas img pl = (case pl of Inl err \<Rightarrow> (False, Some err) | Inr items \<Rightarrow>
     if int (length (filter (\<lambda>p. podRunsImage p img) items)) = expectedReplicas then (True, None) else (False, None))"

definition WaitForPodsReady :: "((nat \<Rightarrow> bool \<times> go_error option) \<Rightarrow> go_error option) \<Rightarrow> (nat \<Rightarrow> go_error + Pod list) \<Rightarrow> int \<Rightarrow> go_error option" where
  "WaitForPodsReady poll listing expectedReplicas = poll (\<lambda>n. pods_ready expectedReplicas (listing n))"

definition WaitForPodsRunImage :: "((nat \<Rightarrow> bool \<times> go_error option) \<Rightarrow> go_error option) \<Rightarrow> (nat \<Rightarrow> go_error + Pod list) \<Rightarrow> int \<Rightarrow> string
    \<Rightarrow> go_error option" where
  "WaitForPodsRunImage poll listing expectedReplicas img = poll (\<lambda>n. pods_run_image expectedReplicas img (listing n))"

text \<open>\<^verbatim>\<open>wait.Poll\<close> tries up to \<open>limit\<close> times, until the condition holds or fails.\<close>

definition poll_law :: "nat \<Rightarrow> ((nat \<Rightarrow> bool \<times> go_error option) \<Rightarrow> go_error option) \<Rightarrow> bool" where
  "poll_law limit poll \<longleftrightarrow> (\<forall>cond. case find (\<lambda>n. fst (cond n) \<or> snd (cond n) \<noteq> None) [0..<limit] of
     None \<Rightarrow> poll cond \<noteq> None | Some n \<Rightarrow> poll cond = snd (cond n))"

lemma count_ready_filter:
  "count_ready ps n = Inr m \<longleftrightarrow> (\<forall>p \<in> set ps. snd (PodRunningAndReady p) = None) \<and> m = n + length (filter (fst \<circ> PodRunningAndReady) ps)"
  by (induction ps arbitrary: n) (auto split: prod.split option.split)

lemma polled:
  assumes "poll_law limit poll"
  shows "poll cond = None \<longleftrightarrow> (\<exists>n < limit. fst (cond n) \<and> snd (cond n) = None \<and> (\<forall>k < n. \<not> fst (cond k) \<and> snd (cond k) = None))"
proof (cases "find (\<lambda>n. fst (cond n) \<or> snd (cond n) \<noteq> None) [0..<limit]")
  case None
  then have "\<forall>n < limit. \<not> fst (cond n) \<and> snd (cond n) = None" by (auto simp: find_None_iff)
  moreover have "poll cond \<noteq> None" using assms [unfolded poll_law_def, rule_format, of cond] None by simp
  ultimately show ?thesis by fastforce
next
  case (Some m)
  then have m: "m < limit" "fst (cond m) \<or> snd (cond m) \<noteq> None" "\<forall>k < m. \<not> fst (cond k) \<and> snd (cond k) = None"
    using Some by (auto simp: find_Some_iff)
  have "poll cond = snd (cond m)" using assms [unfolded poll_law_def, rule_format, of cond] Some by simp
  moreover have "n = m" if "n < limit" "fst (cond n)" "snd (cond n) = None" "\<forall>k < n. \<not> fst (cond k) \<and> snd (cond k) = None" for n
    using that m by (metis linorder_neqE_nat)
  ultimately show ?thesis using m by metis
qed

text \<open>The wait succeeds when, at some try, the listing has the expected number of ready pods and no pod that
  has completed, and no earlier listing failed or had such a pod.\<close>

lemma pods_wait:
  assumes "poll_law limit poll" and "WaitForPodsReady poll listing expected = None"
  shows "\<exists>n < limit. \<exists>items. listing n = Inr items \<and> (\<forall>p \<in> set items. snd (PodRunningAndReady p) = None)
    \<and> int (length (filter (fst \<circ> PodRunningAndReady) items)) = expected"
proof -
  obtain n where "n < limit" "fst (pods_ready expected (listing n))" "snd (pods_ready expected (listing n)) = None"
    using assms(2) unfolding WaitForPodsReady_def polled [OF assms(1)] by fastforce
  then show ?thesis
    by (auto simp: pods_ready_def count_ready_filter split: sum.splits if_splits)
qed

section \<open>Queries and results\<close>

record SQLPair =
  sql_Query :: string
  sql_Result :: string

definition zero_pair :: SQLPair where
  "zero_pair = \<lparr>sql_Query = '''', sql_Result = ''''\<rparr>"

text \<open>
  The file system: absolute paths, the entries of a directory with the mark of a directory (none when it
  cannot be read, the error being dropped), and the content of a file.  \<open>Sprintf\<close> is \<^verbatim>\<open>fmt.Sprintf\<close> with a
  template for one string.
\<close>

record file_system =
  fs_Abs :: "string \<Rightarrow> go_error + string"
  fs_ReadDir :: "string \<Rightarrow> (string \<times> bool) list"
  fs_ReadFile :: "string \<Rightarrow> go_error + string"

fun Sprintf :: "string \<Rightarrow> string \<Rightarrow> string" where
  "Sprintf [] arg = ''%!(EXTRA string='' @ arg @ '')''"
| "Sprintf (c # template) arg = (if c = CHR ''%'' \<and> take 1 template = ''s'' then arg @ drop 1 template
     else c # Sprintf template arg)"

fun pair_loop :: "file_system \<Rightarrow> string \<Rightarrow> (string \<Rightarrow> SQLPair \<Rightarrow> SQLPair) \<Rightarrow> string \<Rightarrow> (string \<times> bool) list
    \<Rightarrow> SQLPair gomap \<Rightarrow> go_error + SQLPair gomap" where
  "pair_loop fs suffix set_content path [] ans = Inr ans"
| "pair_loop fs suffix set_content path ((name, isDir) # items) ans =
     (if isDir then pair_loop fs suffix set_content path items ans
      else if HasSuffix name suffix then
        let key = TrimSuffix name suffix;
            pair = (case map_get ans key of None \<Rightarrow> zero_pair | Some p \<Rightarrow> p)
        in case fs_ReadFile fs (path @ ''/'' @ name) of Inl err \<Rightarrow> Inl err
           | Inr content \<Rightarrow> pair_loop fs suffix set_content path items (map_put key (set_content content pair) ans)
      else pair_loop fs suffix set_content path items ans)"

definition sql_loop :: "file_system \<Rightarrow> string \<Rightarrow> string \<Rightarrow> SQLPair gomap \<Rightarrow> go_error + SQLPair gomap" where
  "sql_loop fs template path = pair_loop fs ''.sql'' (\<lambda>sql pair. pair\<lparr>sql_Query := Sprintf template sql\<rparr>) path (fs_ReadDir fs path)"

definition result_loop :: "file_system \<Rightarrow> string \<Rightarrow> SQLPair gomap \<Rightarrow> go_error + SQLPair gomap" where
  "result_loop fs path = pair_loop fs ''.result'' (\<lambda>result pair. pair\<lparr>sql_Result := result\<rparr>) path (fs_ReadDir fs path)"

definition BuildSQLPair :: "file_system \<Rightarrow> string \<Rightarrow> string \<Rightarrow> string \<Rightarrow> go_error + SQLPair gomap" where
  "BuildSQLPair fs sql_template sqldir resultdir = (case fs_Abs fs sqldir of
     Inl err \<Rightarrow> Inl (ErrorfErr (''failed generate absolute file path of '' @ sqldir @ '': '') err)
   | Inr sqlPath \<Rightarrow> (case fs_Abs fs resultdir of
       Inl err \<Rightarrow> Inl (ErrorfErr (''failed generate absolute file path of '' @ resultdir @ '': '') err)
     | Inr resultPath \<Rightarrow> (case sql_loop fs sql_template sqlPath (Some []) of Inl err \<Rightarrow> Inl err
       | Inr ans \<Rightarrow> result_loop fs resultPath ans)))"

text \<open>The content of the file of a key, when the directory has one.\<close>

definition content_of :: "file_system \<Rightarrow> string \<Rightarrow> string \<Rightarrow> (string \<times> bool) list \<Rightarrow> string \<Rightarrow> string option" where
  "content_of fs suffix path items key = (if (key @ suffix, False) \<in> set items
     then (case fs_ReadFile fs (path @ ''/'' @ key @ suffix) of Inl _ \<Rightarrow> None | Inr content \<Rightarrow> Some content) else None)"

lemma TrimSuffix_append: "HasSuffix name suffix \<Longrightarrow> TrimSuffix name suffix @ suffix = name"
  by (auto simp: TrimSuffix_def HasSuffix_def) (metis append_take_drop_id)

lemma HasSuffix_append [simp]: "HasSuffix (key @ suffix) suffix" "TrimSuffix (key @ suffix) suffix = key"
  by (simp_all add: HasSuffix_def TrimSuffix_def)

lemma pair_loop_content:
  assumes "pair_loop fs suffix put path items ans = Inr ans'" and "distinct (map fst items)"
  shows "map_get ans' key = (case content_of fs suffix path items key of
     None \<Rightarrow> map_get ans key
   | Some content \<Rightarrow> Some (put content (case map_get ans key of None \<Rightarrow> zero_pair | Some p \<Rightarrow> p)))"
  using assms
proof (induction items arbitrary: ans)
  case (Cons item items)
  obtain name isDir where item: "item = (name, isDir)" by (cases item)
  show ?case
  proof (cases "\<not> isDir \<and> HasSuffix name suffix")
    case False
    then have "(key @ suffix, False) \<in> set (item # items) \<longleftrightarrow> (key @ suffix, False) \<in> set items"
      by (auto simp: item)
    moreover have "pair_loop fs suffix put path items ans = Inr ans'" using Cons.prems(1) False item by (auto split: if_splits)
    ultimately show ?thesis using Cons.IH [of ans] Cons.prems(2) by (simp add: content_of_def)
  next
    case True
    define k where "k = TrimSuffix name suffix"
    have name: "name = k @ suffix" using True TrimSuffix_append [of name suffix] by (simp add: k_def)
    obtain content where c: "fs_ReadFile fs (path @ ''/'' @ name) = Inr content"
      "pair_loop fs suffix put path items
         (map_put k (put content (case map_get ans k of None \<Rightarrow> zero_pair | Some p \<Rightarrow> p)) ans) = Inr ans'"
      using Cons.prems(1) True by (auto simp: item name Let_def split: sum.splits)
    have other: "(k @ suffix, False) \<notin> set items" using Cons.prems(2) by (force simp: item name)
    have dist: "distinct (map fst items)" using Cons.prems(2) by simp
    show ?thesis
    proof (cases "key = k")
      case True': True
      have "content_of fs suffix path items key = None" "content_of fs suffix path (item # items) key = Some content"
        using other c(1) True by (simp_all add: content_of_def item name True')
      then show ?thesis using Cons.IH [OF c(2) dist] by (simp add: True')
    next
      case False
      then have "content_of fs suffix path (item # items) key = content_of fs suffix path items key"
        by (simp add: content_of_def item name)
      then show ?thesis using Cons.IH [OF c(2) dist] False by (simp split: option.splits)
    qed
  qed
qed (simp add: content_of_def)

text \<open>Every key has the query of its \<^verbatim>\<open>.sql\<close> file in the template and the text of its \<^verbatim>\<open>.result\<close> file, each empty
  when there is no such file; no other key is there.\<close>

lemma BuildSQLPair_pairs:
  assumes "BuildSQLPair fs template sqldir resultdir = Inr ans" and "\<And>path. distinct (map fst (fs_ReadDir fs path))"
  shows "\<exists>sqlPath resultPath. fs_Abs fs sqldir = Inr sqlPath \<and> fs_Abs fs resultdir = Inr resultPath
    \<and> (\<forall>key. map_get ans key = (case (content_of fs ''.sql'' sqlPath (fs_ReadDir fs sqlPath) key,
          content_of fs ''.result'' resultPath (fs_ReadDir fs resultPath) key) of
         (None, None) \<Rightarrow> None
       | (sql, result) \<Rightarrow> Some \<lparr>sql_Query = (case sql of None \<Rightarrow> '''' | Some s \<Rightarrow> Sprintf template s),
           sql_Result = (case result of None \<Rightarrow> '''' | Some r \<Rightarrow> r)\<rparr>))"
proof -
  obtain sqlPath resultPath ans1 where paths: "fs_Abs fs sqldir = Inr sqlPath" "fs_Abs fs resultdir = Inr resultPath"
    and loops: "sql_loop fs template sqlPath (Some []) = Inr ans1" "result_loop fs resultPath ans1 = Inr ans"
    using assms(1) by (auto simp: BuildSQLPair_def split: sum.splits)
  from pair_loop_content [OF loops(1) [unfolded sql_loop_def] assms(2)] pair_loop_content [OF loops(2) [unfolded result_loop_def] assms(2)] paths
  show ?thesis by (auto simp: zero_pair_def split: option.split)
qed

end
