(* ===== verification/Framework_Setup.thy ===== *)
theory Framework_Setup
  imports Main_Program Test_Framework
begin

text \<open>
  The end-to-end framework on a cluster: what a test sets up and tears down (\<^verbatim>\<open>framework.go\<close>, \<^verbatim>\<open>crd.go\<close>, the
  files on roles, bindings, accounts, deployments, pods, namespaces and operators).  A function is a
  sequence of calls (\<open>fw_call\<close>) to the clientsets of client-go, whose answers are in the record \<open>fw_env\<close>;
  the file system and the decoders of YAML and JSON are in there, too.
\<close>

section \<open>The outside\<close>

datatype fw_resource = ServiceAccountRes | ClusterRoleRes | ClusterRoleBindingRes | RoleRes | RoleBindingRes
  | DeploymentRes | DeploymentV1beta2Res | PodRes | NamespaceRes | CRDRes | OperatorRes | GroupRes

record Subject =
  sj_Kind :: string
  sj_Name :: string
  sj_Namespace :: string

text \<open>Roles, accounts and definitions with the rest of their content as text.\<close>

record role_object =
  ro_Meta :: ObjectMeta
  ro_Content :: string

record binding_object =
  bi_Meta :: ObjectMeta
  bi_Subjects :: "Subject list"
  bi_RoleRef :: string

record crd_object =
  crd_Meta :: ObjectMeta
  crd_Kind :: string
  crd_Content :: string

datatype fw_object = RoleObj role_object | BindingObj binding_object | DeploymentObj Deployment | PodObj Pod
  | NamespaceObj ObjectMeta | CRDObj crd_object

fun fw_meta :: "fw_object \<Rightarrow> ObjectMeta" where
  "fw_meta (RoleObj r) = ro_Meta r"
| "fw_meta (BindingObj b) = bi_Meta b"
| "fw_meta (DeploymentObj d) = dep_Meta d"
| "fw_meta (PodObj p) = pod_Meta p"
| "fw_meta (NamespaceObj m) = m"
| "fw_meta (CRDObj c) = crd_Meta c"

text \<open>A call names the resource and the namespace (empty for what belongs to the whole cluster).\<close>

datatype fw_call = FwGet fw_resource string string | FwList fw_resource string string
  | FwCreate fw_resource string fw_object | FwUpdate fw_resource string fw_object | FwDelete fw_resource string string
  | FwPatch fw_resource string string string | FwLogs string string string | FwPrint string
  | FwExec string string string "string list" | FwHttpGet string

text \<open>A document of a YAML file, of which the framework asks the kind.\<close>

record unstructured =
  un_Kind :: string
  un_Content :: string

definition EOF :: go_error where
  "EOF = ForeignError ''EOF''"

text \<open>
  The answers.  \<open>fe_Open\<close> gives the content of a file; \<open>fe_Documents\<close> the documents that one decoder reads
  from it, and the error it then ends with (\<open>EOF\<close> when there are no more).  \<open>fe_Get\<close>, \<open>fe_Create\<close>, \<open>fe_Update\<close> and
  \<open>fe_Delete\<close> are errors of calls whose object is not used.  \<open>fe_Poll\<close> is \<^verbatim>\<open>wait.Poll\<close> after its interval and timeout.
\<close>

record fw_env =
  fe_Abs :: "string \<Rightarrow> go_error + string"
  fe_Open :: "string \<Rightarrow> go_error + string"
  fe_Documents :: "string \<Rightarrow> unstructured list \<times> go_error"
  fe_MarshalJSON :: "unstructured \<Rightarrow> string \<times> go_error option"
  fe_UnmarshalRole :: "string \<Rightarrow> role_object"
  fe_UnmarshalBinding :: "string \<Rightarrow> binding_object"
  fe_DecodeDeployment :: "string \<Rightarrow> go_error + Deployment"
  fe_DecodePod :: "string \<Rightarrow> go_error + Pod"
  fe_DecodeOperator :: "string \<Rightarrow> go_error + DatafuseOperator"
  fe_DecodeCRD :: "string \<Rightarrow> go_error + crd_object"
  fe_Selector :: "string gomap \<Rightarrow> string"
  fe_MarshalPatches :: "(string \<times> string) list \<Rightarrow> go_error + string"
  fe_isAlreadyExists :: "go_error \<Rightarrow> bool"
  fe_isNotFound :: "go_error \<Rightarrow> bool"
  fe_isStatus404 :: "go_error \<Rightarrow> bool"
  fe_Get :: "fw_call list \<Rightarrow> fw_resource \<Rightarrow> string \<Rightarrow> string \<Rightarrow> go_error option"
  fe_GetDeployment :: "fw_call list \<Rightarrow> string \<Rightarrow> string \<Rightarrow> go_error + Deployment"
  fe_GetPod :: "fw_call list \<Rightarrow> string \<Rightarrow> string \<Rightarrow> go_error + Pod"
  fe_GetNamespace :: "fw_call list \<Rightarrow> string \<Rightarrow> go_error + ObjectMeta"
  fe_GetCRD :: "fw_call list \<Rightarrow> string \<Rightarrow> go_error + crd_object"
  fe_ListCRDs :: "fw_call list \<Rightarrow> go_error + crd_object list"
  fe_ListPods :: "fw_call list \<Rightarrow> string \<Rightarrow> string \<Rightarrow> go_error + Pod list"
  fe_List :: "fw_call list \<Rightarrow> fw_resource \<Rightarrow> string \<Rightarrow> go_error option"
  fe_Create :: "fw_call list \<Rightarrow> fw_resource \<Rightarrow> string \<Rightarrow> fw_object \<Rightarrow> go_error option"
  fe_Update :: "fw_call list \<Rightarrow> fw_resource \<Rightarrow> string \<Rightarrow> fw_object \<Rightarrow> go_error option"
  fe_UpdateDeployment :: "fw_call list \<Rightarrow> string \<Rightarrow> Deployment \<Rightarrow> go_error + Deployment"
  fe_UpdatePod :: "fw_call list \<Rightarrow> string \<Rightarrow> Pod \<Rightarrow> go_error + Pod"
  fe_Delete :: "fw_call list \<Rightarrow> fw_resource \<Rightarrow> string \<Rightarrow> string \<Rightarrow> go_error option"
  fe_Patch :: "fw_call list \<Rightarrow> fw_resource \<Rightarrow> string \<Rightarrow> string \<Rightarrow> go_error option"
  fe_Logs :: "fw_call list \<Rightarrow> string \<Rightarrow> string \<Rightarrow> string \<Rightarrow> go_error + string"
  fe_Exec :: "fw_call list \<Rightarrow> string \<Rightarrow> string \<Rightarrow> string \<Rightarrow> string list \<Rightarrow> string \<times> string \<times> go_error option"
  fe_LastResponse :: "fw_call list \<Rightarrow> string"
  fe_HttpStatus :: "fw_call list \<Rightarrow> string \<Rightarrow> go_error + int"
  fe_Poll :: "(fw_call, bool \<times> go_error option) io \<Rightarrow> (fw_call, go_error option) io"

type_synonym 'a fw = "(fw_call, 'a) io"

text \<open>\<^verbatim>\<open>errors.Wrap\<close>: nil stays nil.\<close>

definition Wrap :: "go_error option \<Rightarrow> string \<Rightarrow> go_error option" where
  "Wrap err msg = map_option (ErrorfErr (msg @ '': '')) err"

abbreviation fw_get :: "fw_env \<Rightarrow> fw_resource \<Rightarrow> string \<Rightarrow> string \<Rightarrow> go_error option fw" where
  "fw_get E r ns name \<equiv> perform (FwGet r ns name) (\<lambda>h. fe_Get E h r ns name)"

abbreviation fw_create :: "fw_env \<Rightarrow> fw_resource \<Rightarrow> string \<Rightarrow> fw_object \<Rightarrow> go_error option fw" where
  "fw_create E r ns x \<equiv> perform (FwCreate r ns x) (\<lambda>h. fe_Create E h r ns x)"

abbreviation fw_update :: "fw_env \<Rightarrow> fw_resource \<Rightarrow> string \<Rightarrow> fw_object \<Rightarrow> go_error option fw" where
  "fw_update E r ns x \<equiv> perform (FwUpdate r ns x) (\<lambda>h. fe_Update E h r ns x)"

abbreviation fw_delete :: "fw_env \<Rightarrow> fw_resource \<Rightarrow> string \<Rightarrow> string \<Rightarrow> go_error option fw" where
  "fw_delete E r ns name \<equiv> perform (FwDelete r ns name) (\<lambda>h. fe_Delete E h r ns name)"

section \<open>Manifests\<close>

definition PathToOSFile :: "fw_env \<Rightarrow> string \<Rightarrow> go_error + string" where
  "PathToOSFile E relativPath = (case fe_Abs E relativPath of
     Inl err \<Rightarrow> Inl (ErrorfErr (''failed generate absolute file path of '' @ relativPath @ '': '') err)
   | Inr path \<Rightarrow> (case fe_Open E path of
       Inl err \<Rightarrow> Inl (ErrorfErr (''failed to open file '' @ path @ '': '') err)
     | Inr manifest \<Rightarrow> Inr manifest))"

text \<open>
  The loop of all functions that parse a manifest: it reads documents up to the first of the kind, whose
  text is decoded into \<open>obj\<close> (an error of that decoding is dropped).
\<close>

fun manifest_loop :: "fw_env \<Rightarrow> string \<Rightarrow> (string \<Rightarrow> 'a) \<Rightarrow> 'a \<Rightarrow> unstructured list \<Rightarrow> go_error \<Rightarrow> 'a \<times> go_error option" where
  "manifest_loop E kind unmarshal obj [] closing = (obj, Some closing)"
| "manifest_loop E kind unmarshal obj (out # outs) closing =
     (if un_Kind out = kind
      then let (marshaled, err) = fe_MarshalJSON E out in (unmarshal marshaled, err)
      else manifest_loop E kind unmarshal obj outs closing)"

definition parse_manifest :: "fw_env \<Rightarrow> string \<Rightarrow> (string \<Rightarrow> 'a) \<Rightarrow> 'a \<Rightarrow> string \<Rightarrow> go_error + 'a" where
  "parse_manifest E kind unmarshal zero relativePath = (case PathToOSFile E relativePath of
     Inl err \<Rightarrow> Inl err
   | Inr manifest \<Rightarrow>
       (let (outs, closing) = fe_Documents E manifest;
            (obj, err) = manifest_loop E kind unmarshal zero outs closing
        in case err of None \<Rightarrow> Inr obj | Some e \<Rightarrow> if e \<noteq> EOF then Inl e else Inr obj))"

definition zero_role :: role_object where
  "zero_role = \<lparr>ro_Meta = zero_ObjectMeta, ro_Content = ''''\<rparr>"

definition zero_binding :: binding_object where
  "zero_binding = \<lparr>bi_Meta = zero_ObjectMeta, bi_Subjects = [], bi_RoleRef = ''''\<rparr>"

definition parseClusterRoleYaml :: "fw_env \<Rightarrow> string \<Rightarrow> go_error + role_object" where
  "parseClusterRoleYaml E = parse_manifest E ''ClusterRole'' (fe_UnmarshalRole E) zero_role"

definition parseClusterRoleBindingYaml :: "fw_env \<Rightarrow> string \<Rightarrow> go_error + binding_object" where
  "parseClusterRoleBindingYaml E = parse_manifest E ''ClusterRoleBinding'' (fe_UnmarshalBinding E) zero_binding"

definition parseRoleYaml :: "fw_env \<Rightarrow> string \<Rightarrow> go_error + role_object" where
  "parseRoleYaml E = parse_manifest E ''Role'' (fe_UnmarshalRole E) zero_role"

definition parseRoleBindingYaml :: "fw_env \<Rightarrow> string \<Rightarrow> go_error + binding_object" where
  "parseRoleBindingYaml E = parse_manifest E ''RoleBinding'' (fe_UnmarshalBinding E) zero_binding"

definition parseServiceAccountYaml :: "fw_env \<Rightarrow> string \<Rightarrow> go_error + role_object" where
  "parseServiceAccountYaml E = parse_manifest E ''ServiceAccount'' (fe_UnmarshalRole E) zero_role"

section \<open>Roles, bindings and accounts\<close>

text \<open>
  The common part of the functions below: an object that is there is updated, otherwise (whatever the
  error of the lookup) it is created.
\<close>

definition update_or_create :: "fw_env \<Rightarrow> fw_resource \<Rightarrow> string \<Rightarrow> fw_object \<Rightarrow> go_error option fw" where
  "update_or_create E r ns x = bind_io (fw_get E r ns (om_Name (fw_meta x))) (\<lambda>err.
     case err of None \<Rightarrow> fw_update E r ns x | Some _ \<Rightarrow> fw_create E r ns x)"

definition CreateClusterRole :: "fw_env \<Rightarrow> string \<Rightarrow> go_error option fw" where
  "CreateClusterRole E relativePath = (case parseClusterRoleYaml E relativePath of
     Inl err \<Rightarrow> ret (Some err)
   | Inr clusterRole \<Rightarrow> update_or_create E ClusterRoleRes '''' (RoleObj clusterRole))"

definition DeleteClusterRole :: "fw_env \<Rightarrow> string \<Rightarrow> go_error option fw" where
  "DeleteClusterRole E relativePath = (case parseClusterRoleYaml E relativePath of
     Inl err \<Rightarrow> ret (Some err)
   | Inr clusterRole \<Rightarrow> fw_delete E ClusterRoleRes '''' (om_Name (ro_Meta clusterRole)))"

text \<open>As in the code, the binding is deleted under the name of the role.\<close>

definition DeleteClusterRoleBinding :: "fw_env \<Rightarrow> string \<Rightarrow> go_error option fw" where
  "DeleteClusterRoleBinding E relativePath = (case parseClusterRoleYaml E relativePath of
     Inl err \<Rightarrow> ret (Some err)
   | Inr clusterRoleBinding \<Rightarrow> fw_delete E ClusterRoleBindingRes '''' (om_Name (ro_Meta clusterRoleBinding)))"

text \<open>The first subject is moved to the namespace; without subjects this is an index out of range.\<close>

definition subject_in :: "string \<Rightarrow> binding_object \<Rightarrow> binding_object option" where
  "subject_in ns b = (case bi_Subjects b of [] \<Rightarrow> None
     | s # ss \<Rightarrow> Some (b\<lparr>bi_Subjects := s\<lparr>sj_Namespace := ns\<rparr> # ss\<rparr>))"

text \<open>The functions with a finalizer return it beside their error.\<close>

definition CreateClusterRoleBinding :: "fw_env \<Rightarrow> string \<Rightarrow> string \<Rightarrow> (go_error option fw \<times> go_error option) fw" where
  "CreateClusterRoleBinding E namespace relativePath =
     (let finalizerFn = DeleteClusterRoleBinding E relativePath
      in case parseClusterRoleBindingYaml E relativePath of
           Inl err \<Rightarrow> ret (finalizerFn, Some err)
         | Inr parsed \<Rightarrow> bind_io (lift_io (subject_in namespace parsed)) (\<lambda>clusterRoleBinding.
             bind_io (update_or_create E ClusterRoleBindingRes '''' (BindingObj clusterRoleBinding)) (\<lambda>err.
               ret (finalizerFn, err))))"

definition CreateRole :: "fw_env \<Rightarrow> string \<Rightarrow> string \<Rightarrow> go_error option fw" where
  "CreateRole E ns relativePath = (case parseRoleYaml E relativePath of
     Inl err \<Rightarrow> ret (Some err)
   | Inr parsed \<Rightarrow>
       (let role = parsed\<lparr>ro_Meta := (ro_Meta parsed)\<lparr>om_Namespace := ns\<rparr>\<rparr>
        in update_or_create E RoleRes ns (RoleObj role)))"

definition DeleteRole :: "fw_env \<Rightarrow> string \<Rightarrow> string \<Rightarrow> go_error option fw" where
  "DeleteRole E ns relativePath = (case parseRoleYaml E relativePath of
     Inl err \<Rightarrow> ret (Some err)
   | Inr role \<Rightarrow> fw_delete E RoleRes ns (om_Name (ro_Meta role)))"

definition DeleteRoleBinding :: "fw_env \<Rightarrow> string \<Rightarrow> string \<Rightarrow> go_error option fw" where
  "DeleteRoleBinding E ns relativePath = (case parseRoleBindingYaml E relativePath of
     Inl err \<Rightarrow> ret (Some err)
   | Inr roleBinding \<Rightarrow> fw_delete E RoleBindingRes ns (om_Name (bi_Meta roleBinding)))"

definition CreateRoleBinding :: "fw_env \<Rightarrow> string \<Rightarrow> string \<Rightarrow> (go_error option fw \<times> go_error option) fw" where
  "CreateRoleBinding E ns relativePath =
     (let finalizerFn = DeleteRoleBinding E ns relativePath
      in case parseRoleBindingYaml E relativePath of
           Inl err \<Rightarrow> ret (finalizerFn, Some err)
         | Inr parsed \<Rightarrow>
             (let placed = parsed\<lparr>bi_Meta := (bi_Meta parsed)\<lparr>om_Namespace := ns\<rparr>\<rparr>
              in bind_io (lift_io (subject_in ns placed)) (\<lambda>roleBinding.
                 bind_io (update_or_create E RoleBindingRes ns (BindingObj roleBinding)) (\<lambda>err.
                   ret (finalizerFn, err)))))"

definition DeleteServiceAccount :: "fw_env \<Rightarrow> string \<Rightarrow> string \<Rightarrow> go_error option fw" where
  "DeleteServiceAccount E namespace relativePath = (case parseServiceAccountYaml E relativePath of
     Inl err \<Rightarrow> ret (Some err)
   | Inr serviceAccount \<Rightarrow> fw_delete E ServiceAccountRes namespace (om_Name (ro_Meta serviceAccount)))"

definition CreateServiceAccount :: "fw_env \<Rightarrow> string \<Rightarrow> string \<Rightarrow> (go_error option fw \<times> go_error option) fw" where
  "CreateServiceAccount E namespace relativePath =
     (let finalizerFn = DeleteServiceAccount E namespace relativePath
      in case parseServiceAccountYaml E relativePath of
           Inl err \<Rightarrow> ret (finalizerFn, Some err)
         | Inr parsed \<Rightarrow>
             (let serviceAccount = parsed\<lparr>ro_Meta := (ro_Meta parsed)\<lparr>om_Namespace := namespace\<rparr>\<rparr>
              in bind_io (fw_create E ServiceAccountRes namespace (RoleObj serviceAccount)) (\<lambda>err. ret (finalizerFn, err))))"

section \<open>Custom resource definitions\<close>

definition GetCRD :: "fw_env \<Rightarrow> string \<Rightarrow> (crd_object option \<times> go_error option) fw" where
  "GetCRD E name = bind_io (perform (FwGet CRDRes '''' name) (\<lambda>h. fe_GetCRD E h name)) (\<lambda>r.
     case r of Inl err \<Rightarrow> ret (None, Wrap (Some err) (''unable to get CRD with name '' @ name)) | Inr crd \<Rightarrow> ret (Some crd, None))"

definition ListCRDs :: "fw_env \<Rightarrow> (crd_object list \<times> go_error option) fw" where
  "ListCRDs E = bind_io (perform (FwList CRDRes '''' '''') (fe_ListCRDs E)) (\<lambda>r.
     case r of Inl err \<Rightarrow> ret ([], Wrap (Some err) ''unable to list CRDs'') | Inr crds \<Rightarrow> ret (crds, None))"

definition CreateCRD :: "fw_env \<Rightarrow> crd_object \<Rightarrow> go_error option fw" where
  "CreateCRD E crd = bind_io (fw_get E CRDRes '''' (om_Name (crd_Meta crd))) (\<lambda>err.
     case err of None \<Rightarrow> ret None
     | Some e \<Rightarrow> if \<not> fe_isNotFound E e then ret (Wrap err (''getting CRD: '' @ crd_Kind crd))
         else bind_io (fw_create E CRDRes '''' (CRDObj crd)) (\<lambda>err'.
           ret (Wrap err' (''create CRD: '' @ crd_Kind crd))))"

definition MakeCRD :: "fw_env \<Rightarrow> string \<Rightarrow> go_error + crd_object" where
  "MakeCRD E pathToYaml = (case fe_Open E pathToYaml of
     Inl err \<Rightarrow> Inl (ErrorfErr (''read CRD asset file: '' @ pathToYaml @ '': '') err)
   | Inr manifest \<Rightarrow> (case fe_DecodeCRD E manifest of
       Inl err \<Rightarrow> Inl (ErrorfErr (''unmarshal CRD asset file: '' @ pathToYaml @ '': '') err)
     | Inr crd \<Rightarrow> Inr crd))"

definition WaitForCRDReady :: "fw_env \<Rightarrow> go_error option fw \<Rightarrow> go_error option fw" where
  "WaitForCRDReady E listFunc = bind_io (fe_Poll E (bind_io listFunc (\<lambda>err. case err of
       None \<Rightarrow> ret (True, None)
     | Some e \<Rightarrow> if fe_isStatus404 E e then ret (False, None) else ret (False, Wrap (Some e) ''failed to list CRD''))))
     (\<lambda>err. ret (Wrap err ''timed out waiting for Custom Resource''))"

section \<open>Deployments\<close>

definition fw_GetDeployment :: "fw_env \<Rightarrow> string \<Rightarrow> string \<Rightarrow> (go_error + Deployment) fw" where
  "fw_GetDeployment E ns name = perform (FwGet DeploymentRes ns name) (\<lambda>h. fe_GetDeployment E h ns name)"

definition fw_UpdateDeployment :: "fw_env \<Rightarrow> Deployment \<Rightarrow> (go_error + Deployment) fw" where
  "fw_UpdateDeployment E deployment =
     (let ns = om_Namespace (dep_Meta deployment)
      in perform (FwUpdate DeploymentRes ns (DeploymentObj deployment)) (\<lambda>h. fe_UpdateDeployment E h ns deployment))"

definition fw_MakeDeployment :: "fw_env \<Rightarrow> string \<Rightarrow> go_error + Deployment" where
  "fw_MakeDeployment E pathToYaml = (case PathToOSFile E pathToYaml of
     Inl err \<Rightarrow> Inl err
   | Inr manifest \<Rightarrow> (case fe_DecodeDeployment E manifest of
       Inl err \<Rightarrow> Inl (ErrorfErr (''failed to decode file '' @ pathToYaml @ '': '') err)
     | Inr deployment \<Rightarrow> Inr deployment))"

definition fw_CreateDeployment :: "fw_env \<Rightarrow> string \<Rightarrow> Deployment \<Rightarrow> go_error option fw" where
  "fw_CreateDeployment E namespace d0 =
     (let d = d0\<lparr>dep_Meta := (dep_Meta d0)\<lparr>om_Namespace := namespace\<rparr>\<rparr>
      in bind_io (fw_create E DeploymentRes namespace (DeploymentObj d)) (\<lambda>err.
           ret (Wrap err (''failed to create deployment '' @ om_Name (dep_Meta d)))))"

definition fw_DeleteDeployment :: "fw_env \<Rightarrow> string \<Rightarrow> string \<Rightarrow> go_error option fw" where
  "fw_DeleteDeployment E namespace name = bind_io (fw_GetDeployment E namespace name) (\<lambda>r.
     case r of Inl err \<Rightarrow> ret (Some err)
     | Inr d0 \<Rightarrow>
         (let d = d0\<lparr>dep_Spec := (dep_Spec d0)\<lparr>ds_Replicas := Some 0\<rparr>\<rparr>
          in bind_io (perform (FwUpdate DeploymentRes namespace (DeploymentObj d)) (\<lambda>h. fe_UpdateDeployment E h namespace d)) (\<lambda>r'.
             case r' of Inl err \<Rightarrow> ret (Some err)
             | Inr d' \<Rightarrow> fw_delete E DeploymentV1beta2Res namespace (om_Name (dep_Meta d')))))"

definition WaitUntilDeploymentGone :: "fw_env \<Rightarrow> string \<Rightarrow> string \<Rightarrow> go_error option fw" where
  "WaitUntilDeploymentGone E namespace name = fe_Poll E
     (bind_io (fw_get E DeploymentV1beta2Res namespace name) (\<lambda>err. ret (case err of
        Some e \<Rightarrow> if fe_isNotFound E e then (True, None) else (False, Some e)
      | None \<Rightarrow> (False, None))))"

section \<open>Pods\<close>

definition GetPod :: "fw_env \<Rightarrow> string \<Rightarrow> string \<Rightarrow> (go_error + Pod) fw" where
  "GetPod E ns name = perform (FwGet PodRes ns name) (\<lambda>h. fe_GetPod E h ns name)"

definition UpdatePod :: "fw_env \<Rightarrow> Pod \<Rightarrow> (go_error + Pod) fw" where
  "UpdatePod E pod =
     (let ns = om_Namespace (pod_Meta pod) in perform (FwUpdate PodRes ns (PodObj pod)) (\<lambda>h. fe_UpdatePod E h ns pod))"

definition MakePod :: "fw_env \<Rightarrow> string \<Rightarrow> go_error + Pod" where
  "MakePod E pathToYaml = (case PathToOSFile E pathToYaml of
     Inl err \<Rightarrow> Inl err
   | Inr manifest \<Rightarrow> (case fe_DecodePod E manifest of
       Inl err \<Rightarrow> Inl (ErrorfErr (''failed to decode file '' @ pathToYaml @ '': '') err)
     | Inr pod \<Rightarrow> Inr pod))"

definition CreatePod :: "fw_env \<Rightarrow> string \<Rightarrow> Pod \<Rightarrow> go_error option fw" where
  "CreatePod E namespace p0 =
     (let p = p0\<lparr>pod_Meta := (pod_Meta p0)\<lparr>om_Namespace := namespace\<rparr>\<rparr>
      in bind_io (fw_create E PodRes namespace (PodObj p)) (\<lambda>err.
           ret (Wrap err (''failed to create deployment '' @ om_Name (pod_Meta p)))))"

definition DeletePod :: "fw_env \<Rightarrow> string \<Rightarrow> string \<Rightarrow> go_error option fw" where
  "DeletePod E namespace name = bind_io (GetPod E namespace name) (\<lambda>r.
     case r of Inl err \<Rightarrow> ret (Some err) | Inr p \<Rightarrow> fw_delete E PodRes namespace (om_Name (pod_Meta p)))"

definition newline :: string where
  "newline = [CHR 0x0A]"

definition PrintPodLogs :: "fw_env \<Rightarrow> string \<Rightarrow> string \<Rightarrow> go_error option fw" where
  "PrintPodLogs E ns p = bind_io (GetPod E ns p) (\<lambda>r.
     case r of Inl err \<Rightarrow> ret (Wrap (Some err) (''failed to print logs of pod '' @ [CHR 0x27] @ p @ [CHR 0x27] @ '': failed to get pod''))
     | Inr pod \<Rightarrow> for_until_error (\<lambda>c.
         bind_io (perform (FwLogs ns p (ct_Name c)) (\<lambda>h. fe_Logs E h ns p (ct_Name c))) (\<lambda>r'.
           case r' of Inl err \<Rightarrow> ret (Wrap (Some err) (''failed to retrieve logs of pod '' @ [CHR 0x27] @ p @ [CHR 0x27]))
           | Inr resp \<Rightarrow>
               bind_io (perform (FwPrint (''=== Logs of '' @ ns @ ''/'' @ p @ ''/'' @ ct_Name c @ '':'')) (\<lambda>h. ())) (\<lambda>_.
               bind_io (perform (FwPrint (resp @ newline)) (\<lambda>h. ())) (\<lambda>_. ret None)))) (ps_Containers (pod_Spec pod)))"

record ExecOptions =
  eo_Command :: "string list"
  eo_Namespace :: string
  eo_PodName :: string
  eo_ContainerName :: string
  eo_Stdin :: "string option"
  eo_CaptureStdout :: bool
  eo_CaptureStderr :: bool
  eo_PreserveWhitespace :: bool

definition MakeExecOptions :: "string \<Rightarrow> string \<Rightarrow> string \<Rightarrow> string list \<Rightarrow> ExecOptions" where
  "MakeExecOptions containerName podName namespace commands = \<lparr>
     eo_Command = commands, eo_Namespace = namespace, eo_PodName = podName, eo_ContainerName = containerName,
     eo_Stdin = None, eo_CaptureStdout = True, eo_CaptureStderr = True, eo_PreserveWhitespace = True\<rparr>"

definition is_space :: "char \<Rightarrow> bool" where
  "is_space c \<longleftrightarrow> (of_char c :: nat) \<in> {9, 10, 11, 12, 13, 32}"

definition TrimSpace :: "string \<Rightarrow> string" where
  "TrimSpace s = rev (dropWhile is_space (rev (dropWhile is_space s)))"

text \<open>The command runs in the pod; what it writes is empty where it is not captured (\<open>fe_Exec\<close> gives both).\<close>

definition ExecWithOptions :: "fw_env \<Rightarrow> ExecOptions \<Rightarrow> (string \<times> string \<times> go_error option) fw" where
  "ExecWithOptions E options = bind_io
     (perform (FwExec (eo_Namespace options) (eo_PodName options) (eo_ContainerName options) (eo_Command options))
        (\<lambda>h. fe_Exec E h (eo_Namespace options) (eo_PodName options) (eo_ContainerName options) (eo_Command options)))
     (\<lambda>(stdout, stderr, err).
        (let out = if eo_CaptureStdout options then stdout else '''';
             errs = if eo_CaptureStderr options then stderr else ''''
         in if eo_PreserveWhitespace options then ret (out, errs, err) else ret (TrimSpace out, TrimSpace errs, err)))"

definition GetLogs :: "fw_env \<Rightarrow> string \<Rightarrow> string \<Rightarrow> string \<Rightarrow> (string \<times> go_error option) fw" where
  "GetLogs E namespace podName containerName =
     bind_io (perform (FwLogs namespace podName containerName) (\<lambda>h. fe_Logs E h namespace podName containerName)) (\<lambda>r.
       case r of Inl err \<Rightarrow> ret ('''', Some err) | Inr logs \<Rightarrow> ret (logs, None))"

definition WaitForHTTPSuccessStatusCode :: "fw_env \<Rightarrow> string \<Rightarrow> go_error option fw" where
  "WaitForHTTPSuccessStatusCode E url = bind_io
     (fe_Poll E (bind_io (perform (FwHttpGet url) (\<lambda>h. fe_HttpStatus E h url)) (\<lambda>r. ret (r = Inr 200, None))))
     (\<lambda>err h. ret (Wrap err (''waiting for '' @ url @ '' to return a successful status code timed out. Last response from server was: ''
        @ fe_LastResponse E h)) h)"

section \<open>Namespaces\<close>

definition fw_CreateNamespace :: "fw_env \<Rightarrow> string \<Rightarrow> go_error option fw" where
  "fw_CreateNamespace E name = bind_io (fw_create E NamespaceRes '''' (NamespaceObj (zero_ObjectMeta\<lparr>om_Name := name\<rparr>))) (\<lambda>err.
     ret (Wrap err (''failed to create namespace with name '' @ name)))"

definition fw_DeleteNamespace :: "fw_env \<Rightarrow> string \<Rightarrow> go_error option fw" where
  "fw_DeleteNamespace E name = fw_delete E NamespaceRes '''' name"

text \<open>The labels are put one by one; the order of the range does not change the map.\<close>

definition AddLabelsToNamespace :: "fw_env \<Rightarrow> string \<Rightarrow> (string \<times> string) list \<Rightarrow> go_error option fw" where
  "AddLabelsToNamespace E name additionalLabels = bind_io (perform (FwGet NamespaceRes '''' name) (\<lambda>h. fe_GetNamespace E h name)) (\<lambda>r.
     case r of Inl err \<Rightarrow> ret (Some err)
     | Inr ns \<Rightarrow>
         (let labels = (case om_Labels ns of None \<Rightarrow> Some [] | Some m \<Rightarrow> Some m);
              labels' = fold (\<lambda>(k, v). map_put k v) additionalLabels labels
          in fw_update E NamespaceRes '''' (NamespaceObj (ns\<lparr>om_Labels := labels'\<rparr>))))"

definition RemoveLabelsFromNamespace :: "fw_env \<Rightarrow> string \<Rightarrow> string list \<Rightarrow> go_error option fw" where
  "RemoveLabelsFromNamespace E name labels = bind_io (perform (FwGet NamespaceRes '''' name) (\<lambda>h. fe_GetNamespace E h name)) (\<lambda>r.
     case r of Inl err \<Rightarrow> ret (Some err)
     | Inr ns \<Rightarrow>
         if (case om_Labels ns of None \<Rightarrow> True | Some m \<Rightarrow> m = []) then ret None
         else (case fe_MarshalPatches E (map (\<lambda>l. (''remove'', ''/metadata/labels/'' @ l)) labels) of
             Inl err \<Rightarrow> ret (Some err)
           | Inr b \<Rightarrow> perform (FwPatch NamespaceRes '''' name b) (\<lambda>h. fe_Patch E h NamespaceRes name b)))"

section \<open>Operators\<close>

definition MakeDatafuseOperatorFromYaml :: "fw_env \<Rightarrow> string \<Rightarrow> go_error + DatafuseOperator" where
  "MakeDatafuseOperatorFromYaml E pathToYaml = (case PathToOSFile E pathToYaml of
     Inl err \<Rightarrow> Inl err
   | Inr manifest \<Rightarrow> (case fe_DecodeOperator E manifest of
       Inl err \<Rightarrow> Inl (ErrorfErr (''failed to decode file '' @ pathToYaml @ '': '') err)
     | Inr operator \<Rightarrow> Inr operator))"

text \<open>These go through the typed client of the repository; all four wrap an error in the same words.\<close>

definition operator_failure :: "string \<Rightarrow> string \<Rightarrow> string" where
  "operator_failure name namespace = ''failed to create DatafuseOperator '' @ name @ '' in '' @ namespace"

definition CreateDatafuseOperator :: "DatafuseV1alpha1Interface \<Rightarrow> string \<Rightarrow> DatafuseOperator \<Rightarrow> go_error option go" where
  "CreateDatafuseOperator crdclientset namespace op = bind_io (if_Create (DatafuseOperators crdclientset namespace) op '''')
     (\<lambda>(_, err). ret (Wrap err (operator_failure (om_Name (op_Meta op)) (om_Namespace (op_Meta op)))))"

definition UpdateDatafuseOperator :: "DatafuseV1alpha1Interface \<Rightarrow> string \<Rightarrow> DatafuseOperator \<Rightarrow> go_error option go" where
  "UpdateDatafuseOperator crdclientset namespace op = bind_io (if_Update (DatafuseOperators crdclientset namespace) op '''')
     (\<lambda>(_, err). ret (Wrap err (operator_failure (om_Name (op_Meta op)) (om_Namespace (op_Meta op)))))"

definition GetDatafuseOperator :: "DatafuseV1alpha1Interface \<Rightarrow> string \<Rightarrow> string \<Rightarrow> go_error option go" where
  "GetDatafuseOperator crdclientset namespace name = bind_io (if_Get (DatafuseOperators crdclientset namespace) name '''')
     (\<lambda>(_, err). ret (Wrap err (operator_failure name namespace)))"

definition DeleteDatafuseOperator :: "DatafuseV1alpha1Interface \<Rightarrow> string \<Rightarrow> string \<Rightarrow> go_error option go" where
  "DeleteDatafuseOperator crdclientset namespace name = bind_io (if_Delete (DatafuseOperators crdclientset namespace) name '''')
     (\<lambda>err. ret (Wrap err (operator_failure name namespace)))"

section \<open>The framework\<close>

record ('k, 'a, 'c) Framework =
  fr_KubeClient :: 'k
  fr_Client :: 'c
  fr_OperatorPod :: "Pod option"
  fr_APIServerClient :: 'a
  fr_DefaultTimeout :: int64
  fr_RestConfig :: rest_config
  fr_MasterHost :: string

text \<open>\<open>location\<close> is where \<^verbatim>\<open>utils/kube.go\<close> finds the configuration once its variable is \<open>kubeconfig\<close>; \<open>Host\<close> reads
  the address in a configuration.\<close>

definition New :: "(string \<Rightarrow> string \<Rightarrow> go_error + rest_config) \<Rightarrow> (rest_config \<Rightarrow> go_error + 'k) \<Rightarrow> (rest_config \<Rightarrow> go_error + 'a)
    \<Rightarrow> (rest_config \<Rightarrow> go_error + 'c) \<Rightarrow> (rest_config \<Rightarrow> string) \<Rightarrow> (string \<Rightarrow> string) \<Rightarrow> string \<Rightarrow> string
    \<Rightarrow> go_error + ('k, 'a, 'c) Framework" where
  "New BuildConfigFromFlags KubeNewForConfig ApiNewForConfig CrdNewForConfig Host Getenv RecommendedHomeFile kubeconfig =
     (let location = GetKubeConfigLocation kubeconfig Getenv RecommendedHomeFile
      in case GetK8sConfig BuildConfigFromFlags location of
           Inl err \<Rightarrow> Inl (ErrorfErr ''cannot fetch kube-config: '' err)
         | Inr config \<Rightarrow> (case GetK8sClient BuildConfigFromFlags KubeNewForConfig location of
             Inl err \<Rightarrow> Inl (ErrorfErr ''creating new kube-client failed: '' err)
           | Inr k8sCli \<Rightarrow> (case ApiNewForConfig config of
               Inl err \<Rightarrow> Inl (ErrorfErr ''creating new kube-client failed: '' err)
             | Inr apiCli \<Rightarrow> (case CrdNewForConfig config of
                 Inl err \<Rightarrow> Inl (ErrorfErr ''creating new datafuse client failed: '' err)
               | Inr client \<Rightarrow> Inr \<lparr>fr_KubeClient = k8sCli, fr_Client = client, fr_OperatorPod = None, fr_APIServerClient = apiCli,
                   fr_DefaultTimeout = 5 * 60 * 1000000000, fr_RestConfig = config, fr_MasterHost = Host config\<rparr>))))"

abbreviation operators_crd :: string where
  "operators_crd \<equiv> ''../../manifests/crds/datafuse.datafuselabs.io_datafuseoperators.yaml''"

abbreviation groups_crd :: string where
  "groups_crd \<equiv> ''../../manifests/crds/datafuse.datafuselabs.io_datafusecomputegroups.yaml''"

abbreviation rbac_yaml :: string where
  "rbac_yaml \<equiv> ''../../manifests/datafuse-rbac.yaml''"

definition CreateDatafuseCRDs :: "fw_env \<Rightarrow> go_error option fw" where
  "CreateDatafuseCRDs E =
     (let listing = (\<lambda>r. perform (FwList r '''' '''') (\<lambda>h. fe_List E h r ''''))
      in case MakeCRD E operators_crd of
        Inl err \<Rightarrow> ret (Some (ErrorfErr ''cannot retrieve operator CRD, '' err))
      | Inr op \<Rightarrow> (case MakeCRD E groups_crd of
          Inl err \<Rightarrow> ret (Some (ErrorfErr ''cannot retrieve compute group CRD, '' err))
        | Inr cg \<Rightarrow> bind_io (CreateCRD E op) (\<lambda>err. case err of
            Some e \<Rightarrow> ret (Some (ErrorfErr ''cannot create operator CRD, '' e))
          | None \<Rightarrow> bind_io (WaitForCRDReady E (listing OperatorRes)) (\<lambda>err. case err of
              Some e \<Rightarrow> ret (Some e)
            | None \<Rightarrow> bind_io (CreateCRD E cg) (\<lambda>err. case err of
                Some e \<Rightarrow> ret (Some (ErrorfErr ''cannot create compute group CRD, '' e))
              | None \<Rightarrow> WaitForCRDReady E (listing GroupRes))))))"

text \<open>\<open>err != nil && !apierrors.IsAlreadyExists(err)\<close>\<close>

definition serious :: "fw_env \<Rightarrow> go_error option \<Rightarrow> bool" where
  "serious E err = (case err of None \<Rightarrow> False | Some e \<Rightarrow> \<not> fe_isAlreadyExists E e)"

definition fw_WaitForPodsReady :: "fw_env \<Rightarrow> string \<Rightarrow> int \<Rightarrow> string \<Rightarrow> go_error option fw" where
  "fw_WaitForPodsReady E namespace expectedReplicas opts = fe_Poll E
     (bind_io (perform (FwList PodRes namespace opts) (\<lambda>h. fe_ListPods E h namespace opts)) (\<lambda>pl. ret (pods_ready expectedReplicas pl)))"

text \<open>
  The image of the first container is replaced (without a container, an index out of range).  The loop
  that follows sets \<^verbatim>\<open>ImagePullPolicy\<close> of its variable, which is a copy of the container: the deployment stays
  as it is, and \<open>opImagePullPolicy\<close> is not used.
\<close>

definition operator_deployment :: "string \<Rightarrow> string \<Rightarrow> Deployment \<Rightarrow> Deployment option" where
  "operator_deployment namespace opImage d0 =
     (let d = d0\<lparr>dep_Meta := (dep_Meta d0)\<lparr>om_Namespace := namespace\<rparr>\<rparr>;
          template = ds_Template (dep_Spec d)
      in if opImage = '''' then Some d
         else case ps_Containers (pt_Spec template) of
           [] \<Rightarrow> None
         | c # cs \<Rightarrow> Some (d\<lparr>dep_Spec := (dep_Spec d)\<lparr>ds_Template := template\<lparr>pt_Spec :=
             (pt_Spec template)\<lparr>ps_Containers := c\<lparr>ct_Image := opImage\<rparr> # cs\<rparr>\<rparr>\<rparr>\<rparr>))"

definition setupOperator :: "fw_env \<Rightarrow> ('k, 'a, 'c) Framework \<Rightarrow> string \<Rightarrow> string \<Rightarrow> string
    \<Rightarrow> (('k, 'a, 'c) Framework \<times> go_error option) fw" where
  "setupOperator E f namespace opImage opImagePullPolicy =
     bind_io (CreateServiceAccount E namespace rbac_yaml) (\<lambda>(_, err).
       if serious E err then ret (f, Wrap err ''failed to create service account'')
       else bind_io (CreateClusterRole E rbac_yaml) (\<lambda>err.
         if serious E err then ret (f, Wrap err ''failed to create cluster role'')
         else bind_io (CreateClusterRoleBinding E namespace rbac_yaml) (\<lambda>(_, err).
           if serious E err then ret (f, Wrap err ''failed to create cluster role binding'')
           else bind_io (CreateRole E namespace rbac_yaml) (\<lambda>err.
             if serious E err then ret (f, Wrap err ''failed to create role'')
             else bind_io (CreateRoleBinding E namespace rbac_yaml) (\<lambda>(_, err).
               if serious E err then ret (f, Wrap err ''failed to create role binding'')
               else (case fw_MakeDeployment E ''../../manifests/datafuse-operator.yaml'' of
                   Inl err \<Rightarrow> ret (f, Some err)
                 | Inr d0 \<Rightarrow> bind_io (lift_io (operator_deployment namespace opImage d0)) (\<lambda>deploy.
                     bind_io (fw_CreateDeployment E namespace deploy) (\<lambda>err.
                       case err of Some _ \<Rightarrow> ret (f, err)
                       | None \<Rightarrow>
                           (let opts = fe_Selector E (pt_Labels (ds_Template (dep_Spec deploy)))
                            in bind_io (fw_WaitForPodsReady E namespace 1 opts) (\<lambda>err.
                                 case err of Some _ \<Rightarrow> ret (f, Wrap err ''failed to wait for operator to become ready'')
                                 | None \<Rightarrow> bind_io (perform (FwList PodRes namespace opts) (\<lambda>h. fe_ListPods E h namespace opts)) (\<lambda>pl.
                                     case pl of Inl err \<Rightarrow> ret (f, Some err)
                                     | Inr [] \<Rightarrow> panic
                                     | Inr (p # _) \<Rightarrow> ret (f\<lparr>fr_OperatorPod := Some p\<rparr>, None))))))))))))"

definition Setup :: "fw_env \<Rightarrow> ('k, 'a, 'c) Framework \<Rightarrow> string \<Rightarrow> string \<Rightarrow> string
    \<Rightarrow> (('k, 'a, 'c) Framework \<times> go_error option) fw" where
  "Setup E f namespace opImage opImagePullPolicy = bind_io (CreateDatafuseCRDs E) (\<lambda>err.
     case err of Some _ \<Rightarrow> ret (f, err)
     | None \<Rightarrow> bind_io (setupOperator E f namespace opImage opImagePullPolicy) (\<lambda>(f', err).
         ret (f', Wrap err ''setup operator failed'')))"

text \<open>The path of the code, which differs from the one of the set-up.\<close>

abbreviation teardown_yaml :: string where
  "teardown_yaml \<equiv> ''../../manifest/datafuse-rbac.yaml''"

definition Teardown :: "fw_env \<Rightarrow> string \<Rightarrow> go_error option fw" where
  "Teardown E ns = bind_io (DeleteClusterRole E teardown_yaml) (\<lambda>err.
     if serious E err then ret (Wrap err ''failed to delete operator cluster role'')
     else bind_io (DeleteClusterRoleBinding E teardown_yaml) (\<lambda>err.
       if serious E err then ret (Wrap err ''failed to delete operator cluster role binding'')
       else bind_io (fw_delete E DeploymentRes ns ''datafuse-controller-manager'') (\<lambda>err.
         case err of Some _ \<Rightarrow> ret err | None \<Rightarrow> fw_DeleteNamespace E ns)))"

end
