(* ===== verification/Framework_Live.thy ===== *)
theory Framework_Live
  imports Framework_Setup
begin

text \<open>
  The set-up and the teardown of the end-to-end framework against a cluster that remembers what is
  written to it, and with the manifest of the repository.
\<close>

section \<open>Reading a manifest\<close>

definition opened :: "fw_env \<Rightarrow> string \<Rightarrow> unstructured list \<Rightarrow> go_error \<Rightarrow> bool" where
  "opened E relativePath docs closing \<longleftrightarrow>
     (\<exists>path content. fe_Abs E relativePath = Inr path \<and> fe_Open E path = Inr content \<and> fe_Documents E content = (docs, closing))"

lemma manifest_loop_find:
  "manifest_loop E kind unmarshal obj docs closing = (case find (\<lambda>u. un_Kind u = kind) docs of
     None \<Rightarrow> (obj, Some closing) | Some u \<Rightarrow> (unmarshal (fst (fe_MarshalJSON E u)), snd (fe_MarshalJSON E u)))"
  by (induction docs) (simp_all add: case_prod_unfold Let_def)

lemma parse_opened:
  assumes "opened E relativePath docs closing"
  shows "parse_manifest E kind unmarshal zero relativePath = (case find (\<lambda>u. un_Kind u = kind) docs of
     None \<Rightarrow> if closing \<noteq> EOF then Inl closing else Inr zero
   | Some u \<Rightarrow> (case snd (fe_MarshalJSON E u) of None \<Rightarrow> Inr (unmarshal (fst (fe_MarshalJSON E u)))
       | Some e \<Rightarrow> if e \<noteq> EOF then Inl e else Inr (unmarshal (fst (fe_MarshalJSON E u)))))"
  using assms by (auto simp: opened_def parse_manifest_def PathToOSFile_def manifest_loop_find Let_def split: option.split)

text \<open>The first document of the kind is there, and \<open>x\<close> is what it decodes to.\<close>

definition document :: "fw_env \<Rightarrow> unstructured list \<Rightarrow> string \<Rightarrow> (string \<Rightarrow> 'a) \<Rightarrow> 'a \<Rightarrow> bool" where
  "document E docs kind unmarshal x \<longleftrightarrow>
     (\<exists>u. find (\<lambda>u. un_Kind u = kind) docs = Some u \<and> snd (fe_MarshalJSON E u) = None \<and> x = unmarshal (fst (fe_MarshalJSON E u)))"

lemma parse_document:
  "opened E relativePath docs closing \<Longrightarrow> document E docs kind unmarshal x \<Longrightarrow> parse_manifest E kind unmarshal zero relativePath = Inr x"
  by (auto simp: parse_opened document_def)

section \<open>A cluster that remembers\<close>

type_synonym fw_store = "fw_resource \<times> string \<times> string \<Rightarrow> fw_object option"

abbreviation fw_name :: "fw_object \<Rightarrow> string" where
  "fw_name x \<equiv> om_Name (fw_meta x)"

fun fw_step :: "fw_call \<Rightarrow> fw_store \<Rightarrow> fw_store" where
  "fw_step (FwCreate r ns x) st = (if fw_name x = '''' \<or> st (r, ns, fw_name x) \<noteq> None then st else st((r, ns, fw_name x) \<mapsto> x))"
| "fw_step (FwUpdate r ns x) st = (if st (r, ns, fw_name x) = None then st else st((r, ns, fw_name x) \<mapsto> x))"
| "fw_step (FwDelete r ns name) st = st((r, ns, name) := None)"
| "fw_step c st = st"

definition fw_at :: "fw_store \<Rightarrow> fw_call list \<Rightarrow> fw_store" where
  "fw_at st0 h = fold fw_step h st0"

lemma fw_at_append [simp]: "fw_at st0 (h @ h') = fold fw_step h' (fw_at st0 h)"
  by (simp add: fw_at_def)

text \<open>An object needs a name; a lookup, an update and a deletion need the object; \<^verbatim>\<open>AlreadyExists\<close> is what the creation
  of an object that exists answers, and no other failure here.\<close>

definition fw_live :: "fw_env \<Rightarrow> fw_store \<Rightarrow> bool" where
  "fw_live E st0 \<longleftrightarrow>
     (\<forall>h r ns x. case fe_Create E h r ns x of
        None \<Rightarrow> fw_name x \<noteq> '''' \<and> fw_at st0 h (r, ns, fw_name x) = None
      | Some e \<Rightarrow> (fw_name x = '''' \<or> fw_at st0 h (r, ns, fw_name x) \<noteq> None) \<and> (fe_isAlreadyExists E e \<longleftrightarrow> fw_name x \<noteq> ''''))
   \<and> (\<forall>h r ns name. fe_Get E h r ns name = None \<longleftrightarrow> fw_at st0 h (r, ns, name) \<noteq> None)
   \<and> (\<forall>h r ns x. fe_Update E h r ns x = None \<longleftrightarrow> fw_at st0 h (r, ns, fw_name x) \<noteq> None)
   \<and> (\<forall>h r ns name. case fe_Delete E h r ns name of None \<Rightarrow> fw_at st0 h (r, ns, name) \<noteq> None
      | Some e \<Rightarrow> fw_at st0 h (r, ns, name) = None \<and> \<not> fe_isAlreadyExists E e)"

lemma live_create:
  assumes "fw_live E st0" and "fw_name x \<noteq> ''''"
  shows "fe_Create E h r ns x = None \<longleftrightarrow> fw_at st0 h (r, ns, fw_name x) = None" and "\<not> serious E (fe_Create E h r ns x)"
proof -
  have "case fe_Create E h r ns x of None \<Rightarrow> fw_name x \<noteq> '''' \<and> fw_at st0 h (r, ns, fw_name x) = None
      | Some e \<Rightarrow> (fw_name x = '''' \<or> fw_at st0 h (r, ns, fw_name x) \<noteq> None) \<and> (fe_isAlreadyExists E e \<longleftrightarrow> fw_name x \<noteq> '''')"
    using assms(1) unfolding fw_live_def by blast
  with assms(2) show "fe_Create E h r ns x = None \<longleftrightarrow> fw_at st0 h (r, ns, fw_name x) = None" and "\<not> serious E (fe_Create E h r ns x)"
    by (auto simp: serious_def split: option.splits)
qed

lemma live_update_or_create:
  assumes "fw_live E st0" and "fw_name x \<noteq> ''''"
  shows "\<exists>h'. update_or_create E r ns x h = (Some None, h') \<and> fw_at st0 h' = (fw_at st0 h)((r, ns, fw_name x) \<mapsto> x)"
proof (cases "fw_at st0 h (r, ns, fw_name x)")
  case None
  moreover have "fe_Get E h r ns (fw_name x) \<noteq> None" using assms(1) None by (simp add: fw_live_def)
  moreover have "fe_Create E (h @ [FwGet r ns (fw_name x)]) r ns x = None"
    using live_create(1) [OF assms] None by simp
  ultimately show ?thesis using assms(2) by (auto simp: update_or_create_def io_simps)
next
  case (Some y)
  then have "fe_Get E h r ns (fw_name x) = None" "fe_Update E (h @ [FwGet r ns (fw_name x)]) r ns x = None"
    using assms(1) by (simp_all add: fw_live_def)
  with Some show ?thesis by (auto simp: update_or_create_def io_simps)
qed

section \<open>The steps of the set-up\<close>

lemma live_CreateClusterRole:
  assumes "fw_live E st0" and "opened E rbac_yaml docs closing" and "document E docs ''ClusterRole'' (fe_UnmarshalRole E) role"
    and "om_Name (ro_Meta role) \<noteq> ''''"
  shows "\<exists>h'. CreateClusterRole E rbac_yaml h = (Some None, h')
    \<and> fw_at st0 h' = (fw_at st0 h)((ClusterRoleRes, '''', om_Name (ro_Meta role)) \<mapsto> RoleObj role)"
  using live_update_or_create [OF assms(1), of "RoleObj role" ClusterRoleRes "''''" h] assms(4)
  by (simp add: CreateClusterRole_def parseClusterRoleYaml_def parse_document [OF assms(2,3)])

lemma live_CreateRole:
  assumes "fw_live E st0" and "opened E rbac_yaml docs closing" and "document E docs ''Role'' (fe_UnmarshalRole E) role"
    and "om_Name (ro_Meta role) \<noteq> ''''" and "role' = role\<lparr>ro_Meta := (ro_Meta role)\<lparr>om_Namespace := ns\<rparr>\<rparr>"
  shows "\<exists>h'. CreateRole E ns rbac_yaml h = (Some None, h')
    \<and> fw_at st0 h' = (fw_at st0 h)((RoleRes, ns, om_Name (ro_Meta role)) \<mapsto> RoleObj role')"
  using live_update_or_create [OF assms(1), of "RoleObj role'" RoleRes ns h] assms(4,5)
  by (simp add: CreateRole_def parseRoleYaml_def parse_document [OF assms(2,3)] Let_def)

lemma subject_name: "subject_in ns b = Some b' \<Longrightarrow> bi_Meta b' = bi_Meta b"
  by (auto simp: subject_in_def split: list.splits)

lemma live_CreateClusterRoleBinding:
  assumes "fw_live E st0" and "opened E rbac_yaml docs closing" and "document E docs ''ClusterRoleBinding'' (fe_UnmarshalBinding E) binding"
    and "om_Name (bi_Meta binding) \<noteq> ''''" and "subject_in ns binding = Some binding'"
  shows "\<exists>fin h'. CreateClusterRoleBinding E ns rbac_yaml h = (Some (fin, None), h')
    \<and> fw_at st0 h' = (fw_at st0 h)((ClusterRoleBindingRes, '''', om_Name (bi_Meta binding)) \<mapsto> BindingObj binding')"
  using live_update_or_create [OF assms(1), of "BindingObj binding'" ClusterRoleBindingRes "''''" h] assms(4,5) subject_name [OF assms(5)]
  by (auto simp: CreateClusterRoleBinding_def parseClusterRoleBindingYaml_def parse_document [OF assms(2,3)] Let_def bind_run ret_run lift_run)

lemma live_CreateRoleBinding:
  assumes "fw_live E st0" and "opened E rbac_yaml docs closing" and "document E docs ''RoleBinding'' (fe_UnmarshalBinding E) binding"
    and "om_Name (bi_Meta binding) \<noteq> ''''"
    and "subject_in ns (binding\<lparr>bi_Meta := (bi_Meta binding)\<lparr>om_Namespace := ns\<rparr>\<rparr>) = Some binding'"
  shows "\<exists>fin h'. CreateRoleBinding E ns rbac_yaml h = (Some (fin, None), h')
    \<and> fw_at st0 h' = (fw_at st0 h)((RoleBindingRes, ns, om_Name (bi_Meta binding)) \<mapsto> BindingObj binding')"
  using live_update_or_create [OF assms(1), of "BindingObj binding'" RoleBindingRes ns h] assms(4,5) subject_name [OF assms(5)]
  by (auto simp: CreateRoleBinding_def parseRoleBindingYaml_def parse_document [OF assms(2,3)] Let_def bind_run ret_run lift_run)

text \<open>The image of the deployment is the one asked for; the pull policies are those of the manifest.\<close>

lemma operator_deployment_fields:
  assumes "operator_deployment ns opImage d0 = Some d"
  shows "om_Name (dep_Meta d) = om_Name (dep_Meta d0)" and "om_Namespace (dep_Meta d) = ns"
    and "pt_Labels (ds_Template (dep_Spec d)) = pt_Labels (ds_Template (dep_Spec d0))"
    and "map ct_ImagePullPolicy (ps_Containers (pt_Spec (ds_Template (dep_Spec d)))) =
      map ct_ImagePullPolicy (ps_Containers (pt_Spec (ds_Template (dep_Spec d0))))"
    and "opImage \<noteq> '''' \<Longrightarrow> ct_Image (hd (ps_Containers (pt_Spec (ds_Template (dep_Spec d))))) = opImage"
  using assms by (auto simp: operator_deployment_def Let_def split: if_splits list.splits)

section \<open>The roles and bindings of the manifest\<close>

text \<open>The kinds of the documents in \<^verbatim>\<open>manifests/datafuse-rbac.yaml\<close>.\<close>

definition rbac_kinds :: "string list" where
  "rbac_kinds = [''Role'', ''ClusterRole'', ''ClusterRole'', ''ClusterRole'', ''RoleBinding'', ''ClusterRoleBinding'', ''ClusterRoleBinding'']"

lemma first_of_kind:
  assumes "map un_Kind docs = rbac_kinds"
  shows "find (\<lambda>u. un_Kind u = ''ClusterRole'') docs = Some (docs ! 1)" and "find (\<lambda>u. un_Kind u = ''Role'') docs = Some (docs ! 0)"
    and "find (\<lambda>u. un_Kind u = ''RoleBinding'') docs = Some (docs ! 4)"
    and "find (\<lambda>u. un_Kind u = ''ClusterRoleBinding'') docs = Some (docs ! 5)" and "length docs = 7"
  using assms by (auto simp: rbac_kinds_def map_eq_Cons_conv)

text \<open>
  The roles and bindings, in the order in which \<^verbatim>\<open>setupOperator\<close> creates them after the account: with the
  manifest of the repository each of the four functions leaves the first document of its kind stored, whether
  something was stored there before or not, the bindings for the namespace asked for; the other cluster
  roles and the other cluster role binding of the manifest are not stored.  \<^verbatim>\<open>setupOperator\<close> itself does
  not get as far as this with that manifest (\<open>setup_needs_account\<close>).
\<close>

lemma roles_created:
  fixes E docs
  defines "decode u \<equiv> fst (fe_MarshalJSON E u)"
  assumes "fw_live E st0" and "opened E rbac_yaml docs closing" and "map un_Kind docs = rbac_kinds"
    and decoded: "\<forall>u \<in> set docs. snd (fe_MarshalJSON E u) = None"
    and crole: "crole = fe_UnmarshalRole E (decode (docs ! 1))" "om_Name (ro_Meta crole) \<noteq> ''''"
    and cbinding: "cbinding = fe_UnmarshalBinding E (decode (docs ! 5))" "om_Name (bi_Meta cbinding) \<noteq> ''''"
    and role: "role = fe_UnmarshalRole E (decode (docs ! 0))" "om_Name (ro_Meta role) \<noteq> ''''"
    and binding: "binding = fe_UnmarshalBinding E (decode (docs ! 4))" "om_Name (bi_Meta binding) \<noteq> ''''"
    and subjects: "subject_in ns cbinding = Some cbinding'"
      "subject_in ns (binding\<lparr>bi_Meta := (bi_Meta binding)\<lparr>om_Namespace := ns\<rparr>\<rparr>) = Some binding'"
  shows "\<exists>fin fin' h1 h2 h3 h4. CreateClusterRole E rbac_yaml h = (Some None, h1)
    \<and> CreateClusterRoleBinding E ns rbac_yaml h1 = (Some (fin, None), h2)
    \<and> CreateRole E ns rbac_yaml h2 = (Some None, h3) \<and> CreateRoleBinding E ns rbac_yaml h3 = (Some (fin', None), h4)
    \<and> fw_at st0 h4 = (fw_at st0 h)
       ((ClusterRoleRes, '''', om_Name (ro_Meta crole)) \<mapsto> RoleObj crole,
        (ClusterRoleBindingRes, '''', om_Name (bi_Meta cbinding)) \<mapsto> BindingObj cbinding',
        (RoleRes, ns, om_Name (ro_Meta role)) \<mapsto> RoleObj (role\<lparr>ro_Meta := (ro_Meta role)\<lparr>om_Namespace := ns\<rparr>\<rparr>),
        (RoleBindingRes, ns, om_Name (bi_Meta binding)) \<mapsto> BindingObj binding')"
proof -
  note found = first_of_kind [OF assms(4)]
  have docs: "document E docs ''ClusterRole'' (fe_UnmarshalRole E) crole" "document E docs ''ClusterRoleBinding'' (fe_UnmarshalBinding E) cbinding"
    "document E docs ''Role'' (fe_UnmarshalRole E) role" "document E docs ''RoleBinding'' (fe_UnmarshalBinding E) binding"
    unfolding document_def found crole(1) cbinding(1) role(1) binding(1) decode_def using decoded found(5) by simp_all
  obtain h1 where 1: "CreateClusterRole E rbac_yaml h = (Some None, h1)"
    "fw_at st0 h1 = (fw_at st0 h)((ClusterRoleRes, '''', om_Name (ro_Meta crole)) \<mapsto> RoleObj crole)"
    using live_CreateClusterRole [OF assms(2,3) docs(1) crole(2)] by blast
  obtain fin h2 where 2: "CreateClusterRoleBinding E ns rbac_yaml h1 = (Some (fin, None), h2)"
    "fw_at st0 h2 = (fw_at st0 h1)((ClusterRoleBindingRes, '''', om_Name (bi_Meta cbinding)) \<mapsto> BindingObj cbinding')"
    using live_CreateClusterRoleBinding [OF assms(2,3) docs(2) cbinding(2) subjects(1)] by blast
  obtain h3 where 3: "CreateRole E ns rbac_yaml h2 = (Some None, h3)"
    "fw_at st0 h3 = (fw_at st0 h2)((RoleRes, ns, om_Name (ro_Meta role)) \<mapsto> RoleObj (role\<lparr>ro_Meta := (ro_Meta role)\<lparr>om_Namespace := ns\<rparr>\<rparr>))"
    using live_CreateRole [OF assms(2,3) docs(3) role(2) refl] by blast
  obtain fin' h4 where "CreateRoleBinding E ns rbac_yaml h3 = (Some (fin', None), h4)"
    "fw_at st0 h4 = (fw_at st0 h3)((RoleBindingRes, ns, om_Name (bi_Meta binding)) \<mapsto> BindingObj binding')"
    using live_CreateRoleBinding [OF assms(2,3) docs(4) binding(2) subjects(2)] by blast
  with 1 2 3 show ?thesis by auto
qed

section \<open>Properties\<close>

lemma no_account: "map un_Kind docs = rbac_kinds \<Longrightarrow> find (\<lambda>u. un_Kind u = ''ServiceAccount'') docs = None"
proof -
  assume docs: "map un_Kind docs = rbac_kinds"
  have "''ServiceAccount'' \<notin> set (map un_Kind docs)" unfolding docs by (simp add: rbac_kinds_def)
  then show ?thesis by (auto simp: find_None_iff image_iff)
qed

text \<open>C34 (error).  With the manifest of the repository, which has no account, the set-up fails: the account that is asked
  for has no name, and a server that wants names refuses it.  Nothing else is created for the operator,
  and the set-up as a whole, whatever the custom resource definitions come to, returns an error.\<close>

theorem setup_needs_account:
  assumes "opened E rbac_yaml docs EOF" and "map un_Kind docs = rbac_kinds"
    and "\<forall>h r ns x. fw_name x = '''' \<longrightarrow> serious E (fe_Create E h r ns x)"
  shows "(\<exists>err. setupOperator E f ns opImage opImagePullPolicy h = (Some (f, Some err),
        h @ [FwCreate ServiceAccountRes ns (RoleObj (zero_role\<lparr>ro_Meta := zero_ObjectMeta\<lparr>om_Namespace := ns\<rparr>\<rparr>))]))
    \<and> (\<forall>f' err h'. Setup E f ns opImage opImagePullPolicy h = (Some (f', err), h') \<longrightarrow> f' = f \<and> err \<noteq> None)"
proof -
  let ?x = "RoleObj (zero_role\<lparr>ro_Meta := zero_ObjectMeta\<lparr>om_Namespace := ns\<rparr>\<rparr>)"
  have parsed: "parseServiceAccountYaml E rbac_yaml = Inr zero_role"
    by (simp add: parseServiceAccountYaml_def parse_opened [OF assms(1)] no_account [OF assms(2)])
  have refused: "serious E (fe_Create E h ServiceAccountRes ns ?x)" for h
    using assms(3) by (simp add: zero_ObjectMeta_def)
  have fails: "\<exists>err. setupOperator E f ns opImage opImagePullPolicy h = (Some (f, Some err), h @ [FwCreate ServiceAccountRes ns ?x])" for h
    using refused [of h]
    by (auto simp: setupOperator_def CreateServiceAccount_def parsed Let_def io_simps Wrap_def serious_def zero_role_def split: option.splits)
  have "f' = f \<and> err \<noteq> None" if "Setup E f ns opImage opImagePullPolicy h = (Some (f', err), h')" for f' err h'
  proof (cases "fst (CreateDatafuseCRDs E h)")
    case None
    with that show ?thesis by (simp add: Setup_def io_simps split: prod.splits)
  next
    case (Some res)
    then obtain h1 where "CreateDatafuseCRDs E h = (Some res, h1)" by (cases "CreateDatafuseCRDs E h") simp
    with that fails [of h1] show ?thesis by (cases res) (auto simp: Setup_def io_simps Wrap_def)
  qed
  with fails [of h] show ?thesis by blast
qed

text \<open>C35 (error).  The teardown, on a cluster that remembers: where the manifest cannot be read under its path it deletes nothing; and where it
  can, it looks for the cluster role binding under the name of the cluster role, so that when these names
  differ it ends with an error, and the binding, the deployment and the namespace stay.\<close>

theorem teardown_leaves_cluster:
  assumes "fw_live E st0"
  shows "case parseClusterRoleYaml E teardown_yaml of
      Inl err \<Rightarrow> \<not> fe_isAlreadyExists E err \<longrightarrow>
        Teardown E ns h = (Some (Some (ErrorfErr ''failed to delete operator cluster role: '' err)), h)
    | Inr role \<Rightarrow> fw_at st0 h (ClusterRoleBindingRes, '''', om_Name (ro_Meta role)) = None \<longrightarrow>
        (\<exists>err h'. Teardown E ns h = (Some (Some err), h')
           \<and> fw_at st0 h' = (fw_at st0 h)((ClusterRoleRes, '''', om_Name (ro_Meta role)) := None))"
proof (cases "parseClusterRoleYaml E teardown_yaml")
  case (Inl err)
  then show ?thesis by (simp add: Teardown_def DeleteClusterRole_def io_simps serious_def Wrap_def)
next
  case (Inr role)
  let ?n = "om_Name (ro_Meta role)"
  have del: "case fe_Delete E h r ns name of None \<Rightarrow> fw_at st0 h (r, ns, name) \<noteq> None
      | Some e \<Rightarrow> fw_at st0 h (r, ns, name) = None \<and> \<not> fe_isAlreadyExists E e" for h r ns name
    using assms unfolding fw_live_def by blast
  show ?thesis
  proof (cases "fe_Delete E h ClusterRoleRes '''' ?n")
    case None
    moreover have "fe_Delete E (h @ [FwDelete ClusterRoleRes '''' ?n]) ClusterRoleBindingRes '''' ?n = None \<longrightarrow>
        fw_at st0 h (ClusterRoleBindingRes, '''', ?n) \<noteq> None"
      "serious E (fe_Delete E (h @ [FwDelete ClusterRoleRes '''' ?n]) ClusterRoleBindingRes '''' ?n) \<longleftrightarrow>
        fe_Delete E (h @ [FwDelete ClusterRoleRes '''' ?n]) ClusterRoleBindingRes '''' ?n \<noteq> None"
      using del [of "h @ [FwDelete ClusterRoleRes '''' ?n]" ClusterRoleBindingRes "''''" ?n]
      by (auto simp: serious_def split: option.splits)
    ultimately show ?thesis
      using Inr by (auto simp: Teardown_def DeleteClusterRole_def DeleteClusterRoleBinding_def io_simps serious_def [of E None] Wrap_def)
  next
    case (Some e)
    with del [of h ClusterRoleRes "''''" ?n] have "fw_at st0 h (ClusterRoleRes, '''', ?n) = None" "serious E (Some e)"
      by (simp_all add: serious_def)
    with Some Inr show ?thesis by (auto simp: Teardown_def DeleteClusterRole_def io_simps Wrap_def)
  qed
qed

section \<open>The properties at concrete inputs\<close>

text \<open>
  A cluster that remembers, with one file system: the manifests of the repository, where every path that
  starts with the directory \<open>missing\<close> cannot be opened, and every file of roles has the documents \<open>docs\<close>.  A role is decoded to
  its name, a binding to its name and one subject.
\<close>

definition manager_deployment :: Deployment where
  "manager_deployment = \<lparr>dep_Meta = zero_ObjectMeta\<lparr>om_Name := ''datafuse-controller-manager'', om_Namespace := ''datafuse-operator-system''\<rparr>,
     dep_Spec = \<lparr>ds_Replicas = Some 1, ds_MatchLabels = Some [(''control-plane'', ''controller-manager'')],
       ds_Template = \<lparr>pt_Labels = Some [(''control-plane'', ''controller-manager'')], pt_Spec = \<lparr>ps_Containers = [
         \<lparr>ct_Name = ''manager'', ct_Image = ''zhihanz/controller:latest'', ct_ImagePullPolicy = '''', ct_Env = [], ct_Ports = [],
           ct_LivenessProbe = \<lparr>pb_HTTPGet = \<lparr>hg_Path = '''', hg_Port = FromInt 0, hg_Scheme = ''''\<rparr>, pb_PeriodSeconds = 0,
             pb_SuccessThreshold = 0, pb_FailureThreshold = 0, pb_TimeoutSeconds = 0\<rparr>,
           ct_ReadinessProbe = \<lparr>pb_HTTPGet = \<lparr>hg_Path = '''', hg_Port = FromInt 0, hg_Scheme = ''''\<rparr>, pb_PeriodSeconds = 0,
             pb_SuccessThreshold = 0, pb_FailureThreshold = 0, pb_TimeoutSeconds = 0\<rparr>,
           ct_Resources = \<lparr>rr_Requests = [(''cpu'', ParsedQuantity ''100m''), (''memory'', ParsedQuantity ''20Mi'')],
             rr_Limits = [(''cpu'', ParsedQuantity ''100m''), (''memory'', ParsedQuantity ''30Mi'')]\<rparr>,
           ct_Args = []\<rparr>]\<rparr>\<rparr>\<rparr>\<rparr>"

definition manager_pod :: Pod where
  "manager_pod = \<lparr>pod_Meta = zero_ObjectMeta\<lparr>om_Name := ''manager-1''\<rparr>, pod_Spec = pt_Spec (ds_Template (dep_Spec manager_deployment)),
     pod_Status = \<lparr>pst_Phase = ''Running'', pst_PodIP = ''10.0.0.9'', pst_Conditions = [\<lparr>pc_Type = ''Ready'', pc_Status = ''True''\<rparr>]\<rparr>\<rparr>"

definition exists_error :: go_error where
  "exists_error = ForeignError ''already exists''"

definition mem_env :: "string \<Rightarrow> unstructured list \<Rightarrow> fw_store \<Rightarrow> fw_env" where
  "mem_env missing docs st0 = \<lparr>
     fe_Abs = Inr,
     fe_Open = \<lambda>path. if missing \<noteq> '''' \<and> take (length missing) path = missing then Inl (ForeignError ''no such file or directory'') else Inr path,
     fe_Documents = \<lambda>content. (docs, EOF),
     fe_MarshalJSON = \<lambda>u. (un_Content u, None),
     fe_UnmarshalRole = \<lambda>s. zero_role\<lparr>ro_Meta := zero_ObjectMeta\<lparr>om_Name := s\<rparr>\<rparr>,
     fe_UnmarshalBinding = \<lambda>s. \<lparr>bi_Meta = zero_ObjectMeta\<lparr>om_Name := s\<rparr>,
       bi_Subjects = [\<lparr>sj_Kind = ''ServiceAccount'', sj_Name = ''default'', sj_Namespace = ''datafuse-operator-system''\<rparr>], bi_RoleRef = ''''\<rparr>,
     fe_DecodeDeployment = \<lambda>content. Inr manager_deployment,
     fe_DecodePod = \<lambda>content. Inr manager_pod,
     fe_DecodeOperator = \<lambda>content. Inr zero_Operator,
     fe_DecodeCRD = \<lambda>content. Inr \<lparr>crd_Meta = zero_ObjectMeta\<lparr>om_Name := content\<rparr>, crd_Kind = '''', crd_Content = ''''\<rparr>,
     fe_Selector = \<lambda>labels. ''control-plane=controller-manager'',
     fe_MarshalPatches = \<lambda>ps. Inr ''[]'',
     fe_isAlreadyExists = \<lambda>e. e = exists_error,
     fe_isNotFound = \<lambda>e. case e of NewNotFound kind name \<Rightarrow> True | _ \<Rightarrow> False,
     fe_isStatus404 = \<lambda>e. False,
     fe_Get = \<lambda>h r ns name. if fw_at st0 h (r, ns, name) = None then Some (NewNotFound ns name) else None,
     fe_GetDeployment = \<lambda>h ns name. Inr manager_deployment,
     fe_GetPod = \<lambda>h ns name. Inr manager_pod,
     fe_GetNamespace = \<lambda>h name. Inr (zero_ObjectMeta\<lparr>om_Name := name\<rparr>),
     fe_GetCRD = \<lambda>h name. Inl (NewNotFound '''' name),
     fe_ListCRDs = \<lambda>h. Inr [],
     fe_ListPods = \<lambda>h ns opts. Inr [manager_pod],
     fe_List = \<lambda>h r ns. None,
     fe_Create = \<lambda>h r ns x. if fw_name x = '''' then Some (ForeignError ''name is required'')
       else if fw_at st0 h (r, ns, fw_name x) \<noteq> None then Some exists_error else None,
     fe_Update = \<lambda>h r ns x. if fw_at st0 h (r, ns, fw_name x) = None then Some (NewNotFound ns (fw_name x)) else None,
     fe_UpdateDeployment = \<lambda>h ns d. Inr d,
     fe_UpdatePod = \<lambda>h ns p. Inr p,
     fe_Delete = \<lambda>h r ns name. if fw_at st0 h (r, ns, name) = None then Some (NewNotFound ns name) else None,
     fe_Patch = \<lambda>h r ns name. None,
     fe_Logs = \<lambda>h ns p c. Inr '''',
     fe_Exec = \<lambda>h ns p c cmd. ('''', '''', None),
     fe_LastResponse = \<lambda>h. '''',
     fe_HttpStatus = \<lambda>h url. Inr 200,
     fe_Poll = \<lambda>cond h. case cond h of (None, h') \<Rightarrow> (None, h')
       | (Some (ok, err), h') \<Rightarrow> (Some (if ok then None else Some (ForeignError ''timed out'')), h')\<rparr>"

lemma mem_env_laws: "fw_live (mem_env missing docs st0) st0"
  "take (length missing) path \<noteq> missing \<Longrightarrow> opened (mem_env missing docs st0) path docs EOF"
  "opened (mem_env '''' docs st0) path docs EOF"
  by (auto simp: mem_env_def fw_live_def opened_def exists_error_def)

definition rbac_documents :: "unstructured list" where
  "rbac_documents = map (\<lambda>(kind, name). \<lparr>un_Kind = kind, un_Content = name\<rparr>) [(''Role'', ''datafuse-leader-election-role''),
     (''ClusterRole'', ''datafuse-manager-role''), (''ClusterRole'', ''datafuse-metrics-reader''), (''ClusterRole'', ''datafuse-proxy-role''),
     (''RoleBinding'', ''datafuse-leader-election-rolebinding''), (''ClusterRoleBinding'', ''datafuse-manager-rolebinding''),
     (''ClusterRoleBinding'', ''datafuse-proxy-rolebinding'')]"

definition sample_framework :: "(unit, unit, unit) Framework" where
  "sample_framework = \<lparr>fr_KubeClient = (), fr_Client = (), fr_OperatorPod = None, fr_APIServerClient = (), fr_DefaultTimeout = 300000000000,
     fr_RestConfig = \<lparr>cf_RateLimiter = None, cf_QPS = 0, cf_Burst = 0, cf_GroupVersion = None, cf_APIPath = '''', cf_UserAgent = ''''\<rparr>,
     fr_MasterHost = ''''\<rparr>"

theorem setup_needs_account_witness:
  "\<exists>err. setupOperator (mem_env '''' rbac_documents Map.empty) sample_framework ''test-1'' '''' ''Always'' [] = (Some (sample_framework, Some err),
     [FwCreate ServiceAccountRes ''test-1'' (RoleObj (zero_role\<lparr>ro_Meta := zero_ObjectMeta\<lparr>om_Namespace := ''test-1''\<rparr>\<rparr>))])"
proof -
  let ?E = "mem_env '''' rbac_documents Map.empty"
  have kinds: "map un_Kind rbac_documents = rbac_kinds" by (simp add: rbac_documents_def rbac_kinds_def)
  have "\<forall>h r ns x. fw_name x = '''' \<longrightarrow> serious ?E (fe_Create ?E h r ns x)" by (simp add: mem_env_def serious_def exists_error_def)
  from setup_needs_account [OF mem_env_laws(3) kinds this, of sample_framework "''test-1''" "''''" "''Always''" "[]"] show ?thesis by simp
qed

theorem teardown_leaves_cluster_witness:
  "Teardown (mem_env ''../../manifest/'' rbac_documents Map.empty) ''test-1'' [] = (Some (Some (ErrorfErr ''failed to delete operator cluster role: ''
     (ErrorfErr (''failed to open file '' @ teardown_yaml @ '': '') (ForeignError ''no such file or directory'')))), [])
   \<and> opened (mem_env ''../../manifest/'' rbac_documents Map.empty) rbac_yaml rbac_documents EOF
   \<and> (\<exists>err h'. Teardown (mem_env '''' rbac_documents Map.empty) ''test-1'' [] = (Some (Some err), h') \<and> fw_at Map.empty h' = Map.empty)"
proof -
  let ?E = "mem_env ''../../manifest/'' rbac_documents Map.empty" and ?F = "mem_env '''' rbac_documents Map.empty"
  have "parseClusterRoleYaml ?E teardown_yaml =
      Inl (ErrorfErr (''failed to open file '' @ teardown_yaml @ '': '') (ForeignError ''no such file or directory''))"
    by (simp add: parseClusterRoleYaml_def parse_manifest_def PathToOSFile_def mem_env_def)
  moreover have "\<not> fe_isAlreadyExists ?E (ErrorfErr msg e)" for msg e by (simp add: mem_env_def exists_error_def)
  moreover have "opened ?E rbac_yaml rbac_documents EOF" by (rule mem_env_laws(2)) simp
  moreover have "parseClusterRoleYaml ?F teardown_yaml = Inr (zero_role\<lparr>ro_Meta := zero_ObjectMeta\<lparr>om_Name := ''datafuse-manager-role''\<rparr>\<rparr>)"
    by (simp add: parseClusterRoleYaml_def parse_opened [OF mem_env_laws(3)]) (simp add: rbac_documents_def mem_env_def)
  moreover have "fw_at Map.empty [] = (Map.empty :: fw_store)" by (simp add: fw_at_def)
  ultimately show ?thesis
    using teardown_leaves_cluster [OF mem_env_laws(1) [of "''../../manifest/''" rbac_documents Map.empty], of "''test-1''" "[]"]
      teardown_leaves_cluster [OF mem_env_laws(1) [of "''''" rbac_documents Map.empty], of "''test-1''" "[]"] by simp
qed

end
