(* ===== verification/Unused_Parts.thy ===== *)
theory Unused_Parts
  imports Cluster
begin

text \<open>
  Parts of the repository that nothing in it calls but their own tests: the constants of \<^verbatim>\<open>pkg/config\<close>, the factory
  of \<^verbatim>\<open>pkg/scheduler\<close>, and the server-side apply of \<^verbatim>\<open>tests/utils/ssa\<close>.
\<close>

section \<open>\<^verbatim>\<open>pkg/config\<close>\<close>

definition LabelAnnotationPrefix :: string where
  "LabelAnnotationPrefix = ''datafuse.datafuselabs.io/''"

definition DatafuseGroupNameLabel :: string where
  "DatafuseGroupNameLabel = LabelAnnotationPrefix @ ''group-name''"

definition DatafuseRoleLabel :: string where
  "DatafuseRoleLabel = ''datafuse-role''"

definition DatafuseLeaderLabel :: string where
  "DatafuseLeaderLabel = ''leader''"

definition DatafuseFollowerLabel :: string where
  "DatafuseFollowerLabel = ''follower''"

text \<open>The values of the role are those of the controllers, under another label.\<close>

lemma unused_labels:
  "DatafuseRoleLabel \<noteq> ComputeGroupRoleLabel" "DatafuseLeaderLabel = ComputeGroupRoleLeader" "DatafuseFollowerLabel = ComputeGroupRoleFollower"
  by (simp_all add: DatafuseRoleLabel_def DatafuseLeaderLabel_def DatafuseFollowerLabel_def label_defs)

section \<open>\<^verbatim>\<open>pkg/scheduler\<close>\<close>

record 'config SchedulerFactory =
  sf_config :: 'config
  sf_plugins :: "string gomap"

text \<open>The constructor has an empty body and no result.\<close>

definition NewSchedulerFactory :: "'config \<Rightarrow> unit" where
  "NewSchedulerFactory config = ()"

section \<open>Server-side apply\<close>

text \<open>
  The clients and the codecs are parameters: the configuration (without one the process ends), the
  discovery client, the dynamic client, the decoder (with the kind of the object), the mapping of a kind
  to a resource with its scope, and the encoder.
\<close>

record unstructured_object =
  uo_Name :: string
  uo_Namespace :: string
  uo_Content :: string

datatype ssa_call = ApplyPatch string "string option" string string string

record ('cfg, 'gvk) ssa_env =
  ss_Config :: "'cfg option"
  ss_NewDiscoveryClient :: "'cfg \<Rightarrow> go_error option"
  ss_NewDynamic :: "'cfg \<Rightarrow> go_error option"
  ss_Decode :: "string \<Rightarrow> go_error + unstructured_object \<times> 'gvk"
  ss_RESTMapping :: "'gvk \<Rightarrow> go_error + string \<times> bool"
  ss_Marshal :: "unstructured_object \<Rightarrow> go_error + string"
  ss_Patch :: "ssa_call list \<Rightarrow> ssa_call \<Rightarrow> go_error option"

definition ServerSideApply :: "('cfg, 'gvk) ssa_env \<Rightarrow> string \<Rightarrow> (ssa_call, go_error option) io" where
  "ServerSideApply S argYaml = (case ss_Config S of None \<Rightarrow> panic
   | Some cfg \<Rightarrow> (case ss_NewDiscoveryClient S cfg of Some err \<Rightarrow> ret (Some err)
   | None \<Rightarrow> (case ss_NewDynamic S cfg of Some err \<Rightarrow> ret (Some err)
   | None \<Rightarrow> (case ss_Decode S argYaml of Inl err \<Rightarrow> ret (Some err)
   | Inr (obj, gvk) \<Rightarrow> (case ss_RESTMapping S gvk of Inl err \<Rightarrow> ret (Some err)
   | Inr (resource, namespaced) \<Rightarrow>
       (let dr = (if namespaced then Some (uo_Namespace obj) else None)
        in case ss_Marshal S obj of Inl err \<Rightarrow> ret (Some err)
           | Inr data \<Rightarrow>
               (let call = ApplyPatch resource dr (uo_Name obj) data ''datafuse-test''
                in perform call (\<lambda>h. ss_Patch S h call))))))))"

text \<open>At most one patch is sent; when it succeeds, it is the one of the decoded object, in its namespace if it has one.\<close>

lemma ServerSideApply_patches:
  assumes "ServerSideApply S argYaml h = (Some None, h')"
  shows "\<exists>obj gvk resource namespaced data. ss_Decode S argYaml = Inr (obj, gvk) \<and> ss_RESTMapping S gvk = Inr (resource, namespaced)
    \<and> ss_Marshal S obj = Inr data
    \<and> h' = h @ [ApplyPatch resource (if namespaced then Some (uo_Namespace obj) else None) (uo_Name obj) data ''datafuse-test'']"
proof -
  note S = assms [unfolded ServerSideApply_def]
  obtain cfg where 1: "ss_Config S = Some cfg" using S by (cases "ss_Config S") (simp_all add: panic_run)
  have 2: "ss_NewDiscoveryClient S cfg = None" using S 1 by (cases "ss_NewDiscoveryClient S cfg") (simp_all add: ret_run)
  have 3: "ss_NewDynamic S cfg = None" using S 1 2 by (cases "ss_NewDynamic S cfg") (simp_all add: ret_run)
  obtain obj gvk where 4: "ss_Decode S argYaml = Inr (obj, gvk)" using S 1 2 3 by (cases "ss_Decode S argYaml") (auto simp: ret_run)
  obtain resource namespaced where 5: "ss_RESTMapping S gvk = Inr (resource, namespaced)"
    using S 1 2 3 4 by (cases "ss_RESTMapping S gvk") (auto simp: ret_run)
  obtain data where 6: "ss_Marshal S obj = Inr data" using S 1 2 3 4 5 by (cases "ss_Marshal S obj") (auto simp: ret_run)
  have "h' = h @ [ApplyPatch resource (if namespaced then Some (uo_Namespace obj) else None) (uo_Name obj) data ''datafuse-test'']"
    using S 1 2 3 4 5 6 by (simp add: perform_run Let_def)
  with 4 5 6 show ?thesis by blast
qed

end
