(* ===== verification/Spec2Isabelle.thy ===== *)
theory Spec2Isabelle
  imports Cluster_Formation Well_Formed DeepCopy Fake_Clientset Main_Program End_To_End
    Framework_Live Unused_Parts
begin

text \<open>
  The datafuse operator: two Kubernetes controllers that turn \<^verbatim>\<open>DatafuseOperator\<close> and
  \<^verbatim>\<open>DatafuseComputeGroup\<close> resources into deployments of fuse-query pods and keep the cluster lists of
  those pods up to date.

  \<^bold>\<open>The program.\<close>  \<^verbatim>\<open>main.go\<close> builds the clients and informer factories and runs both controllers.  The operator
  controller (\<^verbatim>\<open>pkg/controllers/operator\<close>) has two work queues.  An operator taken from the first is
  defaulted (\<^verbatim>\<open>defaults.go\<close>) and each of its groups is looked up and, when missing, created
  (\<^verbatim>\<open>MakeComputeGroup\<close>) and recorded in the operator's status.  A group taken from the second is turned
  into one deployment of leaders, a service and one deployment per worker set
  (\<^verbatim>\<open>pkg/controllers/utils\<close>), and the deployments are recorded in the group's status.  The register
  controller (\<^verbatim>\<open>pkg/controllers/register\<close>) follows the pods: it reads their role from the labels and
  their ports from the environment that the operator controller wrote, and tells every ready leader
  over HTTP which workers to add and remove.  Both speak to the API server through the generated
  clients, listers and informers of \<^verbatim>\<open>pkg/client\<close>.  The two controllers share no memory; the labels,
  names and variables of the derived objects are their interface, and \<open>deployed_pods_register\<close>,
  \<open>group_becomes_cluster\<close> and \<open>operator_becomes_clusters\<close> are the theorems about it.

  \<^bold>\<open>Theories.\<close>
  \<^item> \<open>Prelude\<close>: calls with a history and a panic (\<open>io\<close>), loops, Go maps (\<open>gomap\<close>, an association list
    behind a nil) and slices, and rules that bound the calls of a composed function (\<open>emits\<close>).
  \<^item> \<open>Go_Strings\<close>: \<^verbatim>\<open>strconv.Atoi\<close>, \<^verbatim>\<open>strings.SplitN\<close> and its relatives and the verb \<^verbatim>\<open>%d\<close>, with their round trips.
  \<^item> \<open>Api_Types\<close>: the fields of the Kubernetes objects that the code uses, the custom resources
    (\<^verbatim>\<open>pkg/apis/datafuse/v1alpha1/*_types.go\<close>) and the constants of \<^verbatim>\<open>main_controller.go\<close>.
  \<^item> \<open>Cluster\<close>: what is outside.  A \<open>call\<close> is one interaction (a read of a cache, a REST request, a queue
    operation, an HTTP request, an event), and the record \<open>k8s\<close> gives its answer from the calls made
    before it.  \<open>Reference_Cluster\<close> is one such record that satisfies the laws, for the instances.
  \<^item> \<open>Defaults\<close>: \<^verbatim>\<open>defaults.go\<close>; a locale for idempotent defaulting, interpreted on both types.
  \<^item> \<open>Operator_Utils\<close>: \<^verbatim>\<open>operator_utils.go\<close>, every builder of a derived object.  A function that reads
    through a nil pointer, or parses a malformed quantity, is an option whose \<open>None\<close> is the panic.
  \<^item> \<open>Listers\<close>, \<open>Clientset\<close>, \<open>Informers\<close>: \<^verbatim>\<open>pkg/client\<close>.  Locales state what the controllers rely on (a lookup
    is one read and misses with a not-found error; a write is one call and never returns nil without
    an error) and are interpreted on the typed and on the fake clients.  \<open>Informers\<close> is the state
    machine of the factory.
  \<^item> \<open>DeepCopy\<close>: \<^verbatim>\<open>zz_generated.deepcopy.go\<close> over an explicit heap.  The other theories take a copy for the
    value; here the locale \<open>deep_copy\<close> says what this needs (the copy reads as the same value and shares
    no cell), and it is interpreted on groups, operators and their lists.
  \<^item> \<open>Json\<close>: the encoding and decoding of \<^verbatim>\<open>encoding/json\<close> as far as the cluster lists use it: the encoder of a
    node and of a list of nodes, a parser of JSON texts, and the decoder into the struct
    \<^verbatim>\<open>ClusterNodeRequest\<close> of \<^verbatim>\<open>register.go\<close>.
  \<^item> \<open>Requeue\<close>: the contract of the error handlers of the three work-queue loops, as a locale.
  \<^item> \<open>Register\<close> and \<open>Register_Controller\<close>: \<^verbatim>\<open>register.go\<close> and \<^verbatim>\<open>register_controller.go\<close>.  The state is the
    history: the cluster list is in the pods and is read by a request.
  \<^item> \<open>Query_Server\<close>: \<^verbatim>\<open>register_test_utils.go\<close>, the handler of the stand-in for a fuse-query server and the
    pods of the tests; the locale \<open>node_registry\<close> is its contract, and \<open>serves\<close> says that a \<open>k8s\<close> answers
    as such a server does.
  \<^item> \<open>Operator_Controller\<close>: \<^verbatim>\<open>operator_controller.go\<close>.  The record \<open>OperatorController\<close> holds the clients; caches,
    queues and the cluster are reached through calls.
  \<^item> \<open>Live_Cluster\<close>: the operator controller against an API server that remembers what is written to it.  The
    server is not code of the repository; it is the specification that \<open>live\<close> states of a \<open>k8s\<close>, and
    \<open>answers\<close> states it for the names in a \<open>footprint\<close> only.  The proofs about one worker use no more than
    \<open>answers\<close> on the names the worker touches, so they also hold when other workers change the rest.
  \<^item> \<open>Live_Operators\<close>: the operator worker on the same server: one function of the store for each group of the
    operator.
  \<^item> \<open>Group_Check\<close>: the check of a group that is there (\<open>checkReady\<close> and what follows it) on the same server, and
    \<open>group_turn\<close>, what the worker does with a group when it takes its key from the queue.
  \<^item> \<open>Status_Convergence\<close>: the group that a turn leaves (\<open>turned_group\<close>), and the turns of one group over several
    starts of the operator, which fill its status and prune from it what is gone.
  \<^item> \<open>Schedules\<close>: sequences of calls, each with the number of its worker, and what a worker meets of the state
    that the calls lead to (\<open>observes\<close>); for any state, so both for the store of the API server and for
    the cluster list of a query server.
  \<^item> \<open>Interleaved\<close>: several workers on one server.  A schedule lists which worker made which call;
    \<open>execution\<close> says that each worker ran to its end, and that each of its calls was answered from the store
    as all the calls before it left it.  The locale \<open>store_worker\<close> states what a worker promises (its calls
    write within its footprint, and its effect on a store that answers there); it is interpreted on the
    three jobs, the synchronisation of a group, the one of an operator, and a whole turn of a group.
  \<^item> \<open>Rollout\<close>: the operator worker followed by interleaved group workers.
  \<^item> \<open>Fleet\<close>: a run of the operator over many groups.  Each group has one turn (\<open>turns_taken\<close>), and the turns are
    interleaved in any way; \<open>worker_like\<close> says that the workers see the same library.  \<open>starts\<close> goes over several
    starts of the operator, each of which adds every stored group once.
  \<^item> \<open>Interleaved_Register\<close>: several workers of the register controller at the same time.  Their pods may share
    leaders, so their footprints meet; the proof is by rely and guarantee instead (\<open>goal_reached\<close>): towards the
    list of a leader the others only add what should be in it and only remove what should not.
  \<^item> \<open>Cluster_Formation\<close>: all of it after each other, the operator worker, one turn of a group worker for each
    group, pods of their deployments, and register workers.
  \<^item> \<open>Pipeline\<close>: the operator controller followed by the register controller.  \<open>pod_of\<close> is what a pod takes over
    from its deployment.
  \<^item> \<open>Fake_Clientset\<close>: the registration of the types with a scheme (\<^verbatim>\<open>groupversion_info.go\<close>, the \<^verbatim>\<open>init\<close> functions,
    \<^verbatim>\<open>scheme/register.go\<close>, \<^verbatim>\<open>fake/register.go\<close>) and the fake clientset (\<^verbatim>\<open>clientset_generated.go\<close>).  Schemes and
    the object tracker are the record \<open>apimachinery\<close> with laws; \<open>backed\<close> says that a \<open>k8s\<close> answers the
    actions of the fake clients as the reactors of a clientset do.
  \<^item> \<open>Well_Formed\<close>: the type of the statuses, and that the controller keeps it.
  \<^item> \<open>Main_Program\<close>: \<^verbatim>\<open>main.go\<close>, \<^verbatim>\<open>NewController\<close>, \<^verbatim>\<open>utils/kube.go\<close> and \<^verbatim>\<open>utils/signals.go\<close>.
  \<^item> \<open>Retry\<close>: \<^verbatim>\<open>tests/utils/retry/retry.go\<close>; a loop that may run forever, as an option.
  \<^item> \<open>End_To_End\<close>: the deployments of \<^verbatim>\<open>tests/e2e/main_test.go\<close>: the manifests that the tests apply, as values, and
    the checks that they repeat; nothing is said of whether the tests pass, since their set-up fails.
  \<^item> \<open>Test_Framework\<close>: the test contexts, the conditions of the waits and the pairs of queries and results of
    \<^verbatim>\<open>tests/framework\<close> and \<^verbatim>\<open>tests/utils/sql\<close>.
  \<^item> \<open>Framework_Setup\<close>: the rest of \<^verbatim>\<open>tests/framework\<close>, one definition per function: roles, bindings, accounts,
    definitions, deployments, pods, namespaces, operators, and the set-up and the teardown.  The clientsets, the
    files, the decoders and \<^verbatim>\<open>wait.Poll\<close> are the record \<open>fw_env\<close>.  \<open>Framework_Live\<close> runs it on a cluster that
    remembers (\<open>fw_live\<close>).
  \<^item> \<open>Unused_Parts\<close>: \<^verbatim>\<open>pkg/config\<close>, \<^verbatim>\<open>pkg/scheduler\<close> and \<^verbatim>\<open>tests/utils/ssa\<close>, which nothing else in the repository uses.

  \<^bold>\<open>What the theorems show.\<close>  Functional theorems give the exact calls of an operation, in order and with
  their arguments, under the answers named in the hypotheses (\<open>leader_first_sync\<close>,
  \<open>updated_group_pruned\<close>, \<open>operator_creates_group\<close>, \<open>ProcessLeader_converges\<close>).
  Safety theorems hold for every answer of the outside (\<open>group_sync_effects\<close>,
  \<open>foreign_deployment_untouched\<close>, \<open>existing_group_never_updated\<close>).  Error theorems say which failures are
  reported, lost, or panic.  The loops are covered by invariants of an item's life in the queue
  (\<open>pod_item_settled\<close>, \<open>pod_given_up_after_50\<close>) and by \<open>workers_return\<close>.  Round trips and bounds concern the
  values that one part writes and another reads.  Refinement theorems relate the calls of a component
  to the state they lead to: \<open>leader_list_synchronised\<close> for the set of names in a leader's list,
  \<open>group_synchronised\<close> for the store of the API server; \<open>synchronised_leader_quiet\<close> and
  \<open>synchronisation_converges\<close> say that nothing is left to do afterwards.  \<open>operator_groups_exist\<close> does this for operators,
  \<open>status_catches_up\<close> for the status of one group over several starts of the operator, also when it names what is gone.
  \<open>interleaving_serialises\<close> reduces the workers that run at the same time, on disjoint names, to workers that
  run one after the other; \<open>fleet_up_after_its_turns\<close> gives many groups one interleaved turn each, and
  \<open>operator_settles\<close> follows an operator down to its groups, whose deployments and services are then there
  and whose statuses list their leaders.  \<open>concurrent_pods_settle\<close> is about workers whose names meet: register workers on
  different pods leave every handled leader with the list it should have.
  \<open>group_becomes_cluster\<close> continues from a group's deployments, through their pods, to the cluster list of a
  leader, and \<open>operator_becomes_clusters\<close> follows an operator all the way to the lists of all leaders, with the
  workers of both controllers interleaved.  \<open>deploy_check_fits\<close> says that the check of an end-to-end test looks for what the
  handlers make of its manifest, \<open>setup_needs_account\<close> and \<open>teardown_leaves_cluster\<close> what the framework of the
  tests does to a cluster before and after.

  \<^bold>\<open>One turn for a group.\<close>  The group queue is fed by the additions of the informer alone: updates and deletions
  (\<open>only_additions_queued\<close>) and the events of owned objects (\<open>owned_objects_not_followed\<close>) queue nothing, and an item is
  never queued again (\<open>group_item_always_forgotten\<close>).  So a run of the operator gives every group one turn, with the
  group as it was when it was added, and what one turn leaves undone, such as the workers that the status does not
  list (\<open>one_status_per_synchronisation\<close>), stays undone until the operator is started again.  The theorems about a run
  ask for no second turn; what several starts come to is said separately (\<open>status_catches_up\<close>, \<open>fleet_restarted\<close>).

  Several theorems state behaviour that the code can hardly have intended: updates of a resource are
  never queued, errors of a synchronisation are lost, the status writes of one run overwrite each
  other, workers are registered with the leaders of every group, a group gets one turn
  only, the set-up of the tests asks for an account that its manifest does not have.  They are stated as the code has them.

  \<^bold>\<open>Widths and fuel.\<close>  \<^verbatim>\<open>int32\<close> and \<^verbatim>\<open>int64\<close> are words that wrap around; \<^verbatim>\<open>int\<close> is read from text with the
  bounds of 64 bits.  The two loops \<^verbatim>\<open>for c.processNext...() {}\<close> run on fuel; \<open>workers_return\<close> shows that fuel
  \<open>n + 1\<close> is enough once the queue is shut down with at most \<open>n\<close> items.  The JSON parser runs on \<open>2 * n + 1\<close> steps
  of fuel for a text of length \<open>n\<close>, and \<open>parse_fuel\<close> shows that more changes nothing.  The retry loop is a
  partial function; \<open>UntilSuccess_returns\<close> shows that it returns when its timer fires.  All other
  recursion is structural.

  \<^bold>\<open>Assumed of other packages\<close>, each a named hypothesis that \<open>Reference_Cluster\<close> satisfies:
  \<open>controller_ref_laws\<close> (owner references), \<open>not_found_law\<close>, \<open>range_law\<close> (a range over a map visits each key
  once, in any order), \<open>requeue_law\<close> (how a rate-limiting queue counts), \<open>store_key_law\<close>, \<open>create_law\<close> and
  \<open>reaction_law\<close> (the fake clients' reactors return objects of the resource's type); \<open>serves\<close> and
  \<open>static_store\<close> (a running query server, an unchanging store of pods; satisfied by \<open>query_k8s\<close>; \<open>serves_from\<close> is
  the same with the states that other workers lead to); \<open>live\<close>
  and \<open>admission_law\<close> (an API server with fresh caches, which refuses an update under an old resource
  version; satisfied by \<open>live_k8s\<close> and \<open>plain_server\<close>).  A \<open>live\<close> server accepts updates of operators in
  whatever way \<open>k8s\<close> says; only deployments, services and groups are stored.  \<open>scheme_laws\<close> and \<open>tracker_laws\<close>
  are about schemes and the object tracker, and \<open>concrete_apimachinery\<close> satisfies them.  \<open>template_law\<close> says that
  the server keeps the template of a deployment, \<open>fresh_status_law\<close> that it gives a new group no status of its own
  (\<open>plain_server\<close> does both).  \<open>fw_live\<close> is about the cluster of the end-to-end tests, satisfied
  by \<open>mem_env\<close>.

  \<^bold>\<open>Not modelled\<close>: log lines and the event broadcaster; the fake discovery client and the codecs of a scheme; the
  arithmetic of \<^verbatim>\<open>resource.Quantity\<close> (a comparison in \<open>k8s\<close>); what the JSON encoder does with text beyond
  ASCII (it replaces invalid UTF-8 and escapes two separators; the model passes such bytes on, and the
  round trips are stated for ASCII) and the largest depth to which its decoder nests.  Interleaved executions are those
  of workers that the server answers at once: API workers on disjoint names, and register workers on
  different pods while the store of pods does not change; the work queue never hands one item to two workers at a time.  \<^verbatim>\<open>Run\<close> starts one
  worker for the pods of all namespaces, which is the execution that takes its pods one after the other.
  Of the end-to-end tests, the creation of the client pods and the comparison of query results, which need a query
  engine, are left out; of their framework, \<^verbatim>\<open>ProxyGetPod\<close>, which only builds a request.
\<close>

section \<open>From a compute group to the cluster lists of its pods\<close>

text \<open>The two controllers fit together: a pod of the deployment that the operator
  controller wants for a group's leaders is a leader for the register controller, a pod of one of
  a group's worker sets is a worker, both carry the key of their group, and registering the worker
  with the leader sends one request, to the HTTP port of the leader's specification at the pod's
  address, that names the worker with the RPC port and the priority of its own specification.\<close>

theorem deployed_pods_register:
  assumes "desired_deployment K cg ls lname True = Some dl"
    and "desired_deployment K cg' fs fname False = Some df"
    and "om_Labels (pod_Meta leader) = pt_Labels (ds_Template (dep_Spec dl))"
    and "pod_Spec leader = pt_Spec (ds_Template (dep_Spec dl))"
    and "om_Labels (pod_Meta follower) = pt_Labels (ds_Template (dep_Spec df))"
    and "pod_Spec follower = pt_Spec (ds_Template (dep_Spec df))"
  shows "IsGroupLeader r leader \<and> \<not> IsGroupWorker r leader
    \<and> IsGroupWorker r follower \<and> \<not> IsGroupLeader r follower
    \<and> map_get (om_Labels (pod_Meta leader)) ComputeGroupLabel =
        Some (om_Namespace (cg_Meta cg) @ ''-'' @ om_Name (cg_Meta cg))
    \<and> map_get (om_Labels (pod_Meta follower)) ComputeGroupLabel =
        Some (om_Namespace (cg_Meta cg') @ ''-'' @ om_Name (cg_Meta cg'))
    \<and> (\<exists>http rpc priority.
        ci_HTTPPort (cs_Instance ls) = Some http \<and> ci_RPCPort (cs_Instance fs) = Some rpc
        \<and> ci_Priority (cs_Instance fs) = Some priority
        \<and> add_event leader follower = Some (HttpPost
            (httpParse (pst_PodIP (pod_Status leader) @ '':'' @ fmt_d (sint http) @ ''/v1/cluster/add''))
            (Marshal \<lparr>cn_Name = pod_key follower,
               cn_Address = pst_PodIP (pod_Status follower) @ '':'' @ fmt_d (sint rpc),
               cn_Priority = sint priority\<rparr>)))"
proof -
  note l = desired_deployment_meta [OF assms(1)] and f = desired_deployment_meta [OF assms(2)]
  obtain http lc where http: "ci_HTTPPort (cs_Instance ls) = Some http"
    and lc: "BuildPodConfig leader = Some (Inr lc)" "fq_HTTPPort lc = fmt_d (sint http)"
    by (rule BuildPodConfig_deployed [of K "cs_Instance ls" leader])
      (use desired_deployment_spec [OF assms(1)] assms(4) in simp_all)
  obtain rpc priority fc where spec: "ci_RPCPort (cs_Instance fs) = Some rpc" "ci_Priority (cs_Instance fs) = Some priority"
    and fc: "BuildPodConfig follower = Some (Inr fc)" "fq_RPCPort fc = fmt_d (sint rpc)" "fq_Priority fc = fmt_d (sint priority)"
    by (rule BuildPodConfig_deployed [of K "cs_Instance fs" follower])
      (use desired_deployment_spec [OF assms(2)] assms(6) in simp_all)
  have "add_event leader follower = Some (HttpPost
            (httpParse (pst_PodIP (pod_Status leader) @ '':'' @ fmt_d (sint http) @ ''/v1/cluster/add''))
            (Marshal \<lparr>cn_Name = pod_key follower,
               cn_Address = pst_PodIP (pod_Status follower) @ '':'' @ fmt_d (sint rpc),
               cn_Priority = sint priority\<rparr>))"
    using nodeRequest_priority [OF fc(3), of follower] lc fc
    by (simp add: add_event_def receiver_def CLUSTER_ADD_def)
  with http spec l f show ?thesis
    using role_of_labels [of leader True r] role_of_labels [of follower False r] assms(3,5) by simp
qed

theorem deployed_pods_register_witness:
  "\<exists>dl df http rpc priority.
     desired_deployment ref_k8s sample_group sample_set ''l'' True = Some dl
     \<and> desired_deployment ref_k8s sample_group sample_set ''w'' False = Some df
     \<and> (let leader = \<lparr>pod_Meta = zero_ObjectMeta\<lparr>om_Labels := pt_Labels (ds_Template (dep_Spec dl))\<rparr>,
              pod_Spec = pt_Spec (ds_Template (dep_Spec dl)),
              pod_Status = \<lparr>pst_Phase = '''', pst_PodIP = ''10.0.0.1'', pst_Conditions = []\<rparr>\<rparr>
        in IsGroupLeader sample_setter leader)
     \<and> ci_HTTPPort sample_instance = Some http \<and> ci_RPCPort sample_instance = Some rpc
     \<and> ci_Priority sample_instance = Some priority"
proof -
  obtain dl where dl: "desired_deployment ref_k8s sample_group sample_set ''l'' True = Some dl"
    using sample_desired by blast
  obtain df where df: "desired_deployment ref_k8s sample_group sample_set ''w'' False = Some df"
    using sample_desired by blast
  let ?p = "\<lambda>d ip. \<lparr>pod_Meta = zero_ObjectMeta\<lparr>om_Labels := pt_Labels (ds_Template (dep_Spec d))\<rparr>,
              pod_Spec = pt_Spec (ds_Template (dep_Spec d)),
              pod_Status = \<lparr>pst_Phase = '''', pst_PodIP = ip, pst_Conditions = []\<rparr>\<rparr>"
  show ?thesis
    using deployed_pods_register [OF dl df, of "?p dl ''10.0.0.1''" "?p df ''10.0.0.2''" sample_setter] dl df
    by (auto simp: Let_def sample_set_def)
qed

end
